(* ===== verification/Prelude.thy ===== *)
theory Prelude
  imports Main "HOL-Library.Word"
begin

text \<open>
  Shared vocabulary of the development: two's complement \<open>int64\<close> arithmetic of Go, the
  relational operations on tables (a table is the list of its rows), the collections of
  rewrite rules, and the facts about tables every component proof uses.
\<close>

named_theorems sql_ok "when a store program succeeds, and with which result"
named_theorems sql_run "how a store program runs on a world without faults"
named_theorems sql_frame "what a store program leaves unchanged"
named_theorems table_simps "facts about select, update and delete on tables"

section \<open>Go integers\<close>

text \<open>Go's \<open>int64\<close> (and \<open>int\<close> on the supported 64-bit targets): values are
  \<^typ>\<open>int\<close>s in range, and every addition done by the Go code wraps.\<close>

type_synonym int64 = int

definition wrap64 :: "int \<Rightarrow> int64" where
  "wrap64 n = signed_take_bit 63 n"

definition max_int64 :: int64 where
  "max_int64 = 9223372036854775807"

definition in_int64 :: "int \<Rightarrow> bool" where
  "in_int64 n \<longleftrightarrow> - max_int64 - 1 \<le> n \<and> n \<le> max_int64"

lemma wrap64_id: "in_int64 n \<Longrightarrow> wrap64 n = n"
  unfolding wrap64_def in_int64_def max_int64_def
  by (rule signed_take_bit_int_eq_self) simp_all

lemma wrap64_succ [simp]: "0 \<le> n \<Longrightarrow> n < max_int64 \<Longrightarrow> wrap64 (n + 1) = n + 1"
  by (rule wrap64_id) (simp add: in_int64_def max_int64_def)

lemma wrap64_overflow: "wrap64 (max_int64 + 1) = - max_int64 - 1"
  by (simp add: wrap64_def max_int64_def signed_take_bit_eq_take_bit_minus)

section \<open>Tables\<close>

text \<open>
  \<open>UPDATE ... SET f WHERE p\<close>, \<open>DELETE ... WHERE p\<close>, the number of rows a statement
  affects, \<open>EXISTS\<close>, a lookup by a unique key, and \<open>ORDER BY key LIMIT 1\<close>.
\<close>

definition update_rows :: "('r \<Rightarrow> bool) \<Rightarrow> ('r \<Rightarrow> 'r) \<Rightarrow> 'r list \<Rightarrow> 'r list" where
  "update_rows p f rows = map (\<lambda>r. if p r then f r else r) rows"

definition delete_rows :: "('r \<Rightarrow> bool) \<Rightarrow> 'r list \<Rightarrow> 'r list" where
  "delete_rows p rows = filter (\<lambda>r. \<not> p r) rows"

definition count_rows :: "('r \<Rightarrow> bool) \<Rightarrow> 'r list \<Rightarrow> nat" where
  "count_rows p rows = length (filter p rows)"

definition exists_row :: "('r \<Rightarrow> bool) \<Rightarrow> 'r list \<Rightarrow> bool" where
  "exists_row p rows \<longleftrightarrow> list_ex p rows"

definition select_by :: "('r \<Rightarrow> 'k::linorder) \<Rightarrow> ('r \<Rightarrow> bool) \<Rightarrow> 'r list \<Rightarrow> 'r list" where
  "select_by key p rows = sort_key key (filter p rows)"

definition first_by :: "('r \<Rightarrow> 'k::linorder) \<Rightarrow> ('r \<Rightarrow> bool) \<Rightarrow> 'r list \<Rightarrow> 'r option" where
  "first_by key p rows = (case select_by key p rows of [] \<Rightarrow> None | r # _ \<Rightarrow> Some r)"

definition keys_unique :: "('r \<Rightarrow> 'k) \<Rightarrow> 'r list \<Rightarrow> bool" where
  "keys_unique key rows \<longleftrightarrow> distinct (map key rows)"

lemma exists_row_iff [table_simps]: "exists_row p rows \<longleftrightarrow> (\<exists>r \<in> set rows. p r)"
  by (simp add: exists_row_def list_ex_iff)

lemma exists_row_Nil [simp]: "\<not> exists_row p []"
  by (simp add: exists_row_def)

lemma exists_row_Cons [simp]: "exists_row p (r # rows) \<longleftrightarrow> p r \<or> exists_row p rows"
  by (simp add: exists_row_def)

lemma set_update_rows [table_simps]:
  "set (update_rows p f rows) = (\<lambda>r. if p r then f r else r) ` set rows"
  by (simp add: update_rows_def)

lemma update_rows_mem: "r \<in> set rows \<Longrightarrow> (if p r then f r else r) \<in> set (update_rows p f rows)"
  by (simp add: update_rows_def)

lemma update_rows_rel:
  "(\<And>r. R r (if p r then f r else r)) \<Longrightarrow> r \<in> set rows \<Longrightarrow> \<exists>r' \<in> set (update_rows p f rows). R r r'"
  using update_rows_mem by metis

lemma update_rows_back:
  "(\<And>r. R r (if p r then f r else r)) \<Longrightarrow> r' \<in> set (update_rows p f rows) \<Longrightarrow> \<exists>r \<in> set rows. R r r'"
  unfolding set_update_rows by (erule imageE) (rule bexI; simp only:)

lemma set_delete_rows [table_simps]: "set (delete_rows p rows) = {r \<in> set rows. \<not> p r}"
  by (simp add: delete_rows_def)

lemma length_update_rows [simp]: "length (update_rows p f rows) = length rows"
  by (simp add: update_rows_def)

lemma update_rows_simps [simp]:
  "update_rows p f [] = []"
  "update_rows p f (r # rows) = (if p r then f r else r) # update_rows p f rows"
  by (simp_all add: update_rows_def)

lemma delete_rows_simps [simp]:
  "delete_rows p [] = []"
  "delete_rows p (r # rows) = (if p r then delete_rows p rows else r # delete_rows p rows)"
  by (simp_all add: delete_rows_def)

lemma count_rows_simps [simp]:
  "count_rows p [] = 0"
  "count_rows p (r # rows) = (if p r then Suc (count_rows p rows) else count_rows p rows)"
  by (simp_all add: count_rows_def)

lemma update_rows_append: "update_rows p f (xs @ ys) = update_rows p f xs @ update_rows p f ys"
  by (simp add: update_rows_def)

lemma update_rows_none: "(\<And>r. r \<in> set rows \<Longrightarrow> \<not> p r) \<Longrightarrow> update_rows p f rows = rows"
  by (simp add: update_rows_def map_idI)

lemma delete_rows_none: "(\<And>r. r \<in> set rows \<Longrightarrow> \<not> p r) \<Longrightarrow> delete_rows p rows = rows"
  by (simp add: delete_rows_def)

lemma count_rows_0 [table_simps]: "count_rows p rows = 0 \<longleftrightarrow> (\<forall>r \<in> set rows. \<not> p r)"
  by (simp add: count_rows_def filter_empty_conv)

lemma count_rows_pos: "0 < count_rows p rows \<longleftrightarrow> (\<exists>r \<in> set rows. p r)"
  using count_rows_0 [of p rows] by auto

lemma count_rows_one_ex: "count_rows p rows = Suc n \<Longrightarrow> \<exists>r \<in> set rows. p r"
  using count_rows_pos [of p rows] by simp

lemma map_update_rows [table_simps]:
  "(\<And>r. key (f r) = key r) \<Longrightarrow> map key (update_rows p f rows) = map key rows"
  by (simp add: update_rows_def)

lemma keys_unique_update [intro]:
  "(\<And>r. key (f r) = key r) \<Longrightarrow> keys_unique key rows \<Longrightarrow> keys_unique key (update_rows p f rows)"
  by (simp add: keys_unique_def map_update_rows)

lemma keys_unique_delete [intro]:
  "keys_unique key rows \<Longrightarrow> keys_unique key (delete_rows p rows)"
  by (auto simp: keys_unique_def delete_rows_def distinct_map inj_on_def)

lemma keys_unique_snoc:
  "keys_unique key (rows @ [r]) \<longleftrightarrow>
     keys_unique key rows \<and> \<not> exists_row (\<lambda>r'. key r' = key r) rows"
  by (auto simp: keys_unique_def exists_row_iff image_iff) (metis+)?

lemma keys_unique_eq:
  "keys_unique key rows \<Longrightarrow> r \<in> set rows \<Longrightarrow> r' \<in> set rows \<Longrightarrow> key r = key r' \<Longrightarrow> r = r'"
  by (auto simp: keys_unique_def distinct_map inj_on_def)

lemma keys_unique_count:
  assumes "keys_unique key rows" and "r \<in> set rows" and "p r" and "\<And>r'. p r' \<Longrightarrow> key r' = key r"
  shows "count_rows p rows = 1"
proof -
  have d: "distinct (map key (filter p rows))"
    using assms(1) by (auto simp: keys_unique_def distinct_map inj_on_def)
  have "filter p rows \<noteq> []" using assms(2,3) by (auto simp: filter_empty_conv)
  moreover have "length (filter p rows) \<le> 1"
  proof (cases "filter p rows")
    case (Cons a as)
    show ?thesis
    proof (cases as)
      case (Cons b bs)
      with \<open>filter p rows = a # as\<close> have eq: "filter p rows = a # b # bs" by simp
      then have "{a, b} \<subseteq> set (filter p rows)" by simp
      then have "p a" "p b" by simp_all
      then have "key a = key b" using assms(4) by metis
      with d eq have False by simp
      then show ?thesis ..
    qed (simp add: \<open>filter p rows = a # as\<close>)
  qed simp
  ultimately show ?thesis
    by (cases "filter p rows") (simp_all add: count_rows_def)
qed

lemma set_select_by [table_simps]: "set (select_by key p rows) = {r \<in> set rows. p r}"
  by (simp add: select_by_def)

lemma sorted_select_by: "sorted (map key (select_by key p rows))"
  by (simp add: select_by_def)

lemma length_select_by [table_simps]: "length (select_by key p rows) = count_rows p rows"
  by (simp add: select_by_def count_rows_def)

lemma first_by_None [table_simps]: "first_by key p rows = None \<longleftrightarrow> (\<forall>r \<in> set rows. \<not> p r)"
  using set_select_by [of key p rows]
  by (auto simp: first_by_def split: list.splits)

lemma first_by_Some:
  assumes "first_by key p rows = Some r"
  shows "r \<in> set rows" and "p r" and "\<And>r'. r' \<in> set rows \<Longrightarrow> p r' \<Longrightarrow> key r \<le> key r'"
proof -
  from assms obtain rs where eq: "select_by key p rows = r # rs"
    by (auto simp: first_by_def split: list.splits)
  then have m: "r \<in> {r \<in> set rows. p r}"
    by (metis list.set_intros(1) set_select_by)
  then show "r \<in> set rows" and "p r" by simp_all
  fix r' assume "r' \<in> set rows" "p r'"
  then have "r' \<in> set (r # rs)" by (simp flip: eq add: set_select_by)
  moreover have "sorted (map key (r # rs))" by (metis eq sorted_select_by)
  ultimately show "key r \<le> key r'" by auto
qed

lemma find_SomeD: "find p rows = Some r \<Longrightarrow> r \<in> set rows \<and> p r"
  by (auto simp: find_Some_iff)

lemma find_None [table_simps]: "find p rows = None \<longleftrightarrow> (\<forall>r \<in> set rows. \<not> p r)"
  by (auto simp: find_None_iff)

lemma find_unique:
  assumes "keys_unique key rows" and "r \<in> set rows" and "p r" and "\<And>r'. p r' \<Longrightarrow> key r' = key r"
  shows "find p rows = Some r"
proof (cases "find p rows")
  case None
  with assms show ?thesis by (auto simp: find_None)
next
  case (Some r')
  then have "r' \<in> set rows" "p r'" by (auto dest: find_SomeD)
  with assms have "r' = r" by (auto intro: keys_unique_eq)
  with Some show ?thesis by simp
qed

lemma select_by_filter:
  "(\<And>r. p' r \<longleftrightarrow> p r \<and> q r) \<Longrightarrow> select_by key p' rows = filter q (select_by key p rows)"
  by (simp add: select_by_def filter_sort) (metis (no_types, lifting) conj_commute)

lemma strictly_sorted_select_by:
  "keys_unique key rows \<Longrightarrow> sorted_wrt (\<lambda>r q. key r < key q) (select_by key p rows)"
proof -
  assume "keys_unique key rows"
  then have "distinct (map key (select_by key p rows))"
    by (auto simp: select_by_def keys_unique_def distinct_map inj_on_def)
  then have "sorted_wrt (<) (map key (select_by key p rows))"
    using sorted_select_by [of key p rows] by (simp add: strict_sorted_iff)
  then show ?thesis by (simp add: sorted_wrt_map)
qed

lemma filter_after_prefix:
  fixes key :: "'r \<Rightarrow> 'k::linorder"
  assumes "sorted_wrt (\<lambda>r q. key r < key q) xs" and "0 < n" and "n \<le> length xs"
  shows "filter (\<lambda>r. key (xs ! (n - 1)) < key r) xs = drop n xs"
proof -
  have less: "key (xs ! i) < key (xs ! j)" if "i < j" "j < length xs" for i j
    using sorted_wrt_nth_less [OF assms(1) that] .
  have "filter (\<lambda>r. key (xs ! (n - 1)) < key r) (take n xs) = []"
    unfolding filter_empty_conv
  proof
    fix r assume "r \<in> set (take n xs)"
    then obtain i where "i < n" "r = xs ! i" by (auto simp: in_set_conv_nth)
    then show "\<not> key (xs ! (n - 1)) < key r"
      using less [of i "n - 1"] assms(2,3) by (cases "i = n - 1") (auto simp: not_less less_imp_le)
  qed
  moreover have "filter (\<lambda>r. key (xs ! (n - 1)) < key r) (drop n xs) = drop n xs"
    unfolding filter_id_conv
  proof
    fix r assume "r \<in> set (drop n xs)"
    then obtain i where "r = xs ! (n + i)" "n + i < length xs" by (auto simp: in_set_conv_nth)
    then show "key (xs ! (n - 1)) < key r" using less [of "n - 1" "n + i"] assms(2) by simp
  qed
  ultimately show ?thesis by (metis append_Nil append_take_drop_id filter_append)
qed

end
