(* ===== verification/SqlMonad.thy ===== *)
theory SqlMonad
  imports Prelude
begin

text \<open>
  Programs over a transactional database, as \<open>internal/store\<close> writes them with
  \<open>database/sql\<close>: every call of the driver may fail (a cancelled context, an I/O error,
  a busy database), a single statement and a transaction are atomic, and \<open>defer
  tx.Rollback()\<close> undoes every statement of a transaction whose body returns before
  \<open>tx.Commit()\<close>.

  A world is the database together with the driver's fault schedule: each driver call
  takes the next bit and fails when it is set; an exhausted schedule means that no
  further call fails. Theorems about success and about failure quantify over every
  schedule.
\<close>

section \<open>Errors and worlds\<close>

datatype store_error =
    ErrSQL \<comment> \<open>an error of the driver or of the context\<close>
  | ErrConstraint \<comment> \<open>a violated primary key or unique index\<close>
  | ErrNoRows
  | ErrInboxStateTransition
  | ErrOutboxStateTransition
  | ErrStaleBinding
  | ErrMigrationLocked
  | ErrStaleMigration
  | ErrSessionPathConflict
  | ErrQuickCheckFailed
  | ErrMsg string
  | Diverged \<comment> \<open>no error of the code: a loop bounded by fuel ran out of it\<close>

record 'd world =
  db :: 'd
  faults :: "bool list"

type_synonym ('d, 'a) sql = "'d world \<Rightarrow> (store_error + 'a) \<times> 'd world"

definition healthy :: "'d \<Rightarrow> 'd world" where
  "healthy d = \<lparr>db = d, faults = []\<rparr>"

section \<open>Statements and sequencing\<close>

definition faulty :: "'d world \<Rightarrow> bool" where
  "faulty w = (case faults w of [] \<Rightarrow> False | b # _ \<Rightarrow> b)"

definition stmt :: "('d \<Rightarrow> (store_error + 'a) \<times> 'd) \<Rightarrow> ('d, 'a) sql" where
  "stmt f w =
     (if faulty w then (Inl ErrSQL, w\<lparr>faults := tl (faults w)\<rparr>)
      else case f (db w) of
        (Inl e, _) \<Rightarrow> (Inl e, w\<lparr>faults := tl (faults w)\<rparr>)
      | (Inr x, d) \<Rightarrow> (Inr x, w\<lparr>db := d, faults := tl (faults w)\<rparr>))"

definition give :: "'a \<Rightarrow> ('d, 'a) sql" where
  "give x w = (Inr x, w)"

definition throw :: "store_error \<Rightarrow> ('d, 'a) sql" where
  "throw e w = (Inl e, w)"

definition bind :: "('d, 'a) sql \<Rightarrow> ('a \<Rightarrow> ('d, 'b) sql) \<Rightarrow> ('d, 'b) sql" where
  "bind m k w = (case m w of (Inl e, w') \<Rightarrow> (Inl e, w') | (Inr x, w') \<Rightarrow> k x w')"

text \<open>\<open>if errors.Is(err, sql.ErrNoRows) { return h }\<close> between a query and what follows.\<close>

definition on_no_rows :: "('d, 'a) sql \<Rightarrow> ('d, 'b) sql \<Rightarrow> ('a \<Rightarrow> ('d, 'b) sql) \<Rightarrow> ('d, 'b) sql" where
  "on_no_rows m h k w =
     (case m w of
        (Inl e, w') \<Rightarrow> (if e = ErrNoRows then h w' else (Inl e, w'))
      | (Inr x, w') \<Rightarrow> k x w')"

text \<open>A statement that writes and reports a result: the rows it affected, or the row id it
  assigned.\<close>

definition exec :: "('d \<Rightarrow> 'a \<times> 'd) \<Rightarrow> ('d, 'a) sql" where
  "exec f = stmt (\<lambda>d. let (n, d') = f d in (Inr n, d'))"

definition execute :: "('d \<Rightarrow> 'd) \<Rightarrow> ('d, unit) sql" where
  "execute f = stmt (\<lambda>d. (Inr (), f d))"

text \<open>An insert that a primary key or a unique index may reject.\<close>

definition exec_unless :: "('d \<Rightarrow> bool) \<Rightarrow> ('d \<Rightarrow> 'd) \<Rightarrow> ('d, unit) sql" where
  "exec_unless violated f = stmt (\<lambda>d. if violated d then (Inl ErrConstraint, d) else (Inr (), f d))"

definition query :: "('d \<Rightarrow> 'a) \<Rightarrow> ('d, 'a) sql" where
  "query f = stmt (\<lambda>d. (Inr (f d), d))"

definition query_row :: "('d \<Rightarrow> 'a option) \<Rightarrow> ('d, 'a) sql" where
  "query_row f = stmt (\<lambda>d. (case f d of None \<Rightarrow> Inl ErrNoRows | Some x \<Rightarrow> Inr x, d))"

text \<open>The fuel of a loop may depend on the database the loop starts from.\<close>

definition with_db :: "('d \<Rightarrow> ('d, 'a) sql) \<Rightarrow> ('d, 'a) sql" where
  "with_db f w = f (db w) w"

section \<open>Transactions\<close>

text \<open>How the body of a transaction ends without an error: it reaches \<open>tx.Commit()\<close>, or
  it returns earlier and the deferred rollback undoes it.\<close>

datatype 'a outcome = Commit 'a | Abandon 'a

definition transact :: "('d, 'a outcome) sql \<Rightarrow> ('d, 'a) sql" where
  "transact m w =
     bind (stmt (\<lambda>d. (Inr (), d))) (\<lambda>_ w0.
       (case m w0 of
          (Inl e, w1) \<Rightarrow> (Inl e, w1\<lparr>db := db w\<rparr>)
        | (Inr (Abandon x), w1) \<Rightarrow> (Inr x, w1\<lparr>db := db w\<rparr>)
        | (Inr (Commit x), w1) \<Rightarrow>
            (if faulty w1 then (Inl ErrSQL, w1\<lparr>db := db w, faults := tl (faults w1)\<rparr>)
             else (Inr x, w1\<lparr>faults := tl (faults w1)\<rparr>)))) w"

definition commit :: "'a \<Rightarrow> ('d, 'a outcome) sql" where
  "commit x = give (Commit x)"

definition abandon :: "'a \<Rightarrow> ('d, 'a outcome) sql" where
  "abandon x = give (Abandon x)"

section \<open>Success\<close>

text \<open>
  One rule per combinator says when it returns a value, with which result and which
  database; simplifying with \<open>sql_ok\<close> turns the success of a store operation into the
  conditions its guards checked and the tables it wrote.
\<close>

lemma give_ok [sql_ok]: "give x w = (Inr y, w') \<longleftrightarrow> y = x \<and> w' = w"
  by (auto simp: give_def)

lemma throw_ok [sql_ok]: "throw e w = (Inr y, w') \<longleftrightarrow> False"
  by (simp add: throw_def)

text \<open>A driver call that succeeded: its fault bit was clear and is spent.\<close>

definition tick :: "'d world \<Rightarrow> 'd world \<Rightarrow> bool" where
  "tick w w' \<longleftrightarrow> \<not> faulty w \<and> faults w' = tl (faults w)"

lemma world_eq_iff: "(w' :: 'd world) = w\<lparr>db := d, faults := fs\<rparr> \<longleftrightarrow> db w' = d \<and> faults w' = fs"
  by (cases w; cases w') auto

lemma stmt_ok:
  "stmt f w = (Inr x, w') \<longleftrightarrow> tick w w' \<and> f (db w) = (Inr x, db w')"
proof (cases "f (db w)")
  case (Pair r d)
  then show ?thesis
    by (cases r; cases w; cases w') (auto simp: stmt_def tick_def faulty_def)
qed

lemma bind_ok [sql_ok]:
  "bind m k w = (Inr y, w') \<longleftrightarrow> (\<exists>x w1. m w = (Inr x, w1) \<and> k x w1 = (Inr y, w'))"
  by (auto simp: bind_def split: prod.splits sum.splits)

lemma on_no_rows_ok [sql_ok]:
  "on_no_rows m h k w = (Inr y, w') \<longleftrightarrow>
     (\<exists>x w1. m w = (Inr x, w1) \<and> k x w1 = (Inr y, w')) \<or>
     (\<exists>w1. m w = (Inl ErrNoRows, w1) \<and> h w1 = (Inr y, w'))"
  by (auto simp: on_no_rows_def split: prod.splits sum.splits)

lemma exec_ok [sql_ok]:
  "exec f w = (Inr n, w') \<longleftrightarrow> tick w w' \<and> n = fst (f (db w)) \<and> db w' = snd (f (db w))"
  by (cases "f (db w)") (auto simp: exec_def stmt_ok)

lemma execute_ok [sql_ok]: "execute f w = (Inr n, w') \<longleftrightarrow> tick w w' \<and> db w' = f (db w)"
  by (auto simp: execute_def stmt_ok)

lemma exec_unless_ok [sql_ok]:
  "exec_unless v f w = (Inr n, w') \<longleftrightarrow> tick w w' \<and> \<not> v (db w) \<and> db w' = f (db w)"
  by (auto simp: exec_unless_def stmt_ok)

lemma query_ok [sql_ok]:
  "query f w = (Inr x, w') \<longleftrightarrow> tick w w' \<and> x = f (db w) \<and> db w' = db w"
  by (auto simp: query_def stmt_ok)

lemma query_row_ok [sql_ok]:
  "query_row f w = (Inr x, w') \<longleftrightarrow> tick w w' \<and> f (db w) = Some x \<and> db w' = db w"
  by (auto simp: query_row_def stmt_ok split: option.splits)

lemma query_row_no_rows [sql_ok]:
  "query_row f w = (Inl ErrNoRows, w') \<longleftrightarrow> tick w w' \<and> f (db w) = None \<and> db w' = db w"
  by (cases "f (db w)"; cases w; cases w')
    (auto simp: query_row_def stmt_def tick_def faulty_def)

lemma commit_ok [sql_ok]: "commit x w = (Inr y, w') \<longleftrightarrow> y = Commit x \<and> w' = w"
  by (simp add: commit_def give_ok)

lemma abandon_ok [sql_ok]: "abandon x w = (Inr y, w') \<longleftrightarrow> y = Abandon x \<and> w' = w"
  by (simp add: abandon_def give_ok)

definition consumed :: "'d world \<Rightarrow> 'd world" where
  "consumed w = w\<lparr>faults := tl (faults w)\<rparr>"

lemma consumed_simps [simp]: "db (consumed w) = db w" "faults (consumed w) = tl (faults w)"
  by (simp_all add: consumed_def)

lemma transact_ok [sql_ok]:
  "transact m w = (Inr y, w') \<longleftrightarrow>
     (\<exists>w0 w1. tick w w0 \<and> db w0 = db w \<and>
       ((m w0 = (Inr (Commit y), w1) \<and> tick w1 w' \<and> db w' = db w1) \<or>
        (m w0 = (Inr (Abandon y), w1) \<and> faults w' = faults w1 \<and> db w' = db w)))" (is "?l \<longleftrightarrow> ?r")
proof
  assume ?l
  then have ok: "\<not> faulty w" and run:
    "(case m (consumed w) of
        (Inl e, w1) \<Rightarrow> (Inl e, w1\<lparr>db := db w\<rparr>)
      | (Inr (Abandon x), w1) \<Rightarrow> (Inr x, w1\<lparr>db := db w\<rparr>)
      | (Inr (Commit x), w1) \<Rightarrow>
          (if faulty w1 then (Inl ErrSQL, w1\<lparr>db := db w, faults := tl (faults w1)\<rparr>)
           else (Inr x, w1\<lparr>faults := tl (faults w1)\<rparr>))) = (Inr y, w')"
    by (auto simp: transact_def bind_def stmt_def consumed_def split: if_splits)
  obtain r w1 where m: "m (consumed w) = (r, w1)" by (cases "m (consumed w)")
  show ?r
  proof (intro exI conjI)
    show "tick w (consumed w)" "db (consumed w) = db w" using ok by (simp_all add: tick_def)
    show "(m (consumed w) = (Inr (Commit y), w1) \<and> tick w1 w' \<and> db w' = db w1) \<or>
      (m (consumed w) = (Inr (Abandon y), w1) \<and> faults w' = faults w1 \<and> db w' = db w)"
      using run m by (auto simp: tick_def split: if_splits sum.splits outcome.splits)
  qed
next
  assume ?r
  then obtain w0 w1 where t: "tick w w0" "db w0 = db w" and
    m: "(m w0 = (Inr (Commit y), w1) \<and> tick w1 w' \<and> db w' = db w1) \<or>
        (m w0 = (Inr (Abandon y), w1) \<and> faults w' = faults w1 \<and> db w' = db w)" by blast
  from t have "w0 = w\<lparr>db := db w, faults := tl (faults w)\<rparr>" "\<not> faulty w"
    by (simp_all add: tick_def world_eq_iff)
  with m show ?l
    unfolding transact_def bind_def stmt_def tick_def
    by (cases w1; cases w') auto
qed

lemma with_db_ok [sql_ok]: "with_db f w = (Inr y, w') \<longleftrightarrow> f (db w) w = (Inr y, w')"
  by (simp add: with_db_def)

section \<open>Failure\<close>

text \<open>
  A program is \<^emph>\<open>atomic\<close> when an error leaves the database as it was, and
  \<^emph>\<open>read only\<close> when every outcome does.
\<close>

definition atomic :: "('d, 'a) sql \<Rightarrow> bool" where
  "atomic m \<longleftrightarrow> (\<forall>w e w'. m w = (Inl e, w') \<longrightarrow> db w' = db w)"

definition read_only :: "('d, 'a) sql \<Rightarrow> bool" where
  "read_only m \<longleftrightarrow> (\<forall>w r w'. m w = (r, w') \<longrightarrow> db w' = db w)"

lemma atomicD: "atomic m \<Longrightarrow> m w = (Inl e, w') \<Longrightarrow> db w' = db w"
  unfolding atomic_def by blast

lemma read_onlyD: "read_only m \<Longrightarrow> m w = (r, w') \<Longrightarrow> db w' = db w"
  unfolding read_only_def by blast

lemma read_only_atomic: "read_only m \<Longrightarrow> atomic m"
  unfolding read_only_def atomic_def by blast

lemma read_only_give [intro, simp]: "read_only (give x)"
  by (simp add: read_only_def give_def)

lemma read_only_throw [intro, simp]: "read_only (throw e)"
  by (simp add: read_only_def throw_def)

lemma read_only_query [intro, simp]: "read_only (query f)"
  by (auto simp: read_only_def query_def stmt_def split: if_splits)

lemma read_only_query_row [intro, simp]: "read_only (query_row f)"
  by (auto simp: read_only_def query_row_def stmt_def split: if_splits option.splits)

lemma bind_cases:
  assumes "bind m k w = (r, w')"
  obtains (error) e where "m w = (Inl e, w')" and "r = Inl e"
    | (continue) x w1 where "m w = (Inr x, w1)" and "k x w1 = (r, w')"
  using assms by (auto simp: bind_def split: prod.splits sum.splits)

lemma on_no_rows_cases:
  assumes "on_no_rows m h k w = (r, w')"
  obtains (error) e where "m w = (Inl e, w')" and "r = Inl e" and "e \<noteq> ErrNoRows"
    | (no_rows) w1 where "m w = (Inl ErrNoRows, w1)" and "h w1 = (r, w')"
    | (continue) x w1 where "m w = (Inr x, w1)" and "k x w1 = (r, w')"
  using assms by (auto simp: on_no_rows_def split: prod.splits sum.splits if_splits)

lemma read_only_bind [intro]:
  assumes "read_only m" and "\<And>x. read_only (k x)"
  shows "read_only (bind m k)"
  unfolding read_only_def
proof (intro allI impI)
  fix w r w' assume "bind m k w = (r, w')"
  then show "db w' = db w"
    by (cases rule: bind_cases) (metis assms read_onlyD)+
qed

lemma read_only_on_no_rows [intro]:
  assumes "read_only m" and "read_only h" and "\<And>x. read_only (k x)"
  shows "read_only (on_no_rows m h k)"
  unfolding read_only_def
proof (intro allI impI)
  fix w r w' assume "on_no_rows m h k w = (r, w')"
  then show "db w' = db w"
    by (cases rule: on_no_rows_cases)
      (metis assms read_onlyD)+
qed

lemma atomic_give [intro, simp]: "atomic (give x)"
  by (simp add: read_only_atomic)

lemma atomic_throw [intro, simp]: "atomic (throw e)"
  by (simp add: read_only_atomic)

lemma atomic_stmt [intro, simp]: "atomic (stmt f)"
  by (auto simp: atomic_def stmt_def split: if_splits prod.splits sum.splits)

lemma atomic_exec [intro, simp]: "atomic (exec f)" "atomic (execute g)" "atomic (exec_unless v g)"
  "atomic (query h)" "atomic (query_row q)"
  by (simp_all add: exec_def execute_def exec_unless_def query_def query_row_def)

lemma atomic_read_bind [intro]:
  assumes "read_only m" and "\<And>x. atomic (k x)"
  shows "atomic (bind m k)"
  unfolding atomic_def
proof (intro allI impI)
  fix w e w' assume "bind m k w = (Inl e, w')"
  then show "db w' = db w"
    by (cases rule: bind_cases) (metis Inl_inject assms atomicD read_onlyD)+
qed

text \<open>A single statement followed by steps that cannot fail for the driver's sake is atomic
  only if the later steps leave the database alone when they fail: here, when they check
  the count of a statement that changed nothing.\<close>

lemma atomic_exec_guard:
  assumes "\<And>d. fst (f d) \<noteq> 1 \<Longrightarrow> snd (f d) = d"
  shows "atomic (bind (exec f) (\<lambda>n. if n \<noteq> 1 then throw e else give x))"
  using assms
  by (auto simp: atomic_def bind_def exec_def stmt_def throw_def give_def
      split: if_splits prod.splits sum.splits) (metis fst_conv snd_conv)

lemma atomic_transact [intro, simp]: "atomic (transact m)"
  by (auto simp: atomic_def transact_def bind_def stmt_def
      split: if_splits prod.splits sum.splits outcome.splits)

section \<open>Runs without faults\<close>

lemma healthy_simps [simp]: "db (healthy d) = d" "faults (healthy d) = []" "\<not> faulty (healthy d)"
  "consumed (healthy d) = healthy d"
  "healthy d\<lparr>db := d'\<rparr> = healthy d'" "healthy d\<lparr>faults := []\<rparr> = healthy d"
  by (simp_all add: healthy_def faulty_def consumed_def)

lemma stmt_healthy [sql_run]:
  "stmt f (healthy d) = (case f d of (Inl e, _) \<Rightarrow> (Inl e, healthy d) | (Inr x, d') \<Rightarrow> (Inr x, healthy d'))"
  by (simp add: stmt_def healthy_def faulty_def split: prod.splits sum.splits)

lemma exec_healthy [sql_run]: "exec f (healthy d) = (Inr (fst (f d)), healthy (snd (f d)))"
  by (simp add: exec_def stmt_healthy split: prod.splits)

lemma execute_healthy [sql_run]: "execute g (healthy d) = (Inr (), healthy (g d))"
  by (simp add: execute_def stmt_healthy)

lemma exec_unless_healthy [sql_run]:
  "exec_unless v g (healthy d) =
     (if v d then (Inl ErrConstraint, healthy d) else (Inr (), healthy (g d)))"
  by (simp add: exec_unless_def stmt_healthy)

lemma query_healthy [sql_run]: "query h (healthy d) = (Inr (h d), healthy d)"
  by (simp add: query_def stmt_healthy)

lemma query_row_healthy [sql_run]:
  "query_row q (healthy d) = (case q d of None \<Rightarrow> (Inl ErrNoRows, healthy d) | Some x \<Rightarrow> (Inr x, healthy d))"
  by (simp add: query_row_def stmt_healthy split: option.splits)

lemma give_healthy [sql_run]: "give x w = (Inr x, w)"
  by (simp add: give_def)

lemma throw_healthy [sql_run]: "throw e w = (Inl e, w)"
  by (simp add: throw_def)

lemma commit_healthy [sql_run]: "commit x w = (Inr (Commit x), w)"
  by (simp add: commit_def give_def)

lemma abandon_healthy [sql_run]: "abandon x w = (Inr (Abandon x), w)"
  by (simp add: abandon_def give_def)

lemma with_db_run [sql_run]: "with_db f w = f (db w) w"
  by (simp add: with_db_def)

lemma bind_run [sql_run]:
  "bind m k w = (case m w of (Inl e, w') \<Rightarrow> (Inl e, w') | (Inr x, w') \<Rightarrow> k x w')"
  by (simp add: bind_def)

lemma on_no_rows_run [sql_run]:
  "on_no_rows m h k w =
     (case m w of
        (Inl e, w') \<Rightarrow> (if e = ErrNoRows then h w' else (Inl e, w'))
      | (Inr x, w') \<Rightarrow> k x w')"
  by (simp add: on_no_rows_def)

lemma transact_healthy [sql_run]:
  "transact m (healthy d) =
     (case m (healthy d) of
        (Inl e, w1) \<Rightarrow> (Inl e, w1\<lparr>db := d\<rparr>)
      | (Inr (Abandon x), w1) \<Rightarrow> (Inr x, w1\<lparr>db := d\<rparr>)
      | (Inr (Commit x), w1) \<Rightarrow>
          (if faulty w1 then (Inl ErrSQL, w1\<lparr>db := d, faults := tl (faults w1)\<rparr>)
           else (Inr x, consumed w1)))"
  by (simp add: transact_def bind_def stmt_def consumed_def healthy_def faulty_def
      split: prod.splits sum.splits outcome.splits)

section \<open>Relations between the database before and after\<close>

text \<open>
  A program follows a relation when every outcome, failed or not, relates the database it
  found to the one it left. For a reflexive and transitive relation this is compositional: a
  program follows what each of its statements follows. The rules are proved once for any
  such relation; an invariant is the relation that passes it on.
\<close>

definition follows :: "('d \<Rightarrow> 'd \<Rightarrow> bool) \<Rightarrow> ('d, 'a) sql \<Rightarrow> bool" where
  "follows R m \<longleftrightarrow> (\<forall>w r w'. m w = (r, w') \<longrightarrow> R (db w) (db w'))"

lemma followsD: "follows R m \<Longrightarrow> m w = (r, w') \<Longrightarrow> R (db w) (db w')"
  unfolding follows_def by blast

lemma follows_mono: "follows R m \<Longrightarrow> (\<And>d d'. R d d' \<Longrightarrow> R' d d') \<Longrightarrow> follows R' m"
  unfolding follows_def by blast

locale db_relation =
  fixes R :: "'d \<Rightarrow> 'd \<Rightarrow> bool"
  assumes R_refl: "R d d"
    and R_trans: "R d d' \<Longrightarrow> R d' d'' \<Longrightarrow> R d d''"
begin

lemma followsI:
  assumes "atomic m" and "\<And>w x w'. m w = (Inr x, w') \<Longrightarrow> R (db w) (db w')"
  shows "follows R m"
  unfolding follows_def
proof (intro allI impI)
  fix w r w' assume "m w = (r, w')"
  then show "R (db w) (db w')" using assms atomicD [of m w _ w'] R_refl by (cases r) auto
qed

lemma follows_read_only: "read_only m \<Longrightarrow> follows R m"
  unfolding follows_def by (metis R_refl read_onlyD)

lemma follows_stmt: "(\<And>d x d'. f d = (Inr x, d') \<Longrightarrow> R d d') \<Longrightarrow> follows R (stmt f)"
  by (rule followsI) (auto simp: stmt_ok)

lemma follows_exec: "(\<And>d. R d (snd (f d))) \<Longrightarrow> follows R (exec f)"
  by (rule followsI) (auto simp: exec_ok)

lemma follows_execute: "(\<And>d. R d (g d)) \<Longrightarrow> follows R (execute g)"
  by (rule followsI) (auto simp: execute_ok)

lemma follows_exec_unless: "(\<And>d. \<not> v d \<Longrightarrow> R d (g d)) \<Longrightarrow> follows R (exec_unless v g)"
  by (rule followsI) (auto simp: exec_unless_ok)

lemma follows_reads:
  "follows R (give x)" "follows R (throw e)" "follows R (query h)"
  "follows R (query_row q)" "follows R (commit y)" "follows R (abandon z)"
  by (simp_all add: follows_read_only commit_def abandon_def)

lemma follows_bind:
  assumes "follows R m" and "\<And>x. follows R (k x)"
  shows "follows R (bind m k)"
  unfolding follows_def
proof (intro allI impI)
  fix w r w' assume "bind m k w = (r, w')"
  then show "R (db w) (db w')"
    by (cases rule: bind_cases) (metis R_trans assms followsD)+
qed

lemma follows_on_no_rows:
  assumes "follows R m" and "follows R h" and "\<And>x. follows R (k x)"
  shows "follows R (on_no_rows m h k)"
  unfolding follows_def
proof (intro allI impI)
  fix w r w' assume "on_no_rows m h k w = (r, w')"
  then show "R (db w) (db w')"
    by (cases rule: on_no_rows_cases) (metis R_trans assms followsD)+
qed

lemma follows_transact:
  assumes "follows R m"
  shows "follows R (transact m)"
proof (rule followsI)
  fix w x w' assume "transact m w = (Inr x, w')"
  then show "R (db w) (db w')"
    using followsD [OF assms] R_refl by (fastforce simp: transact_ok)
qed simp

lemma follows_if:
  "(c \<Longrightarrow> follows R m) \<Longrightarrow> (\<not> c \<Longrightarrow> follows R m') \<Longrightarrow> follows R (if c then m else m')"
  by simp

lemma follows_option:
  "(x = None \<Longrightarrow> follows R m) \<Longrightarrow> (\<And>y. x = Some y \<Longrightarrow> follows R (k y)) \<Longrightarrow>
   follows R (case x of None \<Rightarrow> m | Some y \<Rightarrow> k y)"
  by (cases x) simp_all

lemma follows_prod:
  "(\<And>a b. p = (a, b) \<Longrightarrow> follows R (f a b)) \<Longrightarrow> follows R (case_prod f p)"
  by (cases p) simp

lemma follows_let: "(\<And>y. y = x \<Longrightarrow> follows R (f y)) \<Longrightarrow> follows R (Let x f)"
  by simp

lemma follows_with_db: "(\<And>d. follows R (f d)) \<Longrightarrow> follows R (with_db f)"
  unfolding follows_def with_db_def by blast

lemmas follows_intros = follows_exec follows_execute follows_exec_unless follows_reads
  follows_bind follows_on_no_rows follows_transact follows_if follows_option follows_prod
  follows_let follows_with_db

end

section \<open>Preserved properties\<close>

definition preserves :: "('d \<Rightarrow> bool) \<Rightarrow> ('d, 'a) sql \<Rightarrow> bool" where
  "preserves P m \<longleftrightarrow> follows (\<lambda>d d'. P d \<longrightarrow> P d') m"

interpretation keeping: db_relation "\<lambda>d d'. P d \<longrightarrow> P d'" for P :: "'d \<Rightarrow> bool"
  by unfold_locales auto

lemmas preserves_intros [sql_frame] = keeping.follows_intros [folded preserves_def]

lemma preservesD: "preserves P m \<Longrightarrow> m w = (r, w') \<Longrightarrow> P (db w) \<Longrightarrow> P (db w')"
  unfolding preserves_def by (auto dest: followsD)

lemma preservesI:
  assumes "atomic m" and "\<And>w x w'. m w = (Inr x, w') \<Longrightarrow> P (db w) \<Longrightarrow> P (db w')"
  shows "preserves P m"
  unfolding preserves_def using assms by (intro keeping.followsI) auto

lemma preserves_conj: "preserves P m \<Longrightarrow> preserves Q m \<Longrightarrow> preserves (\<lambda>d. P d \<and> Q d) m"
  unfolding preserves_def follows_def by blast

end
