(* ===== verification/GoText.thy ===== *)
theory GoText
  imports Prelude "HOL-Library.Sublist"
begin

text \<open>
  The part of Go's string library the modelled code uses. A Go string is a sequence of bytes,
  so it is a HOL \<^typ>\<open>string\<close> (a list of 8-bit characters); \<open>for i, r := range s\<close> decodes
  it as UTF-8, with U+FFFD of width one for every byte that starts no valid sequence.
\<close>

section \<open>UTF-8 decoding\<close>

type_synonym rune = nat

definition rune_error :: rune where
  "rune_error = 65533"

definition continuation :: "nat \<Rightarrow> bool" where
  "continuation b \<longleftrightarrow> 128 \<le> b \<and> b \<le> 191"

text \<open>The accept ranges of the second byte exclude overlong forms, surrogates and values above
  U+10FFFF.\<close>

definition second_ok :: "nat \<Rightarrow> nat \<Rightarrow> bool" where
  "second_ok b0 b1 \<longleftrightarrow>
     (if b0 = 224 then 160 \<le> b1 \<and> b1 \<le> 191
      else if b0 = 237 then 128 \<le> b1 \<and> b1 \<le> 159
      else if b0 = 240 then 144 \<le> b1 \<and> b1 \<le> 191
      else if b0 = 244 then 128 \<le> b1 \<and> b1 \<le> 143
      else continuation b1)"

fun decode_bytes :: "nat list \<Rightarrow> rune \<times> nat" where
  "decode_bytes [] = (rune_error, 0)"
| "decode_bytes (b0 # bs) =
     (if b0 < 128 then (b0, 1)
      else if b0 < 194 \<or> 244 < b0 then (rune_error, 1)
      else if b0 < 224 then
        (case bs of
           b1 # _ \<Rightarrow> if continuation b1 then ((b0 - 192) * 64 + (b1 - 128), 2) else (rune_error, 1)
         | [] \<Rightarrow> (rune_error, 1))
      else if b0 < 240 then
        (case bs of
           b1 # b2 # _ \<Rightarrow>
             if second_ok b0 b1 \<and> continuation b2
             then ((b0 - 224) * 4096 + (b1 - 128) * 64 + (b2 - 128), 3) else (rune_error, 1)
         | _ \<Rightarrow> (rune_error, 1))
      else
        (case bs of
           b1 # b2 # b3 # _ \<Rightarrow>
             if second_ok b0 b1 \<and> continuation b2 \<and> continuation b3
             then ((b0 - 240) * 262144 + (b1 - 128) * 4096 + (b2 - 128) * 64 + (b3 - 128), 4)
             else (rune_error, 1)
         | _ \<Rightarrow> (rune_error, 1)))"

definition decode_rune :: "string \<Rightarrow> rune \<times> nat" where
  "decode_rune s = decode_bytes (map of_char (take 4 s))"

lemma decode_bytes_size:
  "bs \<noteq> [] \<Longrightarrow> 0 < snd (decode_bytes bs) \<and> snd (decode_bytes bs) \<le> length bs"
  by (cases bs) (auto split: list.splits)

lemma decode_rune_size:
  assumes "s \<noteq> []"
  shows "0 < snd (decode_rune s)" and "snd (decode_rune s) \<le> length s"
proof -
  have "map of_char (take 4 s) \<noteq> ([] :: nat list)" using assms by simp
  from decode_bytes_size [OF this]
  show "0 < snd (decode_rune s)" and "snd (decode_rune s) \<le> length s"
    by (auto simp: decode_rune_def)
qed

text \<open>\<open>for i, r := range s\<close>: the runes of a string, each with its bytes.\<close>

function runes :: "string \<Rightarrow> (rune \<times> string) list" where
  "runes s =
     (if s = [] then []
      else (case decode_rune s of (r, n) \<Rightarrow> (r, take n s) # runes (drop n s)))"
  by pat_completeness auto
termination
  by (relation "measure length") (auto simp: prod_eq_iff diff_less decode_rune_size(1))

declare runes.simps [simp del]

lemma runes_Nil [simp]: "runes [] = []"
  by (simp add: runes.simps)

lemma runes_nonempty:
  "s \<noteq> [] \<Longrightarrow> runes s = (fst (decode_rune s), take (snd (decode_rune s)) s) # runes (drop (snd (decode_rune s)) s)"
  by (subst runes.simps) (simp add: case_prod_unfold)

lemma concat_runes: "concat (map snd (runes s)) = s"
proof (induction s rule: runes.induct)
  case (1 s)
  show ?case
  proof (cases "s = []")
    case False
    with 1 have "concat (map snd (runes (drop (snd (decode_rune s)) s))) = drop (snd (decode_rune s)) s"
      by (metis prod.collapse)
    with False show ?thesis by (simp add: runes_nonempty)
  qed simp
qed

lemma runes_pieces: "p \<in> set (runes s) \<Longrightarrow> snd p \<noteq> []"
proof (induction s rule: runes.induct)
  case (1 s)
  show ?case
  proof (cases "s = []")
    case False
    with 1 show ?thesis
      using decode_rune_size(1) [of s] by (auto simp: runes_nonempty [of s] prod_eq_iff)
  qed (use 1 in simp)
qed

lemma runes_ascii: "of_char c < (128 :: nat) \<Longrightarrow> runes (c # s) = (of_char c, [c]) # runes s"
proof -
  assume "of_char c < (128 :: nat)"
  then have "decode_rune (c # s) = (of_char c, 1)" by (simp add: decode_rune_def)
  then show ?thesis by (simp add: runes_nonempty)
qed

text \<open>\<open>utf16.RuneLen\<close> of a decoded rune: one unit in the basic plane, else two.\<close>

definition rune_units :: "rune \<Rightarrow> nat" where
  "rune_units r = (if 65535 < r then 2 else 1)"

definition text_units :: "string \<Rightarrow> nat" where
  "text_units s = sum_list (map (rune_units \<circ> fst) (runes s))"

lemma rune_units_bounds: "0 < rune_units r" "rune_units r \<le> 2"
  by (simp_all add: rune_units_def)

lemma text_units_Nil [simp]: "text_units [] = 0"
  by (simp add: text_units_def)

section \<open>Numbers\<close>

text \<open>\<open>fmt.Sprintf("%d", n)\<close>.\<close>

definition digit :: "nat \<Rightarrow> char" where
  "digit d = char_of (48 + d)"

fun nat_decimal :: "nat \<Rightarrow> string" where
  "nat_decimal n = (if n < 10 then [digit n] else nat_decimal (n div 10) @ [digit (n mod 10)])"

declare nat_decimal.simps [simp del]

definition int_decimal :: "int \<Rightarrow> string" where
  "int_decimal i = (if i < 0 then ''-'' @ nat_decimal (nat (- i)) else nat_decimal (nat i))"

definition digit_value :: "char \<Rightarrow> nat" where
  "digit_value c = of_char c - 48"

lemma of_char_digit [simp]: "d < 10 \<Longrightarrow> of_char (digit d) = 48 + d"
  by (simp add: digit_def)

lemma digit_value_digit [simp]: "d < 10 \<Longrightarrow> digit_value (digit d) = d"
  by (simp add: digit_value_def)

definition decimal_value :: "string \<Rightarrow> nat" where
  "decimal_value s = foldl (\<lambda>n c. 10 * n + digit_value c) 0 s"

lemma decimal_value_snoc: "decimal_value (s @ [c]) = 10 * decimal_value s + digit_value c"
  by (simp add: decimal_value_def)

lemma decimal_value_nat_decimal [simp]: "decimal_value (nat_decimal n) = n"
proof (induction n rule: nat_decimal.induct)
  case (1 n)
  show ?case
  proof (cases "n < 10")
    case True
    then show ?thesis by (subst nat_decimal.simps) (simp add: decimal_value_def)
  next
    case False
    with 1 show ?thesis by (subst nat_decimal.simps) (simp add: decimal_value_snoc)
  qed
qed

lemma nat_decimal_inject [simp]: "nat_decimal m = nat_decimal n \<longleftrightarrow> m = n"
  by (metis decimal_value_nat_decimal)

lemma nat_decimal_digits: "c \<in> set (nat_decimal n) \<Longrightarrow> 48 \<le> (of_char c :: nat) \<and> of_char c \<le> (57 :: nat)"
proof (induction n rule: nat_decimal.induct)
  case (1 n)
  then show ?case
    by (subst (asm) (2) nat_decimal.simps) (auto split: if_splits)
qed

lemma nat_decimal_nonempty [simp]: "nat_decimal n \<noteq> []"
  by (subst nat_decimal.simps) simp

section \<open>Package strings and path/filepath\<close>

text \<open>\<open>strings.ToLower\<close> on ASCII text, which is also SQLite's \<open>NOCASE\<close> folding.\<close>

definition lower_char :: "char \<Rightarrow> char" where
  "lower_char c = (if 65 \<le> (of_char c :: nat) \<and> of_char c \<le> (90 :: nat) then char_of (of_char c + 32 :: nat) else c)"

definition to_lower :: "string \<Rightarrow> string" where
  "to_lower s = map lower_char s"

definition eq_nocase :: "string \<Rightarrow> string \<Rightarrow> bool" where
  "eq_nocase s t \<longleftrightarrow> to_lower s = to_lower t"

lemma eq_nocase_refl [simp]: "eq_nocase s s"
  by (simp add: eq_nocase_def)

lemma eq_nocase_sym: "eq_nocase s t \<longleftrightarrow> eq_nocase t s"
  by (auto simp: eq_nocase_def)

lemma eq_nocase_trans: "eq_nocase s t \<Longrightarrow> eq_nocase t u \<Longrightarrow> eq_nocase s u"
  by (simp add: eq_nocase_def)

lemma eq_nocase_Nil [simp]: "eq_nocase [] t \<longleftrightarrow> t = []" "eq_nocase t [] \<longleftrightarrow> t = []"
  by (auto simp: eq_nocase_def to_lower_def)

lemma lower_char_idem [simp]: "lower_char (lower_char c) = lower_char c"
  by (simp add: lower_char_def)

lemma to_lower_idem [simp]: "to_lower (to_lower s) = to_lower s"
  by (simp add: to_lower_def)

definition has_prefix :: "string \<Rightarrow> string \<Rightarrow> bool" where
  "has_prefix s p \<longleftrightarrow> prefix p s"

definition has_suffix :: "string \<Rightarrow> string \<Rightarrow> bool" where
  "has_suffix s p \<longleftrightarrow> suffix p s"

definition trim_suffix :: "string \<Rightarrow> string \<Rightarrow> string" where
  "trim_suffix s p = (if has_suffix s p then take (length s - length p) s else s)"

text \<open>\<open>strings.LastIndexByte\<close>: the text after the last occurrence of a byte, if there is one.\<close>

definition after_last :: "char \<Rightarrow> string \<Rightarrow> string option" where
  "after_last c s = (if c \<in> set s then Some (rev (takeWhile (\<lambda>x. x \<noteq> c) (rev s))) else None)"

definition path_base :: "string \<Rightarrow> string" where
  "path_base p =
     (if p = [] then ''.''
      else (let q = rev (dropWhile (\<lambda>c. c = CHR ''/'') (rev p))
            in if q = [] then ''/''
               else (case after_last (CHR ''/'') q of None \<Rightarrow> q | Some b \<Rightarrow> b)))"

definition path_is_abs :: "string \<Rightarrow> bool" where
  "path_is_abs p \<longleftrightarrow> has_prefix p ''/''"

end
