(* ===== verification/StoreTypes.thy ===== *)
theory StoreTypes
  imports SqlMonad GoText
begin

text \<open>
  The data of \<open>internal/store\<close>: the Go structs and the tables of schema version 25. A table
  is the list of its rows; a nullable column is an option; a column that only holds 0 and 1
  is a \<^typ>\<open>bool\<close>.
\<close>

section \<open>Inbox and outbox\<close>

datatype inbox_state =
  InboxPending | InboxSubmitted | InboxDone | InboxCancelled | InboxFailed | InboxIgnored | InboxUncertain

datatype outbox_state =
  OutboxPending | OutboxSending | OutboxDone | OutboxFailed | OutboxUncertain | OutboxCancelled | OutboxSent

record inbox_row =
  in_id :: int64
  in_raw :: string
  in_state :: inbox_state
  in_reply_to :: int64
  in_created_at :: int64
  in_updated_at :: int64

record outbox_row =
  out_id :: int64
  out_inbox_id :: int64
  out_chat :: int64
  out_thread :: int64
  out_text :: string
  out_state :: outbox_state
  out_reply_to :: int64
  out_kind :: string
  out_path :: string
  out_name :: string
  out_created_at :: int64
  out_updated_at :: int64
  out_next_attempt_at :: int64
  out_attempt_count :: int64
  out_server_retry_count :: int64
  out_header :: string
  out_message_id :: int64
  out_header_pending :: bool
  out_header_editable :: bool
  out_assistant_body :: bool
  out_final_actions :: string
  out_actions_pending :: int

record Input =
  input_id :: int64
  input_raw :: string

record Output =
  o_id :: int64
  o_inbox_id :: int64
  o_chat :: int64
  o_thread :: int64
  o_reply_to :: int64
  o_text :: string
  o_kind :: string
  o_path :: string
  o_name :: string
  o_next_attempt_at :: int64
  o_attempt_count :: int64
  o_server_retry_count :: int64
  o_header :: string
  o_header_editable :: bool
  o_message_id :: int64
  o_assistant_body :: bool
  o_final_actions :: string

record progress_row =
  pr_inbox_id :: int64
  pr_chat :: "int64 option"
  pr_message_id :: int64
  pr_retired :: bool
  pr_first_outbox_id :: int64
  pr_last_outbox_id :: int64

record progress_message =
  pm_inbox_id :: int64
  pm_chat :: int64
  pm_message_id :: int64

section \<open>Bindings, starts and migrations\<close>

type_synonym conversation = "int64 \<times> int64 \<times> int64"

record binding =
  b_bot :: int64
  b_chat :: int64
  b_thread :: int64
  b_workspace :: string
  b_session :: string
  b_session_id :: string
  b_generation :: int64
  b_last_used_at :: int64
  b_running :: bool
  b_interrupted :: bool

record start_intent =
  si_bot :: int64
  si_chat :: int64
  si_thread :: int64
  si_kind :: string
  si_workspace :: string
  si_session :: string
  si_generation :: int64

record intent_row =
  ir_intent :: start_intent
  ir_created_at :: int64

record history_row =
  h_bot :: int64
  h_chat :: int64
  h_thread :: int64
  h_workspace :: string
  h_session :: string
  h_generation :: int64

record favorite_row =
  f_bot :: int64
  f_chat :: int64
  f_thread :: int64
  f_workspace :: string
  f_session_id :: string

record migration =
  m_id :: string
  m_source :: binding
  m_inbox_id :: int64
  m_phase :: string
  m_summary_entry_id :: string
  m_summary_hash :: string
  m_candidate_file :: string
  m_candidate_id :: string
  m_provider :: string
  m_model :: string
  m_thinking :: string
  m_fast :: bool
  m_created_at :: int64
  m_error_kind :: string

definition b_conv :: "binding \<Rightarrow> conversation" where
  "b_conv b = (b_bot b, b_chat b, b_thread b)"

definition si_conv :: "start_intent \<Rightarrow> conversation" where
  "si_conv i = (si_bot i, si_chat i, si_thread i)"

definition ir_conv :: "intent_row \<Rightarrow> conversation" where
  "ir_conv r = si_conv (ir_intent r)"

definition m_conv :: "migration \<Rightarrow> conversation" where
  "m_conv m = b_conv (m_source m)"

definition h_conv :: "history_row \<Rightarrow> conversation" where
  "h_conv r = (h_bot r, h_chat r, h_thread r)"

definition f_conv :: "favorite_row \<Rightarrow> conversation" where
  "f_conv r = (f_bot r, f_chat r, f_thread r)"

section \<open>Completion shortcuts, follow-ups and topic names\<close>

record final_action =
  a_token :: string
  a_label :: string
  a_command :: string

record final_action_set =
  as_binding :: binding
  as_user :: int64
  as_config :: string
  as_body_parts :: int
  as_actions :: "final_action list"

record final_action_claim =
  c_token :: string
  c_config :: string
  c_inbox_id :: int64
  c_bot :: int64
  c_chat :: int64
  c_thread :: int64
  c_user :: int64
  c_message_id :: int64
  c_binding :: binding

record final_action_row =
  fa_token :: string
  fa_outbox_id :: int64
  fa_bot :: int64
  fa_chat :: int64
  fa_thread :: int64
  fa_user :: int64
  fa_workspace :: string
  fa_session :: string
  fa_session_id :: string
  fa_generation :: int64
  fa_config :: string
  fa_command :: string
  fa_consumed :: bool
  fa_consumed_by :: int64

datatype followup_state =
  FollowupPending | FollowupDelivered | FollowupCancelled | FollowupConsumed | FollowupUncertain

record followup_request =
  fr_token :: string
  fr_instance :: string
  fr_bot :: int64
  fr_chat :: int64
  fr_thread :: int64
  fr_user :: int64
  fr_prompt_id :: int64
  fr_task_id :: int64
  fr_inbox_id :: int64
  fr_workspace :: string
  fr_session :: string
  fr_generation :: int64
  fr_expires_at :: int64
  fr_state :: followup_state

record topic_name_row =
  tn_bot :: int64
  tn_chat :: int64
  tn_thread :: int64
  tn_name :: string
  tn_revision :: int64

record topic_reservation_row =
  tr_bot :: int64
  tr_chat :: int64
  tr_thread :: int64
  tr_name :: string
  tr_revision :: int64
  tr_active :: bool

record topic_name_reservation =
  res_name :: string
  res_revision :: int64

section \<open>The database\<close>

text \<open>The cells of the argument selection are dynamically typed: the code checks their type.\<close>

datatype sql_value = SqlInt int64 | SqlText string | SqlOther

record database =
  meta :: "string \<rightharpoonup> int64"
  inbox :: "inbox_row list"
  outbox :: "outbox_row list"
  outbox_seq :: int64
  bindings :: "binding list"
  startup_intents :: "intent_row list"
  history :: "history_row list"
  session_favorites :: "favorite_row list"
  args_selection :: "(sql_value \<times> sql_value) list"
  migrations :: "migration list"
  interface_language :: "string option"
  topic_names :: "topic_name_row list"
  topic_reservations :: "topic_reservation_row list"
  progress_messages :: "progress_row list"
  final_actions :: "final_action_row list"
  followup_requests :: "followup_request list"

type_synonym 'a store = "(database, 'a) sql"

definition empty_database :: database where
  "empty_database =
     \<lparr>meta = Map.empty, inbox = [], outbox = [], outbox_seq = 0, bindings = [], startup_intents = [],
      history = [], session_favorites = [], args_selection = [], migrations = [],
      interface_language = None, topic_names = [], topic_reservations = [],
      progress_messages = [], final_actions = [], followup_requests = []\<rparr>"

text \<open>The JSON codec of the button list (\<open>encoding/json\<close> on \<open>[]FinalAction\<close>).\<close>

record action_codec =
  marshal :: "final_action list \<Rightarrow> string"
  unmarshal :: "string \<Rightarrow> final_action list option"

text \<open>\<open>UPDATE inbox SET f WHERE p\<close> with its \<open>RowsAffected\<close>, and likewise for the other tables
  whose counts the code reads.\<close>

definition update_inbox :: "(inbox_row \<Rightarrow> bool) \<Rightarrow> (inbox_row \<Rightarrow> inbox_row) \<Rightarrow> database \<Rightarrow> nat \<times> database" where
  "update_inbox p f d = (count_rows p (inbox d), d\<lparr>inbox := update_rows p f (inbox d)\<rparr>)"

definition update_outbox :: "(outbox_row \<Rightarrow> bool) \<Rightarrow> (outbox_row \<Rightarrow> outbox_row) \<Rightarrow> database \<Rightarrow> nat \<times> database" where
  "update_outbox p f d = (count_rows p (outbox d), d\<lparr>outbox := update_rows p f (outbox d)\<rparr>)"

definition update_bindings :: "(binding \<Rightarrow> bool) \<Rightarrow> (binding \<Rightarrow> binding) \<Rightarrow> database \<Rightarrow> nat \<times> database" where
  "update_bindings p f d = (count_rows p (bindings d), d\<lparr>bindings := update_rows p f (bindings d)\<rparr>)"

definition delete_bindings :: "(binding \<Rightarrow> bool) \<Rightarrow> database \<Rightarrow> nat \<times> database" where
  "delete_bindings p d = (count_rows p (bindings d), d\<lparr>bindings := delete_rows p (bindings d)\<rparr>)"

definition update_final_actions ::
  "(final_action_row \<Rightarrow> bool) \<Rightarrow> (final_action_row \<Rightarrow> final_action_row) \<Rightarrow> database \<Rightarrow> nat \<times> database" where
  "update_final_actions p f d =
     (count_rows p (final_actions d), d\<lparr>final_actions := update_rows p f (final_actions d)\<rparr>)"

definition update_followups ::
  "(followup_request \<Rightarrow> bool) \<Rightarrow> (followup_request \<Rightarrow> followup_request) \<Rightarrow> database \<Rightarrow> nat \<times> database" where
  "update_followups p f d =
     (count_rows p (followup_requests d), d\<lparr>followup_requests := update_rows p f (followup_requests d)\<rparr>)"

lemmas table_updates = update_inbox_def update_outbox_def update_bindings_def delete_bindings_def
  update_final_actions_def update_followups_def

text \<open>An \<open>UPDATE\<close> that matched no row changed nothing.\<close>

lemma update_none:
  "count_rows p (inbox d) = 0 \<Longrightarrow> snd (update_inbox p f d) = d"
  "count_rows p' (outbox d) = 0 \<Longrightarrow> snd (update_outbox p' f' d) = d"
  "count_rows p'' (bindings d) = 0 \<Longrightarrow> snd (update_bindings p'' f'' d) = d"
  by (simp_all add: table_updates count_rows_0 update_rows_none)

end
