(* ===== verification/StoreInbox.thy ===== *)
theory StoreInbox
  imports StoreTypes
begin

text \<open>
  The durable inbox of \<open>store.go\<close>: acceptance of updates together with the polling offset,
  the pending pages, and the state transitions of a single input.
\<close>

section \<open>Acceptance\<close>

text \<open>\<open>INSERT INTO inbox ... ON CONFLICT(id) DO NOTHING\<close>.\<close>

definition insert_inbox :: "inbox_row \<Rightarrow> database \<Rightarrow> database" where
  "insert_inbox r d =
     (if exists_row (\<lambda>r'. in_id r' = in_id r) (inbox d) then d else d\<lparr>inbox := inbox d @ [r]\<rparr>)"

text \<open>\<open>INSERT INTO meta VALUES('offset',?) ON CONFLICT(key) DO UPDATE SET value=MAX(...)\<close>.\<close>

definition raise_offset :: "int64 \<Rightarrow> database \<Rightarrow> database" where
  "raise_offset n d =
     d\<lparr>meta := (meta d)(''offset'' \<mapsto>
        (case meta d ''offset'' of None \<Rightarrow> n | Some v \<Rightarrow> max v n))\<rparr>"

definition Accept :: "int64 \<Rightarrow> int64 \<Rightarrow> string \<Rightarrow> unit store" where
  "Accept now iid raw = transact (
     bind (execute (insert_inbox \<lparr>in_id = iid, in_raw = raw, in_state = InboxPending,
             in_reply_to = 0, in_created_at = now, in_updated_at = now\<rparr>)) (\<lambda>_.
     bind (execute (raise_offset (wrap64 (iid + 1)))) (\<lambda>_.
     commit ())))"

definition AcceptIgnored :: "int64 \<Rightarrow> int64 \<Rightarrow> unit store" where
  "AcceptIgnored now iid = transact (
     bind (execute (insert_inbox \<lparr>in_id = iid, in_raw = [], in_state = InboxIgnored,
             in_reply_to = 0, in_created_at = now, in_updated_at = now\<rparr>)) (\<lambda>_.
     bind (execute (raise_offset (wrap64 (iid + 1)))) (\<lambda>_.
     commit ())))"

definition Offset :: "int64 store" where
  "Offset = on_no_rows (query_row (\<lambda>d. meta d ''offset'')) (give 0) give"

definition CheckBot :: "int64 \<Rightarrow> unit store" where
  "CheckBot iid =
     bind (execute (\<lambda>d. if meta d ''bot'' = None then d\<lparr>meta := (meta d)(''bot'' \<mapsto> iid)\<rparr> else d)) (\<lambda>_.
     bind (query_row (\<lambda>d. meta d ''bot'')) (\<lambda>old.
     if old \<noteq> iid then throw (ErrMsg ''data directory belongs to another bot'') else give ()))"

section \<open>Pending inputs\<close>

definition PendingAfter :: "int64 \<Rightarrow> int64 \<Rightarrow> int \<Rightarrow> Input list store" where
  "PendingAfter afterID throughID limit =
     (if limit \<le> 0 then throw (ErrMsg ''pending input limit must be positive'')
      else query (\<lambda>d. map (\<lambda>r. \<lparr>input_id = in_id r, input_raw = in_raw r\<rparr>)
        (take (nat limit) (select_by in_id
           (\<lambda>r. in_state r = InboxPending \<and> afterID < in_id r \<and> in_id r \<le> throughID) (inbox d)))))"

definition Pending :: "int \<Rightarrow> Input list store" where
  "Pending limit = PendingAfter (-1) max_int64 limit"

definition pendingIDQueryBatchSize :: nat where
  "pendingIDQueryBatchSize = 500"

definition pending_batch :: "int64 list \<Rightarrow> database \<Rightarrow> int64 list" where
  "pending_batch batch d =
     map in_id (filter (\<lambda>r. in_state r = InboxPending \<and> in_id r \<in> set batch) (inbox d))"

function pending_ids_loop :: "int64 list \<Rightarrow> int64 set \<Rightarrow> int64 set store" where
  "pending_ids_loop ids pending =
     (if ids = [] then give pending
      else bind (query (pending_batch (take pendingIDQueryBatchSize ids))) (\<lambda>found.
             pending_ids_loop (drop pendingIDQueryBatchSize ids) (pending \<union> set found)))"
  by pat_completeness auto
termination
  by (relation "measure (length \<circ> fst)") (auto simp: pendingIDQueryBatchSize_def)

declare pending_ids_loop.simps [simp del]

definition PendingIDs :: "int64 list \<Rightarrow> int64 set store" where
  "PendingIDs ids = pending_ids_loop ids {}"

definition InboxUncertainCount :: "nat store" where
  "InboxUncertainCount = query (\<lambda>d. count_rows (\<lambda>r. in_state r = InboxUncertain) (inbox d))"

definition Uncertain :: "nat store" where
  "Uncertain = query (\<lambda>d. count_rows (\<lambda>r. in_state r = InboxUncertain) (inbox d) +
     count_rows (\<lambda>r. out_state r = OutboxUncertain) (outbox d))"

section \<open>State transitions\<close>

fun mark_expected :: "inbox_state \<Rightarrow> inbox_state list option" where
  "mark_expected InboxSubmitted = Some [InboxPending]"
| "mark_expected InboxDone = Some [InboxPending, InboxSubmitted]"
| "mark_expected InboxCancelled = Some [InboxPending, InboxSubmitted]"
| "mark_expected InboxFailed = Some [InboxPending]"
| "mark_expected InboxIgnored = Some [InboxPending]"
| "mark_expected InboxUncertain = Some [InboxSubmitted]"
| "mark_expected InboxPending = None"

definition Mark :: "int64 \<Rightarrow> int64 \<Rightarrow> inbox_state \<Rightarrow> unit store" where
  "Mark now iid state =
     (case mark_expected state of
        None \<Rightarrow> throw ErrInboxStateTransition
      | Some expected \<Rightarrow>
          bind (exec (update_inbox (\<lambda>r. in_id r = iid \<and> in_state r \<in> set expected)
            (\<lambda>r. r\<lparr>in_raw := (if state = InboxIgnored then [] else in_raw r),
                   in_state := state, in_updated_at := now\<rparr>))) (\<lambda>changed.
          if changed \<noteq> 1 then throw ErrInboxStateTransition else give ()))"

definition FinishSubmitted :: "int64 \<Rightarrow> int64 \<Rightarrow> inbox_state \<Rightarrow> unit store" where
  "FinishSubmitted now iid state =
     (if state \<notin> {InboxDone, InboxCancelled, InboxFailed, InboxUncertain}
      then throw ErrInboxStateTransition
      else bind (exec (update_inbox (\<lambda>r. in_id r = iid \<and> in_state r = InboxSubmitted)
             (\<lambda>r. r\<lparr>in_state := state, in_updated_at := now\<rparr>))) (\<lambda>changed.
           if changed \<noteq> 1 then throw ErrInboxStateTransition else give ()))"

definition Submit :: "int64 \<Rightarrow> int64 \<Rightarrow> int64 \<Rightarrow> unit store" where
  "Submit now iid replyTo =
     (if replyTo < 0 then throw (ErrMsg ''invalid reply target'')
      else bind (exec (update_inbox (\<lambda>r. in_id r = iid \<and> in_state r = InboxPending)
             (\<lambda>r. r\<lparr>in_state := InboxSubmitted, in_reply_to := replyTo, in_updated_at := now\<rparr>))) (\<lambda>changed.
           if changed \<noteq> 1 then throw ErrInboxStateTransition else give ()))"

text \<open>\<open>followup.go\<close> and \<open>final_actions.go\<close> settle callbacks with these two updates.\<close>

definition CancelPendingFollowupInbox :: "int64 \<Rightarrow> int64 \<Rightarrow> unit store" where
  "CancelPendingFollowupInbox now inboxID =
     execute (\<lambda>d. snd (update_inbox (\<lambda>r. in_id r = inboxID \<and> in_state r = InboxPending)
       (\<lambda>r. r\<lparr>in_state := InboxCancelled, in_updated_at := now\<rparr>) d))"

definition SettleRejectedFinalAction :: "int64 \<Rightarrow> int64 \<Rightarrow> unit store" where
  "SettleRejectedFinalAction now inboxID =
     execute (\<lambda>d. snd (update_inbox (\<lambda>r. in_id r = inboxID \<and> in_state r = InboxPending
         \<and> \<not> exists_row (\<lambda>a. fa_consumed_by a = in_id r) (final_actions d))
       (\<lambda>r. r\<lparr>in_state := InboxDone, in_updated_at := now\<rparr>) d))"

section \<open>What a successful call did\<close>

lemma Accept_ok:
  "Accept now iid raw w = (Inr u, w') \<Longrightarrow>
   db w' = raise_offset (wrap64 (iid + 1)) (insert_inbox \<lparr>in_id = iid, in_raw = raw, in_state = InboxPending,
     in_reply_to = 0, in_created_at = now, in_updated_at = now\<rparr> (db w))"
  by (auto simp: Accept_def sql_ok)

lemma AcceptIgnored_ok:
  "AcceptIgnored now iid w = (Inr u, w') \<Longrightarrow>
   db w' = raise_offset (wrap64 (iid + 1)) (insert_inbox \<lparr>in_id = iid, in_raw = [], in_state = InboxIgnored,
     in_reply_to = 0, in_created_at = now, in_updated_at = now\<rparr> (db w))"
  by (auto simp: AcceptIgnored_def sql_ok)

lemma Mark_ok:
  assumes "Mark now iid state w = (Inr u, w')"
  obtains expected where "mark_expected state = Some expected"
    and "\<exists>r \<in> set (inbox (db w)). in_id r = iid \<and> in_state r \<in> set expected"
    and "db w' = (db w)\<lparr>inbox := update_rows (\<lambda>r. in_id r = iid \<and> in_state r \<in> set expected)
      (\<lambda>r. r\<lparr>in_raw := (if state = InboxIgnored then [] else in_raw r),
             in_state := state, in_updated_at := now\<rparr>) (inbox (db w))\<rparr>"
  using assms
  by (auto simp: Mark_def sql_ok update_inbox_def dest!: count_rows_one_ex
      split: option.splits if_splits)

lemma Submit_ok:
  assumes "Submit now iid replyTo w = (Inr u, w')"
  shows "0 \<le> replyTo" and "\<exists>r \<in> set (inbox (db w)). in_id r = iid \<and> in_state r = InboxPending"
    and "db w' = (db w)\<lparr>inbox := update_rows (\<lambda>r. in_id r = iid \<and> in_state r = InboxPending)
      (\<lambda>r. r\<lparr>in_state := InboxSubmitted, in_reply_to := replyTo, in_updated_at := now\<rparr>) (inbox (db w))\<rparr>"
  using assms
  by (auto simp: Submit_def sql_ok update_inbox_def dest!: count_rows_one_ex split: if_splits)

lemma pending_ids_loop_run:
  "pending_ids_loop ids acc (healthy d) =
     (Inr (acc \<union> {in_id r | r. r \<in> set (inbox d) \<and> in_state r = InboxPending \<and> in_id r \<in> set ids}),
      healthy d)"
proof (induction ids acc rule: pending_ids_loop.induct)
  case (1 ids acc)
  show ?case
  proof (cases "ids = []")
    case False
    have "set ids = set (take pendingIDQueryBatchSize ids) \<union> set (drop pendingIDQueryBatchSize ids)"
      by (metis append_take_drop_id set_append)
    then show ?thesis
      using "1.IH" [OF False, of "pending_batch (take pendingIDQueryBatchSize ids) d"]
      by (subst pending_ids_loop.simps) (auto simp: False sql_run pending_batch_def)
  qed (subst pending_ids_loop.simps, simp add: sql_run)
qed

end
