(* ===== verification/StoreOutbox.thy ===== *)
theory StoreOutbox
  imports StoreInbox
begin

text \<open>
  The durable outbox of \<open>store.go\<close>: queueing of replies, the delivery claim of the sender,
  retries, and the later edits of a delivered message (status header, buttons).
\<close>

section \<open>Rows and insertion\<close>

text \<open>\<open>outputColumns\<close> and \<open>scanOutput\<close>.\<close>

definition scanOutput :: "outbox_row \<Rightarrow> Output" where
  "scanOutput r =
     \<lparr>o_id = out_id r, o_inbox_id = out_inbox_id r, o_chat = out_chat r, o_thread = out_thread r,
      o_reply_to = out_reply_to r, o_text = out_text r, o_kind = out_kind r, o_path = out_path r,
      o_name = out_name r, o_next_attempt_at = out_next_attempt_at r,
      o_attempt_count = out_attempt_count r, o_server_retry_count = out_server_retry_count r,
      o_header = out_header r, o_header_editable = out_header_editable r,
      o_message_id = out_message_id r, o_assistant_body = out_assistant_body r,
      o_final_actions = out_final_actions r\<rparr>"

text \<open>A new row: the columns an insert names, the others at their declared defaults.\<close>

definition queued_row :: "int64 \<Rightarrow> int64 \<Rightarrow> int64 \<Rightarrow> string \<Rightarrow> outbox_row" where
  "queued_row now chat thread text =
     \<lparr>out_id = 0, out_inbox_id = 0, out_chat = chat, out_thread = thread, out_text = text,
      out_state = OutboxPending, out_reply_to = 0, out_kind = ''text'', out_path = [], out_name = [],
      out_created_at = now, out_updated_at = now, out_next_attempt_at = now, out_attempt_count = 0,
      out_server_retry_count = 0, out_header = [], out_message_id = 0, out_header_pending = False,
      out_header_editable = False, out_assistant_body = False, out_final_actions = [],
      out_actions_pending = 0\<rparr>"

text \<open>The primary key is \<open>AUTOINCREMENT\<close>: an id is never given twice, also after a cleanup.\<close>

definition insert_outbox :: "outbox_row \<Rightarrow> database \<Rightarrow> int64 \<times> database" where
  "insert_outbox r d =
     (outbox_seq d + 1,
      d\<lparr>outbox := outbox d @ [r\<lparr>out_id := outbox_seq d + 1\<rparr>], outbox_seq := outbox_seq d + 1\<rparr>)"

definition Enqueue :: "int64 \<Rightarrow> int64 \<Rightarrow> int64 \<Rightarrow> string \<Rightarrow> unit store" where
  "Enqueue now chat thread text = execute (\<lambda>d. snd (insert_outbox (queued_row now chat thread text) d))"

definition EnqueueAttachment ::
  "int64 \<Rightarrow> int64 \<Rightarrow> int64 \<Rightarrow> string \<Rightarrow> string \<Rightarrow> string \<Rightarrow> string \<Rightarrow> unit store" where
  "EnqueueAttachment now chat thread kind path name caption =
     (if kind \<noteq> ''photo'' \<and> kind \<noteq> ''document'' then throw (ErrMsg ''unsupported attachment kind'')
      else execute (\<lambda>d. snd (insert_outbox
        ((queued_row now chat thread caption)\<lparr>out_kind := kind, out_path := path, out_name := name\<rparr>) d)))"

section \<open>Replies of a submitted input\<close>

text \<open>The reply target of the next message: none once the input has a text output.\<close>

definition reply_target :: "int64 \<Rightarrow> database \<Rightarrow> int64 option" where
  "reply_target iid d =
     map_option (\<lambda>r. if exists_row (\<lambda>q. out_inbox_id q = in_id r \<and> out_kind q = ''text'') (outbox d)
                     then 0 else in_reply_to r)
       (find (\<lambda>r. in_id r = iid \<and> in_state r = InboxSubmitted) (inbox d))"

definition reply_row ::
  "int64 \<Rightarrow> int64 \<Rightarrow> int64 \<Rightarrow> int64 \<Rightarrow> string \<Rightarrow> string \<Rightarrow> bool \<Rightarrow> bool \<Rightarrow> int64 \<Rightarrow> outbox_row" where
  "reply_row now iid chat thread reply header headerEditable body replyTo =
     (queued_row now chat thread reply)\<lparr>out_inbox_id := iid, out_header := header,
        out_header_editable := headerEditable, out_assistant_body := body, out_reply_to := replyTo\<rparr>"

fun append_loop ::
  "int64 \<Rightarrow> int64 \<Rightarrow> int64 \<Rightarrow> int64 \<Rightarrow> int \<Rightarrow> int \<Rightarrow> string list \<Rightarrow> string \<Rightarrow> bool \<Rightarrow> int64 \<Rightarrow> int64 \<Rightarrow> int64 store" where
  "append_loop now iid chat thread bodyParts i [] header headerEditable replyTo firstID = give firstID"
| "append_loop now iid chat thread bodyParts i (reply # replies) header headerEditable replyTo firstID =
     bind (exec (insert_outbox (reply_row now iid chat thread reply header headerEditable (i < bodyParts) replyTo)))
       (\<lambda>new. if i = 0
              then append_loop now iid chat thread bodyParts (i + 1) replies [] False 0 new
              else append_loop now iid chat thread bodyParts (i + 1) replies header headerEditable 0 firstID)"

definition appendInboxReplies ::
  "int64 \<Rightarrow> int64 \<Rightarrow> int64 \<Rightarrow> int64 \<Rightarrow> string list \<Rightarrow> string \<Rightarrow> bool \<Rightarrow> int \<Rightarrow> int64 store" where
  "appendInboxReplies now iid chat thread replies header headerEditable bodyParts = transact (
     on_no_rows (query_row (reply_target iid)) (throw (ErrMsg ''input is not submitted'')) (\<lambda>replyTo.
     bind (append_loop now iid chat thread bodyParts 0 replies header headerEditable replyTo 0) (\<lambda>firstID.
     commit firstID)))"

definition AppendInboxReplies ::
  "int64 \<Rightarrow> int64 \<Rightarrow> int64 \<Rightarrow> int64 \<Rightarrow> string list \<Rightarrow> unit store" where
  "AppendInboxReplies now iid chat thread replies =
     bind (appendInboxReplies now iid chat thread replies [] False 0) (\<lambda>_. give ())"

definition AppendAssistantReplies ::
  "int64 \<Rightarrow> int64 \<Rightarrow> int64 \<Rightarrow> int64 \<Rightarrow> string list \<Rightarrow> string \<Rightarrow> int64 store" where
  "AppendAssistantReplies now iid chat thread replies header =
     appendInboxReplies now iid chat thread replies header True (int (length replies))"

definition AppendAssistantBodyReplies ::
  "int64 \<Rightarrow> int64 \<Rightarrow> int64 \<Rightarrow> int64 \<Rightarrow> string list \<Rightarrow> string \<Rightarrow> int \<Rightarrow> int64 store" where
  "AppendAssistantBodyReplies now iid chat thread replies header bodyParts =
     appendInboxReplies now iid chat thread replies header True bodyParts"

text \<open>\<open>header=?, header_pending=CASE WHEN header<>? THEN 1 ELSE header_pending END, updated_at=?\<close>.\<close>

definition set_header :: "int64 \<Rightarrow> string \<Rightarrow> outbox_row \<Rightarrow> outbox_row" where
  "set_header now header r =
     r\<lparr>out_header_pending := (if out_header r \<noteq> header then True else out_header_pending r),
       out_header := header, out_updated_at := now\<rparr>"

definition SetAssistantHeader :: "int64 \<Rightarrow> int64 \<Rightarrow> string \<Rightarrow> unit store" where
  "SetAssistantHeader now oid header =
     bind (exec (update_outbox (\<lambda>r. out_id r = oid \<and> out_kind r = ''text'' \<and> out_header_editable r)
       (set_header now header))) (\<lambda>changed.
     if changed \<noteq> 1 then throw ErrNoRows else give ())"

section \<open>Delivery\<close>

definition NextOutput :: "Output store" where
  "NextOutput = query_row (\<lambda>d. map_option scanOutput
     (first_by out_id (\<lambda>r. out_state r = OutboxPending) (outbox d)))"

definition same_conversation :: "outbox_row \<Rightarrow> outbox_row \<Rightarrow> bool" where
  "same_conversation r r' \<longleftrightarrow> out_chat r = out_chat r' \<and> out_thread r = out_thread r'"

definition in_flight :: "outbox_row \<Rightarrow> bool" where
  "in_flight r \<longleftrightarrow> out_state r = OutboxPending \<or> out_state r = OutboxSending"

definition HasPendingOutputs :: "int64 \<Rightarrow> int64 \<Rightarrow> bool store" where
  "HasPendingOutputs chat thread =
     query (\<lambda>d. exists_row (\<lambda>r. out_chat r = chat \<and> out_thread r = thread \<and> in_flight r) (outbox d))"

text \<open>The candidate condition of \<open>ClaimNextOutput\<close>.\<close>

definition claimable :: "int64 \<Rightarrow> outbox_row list \<Rightarrow> outbox_row \<Rightarrow> bool" where
  "claimable now rows candidate \<longleftrightarrow>
     out_state candidate = OutboxPending \<and> out_next_attempt_at candidate \<le> now \<and>
     \<not> exists_row (\<lambda>active. same_conversation active candidate \<and> out_state active = OutboxSending) rows \<and>
     \<not> exists_row (\<lambda>earlier. same_conversation earlier candidate \<and> out_id earlier < out_id candidate
                     \<and> in_flight earlier) rows"

definition ClaimNextOutput :: "int64 \<Rightarrow> int64 \<Rightarrow> Output store" where
  "ClaimNextOutput clock now = transact (
     bind (query_row (\<lambda>d. map_option scanOutput
       (first_by out_id (claimable now (outbox d)) (outbox d)))) (\<lambda>out.
     bind (exec (update_outbox (\<lambda>r. out_id r = o_id out \<and> out_state r = OutboxPending)
       (\<lambda>r. r\<lparr>out_state := OutboxSending, out_attempt_count := out_attempt_count r + 1,
              out_updated_at := clock\<rparr>))) (\<lambda>changed.
     if changed \<noteq> 1 then throw ErrOutboxStateTransition
     else commit (out\<lparr>o_attempt_count := wrap64 (o_attempt_count out + 1)\<rparr>))))"

definition RetryOutput :: "int64 \<Rightarrow> int64 \<Rightarrow> int64 \<Rightarrow> unit store" where
  "RetryOutput now oid nextAttemptAt =
     bind (exec (update_outbox (\<lambda>r. out_id r = oid \<and> out_state r = OutboxSending)
       (\<lambda>r. r\<lparr>out_state := OutboxPending, out_next_attempt_at := nextAttemptAt, out_updated_at := now\<rparr>)))
     (\<lambda>changed. if changed \<noteq> 1 then throw ErrOutboxStateTransition else give ())"

definition RetryServerOutput :: "int64 \<Rightarrow> int64 \<Rightarrow> int64 \<Rightarrow> int64 \<Rightarrow> (int64 \<times> bool) store" where
  "RetryServerOutput now oid nextAttemptAt maxAttempts =
     (if maxAttempts < 1 then throw (ErrMsg ''server retry limit must be positive'')
      else transact (
        on_no_rows (query_row (\<lambda>d. map_option out_server_retry_count
            (find (\<lambda>r. out_id r = oid \<and> out_state r = OutboxSending) (outbox d))))
          (throw ErrOutboxStateTransition) (\<lambda>stored.
        (let retryCount = wrap64 (stored + 1);
             exhausted = maxAttempts \<le> retryCount;
             state = (if exhausted then OutboxFailed else OutboxPending);
             next = (if exhausted then 0 else nextAttemptAt)
         in bind (exec (update_outbox (\<lambda>r. out_id r = oid \<and> out_state r = OutboxSending)
              (\<lambda>r. r\<lparr>out_state := state, out_server_retry_count := retryCount,
                     out_next_attempt_at := next, out_updated_at := now\<rparr>))) (\<lambda>changed.
            if changed \<noteq> 1 then throw ErrOutboxStateTransition
            else commit (retryCount, exhausted))))))"

fun output_expected :: "outbox_state \<Rightarrow> outbox_state option" where
  "output_expected OutboxSending = Some OutboxPending"
| "output_expected OutboxDone = Some OutboxSending"
| "output_expected OutboxFailed = Some OutboxSending"
| "output_expected OutboxUncertain = Some OutboxSending"
| "output_expected OutboxCancelled = Some OutboxSending"
| "output_expected OutboxSent = Some OutboxSending"
| "output_expected OutboxPending = None"

definition MarkOutput :: "int64 \<Rightarrow> int64 \<Rightarrow> outbox_state \<Rightarrow> unit store" where
  "MarkOutput now oid state =
     (case output_expected state of
        None \<Rightarrow> throw ErrOutboxStateTransition
      | Some expected \<Rightarrow>
          bind (exec (update_outbox (\<lambda>r. out_id r = oid \<and> out_state r = expected)
            (\<lambda>r. r\<lparr>out_state := state, out_next_attempt_at := 0, out_updated_at := now\<rparr>)))
          (\<lambda>changed. if changed \<noteq> 1 then throw ErrOutboxStateTransition else give ()))"

definition MarkOutputDelivered :: "int64 \<Rightarrow> int64 \<Rightarrow> int64 \<Rightarrow> string \<Rightarrow> string \<Rightarrow> unit store" where
  "MarkOutputDelivered now oid messageID sentHeader markup =
     bind (exec (update_outbox (\<lambda>r. out_id r = oid \<and> out_state r = OutboxSending)
       (\<lambda>r. r\<lparr>out_state := OutboxDone, out_message_id := messageID,
              out_header_pending := (out_header_editable r \<and> out_header r \<noteq> sentHeader),
              out_actions_pending := (if out_final_actions r \<noteq> markup then 1 else 0),
              out_next_attempt_at := 0, out_updated_at := now\<rparr>)))
     (\<lambda>changed. if changed \<noteq> 1 then throw ErrOutboxStateTransition else give ())"

section \<open>Edits of delivered messages\<close>

definition header_edit_due :: "outbox_row \<Rightarrow> bool" where
  "header_edit_due r \<longleftrightarrow> out_state r = OutboxDone \<and> out_header_editable r \<and> out_header_pending r
     \<and> 0 < out_message_id r \<and> out_actions_pending r \<noteq> 2"

definition NextAssistantHeader :: "Output store" where
  "NextAssistantHeader = stmt (\<lambda>d.
     case first_by out_id header_edit_due (outbox d) of
       None \<Rightarrow> (Inl ErrNoRows, d)
     | Some r \<Rightarrow> (Inr (scanOutput (r\<lparr>out_actions_pending := 2\<rparr>)),
                 snd (update_outbox (\<lambda>r'. out_id r' = out_id r) (\<lambda>r'. r'\<lparr>out_actions_pending := 2\<rparr>) d)))"

definition MarkAssistantHeaderDelivered :: "int64 \<Rightarrow> string \<Rightarrow> string \<Rightarrow> unit store" where
  "MarkAssistantHeaderDelivered oid header actions = execute (\<lambda>d. snd (update_outbox
     (\<lambda>r. out_id r = oid \<and> out_header_editable r \<and> out_state r = OutboxDone \<and> out_actions_pending r = 2)
     (\<lambda>r. r\<lparr>out_header_pending := (if out_header r = header then False else out_header_pending r),
            out_actions_pending := (if out_final_actions r \<noteq> actions then 1 else 0)\<rparr>) d))"

definition ClaimFinalActionEdit :: "int64 \<Rightarrow> Output store" where
  "ClaimFinalActionEdit now = transact (
     bind (query_row (\<lambda>d. map_option scanOutput (first_by out_id
       (\<lambda>r. out_state r = OutboxDone \<and> out_actions_pending r = 1 \<and> 0 < out_message_id r) (outbox d)))) (\<lambda>out.
     bind (execute (\<lambda>d. snd (update_outbox (\<lambda>r. out_id r = o_id out \<and> out_actions_pending r = 1)
       (\<lambda>r. r\<lparr>out_actions_pending := 2, out_updated_at := now\<rparr>) d))) (\<lambda>_.
     commit out)))"

definition ReleaseAssistantEdit :: "int64 \<Rightarrow> unit store" where
  "ReleaseAssistantEdit oid = execute (\<lambda>d. snd (update_outbox
     (\<lambda>r. out_id r = oid \<and> out_state r = OutboxDone \<and> out_actions_pending r = 2)
     (\<lambda>r. r\<lparr>out_actions_pending := 1\<rparr>) d))"

definition FinishFinalActionEdit :: "int64 \<Rightarrow> string \<Rightarrow> unit store" where
  "FinishFinalActionEdit oid snapshot = execute (\<lambda>d. snd (update_outbox
     (\<lambda>r. out_id r = oid \<and> out_state r = OutboxDone \<and> out_actions_pending r = 2)
     (\<lambda>r. r\<lparr>out_actions_pending := (if out_final_actions r = snapshot then 0 else 1)\<rparr>) d))"

section \<open>Diagnostics\<close>

record delivery_counts =
  dc_pending :: nat
  dc_sending :: nat
  dc_uncertain :: nat

record delivery_diagnostics =
  dd_topic :: delivery_counts
  dd_global :: delivery_counts
  dd_oldest_pending_at :: int64
  dd_head_state :: "outbox_state option"
  dd_head_created_at :: int64
  dd_head_updated_at :: int64
  dd_head_next_attempt_at :: int64

definition count_states :: "outbox_row list \<Rightarrow> delivery_counts" where
  "count_states rows =
     \<lparr>dc_pending = count_rows (\<lambda>r. out_state r = OutboxPending) rows,
      dc_sending = count_rows (\<lambda>r. out_state r = OutboxSending) rows,
      dc_uncertain = count_rows (\<lambda>r. out_state r = OutboxUncertain) rows\<rparr>"

definition coalesce_min :: "int64 list \<Rightarrow> int64" where
  "coalesce_min xs = (case xs of [] \<Rightarrow> 0 | x # rest \<Rightarrow> fold min rest x)"

definition DeliveryDiagnostics :: "int64 \<Rightarrow> int64 \<Rightarrow> delivery_diagnostics store" where
  "DeliveryDiagnostics chat thread = query (\<lambda>d.
     (let topic = filter (\<lambda>r. out_chat r = chat \<and> out_thread r = thread) (outbox d);
          head = first_by out_id in_flight topic
      in \<lparr>dd_topic = count_states topic, dd_global = count_states (outbox d),
          dd_oldest_pending_at = coalesce_min (map out_created_at (filter (\<lambda>r. out_state r = OutboxPending) topic)),
          dd_head_state = map_option out_state head,
          dd_head_created_at = (case head of None \<Rightarrow> 0 | Some r \<Rightarrow> out_created_at r),
          dd_head_updated_at = (case head of None \<Rightarrow> 0 | Some r \<Rightarrow> out_updated_at r),
          dd_head_next_attempt_at = (case head of None \<Rightarrow> 0 | Some r \<Rightarrow> out_next_attempt_at r)\<rparr>))"

definition OutboxAttachmentPaths :: "string list store" where
  "OutboxAttachmentPaths = query (\<lambda>d. map out_path
     (filter (\<lambda>r. out_kind r \<in> {''photo'', ''document''} \<and> out_path r \<noteq> []) (outbox d)))"

end
