(* ===== verification/StoreBindings.thy ===== *)
theory StoreBindings
  imports StoreOutbox "HOL-Library.Product_Lexorder"
begin

text \<open>
  Session bindings, favorites and startup intents (\<open>store.go\<close>), with the two guards of
  \<open>migration.go\<close> that lock a conversation and its session files while a migration is
  unresolved.
\<close>

section \<open>Session identifiers\<close>

definition hex_or_dash :: "rune \<Rightarrow> bool" where
  "hex_or_dash r \<longleftrightarrow> r = 45 \<or> (48 \<le> r \<and> r \<le> 57) \<or> (97 \<le> r \<and> r \<le> 102) \<or> (65 \<le> r \<and> r \<le> 70)"

definition validSessionID :: "string \<Rightarrow> string" where
  "validSessionID sid =
     (if length sid < 8 \<or> 64 < length sid \<or> has_prefix sid ''-'' \<or> has_suffix sid ''-'' then []
      else if list_all (\<lambda>p. hex_or_dash (fst p)) (runes sid) then sid else [])"

definition sessionIDFromPath :: "string \<Rightarrow> string" where
  "sessionIDFromPath session =
     (let base = trim_suffix (path_base session) ''.jsonl''; whole = validSessionID base
      in if whole \<noteq> [] then whole
         else case after_last (CHR ''_'') base of None \<Rightarrow> [] | Some rest \<Rightarrow> validSessionID rest)"

section \<open>Migration guards\<close>

definition migrationGuard :: "conversation \<Rightarrow> unit store" where
  "migrationGuard conv =
     bind (query (\<lambda>d. exists_row (\<lambda>m. m_conv m = conv) (migrations d))) (\<lambda>locked.
     if locked then throw ErrMigrationLocked else give ())"

definition session_locked :: "int64 \<Rightarrow> string \<Rightarrow> string \<Rightarrow> migration \<Rightarrow> bool" where
  "session_locked botID file sid m \<longleftrightarrow> b_bot (m_source m) = botID \<and>
     ((file \<noteq> [] \<and> (b_session (m_source m) = file \<or> m_candidate_file m = file)) \<or>
      (sid \<noteq> [] \<and> (eq_nocase (b_session_id (m_source m)) sid \<or> eq_nocase (m_candidate_id m) sid)))"

definition migrationSessionGuard :: "int64 \<Rightarrow> string \<Rightarrow> string \<Rightarrow> unit store" where
  "migrationSessionGuard botID file sid =
     bind (query (\<lambda>d. exists_row (session_locked botID file sid) (migrations d))) (\<lambda>locked.
     if locked then throw ErrMigrationLocked else give ())"

definition migrating :: "conversation \<Rightarrow> database \<Rightarrow> bool" where
  "migrating conv d \<longleftrightarrow> exists_row (\<lambda>m. m_conv m = conv) (migrations d)"

definition starting :: "conversation \<Rightarrow> database \<Rightarrow> bool" where
  "starting conv d \<longleftrightarrow> exists_row (\<lambda>i. ir_conv i = conv) (startup_intents d)"

section \<open>Bindings\<close>

definition find_binding :: "conversation \<Rightarrow> database \<Rightarrow> binding option" where
  "find_binding conv d = find (\<lambda>b. b_conv b = conv) (bindings d)"

definition Binding :: "int64 \<Rightarrow> int64 \<Rightarrow> int64 \<Rightarrow> binding store" where
  "Binding botID chat thread = query_row (find_binding (botID, chat, thread))"

definition upsert_binding :: "binding \<Rightarrow> database \<Rightarrow> database" where
  "upsert_binding b d =
     (if exists_row (\<lambda>b'. b_conv b' = b_conv b) (bindings d)
      then d\<lparr>bindings := update_rows (\<lambda>b'. b_conv b' = b_conv b) (\<lambda>_. b) (bindings d)\<rparr>
      else d\<lparr>bindings := bindings d @ [b]\<rparr>)"

definition archive_binding :: "conversation \<Rightarrow> database \<Rightarrow> database" where
  "archive_binding conv d = d\<lparr>history := history d @
     map (\<lambda>b. \<lparr>h_bot = b_bot b, h_chat = b_chat b, h_thread = b_thread b, h_workspace = b_workspace b,
               h_session = b_session b, h_generation = b_generation b\<rparr>)
       (filter (\<lambda>b. b_conv b = conv) (bindings d))\<rparr>"

definition Save :: "binding \<Rightarrow> unit store" where
  "Save b = transact (
     bind (migrationGuard (b_conv b)) (\<lambda>_.
     bind (migrationSessionGuard (b_bot b) (b_session b) (b_session_id b)) (\<lambda>_.
     bind (execute (archive_binding (b_conv b))) (\<lambda>_.
     bind (execute (upsert_binding b)) (\<lambda>_.
     commit ())))))"

definition TouchBinding :: "int64 \<Rightarrow> int64 \<Rightarrow> int64 \<Rightarrow> int64 \<Rightarrow> int64 \<Rightarrow> bool store" where
  "TouchBinding botID chat thread generation usedAt =
     bind (exec (\<lambda>d. update_bindings (\<lambda>b. b_conv b = (botID, chat, thread) \<and> b_generation b = generation
         \<and> \<not> migrating (botID, chat, thread) d) (\<lambda>b. b\<lparr>b_last_used_at := usedAt\<rparr>) d)) (\<lambda>changed.
     give (changed = 1))"

definition DeleteClosedBinding :: "int64 \<Rightarrow> int64 \<Rightarrow> int64 \<Rightarrow> int64 \<Rightarrow> bool store" where
  "DeleteClosedBinding botID chat thread generation = transact (
     bind (exec (\<lambda>d. delete_bindings (\<lambda>b. b_conv b = (botID, chat, thread) \<and> b_generation b = generation
         \<and> \<not> b_running b \<and> \<not> starting (botID, chat, thread) d \<and> \<not> migrating (botID, chat, thread) d) d)) (\<lambda>changed.
     if changed \<noteq> 1 then abandon False
     else bind (execute (\<lambda>d. d\<lparr>history := delete_rows (\<lambda>h. h_conv h = (botID, chat, thread)) (history d)\<rparr>)) (\<lambda>_.
          bind (execute (\<lambda>d. d\<lparr>session_favorites :=
            delete_rows (\<lambda>f. f_conv f = (botID, chat, thread)) (session_favorites d)\<rparr>)) (\<lambda>_.
          commit True))))"

definition RunningBindings :: "int64 \<Rightarrow> binding list store" where
  "RunningBindings botID = query (\<lambda>d. select_by (\<lambda>b. (b_chat b, b_thread b))
     (\<lambda>b. b_bot b = botID \<and> b_running b) (bindings d))"

definition SetRunning :: "binding \<Rightarrow> bool \<Rightarrow> unit store" where
  "SetRunning b running =
     bind (exec (\<lambda>d. update_bindings (\<lambda>b'. b_conv b' = b_conv b \<and> b_generation b' = b_generation b
         \<and> \<not> migrating (b_conv b) d) (\<lambda>b'. b'\<lparr>b_running := running\<rparr>) d)) (\<lambda>changed.
     if changed \<noteq> 1 then throw ErrStaleBinding else give ())"

definition SetInterrupted :: "binding \<Rightarrow> bool \<Rightarrow> unit store" where
  "SetInterrupted b interrupted =
     bind (exec (update_bindings (\<lambda>b'. b_conv b' = b_conv b \<and> b_generation b' = b_generation b)
         (\<lambda>b'. b'\<lparr>b_interrupted := interrupted\<rparr>))) (\<lambda>changed.
     if changed \<noteq> 1 then throw ErrStaleBinding else give ())"

text \<open>Recovery of session identifiers from the file names of rows an older version wrote.\<close>

definition backfillSessionIDs :: "unit store" where
  "backfillSessionIDs =
     bind (query (\<lambda>d. filter (\<lambda>p. snd p \<noteq> [])
       (map (\<lambda>b. (b_conv b, sessionIDFromPath (b_session b))) (filter (\<lambda>b. b_session_id b = []) (bindings d))))) (\<lambda>ids.
     fold (\<lambda>(key, sid) rest. bind rest (\<lambda>_. execute (\<lambda>d. snd (update_bindings (\<lambda>b. b_conv b = key)
       (\<lambda>b. b\<lparr>b_session_id := sid\<rparr>) d)))) ids (give ()))"

section \<open>The binding list of a chat\<close>

record binding_list_entry =
  ble_binding :: "binding option"
  ble_intent :: "start_intent option"

definition intents_by :: "(start_intent \<Rightarrow> bool) \<Rightarrow> database \<Rightarrow> start_intent list" where
  "intents_by p d = map ir_intent (select_by (\<lambda>r. (si_chat (ir_intent r), si_thread (ir_intent r)))
     (\<lambda>r. p (ir_intent r)) (startup_intents d))"

definition BindingsForChat :: "int64 \<Rightarrow> int64 \<Rightarrow> binding_list_entry list store" where
  "BindingsForChat botID chat =
     bind (query (\<lambda>d. select_by b_thread (\<lambda>b. b_bot b = botID \<and> b_chat b = chat) (bindings d))) (\<lambda>bs.
     bind (query (intents_by (\<lambda>i. si_bot i = botID \<and> si_chat i = chat))) (\<lambda>is.
     give (map (\<lambda>key. \<lparr>ble_binding = map_of (rev (map (\<lambda>b. (b_conv b, b)) bs)) key,
                       ble_intent = map_of (rev (map (\<lambda>i. (si_conv i, i)) is)) key\<rparr>)
       (sort_key (\<lambda>key. snd (snd key)) (remdups (map b_conv bs @ map si_conv is))))))"

section \<open>Favorites\<close>

definition PinnedSessions :: "int64 \<Rightarrow> int64 \<Rightarrow> int64 \<Rightarrow> string \<Rightarrow> string set store" where
  "PinnedSessions botID chat thread workspace = query (\<lambda>d. set (map (\<lambda>f. to_lower (f_session_id f))
     (filter (\<lambda>f. f_conv f = (botID, chat, thread) \<and> f_workspace f = workspace) (session_favorites d))))"

definition pin :: "favorite_row \<Rightarrow> bool \<Rightarrow> database \<Rightarrow> database" where
  "pin f pinned d =
     (if pinned
      then (if exists_row (\<lambda>f'. f' = f) (session_favorites d) then d
            else d\<lparr>session_favorites := session_favorites d @ [f]\<rparr>)
      else d\<lparr>session_favorites := delete_rows (\<lambda>f'. f' = f) (session_favorites d)\<rparr>)"

definition favorite :: "int64 \<Rightarrow> int64 \<Rightarrow> int64 \<Rightarrow> string \<Rightarrow> string \<Rightarrow> favorite_row" where
  "favorite botID chat thread workspace sid = \<lparr>f_bot = botID, f_chat = chat, f_thread = thread,
     f_workspace = workspace, f_session_id = to_lower sid\<rparr>"

definition SetPinnedSession :: "int64 \<Rightarrow> int64 \<Rightarrow> int64 \<Rightarrow> string \<Rightarrow> string \<Rightarrow> bool \<Rightarrow> unit store" where
  "SetPinnedSession botID chat thread workspace sessionID pinned =
     (if workspace = [] \<or> sessionID = [] then throw (ErrMsg ''invalid pinned session'')
      else execute (pin (favorite botID chat thread workspace sessionID) pinned))"

definition SetPinnedSessionIfGeneration ::
  "int64 \<Rightarrow> int64 \<Rightarrow> int64 \<Rightarrow> int64 \<Rightarrow> string \<Rightarrow> string \<Rightarrow> bool \<Rightarrow> bool store" where
  "SetPinnedSessionIfGeneration botID chat thread generation workspace sessionID pinned =
     (if workspace = [] \<or> sessionID = [] then throw (ErrMsg ''invalid pinned session'')
      else transact (
        on_no_rows (query_row (\<lambda>d. map_option b_generation (find_binding (botID, chat, thread) d)))
          (abandon False) (\<lambda>current.
        if current \<noteq> generation then abandon False
        else bind (execute (pin (favorite botID chat thread workspace sessionID) pinned)) (\<lambda>_.
             commit True))))"

section \<open>Deleting the references to a session\<close>

definition deleteSessionReferences :: "int64 \<Rightarrow> string \<Rightarrow> string \<Rightarrow> nat store" where
  "deleteSessionReferences botID sessionID missingFile =
     (if sessionID = [] then throw (ErrMsg ''invalid session ID'')
      else transact (
        bind (query (\<lambda>d. exists_row (\<lambda>m. b_bot (m_source m) = botID \<and>
            (eq_nocase (b_session_id (m_source m)) sessionID \<or> eq_nocase (m_candidate_id m) sessionID)) (migrations d))) (\<lambda>locked.
        if locked then throw ErrMigrationLocked
        else bind (if missingFile \<noteq> []
                   then bind (query (\<lambda>d. exists_row (\<lambda>b. b_bot b = botID \<and> eq_nocase (b_session_id b) sessionID
                               \<and> b_session b \<noteq> missingFile) (bindings d))) (\<lambda>conflicting.
                        if conflicting then throw ErrSessionPathConflict else give ())
                   else give ()) (\<lambda>_.
             bind (execute (\<lambda>d. d\<lparr>history := delete_rows (\<lambda>h. h_bot h = botID \<and> h_session h \<noteq> [] \<and>
                 exists_row (\<lambda>b. b_bot b = botID \<and> eq_nocase (b_session_id b) sessionID
                   \<and> b_session b \<noteq> [] \<and> b_session b = h_session h) (bindings d)) (history d)\<rparr>)) (\<lambda>_.
             bind (exec (delete_bindings (\<lambda>b. b_bot b = botID \<and> eq_nocase (b_session_id b) sessionID))) (\<lambda>count.
             bind (execute (\<lambda>d. d\<lparr>session_favorites := delete_rows
                 (\<lambda>f. f_bot f = botID \<and> eq_nocase (f_session_id f) sessionID) (session_favorites d)\<rparr>)) (\<lambda>_.
             commit count)))))))"

definition DeleteSessionReferences :: "int64 \<Rightarrow> string \<Rightarrow> nat store" where
  "DeleteSessionReferences botID sessionID = deleteSessionReferences botID sessionID []"

definition DeleteMissingSessionReferences :: "int64 \<Rightarrow> string \<Rightarrow> string \<Rightarrow> nat store" where
  "DeleteMissingSessionReferences botID sessionID sessionFile =
     (if \<not> path_is_abs sessionFile then throw (ErrMsg ''invalid missing session file'')
      else deleteSessionReferences botID sessionID sessionFile)"

section \<open>Startup intents\<close>

definition PrepareStart :: "int64 \<Rightarrow> binding \<Rightarrow> start_intent \<Rightarrow> unit store" where
  "PrepareStart now previous intent =
     (if b_generation previous < 0 \<or> (si_kind intent \<noteq> ''new'' \<and> si_kind intent \<noteq> ''resume'')
         \<or> si_generation intent \<noteq> wrap64 (b_generation previous + 1) \<or> si_bot intent \<noteq> b_bot previous
         \<or> si_chat intent \<noteq> b_chat previous \<or> si_thread intent \<noteq> b_thread previous
      then throw (ErrMsg ''invalid startup intent'')
      else transact (
        bind (migrationGuard (b_conv previous)) (\<lambda>_.
        bind (migrationSessionGuard (si_bot intent) (si_session intent) (sessionIDFromPath (si_session intent))) (\<lambda>_.
        bind (if b_running previous
              then bind (exec (update_bindings (\<lambda>b. b_conv b = b_conv previous
                     \<and> b_generation b = b_generation previous \<and> b_running b) (\<lambda>b. b\<lparr>b_running := False\<rparr>))) (\<lambda>changed.
                   if changed \<noteq> 1 then throw (ErrMsg ''startup binding changed'') else give ())
              else give ()) (\<lambda>_.
        bind (stmt (\<lambda>d.
               if (if 0 < b_generation previous
                   then \<not> exists_row (\<lambda>b. b_conv b = b_conv previous \<and> b_generation b = b_generation previous) (bindings d)
                   else exists_row (\<lambda>b. b_conv b = b_conv previous) (bindings d))
               then (Inr (0::nat), d)
               else if starting (si_conv intent) d then (Inl ErrConstraint, d)
               else (Inr 1, d\<lparr>startup_intents := startup_intents d @
                       [\<lparr>ir_intent = intent, ir_created_at = now\<rparr>]\<rparr>))) (\<lambda>changed.
        if changed \<noteq> 1 then throw (ErrMsg ''startup binding changed'')
        else commit ()))))))"

definition CommitStart :: "binding \<Rightarrow> unit store" where
  "CommitStart b = transact (
     bind (query_row (\<lambda>d. map_option (\<lambda>r. si_generation (ir_intent r))
       (find (\<lambda>r. ir_conv r = b_conv b) (startup_intents d)))) (\<lambda>generation.
     if generation \<noteq> b_generation b then throw (ErrMsg ''startup intent changed'')
     else bind (on_no_rows (query_row (\<lambda>d. map_option b_last_used_at (find_binding (b_conv b) d)))
                  (give (b_last_used_at b)) give) (\<lambda>lastUsedAt.
          bind (execute (archive_binding (b_conv b))) (\<lambda>_.
          bind (execute (upsert_binding (b\<lparr>b_last_used_at := lastUsedAt\<rparr>))) (\<lambda>_.
          bind (execute (\<lambda>d. d\<lparr>startup_intents := delete_rows (\<lambda>r. ir_conv r = b_conv b
              \<and> si_generation (ir_intent r) = b_generation b) (startup_intents d)\<rparr>)) (\<lambda>_.
          commit ()))))))"

definition retireStartupIntents :: "(intent_row \<Rightarrow> bool) \<Rightarrow> nat store" where
  "retireStartupIntents p = transact (
     bind (exec (\<lambda>d. (count_rows p (startup_intents d),
                      d\<lparr>startup_intents := delete_rows p (startup_intents d)\<rparr>))) (\<lambda>count.
     commit count))"

definition same_start :: "start_intent \<Rightarrow> intent_row \<Rightarrow> bool" where
  "same_start intent r \<longleftrightarrow> ir_conv r = si_conv intent \<and> si_generation (ir_intent r) = si_generation intent"

definition expired_start :: "int64 \<Rightarrow> intent_row \<Rightarrow> bool" where
  "expired_start cutoff r \<longleftrightarrow> 0 < ir_created_at r \<and> ir_created_at r < cutoff"

definition CancelStart :: "start_intent \<Rightarrow> unit store" where
  "CancelStart intent = bind (retireStartupIntents (same_start intent)) (\<lambda>_. give ())"

definition CleanupExpiredStarts :: "int64 \<Rightarrow> nat store" where
  "CleanupExpiredStarts cutoff = retireStartupIntents (expired_start cutoff)"

definition ExpireStart :: "start_intent \<Rightarrow> int64 \<Rightarrow> bool store" where
  "ExpireStart intent cutoff =
     bind (retireStartupIntents (\<lambda>r. same_start intent r \<and> expired_start cutoff r)) (\<lambda>count.
     give (count \<noteq> 0))"

definition PendingStarts :: "int64 \<Rightarrow> start_intent list store" where
  "PendingStarts botID = query (intents_by (\<lambda>i. si_bot i = botID))"

end
