(* ===== verification/StoreMigrations.thy ===== *)
theory StoreMigrations
  imports StoreBindings
begin

text \<open>
  Session migrations (\<open>migration.go\<close>): a durable operation that keeps an immutable copy of
  the source binding through the phases prepared, handoff, initialize and verify, until the
  verified target or an explicit recovery decision is published.
\<close>

definition migrationPhase :: "string \<Rightarrow> int" where
  "migrationPhase phase =
     (if phase = ''prepared'' then 1 else if phase = ''handoff'' then 2
      else if phase = ''initialize'' then 3 else if phase = ''verify'' then 4 else 0)"

definition find_migration :: "conversation \<Rightarrow> database \<Rightarrow> migration option" where
  "find_migration conv d = find (\<lambda>m. m_conv m = conv) (migrations d)"

definition Migration :: "int64 \<Rightarrow> int64 \<Rightarrow> int64 \<Rightarrow> migration store" where
  "Migration botID chat thread = query_row (find_migration (botID, chat, thread))"

definition PendingMigrations :: "int64 \<Rightarrow> migration list store" where
  "PendingMigrations botID = query (\<lambda>d. select_by (\<lambda>m. (b_chat (m_source m), b_thread (m_source m)))
     (\<lambda>m. b_bot (m_source m) = botID) (migrations d))"

section \<open>Preparation\<close>

definition valid_new_migration :: "migration \<Rightarrow> bool" where
  "valid_new_migration m \<longleftrightarrow>
     \<not> (m_id m = [] \<or> b_generation (m_source m) \<le> 0 \<or> b_workspace (m_source m) = []
        \<or> b_session (m_source m) = [] \<or> b_session_id (m_source m) = [] \<or> m_inbox_id m \<le> 0
        \<or> m_phase m \<noteq> ''prepared'' \<or> m_summary_entry_id m \<noteq> [] \<or> m_summary_hash m \<noteq> []
        \<or> m_candidate_file m \<noteq> [] \<or> m_candidate_id m \<noteq> [])"

definition PrepareMigration :: "int64 \<Rightarrow> migration \<Rightarrow> unit store" where
  "PrepareMigration now m0 =
     (if \<not> valid_new_migration m0 then throw (ErrMsg ''invalid migration'')
      else let m = (if m_created_at m0 = 0 then m0\<lparr>m_created_at := now\<rparr> else m0)
      in transact (
        bind (migrationGuard (m_conv m)) (\<lambda>_.
        bind (migrationSessionGuard (b_bot (m_source m)) (b_session (m_source m)) (b_session_id (m_source m))) (\<lambda>_.
        on_no_rows (query_row (find_binding (m_conv m))) (throw ErrStaleBinding) (\<lambda>source.
        if source \<noteq> m_source m then throw ErrStaleBinding
        else bind (query (starting (b_conv source))) (\<lambda>blocked.
             if blocked then throw (ErrMsg ''binding has a pending start'')
             else bind (query_row (\<lambda>d. map_option in_state (find (\<lambda>r. in_id r = m_inbox_id m) (inbox d)))) (\<lambda>state.
                  if state \<noteq> InboxPending \<and> state \<noteq> InboxSubmitted then throw ErrInboxStateTransition
                  else bind (exec_unless
                         (\<lambda>d. exists_row (\<lambda>m'. m_id m' = m_id m \<or> m_conv m' = m_conv m) (migrations d))
                         (\<lambda>d. d\<lparr>migrations := migrations d @ [m\<lparr>m_source := source\<rparr>]\<rparr>)) (\<lambda>_.
                       commit ()))))))))"

section \<open>Progress and failure\<close>

definition sameMigrationSource :: "migration \<Rightarrow> migration \<Rightarrow> bool" where
  "sameMigrationSource a b \<longleftrightarrow>
     m_id a = m_id b \<and> m_source a = m_source b \<and> m_inbox_id a = m_inbox_id b
     \<and> m_provider a = m_provider b \<and> m_model a = m_model b \<and> m_thinking a = m_thinking b
     \<and> m_fast a = m_fast b \<and> (m_created_at a = m_created_at b \<or> m_created_at b = 0)"

text \<open>The source binding must still be the captured one; \<open>Interrupted\<close> is independent crash
  bookkeeping.\<close>

definition migrationSourceCAS :: "migration \<Rightarrow> unit store" where
  "migrationSourceCAS m =
     on_no_rows (query_row (find_binding (m_conv m))) (throw ErrStaleBinding) (\<lambda>current.
     if current\<lparr>b_interrupted := b_interrupted (m_source m)\<rparr> \<noteq> m_source m
     then throw ErrStaleBinding else give ())"

definition fail_submitted :: "int64 \<Rightarrow> int64 \<Rightarrow> database \<Rightarrow> database" where
  "fail_submitted now iid d = snd (update_inbox (\<lambda>r. in_id r = iid \<and> in_state r = InboxSubmitted)
     (\<lambda>r. r\<lparr>in_state := InboxUncertain, in_updated_at := now\<rparr>) d)"

definition valid_migration_update :: "migration \<Rightarrow> string \<Rightarrow> bool" where
  "valid_migration_update m expectedPhase \<longleftrightarrow>
     (let phase = migrationPhase (m_phase m); previous = migrationPhase expectedPhase
      in \<not> (previous = 0 \<or> phase < previous \<or> previous + 1 < phase
            \<or> (m_candidate_file m = []) \<noteq> (m_candidate_id m = [])
            \<or> (m_summary_entry_id m = []) \<noteq> (m_summary_hash m = [])))"

definition stale_update :: "migration \<Rightarrow> migration \<Rightarrow> string \<Rightarrow> bool" where
  "stale_update current m expectedPhase \<longleftrightarrow>
     \<not> sameMigrationSource current m \<or> m_phase current \<noteq> expectedPhase
     \<or> (m_candidate_file current \<noteq> [] \<and> (m_candidate_file current \<noteq> m_candidate_file m
          \<or> m_candidate_id current \<noteq> m_candidate_id m))
     \<or> (m_summary_entry_id current \<noteq> [] \<and> (m_summary_entry_id current \<noteq> m_summary_entry_id m
          \<or> m_summary_hash current \<noteq> m_summary_hash m))"

definition write_migration :: "migration \<Rightarrow> database \<Rightarrow> database" where
  "write_migration m d = d\<lparr>migrations := update_rows (\<lambda>m'. m_id m' = m_id m)
     (\<lambda>m'. m'\<lparr>m_phase := m_phase m, m_summary_entry_id := m_summary_entry_id m,
              m_summary_hash := m_summary_hash m, m_candidate_file := m_candidate_file m,
              m_candidate_id := m_candidate_id m, m_error_kind := m_error_kind m\<rparr>) (migrations d)\<rparr>"

text \<open>The first candidate keeps the stored error: it is recorded before it is verified.\<close>

definition discovers :: "migration \<Rightarrow> migration \<Rightarrow> bool" where
  "discovers current m \<longleftrightarrow> m_candidate_file current = [] \<and> m_candidate_file m \<noteq> []"

definition recorded :: "migration \<Rightarrow> migration \<Rightarrow> migration" where
  "recorded current m = (if discovers current m then m\<lparr>m_error_kind := m_error_kind current\<rparr> else m)"

text \<open>The body of the transaction once the stored row is read.\<close>

definition apply_update :: "int64 \<Rightarrow> migration \<Rightarrow> string \<Rightarrow> migration \<Rightarrow> unit outcome store" where
  "apply_update now m0 expectedPhase current =
     (if stale_update current m0 expectedPhase then throw ErrStaleMigration
      else let m = recorded current m0
        in bind (if discovers current m0
                 then migrationSessionGuard (b_bot (m_source m)) (m_candidate_file m) (m_candidate_id m)
                 else give ()) (\<lambda>_.
           bind (migrationSourceCAS current) (\<lambda>_.
           bind (execute (write_migration m)) (\<lambda>_.
           bind (if m_error_kind m \<noteq> [] then execute (fail_submitted now (m_inbox_id current)) else give ()) (\<lambda>_.
           commit ())))))"

definition UpdateMigration :: "int64 \<Rightarrow> migration \<Rightarrow> string \<Rightarrow> unit store" where
  "UpdateMigration now m expectedPhase =
     (if \<not> valid_migration_update m expectedPhase then throw (ErrMsg ''invalid migration update'')
      else transact (
        on_no_rows (query_row (find_migration (m_conv m))) (throw ErrStaleMigration)
          (apply_update now m expectedPhase)))"

definition FailMigration :: "int64 \<Rightarrow> string \<Rightarrow> string \<Rightarrow> migration store" where
  "FailMigration now mid kind =
     (if mid = [] \<or> kind = [] then throw ErrStaleMigration
      else transact (
        on_no_rows (query_row (\<lambda>d. find (\<lambda>m. m_id m = mid) (migrations d))) (throw ErrStaleMigration) (\<lambda>m.
        bind (migrationSourceCAS m) (\<lambda>_.
        bind (execute (\<lambda>d. d\<lparr>migrations := update_rows (\<lambda>m'. m_id m' = mid)
               (\<lambda>m'. m'\<lparr>m_error_kind := kind\<rparr>) (migrations d)\<rparr>)) (\<lambda>_.
        bind (execute (fail_submitted now (m_inbox_id m))) (\<lambda>_.
        commit (m\<lparr>m_error_kind := kind\<rparr>)))))))"

section \<open>Publication\<close>

definition valid_target :: "migration \<Rightarrow> binding \<Rightarrow> string \<Rightarrow> bool" where
  "valid_target m target notice \<longleftrightarrow>
     \<not> (b_bot target \<noteq> b_bot (m_source m) \<or> b_chat target \<noteq> b_chat (m_source m)
        \<or> b_thread target \<noteq> b_thread (m_source m) \<or> b_workspace target \<noteq> b_workspace (m_source m)
        \<or> b_generation target \<noteq> wrap64 (b_generation (m_source m) + 1) \<or> notice = [])"

definition stale_publication :: "migration \<Rightarrow> migration \<Rightarrow> bool" where
  "stale_publication current m \<longleftrightarrow>
     \<not> sameMigrationSource current m \<or> m_phase current \<noteq> m_phase m
     \<or> m_candidate_file current \<noteq> m_candidate_file m \<or> m_candidate_id current \<noteq> m_candidate_id m
     \<or> m_summary_entry_id current \<noteq> m_summary_entry_id m \<or> m_summary_hash current \<noteq> m_summary_hash m
     \<or> m_error_kind current \<noteq> m_error_kind m"

definition target_is_candidate :: "migration \<Rightarrow> binding \<Rightarrow> bool" where
  "target_is_candidate current target \<longleftrightarrow> m_candidate_file current \<noteq> []
     \<and> b_session target = m_candidate_file current \<and> b_session_id target = m_candidate_id current"

definition target_is_source :: "migration \<Rightarrow> binding \<Rightarrow> bool" where
  "target_is_source current target \<longleftrightarrow> b_session target = b_session (m_source current)
     \<and> b_session_id target = b_session_id (m_source current)"

definition target_rejected :: "migration \<Rightarrow> binding \<Rightarrow> bool \<Rightarrow> bool" where
  "target_rejected current target recovery \<longleftrightarrow>
     (\<not> recovery \<and> (m_phase current \<noteq> ''verify'' \<or> m_summary_entry_id current = []
        \<or> m_summary_hash current = [] \<or> \<not> target_is_candidate current target))
     \<or> (recovery \<and> \<not> target_is_candidate current target \<and> \<not> target_is_source current target)"

definition publishMigration :: "int64 \<Rightarrow> migration \<Rightarrow> binding \<Rightarrow> string \<Rightarrow> bool \<Rightarrow> unit store" where
  "publishMigration now m target notice recovery =
     (if \<not> valid_target m target notice then throw (ErrMsg ''invalid migration target'')
      else transact (
        on_no_rows (query_row (find_migration (m_conv m))) (throw ErrStaleMigration) (\<lambda>current.
        if stale_publication current m then throw ErrStaleMigration
        else if target_rejected current target recovery
        then throw (ErrMsg ''migration target is not recorded or verified'')
        else bind (migrationSourceCAS current) (\<lambda>_.
             on_no_rows (query_row (\<lambda>d. map_option in_reply_to (find (\<lambda>r. in_id r = m_inbox_id current
                 \<and> in_state r \<in> {InboxPending, InboxSubmitted, InboxUncertain}) (inbox d))))
               (throw ErrInboxStateTransition) (\<lambda>replyTo.
             bind (execute (archive_binding (b_conv target))) (\<lambda>_.
             bind (execute (\<lambda>d. snd (update_bindings (\<lambda>b. b_conv b = b_conv target) (\<lambda>_. target) d))) (\<lambda>_.
             bind (execute (\<lambda>d. d\<lparr>migrations := delete_rows (\<lambda>m'. m_id m' = m_id current) (migrations d)\<rparr>)) (\<lambda>_.
             bind (execute (\<lambda>d. snd (insert_outbox ((queued_row now (b_chat target) (b_thread target) notice)
                 \<lparr>out_inbox_id := m_inbox_id current, out_reply_to := replyTo\<rparr>) d))) (\<lambda>_.
             bind (execute (\<lambda>d. snd (update_inbox (\<lambda>r. in_id r = m_inbox_id current)
                 (\<lambda>r. r\<lparr>in_state := InboxDone, in_updated_at := now\<rparr>) d))) (\<lambda>_.
             commit ()))))))))))"

definition CommitMigration :: "int64 \<Rightarrow> migration \<Rightarrow> binding \<Rightarrow> string \<Rightarrow> unit store" where
  "CommitMigration now m target notice = publishMigration now m target notice False"

definition ResolveMigration :: "int64 \<Rightarrow> migration \<Rightarrow> binding \<Rightarrow> string \<Rightarrow> unit store" where
  "ResolveMigration now m target notice = publishMigration now m target notice True"

section \<open>What a successful call did\<close>

lemma migrationSourceCAS_ok [sql_ok]:
  "migrationSourceCAS m w = (Inr u, w') \<longleftrightarrow> tick w w' \<and> db w' = db w \<and>
     (\<exists>b. find_binding (m_conv m) (db w) = Some b \<and> b\<lparr>b_interrupted := b_interrupted (m_source m)\<rparr> = m_source m)"
  by (auto simp: migrationSourceCAS_def sql_ok)

text \<open>The database a successful publication leaves.\<close>

definition published :: "int64 \<Rightarrow> migration \<Rightarrow> binding \<Rightarrow> string \<Rightarrow> int64 \<Rightarrow> database \<Rightarrow> database" where
  "published now current target notice replyTo d =
     snd (update_inbox (\<lambda>r. in_id r = m_inbox_id current) (\<lambda>r. r\<lparr>in_state := InboxDone, in_updated_at := now\<rparr>)
      (snd (insert_outbox ((queued_row now (b_chat target) (b_thread target) notice)
          \<lparr>out_inbox_id := m_inbox_id current, out_reply_to := replyTo\<rparr>)
       ((\<lambda>d. d\<lparr>migrations := delete_rows (\<lambda>m'. m_id m' = m_id current) (migrations d)\<rparr>)
        (snd (update_bindings (\<lambda>b. b_conv b = b_conv target) (\<lambda>_. target)
         (archive_binding (b_conv target) d)))))))"

lemma publishMigration_ok:
  assumes "publishMigration now m target notice recovery w = (Inr u, w')"
  shows "valid_target m target notice \<and> (\<exists>current b i. 
    find_migration (m_conv m) (db w) = Some current
    \<and> \<not> stale_publication current m \<and> \<not> target_rejected current target recovery
    \<and> find_binding (m_conv current) (db w) = Some b
    \<and> b\<lparr>b_interrupted := b_interrupted (m_source current)\<rparr> = m_source current
    \<and> find (\<lambda>r. in_id r = m_inbox_id current \<and> in_state r \<in> {InboxPending, InboxSubmitted, InboxUncertain}) (inbox (db w)) = Some i
    \<and> db w' = published now current target notice (in_reply_to i) (db w))"
  using assms
  unfolding publishMigration_def published_def
  by (auto simp: sql_ok split: if_splits)

lemma PrepareMigration_ok:
  assumes "PrepareMigration now m0 w = (Inr u, w')"
  shows "valid_new_migration m0 \<and> (\<exists>m r. m = (if m_created_at m0 = 0 then m0\<lparr>m_created_at := now\<rparr> else m0)
    \<and> \<not> migrating (m_conv m0) (db w)
    \<and> \<not> exists_row (session_locked (b_bot (m_source m)) (b_session (m_source m)) (b_session_id (m_source m))) (migrations (db w))
    \<and> find_binding (m_conv m) (db w) = Some (m_source m) \<and> \<not> starting (m_conv m) (db w)
    \<and> find (\<lambda>r. in_id r = m_inbox_id m) (inbox (db w)) = Some r \<and> in_state r \<in> {InboxPending, InboxSubmitted}
    \<and> \<not> exists_row (\<lambda>m'. m_id m' = m_id m \<or> m_conv m' = m_conv m) (migrations (db w))
    \<and> db w' = (db w)\<lparr>migrations := migrations (db w) @ [m]\<rparr>)"
  using assms
  unfolding PrepareMigration_def migrationGuard_def migrationSessionGuard_def
  by (auto simp: sql_ok Let_def migrating_def m_conv_def split: if_splits)

lemma apply_update_ok:
  assumes "apply_update now m0 phase current w = (Inr x, w')"
  shows "x = Commit () \<and> \<not> stale_update current m0 phase
    \<and> (discovers current m0 \<longrightarrow>
        \<not> exists_row (session_locked (b_bot (m_source m0)) (m_candidate_file m0) (m_candidate_id m0)) (migrations (db w)))
    \<and> (\<exists>b. find_binding (m_conv current) (db w) = Some b
        \<and> b\<lparr>b_interrupted := b_interrupted (m_source current)\<rparr> = m_source current)
    \<and> db w' = (if m_error_kind (recorded current m0) \<noteq> []
                then fail_submitted now (m_inbox_id current) (write_migration (recorded current m0) (db w))
                else write_migration (recorded current m0) (db w))"
proof (cases "discovers current m0")
  case True
  with assms show ?thesis
    by (cases "m_error_kind current = []")
      (auto simp: apply_update_def migrationSessionGuard_def recorded_def sql_ok split: if_split_asm)
next
  case False
  with assms show ?thesis
    by (cases "m_error_kind m0 = []")
      (auto simp: apply_update_def recorded_def sql_ok split: if_split_asm)
qed

lemma UpdateMigration_ok:
  assumes "UpdateMigration now m0 phase w = (Inr u, w')"
  shows "valid_migration_update m0 phase \<and> (\<exists>current b.
    find_migration (m_conv m0) (db w) = Some current \<and> \<not> stale_update current m0 phase
    \<and> (discovers current m0 \<longrightarrow>
        \<not> exists_row (session_locked (b_bot (m_source m0)) (m_candidate_file m0) (m_candidate_id m0)) (migrations (db w)))
    \<and> find_binding (m_conv current) (db w) = Some b
    \<and> b\<lparr>b_interrupted := b_interrupted (m_source current)\<rparr> = m_source current
    \<and> db w' = (if m_error_kind (recorded current m0) \<noteq> []
                then fail_submitted now (m_inbox_id current) (write_migration (recorded current m0) (db w))
                else write_migration (recorded current m0) (db w)))"
  using assms unfolding UpdateMigration_def
  by (fastforce simp: sql_ok split: if_split_asm dest: apply_update_ok)

lemma FailMigration_ok:
  assumes "FailMigration now mid kind w = (Inr m', w')"
  shows "mid \<noteq> [] \<and> kind \<noteq> [] \<and> (\<exists>m b. find (\<lambda>m. m_id m = mid) (migrations (db w)) = Some m
    \<and> m' = m\<lparr>m_error_kind := kind\<rparr> \<and> find_binding (m_conv m) (db w) = Some b
    \<and> b\<lparr>b_interrupted := b_interrupted (m_source m)\<rparr> = m_source m
    \<and> db w' = fail_submitted now (m_inbox_id m) ((db w)\<lparr>migrations := update_rows (\<lambda>m'. m_id m' = mid)
               (\<lambda>m'. m'\<lparr>m_error_kind := kind\<rparr>) (migrations (db w))\<rparr>))"
  using assms
  unfolding FailMigration_def
  by (auto simp: sql_ok split: if_splits)

end
