(* ===== verification/StoreFinalActions.thy ===== *)
theory StoreFinalActions
  imports StoreMigrations
begin

text \<open>
  Settlement of a root input together with its replies (\<open>store.go\<close>) and the completion
  shortcuts registered in the same transaction (\<open>final_actions.go\<close>): reservation by a
  click, consumption before the command runs, release, and recovery at startup.
\<close>

section \<open>Registration\<close>

fun insert_actions ::
  "final_action_set \<Rightarrow> int64 \<Rightarrow> int64 \<Rightarrow> int64 \<Rightarrow> final_action list \<Rightarrow> unit store" where
  "insert_actions st target chat thread [] = give ()"
| "insert_actions st target chat thread (action # rest) =
     (if a_token action = [] \<or> a_command action = [] \<or> a_label action = []
      then throw (ErrMsg ''invalid final action'')
      else let b = as_binding st in
        bind (exec_unless (\<lambda>d. exists_row (\<lambda>r. fa_token r = a_token action) (final_actions d))
          (\<lambda>d. d\<lparr>final_actions := final_actions d @
             [\<lparr>fa_token = a_token action, fa_outbox_id = target, fa_bot = b_bot b, fa_chat = chat,
               fa_thread = thread, fa_user = as_user st, fa_workspace = b_workspace b,
               fa_session = b_session b, fa_session_id = b_session_id b,
               fa_generation = b_generation b, fa_config = as_config st,
               fa_command = a_command action, fa_consumed = False, fa_consumed_by = 0\<rparr>]\<rparr>)) (\<lambda>_.
        insert_actions st target chat thread rest))"

text \<open>\<open>final_actions=?, actions_pending=CASE WHEN actions_pending=2 THEN 2 ELSE 1 END\<close>.\<close>

definition set_buttons :: "string \<Rightarrow> outbox_row \<Rightarrow> outbox_row" where
  "set_buttons encoded r = r\<lparr>out_final_actions := encoded,
     out_actions_pending := (if out_actions_pending r = 2 then 2 else 1)\<rparr>"

definition last_body :: "int64 \<Rightarrow> int64 \<Rightarrow> int64 \<Rightarrow> database \<Rightarrow> int64 option" where
  "last_body inboxID chat thread d = map_option out_id (first_by (\<lambda>r. - out_id r)
     (\<lambda>r. out_inbox_id r = inboxID \<and> out_chat r = chat \<and> out_thread r = thread \<and> out_kind r = ''text''
        \<and> out_assistant_body r) (outbox d))"

definition registerFinalActions ::
  "action_codec \<Rightarrow> int64 \<Rightarrow> int64 \<Rightarrow> int64 \<Rightarrow> final_action_set \<Rightarrow> unit store" where
  "registerFinalActions codec inboxID chat thread st =
     (let b = as_binding st in
      if b_bot b = 0 \<or> b_chat b \<noteq> chat \<or> b_thread b \<noteq> thread \<or> as_user st \<le> 0 \<or> b_session b = []
         \<or> as_config st = []
      then throw ErrStaleBinding
      else bind (query (\<lambda>d. exists_row (\<lambda>b'. b_conv b' = (b_bot b, chat, thread) \<and> b_workspace b' = b_workspace b
             \<and> b_session b' = b_session b \<and> b_session_id b' = b_session_id b
             \<and> b_generation b' = b_generation b) (bindings d))) (\<lambda>bound.
           if \<not> bound then throw ErrStaleBinding
           else on_no_rows (query_row (last_body inboxID chat thread)) (give ()) (\<lambda>target.
                bind (insert_actions st target chat thread (as_actions st)) (\<lambda>_.
                execute (\<lambda>d. snd (update_outbox (\<lambda>r. out_id r = target)
                  (set_buttons (marshal codec (as_actions st))) d))))))"

section \<open>Settlement with replies\<close>

fun complete_loop ::
  "int64 \<Rightarrow> int64 \<Rightarrow> int64 \<Rightarrow> int64 \<Rightarrow> int \<Rightarrow> int \<Rightarrow> string list \<Rightarrow> string \<Rightarrow> bool \<Rightarrow> int64 \<Rightarrow> int64 \<Rightarrow> int64 store" where
  "complete_loop now iid chat thread bodyParts i [] replyHeader headerEditable replyTo finalTargetID =
     give finalTargetID"
| "complete_loop now iid chat thread bodyParts i (reply # replies) replyHeader headerEditable replyTo finalTargetID =
     bind (exec (insert_outbox (reply_row now iid chat thread reply replyHeader headerEditable (i < bodyParts) replyTo)))
       (\<lambda>new. if headerEditable
              then complete_loop now iid chat thread bodyParts (i + 1) replies [] False 0 new
              else complete_loop now iid chat thread bodyParts (i + 1) replies replyHeader headerEditable 0 finalTargetID)"

definition completeInboxWithReplies ::
  "action_codec \<Rightarrow> int64 \<Rightarrow> int64 \<Rightarrow> int64 \<Rightarrow> int64 \<Rightarrow> inbox_state \<Rightarrow> string list \<Rightarrow> int64 \<Rightarrow> string \<Rightarrow> bool
     \<Rightarrow> final_action_set option \<Rightarrow> int64 store" where
  "completeInboxWithReplies codec now iid chat thread state replies targetID header headerEditable actions =
   transact (
     on_no_rows (query_row (reply_target iid)) (throw (ErrMsg ''input is not submitted'')) (\<lambda>replyTo.
     bind (exec (update_inbox (\<lambda>r. in_id r = iid \<and> in_state r = InboxSubmitted)
       (\<lambda>r. r\<lparr>in_state := state, in_updated_at := now\<rparr>))) (\<lambda>changed.
     if changed \<noteq> 1 then throw (ErrMsg ''input is not submitted'')
     else
     bind (complete_loop now iid chat thread
       (case actions of None \<Rightarrow> 0 | Some st \<Rightarrow> as_body_parts st) 0 replies
       (if targetID = 0 \<and> headerEditable then header else [])
       (headerEditable \<and> targetID = 0) replyTo targetID) (\<lambda>finalTargetID.
     bind (if targetID \<noteq> 0
           then bind (exec (update_outbox (\<lambda>r. out_id r = targetID \<and> out_inbox_id r = iid
                    \<and> out_kind r = ''text'' \<and> out_header_editable r) (set_header now header))) (\<lambda>edited.
                if edited \<noteq> 1 then throw ErrNoRows else give ())
           else give ()) (\<lambda>_.
     bind (case actions of
             None \<Rightarrow> give ()
           | Some st \<Rightarrow>
               if as_actions st = [] then give ()
               else if state \<noteq> InboxDone then throw (ErrMsg ''final actions require successful settlement'')
               else registerFinalActions codec iid chat thread st) (\<lambda>_.
     commit finalTargetID))))))"

definition CompleteInboxWithReplies ::
  "action_codec \<Rightarrow> int64 \<Rightarrow> int64 \<Rightarrow> int64 \<Rightarrow> int64 \<Rightarrow> string list \<Rightarrow> unit store" where
  "CompleteInboxWithReplies codec now iid chat thread replies =
     bind (completeInboxWithReplies codec now iid chat thread InboxDone replies 0 [] False None) (\<lambda>_. give ())"

definition CompleteInboxWithAssistantHeader ::
  "action_codec \<Rightarrow> int64 \<Rightarrow> int64 \<Rightarrow> int64 \<Rightarrow> int64 \<Rightarrow> int64 \<Rightarrow> string \<Rightarrow> string list \<Rightarrow> int64 store" where
  "CompleteInboxWithAssistantHeader codec now iid chat thread targetID header replies =
     completeInboxWithReplies codec now iid chat thread InboxDone replies targetID header True None"

definition CompleteInboxUncertainWithReplies ::
  "action_codec \<Rightarrow> int64 \<Rightarrow> int64 \<Rightarrow> int64 \<Rightarrow> int64 \<Rightarrow> string list \<Rightarrow> unit store" where
  "CompleteInboxUncertainWithReplies codec now iid chat thread replies =
     bind (completeInboxWithReplies codec now iid chat thread InboxUncertain replies 0 [] False None) (\<lambda>_. give ())"

definition CompleteInboxCancelledWithReplies ::
  "action_codec \<Rightarrow> int64 \<Rightarrow> int64 \<Rightarrow> int64 \<Rightarrow> int64 \<Rightarrow> string list \<Rightarrow> unit store" where
  "CompleteInboxCancelledWithReplies codec now iid chat thread replies =
     bind (completeInboxWithReplies codec now iid chat thread InboxCancelled replies 0 [] False None) (\<lambda>_. give ())"

definition CompleteInboxWithFinalActions ::
  "action_codec \<Rightarrow> int64 \<Rightarrow> int64 \<Rightarrow> int64 \<Rightarrow> int64 \<Rightarrow> int64 \<Rightarrow> string \<Rightarrow> string list
     \<Rightarrow> final_action_set option \<Rightarrow> int64 store" where
  "CompleteInboxWithFinalActions codec now iid chat thread targetID header replies actions =
     completeInboxWithReplies codec now iid chat thread InboxDone replies targetID header True actions"

section \<open>Reservation and consumption\<close>

text \<open>The joined row a click must find: the unused button of this message, under the binding that
  registered it, which is still the current and running one, with no start pending, for a
  pending callback that has claimed no other button.\<close>

definition reservable :: "final_action_claim \<Rightarrow> database \<Rightarrow> final_action_row \<Rightarrow> bool" where
  "reservable c d a \<longleftrightarrow>
     fa_token a = c_token c \<and> \<not> fa_consumed a \<and> fa_consumed_by a = 0 \<and> fa_config a = c_config c
     \<and> fa_bot a = c_bot c \<and> fa_chat a = c_chat c \<and> fa_thread a = c_thread c \<and> fa_user a = c_user c
     \<and> exists_row (\<lambda>q. out_id q = fa_outbox_id a \<and> out_state q = OutboxDone
         \<and> out_message_id q = c_message_id c \<and> 0 < out_message_id q) (outbox d)
     \<and> fa_workspace a = b_workspace (c_binding c) \<and> fa_session a = b_session (c_binding c)
     \<and> fa_session_id a = b_session_id (c_binding c) \<and> fa_generation a = b_generation (c_binding c)
     \<and> exists_row (\<lambda>b. b_conv b = (fa_bot a, fa_chat a, fa_thread a) \<and> b_workspace b = fa_workspace a
         \<and> b_session b = fa_session a \<and> b_session_id b = fa_session_id a
         \<and> b_generation b = fa_generation a \<and> b_running b) (bindings d)
     \<and> \<not> starting (fa_bot a, fa_chat a, fa_thread a) d
     \<and> exists_row (\<lambda>r. in_id r = c_inbox_id c \<and> in_state r = InboxPending) (inbox d)
     \<and> \<not> exists_row (\<lambda>used. fa_consumed_by used = c_inbox_id c) (final_actions d)"

definition ReserveFinalAction :: "final_action_claim \<Rightarrow> (string \<times> bool) store" where
  "ReserveFinalAction claim =
     (if c_inbox_id claim \<le> 0 then throw (ErrMsg ''final action requires a persisted callback'')
      else transact (
        on_no_rows (query_row (\<lambda>d. map_option fa_command (find (reservable claim d) (final_actions d))))
          (abandon ([], False)) (\<lambda>command.
        bind (exec (update_final_actions (\<lambda>a. fa_token a = c_token claim \<and> \<not> fa_consumed a \<and> fa_consumed_by a = 0)
          (\<lambda>a. a\<lparr>fa_consumed_by := c_inbox_id claim\<rparr>))) (\<lambda>changed.
        if changed \<noteq> 1 then abandon ([], False) else commit (command, True)))))"

definition reservation :: "int64 \<Rightarrow> database \<Rightarrow> (string \<times> int64 \<times> string) option" where
  "reservation inboxID d =
     (case find (\<lambda>a. \<not> fa_consumed a \<and> fa_consumed_by a = inboxID
              \<and> exists_row (\<lambda>q. out_id q = fa_outbox_id a) (outbox d)) (final_actions d) of
        None \<Rightarrow> None
      | Some a \<Rightarrow> map_option (\<lambda>q. (fa_token a, fa_outbox_id a, out_final_actions q))
                   (find (\<lambda>q. out_id q = fa_outbox_id a) (outbox d)))"

definition CheckFinalActionReservation :: "int64 \<Rightarrow> unit store" where
  "CheckFinalActionReservation inboxID = query_row (\<lambda>d. map_option (\<lambda>_. ()) (reservation inboxID d))"

definition consumeFinalAction :: "action_codec \<Rightarrow> int64 \<Rightarrow> unit store" where
  "consumeFinalAction codec inboxID =
     bind (query_row (reservation inboxID)) (\<lambda>(token, outboxID, encoded).
     case unmarshal codec encoded of
       None \<Rightarrow> throw (ErrMsg ''invalid JSON'')
     | Some actions \<Rightarrow>
         let remaining = filter (\<lambda>action. a_token action \<noteq> token) actions;
             encoded' = (if remaining \<noteq> [] then marshal codec remaining else [])
         in bind (execute (\<lambda>d. snd (update_final_actions (\<lambda>a. fa_token a = token \<and> \<not> fa_consumed a)
              (\<lambda>a. a\<lparr>fa_consumed := True\<rparr>) d))) (\<lambda>_.
            execute (\<lambda>d. snd (update_outbox (\<lambda>r. out_id r = outboxID) (set_buttons encoded') d))))"

definition ConsumeFinalAction :: "action_codec \<Rightarrow> int64 \<Rightarrow> unit store" where
  "ConsumeFinalAction codec inboxID =
     transact (bind (consumeFinalAction codec inboxID) (\<lambda>_. commit ()))"

definition ReleaseFinalAction :: "int64 \<Rightarrow> int64 \<Rightarrow> unit store" where
  "ReleaseFinalAction now inboxID = transact (
     bind (execute (\<lambda>d. snd (update_inbox (\<lambda>r. in_id r = inboxID \<and> in_state r \<in> {InboxPending, InboxSubmitted}
         \<and> exists_row (\<lambda>a. \<not> fa_consumed a \<and> fa_consumed_by a = in_id r) (final_actions d))
       (\<lambda>r. r\<lparr>in_state := InboxDone, in_updated_at := now\<rparr>) d))) (\<lambda>_.
     bind (execute (\<lambda>d. snd (update_final_actions (\<lambda>a. \<not> fa_consumed a \<and> fa_consumed_by a = inboxID)
       (\<lambda>a. a\<lparr>fa_consumed_by := 0\<rparr>) d))) (\<lambda>_.
     commit ())))"

section \<open>Recovery\<close>

fun recover_loop :: "action_codec \<Rightarrow> int64 list \<Rightarrow> unit store" where
  "recover_loop codec [] = give ()"
| "recover_loop codec (iid # ids) =
     bind (consumeFinalAction codec iid) (\<lambda>_.
     bind (execute (\<lambda>d. snd (update_inbox (\<lambda>r. in_id r = iid \<and> in_state r = InboxPending)
       (\<lambda>r. r\<lparr>in_state := InboxCancelled\<rparr>) d))) (\<lambda>_.
     recover_loop codec ids))"

definition reserved_ids :: "database \<Rightarrow> int64 list" where
  "reserved_ids d = remdups (map fa_consumed_by
     (filter (\<lambda>a. \<not> fa_consumed a \<and> fa_consumed_by a \<noteq> 0) (final_actions d)))"

definition recoverFinalActionReservations :: "action_codec \<Rightarrow> unit store" where
  "recoverFinalActionReservations codec =
     bind (query reserved_ids) (recover_loop codec)"

end
