(* ===== verification/StoreFollowups.thy ===== *)
theory StoreFollowups
  imports StoreFinalActions "HOL-Library.List_Lexorder" "HOL-Library.Char_ord"
begin

text \<open>
  Follow-up prompts (\<open>followup.go\<close>): one open request per user of a conversation, claimed at
  most once by an inbox row.
\<close>

text \<open>The partial unique indexes on the prompt and on the claiming input.\<close>

definition prompts_unique :: "followup_request list \<Rightarrow> bool" where
  "prompts_unique rows \<longleftrightarrow> distinct (map (\<lambda>r. (fr_bot r, fr_chat r, fr_prompt_id r))
     (filter (\<lambda>r. 0 < fr_prompt_id r) rows))"

definition claims_unique :: "followup_request list \<Rightarrow> bool" where
  "claims_unique rows \<longleftrightarrow> distinct (map fr_inbox_id (filter (\<lambda>r. 0 < fr_inbox_id r) rows))"

definition followup_open :: "followup_request \<Rightarrow> bool" where
  "followup_open r \<longleftrightarrow> fr_state r = FollowupPending \<or> fr_state r = FollowupDelivered"

definition fr_conv :: "followup_request \<Rightarrow> conversation" where
  "fr_conv r = (fr_bot r, fr_chat r, fr_thread r)"

definition CreateFollowupRequest :: "followup_request \<Rightarrow> unit store" where
  "CreateFollowupRequest r = transact (
     bind (execute (\<lambda>d. snd (update_followups
       (\<lambda>q. fr_conv q = fr_conv r \<and> fr_user q = fr_user r \<and> followup_open q)
       (\<lambda>q. q\<lparr>fr_state := FollowupCancelled\<rparr>) d))) (\<lambda>_.
     bind (exec_unless (\<lambda>d. exists_row (\<lambda>q. fr_token q = fr_token r) (followup_requests d))
       (\<lambda>d. d\<lparr>followup_requests := followup_requests d @
          [r\<lparr>fr_prompt_id := 0, fr_inbox_id := 0, fr_state := FollowupPending\<rparr>]\<rparr>)) (\<lambda>_.
     commit ())))"

definition FollowupRequest :: "string \<Rightarrow> followup_request store" where
  "FollowupRequest token = query_row (\<lambda>d. find (\<lambda>r. fr_token r = token) (followup_requests d))"

definition FollowupPrompt :: "int64 \<Rightarrow> int64 \<Rightarrow> int64 \<Rightarrow> followup_request store" where
  "FollowupPrompt botID chat messageID = query_row (\<lambda>d. find (\<lambda>r. fr_bot r = botID \<and> fr_chat r = chat
     \<and> fr_prompt_id r = messageID \<and> 0 < fr_prompt_id r) (followup_requests d))"

definition finish_prompt :: "followup_state \<Rightarrow> int64 \<Rightarrow> followup_request \<Rightarrow> followup_request" where
  "finish_prompt state messageID r =
     r\<lparr>fr_prompt_id := (if 0 < messageID then messageID else fr_prompt_id r),
       fr_state := (if fr_state r = FollowupPending then state else fr_state r)\<rparr>"

definition finishable :: "string \<Rightarrow> string \<Rightarrow> followup_request \<Rightarrow> bool" where
  "finishable token inst r \<longleftrightarrow> fr_token r = token \<and> fr_instance r = inst
     \<and> (fr_state r = FollowupPending \<or> fr_state r = FollowupCancelled)"

definition FinishFollowupPrompt :: "string \<Rightarrow> string \<Rightarrow> int64 \<Rightarrow> bool \<Rightarrow> unit store" where
  "FinishFollowupPrompt token inst messageID delivered =
     (let ok = delivered \<and> 0 < messageID;
          state = (if ok then FollowupDelivered else FollowupUncertain);
          messageID' = (if ok then messageID else 0);
          write = (\<lambda>d. snd (update_followups (finishable token inst) (finish_prompt state messageID') d))
      in exec_unless (\<lambda>d. \<not> prompts_unique (followup_requests (write d))) write)"

definition CancelFollowupRequests :: "int64 \<Rightarrow> int64 \<Rightarrow> int64 \<Rightarrow> unit store" where
  "CancelFollowupRequests botID chat thread = execute (\<lambda>d. snd (update_followups
     (\<lambda>q. fr_conv q = (botID, chat, thread) \<and> followup_open q) (\<lambda>q. q\<lparr>fr_state := FollowupCancelled\<rparr>) d))"

definition claimable_followup :: "int64 \<Rightarrow> followup_request \<Rightarrow> int64 \<Rightarrow> database \<Rightarrow> followup_request \<Rightarrow> bool" where
  "claimable_followup now r inboxID d q \<longleftrightarrow>
     fr_token q = fr_token r \<and> fr_instance q = fr_instance r \<and> fr_state q = FollowupDelivered
     \<and> fr_prompt_id q = fr_prompt_id r \<and> fr_user q = fr_user r \<and> fr_conv q = fr_conv r
     \<and> fr_generation q = fr_generation r \<and> fr_workspace q = fr_workspace r
     \<and> fr_session q = fr_session r \<and> now < fr_expires_at q
     \<and> exists_row (\<lambda>i. in_id i = inboxID \<and> in_state i = InboxPending) (inbox d)
     \<and> exists_row (\<lambda>b. b_conv b = fr_conv r \<and> b_generation b = fr_generation r
         \<and> b_workspace b = fr_workspace r \<and> b_session b = fr_session r \<and> b_running b) (bindings d)"

definition ConsumeFollowupRequest :: "int64 \<Rightarrow> followup_request \<Rightarrow> int64 \<Rightarrow> bool store" where
  "ConsumeFollowupRequest now r inboxID =
     (if inboxID \<le> 0 then give False
      else transact (
        bind (stmt (\<lambda>d. let (n, d') = update_followups (claimable_followup now r inboxID d)
                (\<lambda>q. q\<lparr>fr_state := FollowupConsumed, fr_inbox_id := inboxID\<rparr>) d
              in if claims_unique (followup_requests d') then (Inr n, d') else (Inl ErrConstraint, d))) (\<lambda>n.
        if n = 0 then abandon False
        else if n \<noteq> 1 then throw (ErrMsg ''invalid follow-up claim count'')
        else commit True)))"

definition messageCleanupBatchSize :: nat where
  "messageCleanupBatchSize = 1000"

definition followup_expired :: "int64 \<Rightarrow> int64 \<Rightarrow> database \<Rightarrow> followup_request \<Rightarrow> bool" where
  "followup_expired now cutoff d r \<longleftrightarrow> fr_expires_at r < cutoff \<and> fr_expires_at r \<le> now
     \<and> \<not> exists_row (\<lambda>i. in_id i = fr_inbox_id r \<and> in_state i \<in> {InboxPending, InboxSubmitted}) (inbox d)"

definition expired_batch :: "int64 \<Rightarrow> int64 \<Rightarrow> database \<Rightarrow> string list" where
  "expired_batch now cutoff d = map fr_token (take messageCleanupBatchSize
     (select_by (\<lambda>r. (fr_expires_at r, fr_token r)) (followup_expired now cutoff d) (followup_requests d)))"

definition CleanupFollowupRequests :: "int64 \<Rightarrow> int64 \<Rightarrow> nat store" where
  "CleanupFollowupRequests now cutoff = transact (
     bind (exec (\<lambda>d. let batch = expired_batch now cutoff d
         in (count_rows (\<lambda>r. fr_token r \<in> set batch) (followup_requests d),
             d\<lparr>followup_requests := delete_rows (\<lambda>r. fr_token r \<in> set batch) (followup_requests d)\<rparr>))) (\<lambda>count.
     commit count))"

end
