(* ===== verification/StoreTopicNames.thy ===== *)
theory StoreTopicNames
  imports StoreFollowups
begin

text \<open>
  Topic titles (\<open>topic_names.go\<close>): reserving a title no other topic of the chat uses or has
  requested, and settling the request when Telegram confirms, rejects or announces a title.
\<close>

fun truncate_runes :: "(rune \<times> string) list \<Rightarrow> int \<Rightarrow> string" where
  "truncate_runes [] units = []"
| "truncate_runes ((r, piece) # rest) units =
     (let width = (if 65535 < r then 2 else 1)
      in if units < width then [] else piece @ truncate_runes rest (units - width))"

definition truncateTopicName :: "string \<Rightarrow> int \<Rightarrow> string" where
  "truncateTopicName name units = truncate_runes (runes name) units"

definition tn_conv :: "topic_name_row \<Rightarrow> conversation" where
  "tn_conv r = (tn_bot r, tn_chat r, tn_thread r)"

definition tr_conv :: "topic_reservation_row \<Rightarrow> conversation" where
  "tr_conv r = (tr_bot r, tr_chat r, tr_thread r)"

definition name_occupied :: "int64 \<Rightarrow> int64 \<Rightarrow> int64 \<Rightarrow> string \<Rightarrow> database \<Rightarrow> bool" where
  "name_occupied botID chat thread name d \<longleftrightarrow>
     exists_row (\<lambda>r. tn_bot r = botID \<and> tn_chat r = chat \<and> tn_thread r \<noteq> thread \<and> tn_name r = name) (topic_names d)
     \<or> exists_row (\<lambda>r. tr_bot r = botID \<and> tr_chat r = chat \<and> tr_thread r \<noteq> thread \<and> tr_name r = name)
         (topic_reservations d)"

definition name_suffix :: "int64 \<Rightarrow> nat \<Rightarrow> string" where
  "name_suffix thread attempt =
     (if attempt = 1 then '' ['' @ int_decimal thread @ '']''
      else '' ['' @ int_decimal thread @ ''-'' @ nat_decimal attempt @ '']'')"

text \<open>The title tried after \<open>attempt\<close> occupied ones.\<close>

definition name_candidate :: "string \<Rightarrow> int64 \<Rightarrow> nat \<Rightarrow> string" where
  "name_candidate base thread attempt =
     truncateTopicName base (128 - int (length (name_suffix thread attempt))) @ name_suffix thread attempt"

text \<open>\<open>for attempt := 1; ; attempt++\<close>; the fuel is shown to suffice below.\<close>

fun reserve_loop :: "nat \<Rightarrow> int64 \<Rightarrow> int64 \<Rightarrow> int64 \<Rightarrow> string \<Rightarrow> nat \<Rightarrow> string \<Rightarrow> string store" where
  "reserve_loop 0 botID chat thread base attempt name = throw Diverged"
| "reserve_loop (Suc fuel) botID chat thread base attempt name =
     bind (query (name_occupied botID chat thread name)) (\<lambda>occupied.
     if \<not> occupied then give name
     else reserve_loop fuel botID chat thread base (attempt + 1) (name_candidate base thread attempt))"

definition name_fuel :: "database \<Rightarrow> nat" where
  "name_fuel d = length (topic_names d) + length (topic_reservations d) + 3"

definition raise_revision :: "conversation \<Rightarrow> int64 \<Rightarrow> database \<Rightarrow> database" where
  "raise_revision conv revision d =
     (if exists_row (\<lambda>r. tn_conv r = conv) (topic_names d)
      then d\<lparr>topic_names := update_rows (\<lambda>r. tn_conv r = conv) (\<lambda>r. r\<lparr>tn_revision := revision\<rparr>) (topic_names d)\<rparr>
      else d\<lparr>topic_names := topic_names d @ [\<lparr>tn_bot = fst conv, tn_chat = fst (snd conv),
              tn_thread = snd (snd conv), tn_name = [], tn_revision = revision\<rparr>]\<rparr>)"

definition ReserveTopicName :: "int64 \<Rightarrow> int64 \<Rightarrow> int64 \<Rightarrow> string \<Rightarrow> topic_name_reservation store" where
  "ReserveTopicName botID chat thread base = transact (
     bind (on_no_rows (query_row (\<lambda>d. map_option tn_revision
              (find (\<lambda>r. tn_conv r = (botID, chat, thread)) (topic_names d)))) (give 0) give) (\<lambda>stored.
     bind (with_db (\<lambda>d. reserve_loop (name_fuel d) botID chat thread base 1 (truncateTopicName base 128))) (\<lambda>name.
     let revision = wrap64 (stored + 1)
     in bind (execute (raise_revision (botID, chat, thread) revision)) (\<lambda>_.
        bind (exec_unless (\<lambda>d. exists_row (\<lambda>r. tr_conv r = (botID, chat, thread) \<and> tr_revision r = revision)
                (topic_reservations d))
          (\<lambda>d. d\<lparr>topic_reservations := topic_reservations d @ [\<lparr>tr_bot = botID, tr_chat = chat,
             tr_thread = thread, tr_name = name, tr_revision = revision, tr_active = True\<rparr>]\<rparr>)) (\<lambda>_.
        commit \<lparr>res_name = name, res_revision = revision\<rparr>)))))"

definition observe_name :: "conversation \<Rightarrow> string \<Rightarrow> database \<Rightarrow> database" where
  "observe_name conv name d =
     (if exists_row (\<lambda>r. tn_conv r = conv) (topic_names d)
      then d\<lparr>topic_names := update_rows (\<lambda>r. tn_conv r = conv)
              (\<lambda>r. r\<lparr>tn_name := name, tn_revision := tn_revision r + 1\<rparr>) (topic_names d)\<rparr>
      else d\<lparr>topic_names := topic_names d @ [\<lparr>tn_bot = fst conv, tn_chat = fst (snd conv),
              tn_thread = snd (snd conv), tn_name = name, tn_revision = 1\<rparr>]\<rparr>)"

definition ObserveTopicName :: "int64 \<Rightarrow> int64 \<Rightarrow> int64 \<Rightarrow> string \<Rightarrow> unit store" where
  "ObserveTopicName botID chat thread name =
     (if name = [] then give ()
      else transact (
        bind (execute (observe_name (botID, chat, thread) name)) (\<lambda>_.
        bind (execute (\<lambda>d. d\<lparr>topic_reservations := delete_rows
          (\<lambda>r. tr_conv r = (botID, chat, thread) \<and> \<not> tr_active r) (topic_reservations d)\<rparr>)) (\<lambda>_.
        commit ()))))"

definition matching_request :: "conversation \<Rightarrow> topic_name_reservation \<Rightarrow> topic_reservation_row \<Rightarrow> bool" where
  "matching_request conv r q \<longleftrightarrow> tr_conv q = conv \<and> tr_name q = res_name r
     \<and> tr_revision q = res_revision r \<and> tr_active q"

definition retain_request :: "conversation \<Rightarrow> topic_name_reservation \<Rightarrow> database \<Rightarrow> database" where
  "retain_request conv r d = d\<lparr>topic_reservations :=
     update_rows (matching_request conv r) (\<lambda>q. q\<lparr>tr_active := False\<rparr>) (topic_reservations d)\<rparr>"

definition drop_request :: "conversation \<Rightarrow> topic_name_reservation \<Rightarrow> database \<Rightarrow> database" where
  "drop_request conv r d = d\<lparr>topic_reservations := delete_rows (matching_request conv r) (topic_reservations d)\<rparr>"

definition ConfirmTopicName :: "int64 \<Rightarrow> int64 \<Rightarrow> int64 \<Rightarrow> topic_name_reservation \<Rightarrow> unit store" where
  "ConfirmTopicName botID chat thread r = (let conv = (botID, chat, thread) in transact (
     on_no_rows (query_row (\<lambda>d. if exists_row (matching_request conv r) (topic_reservations d)
         then find (\<lambda>n. tn_conv n = conv) (topic_names d) else None)) (abandon ()) (\<lambda>n.
     if tn_revision n = res_revision r
     then bind (execute (\<lambda>d. d\<lparr>topic_names := update_rows (\<lambda>q. tn_conv q = conv)
                 (\<lambda>q. q\<lparr>tn_name := res_name r, tn_revision := tn_revision q + 1\<rparr>) (topic_names d)\<rparr>)) (\<lambda>_.
          bind (execute (drop_request conv r)) (\<lambda>_. commit ()))
     else if tn_name n \<noteq> res_name r
     then bind (execute (retain_request conv r)) (\<lambda>_. commit ())
     else bind (execute (drop_request conv r)) (\<lambda>_. commit ()))))"

definition ReleaseTopicName :: "int64 \<Rightarrow> int64 \<Rightarrow> int64 \<Rightarrow> topic_name_reservation \<Rightarrow> unit store" where
  "ReleaseTopicName botID chat thread r = execute (drop_request (botID, chat, thread) r)"

definition RetainTopicName :: "int64 \<Rightarrow> int64 \<Rightarrow> int64 \<Rightarrow> topic_name_reservation \<Rightarrow> unit store" where
  "RetainTopicName botID chat thread r = execute (retain_request (botID, chat, thread) r)"

end
