(* ===== verification/StoreProgress.thy ===== *)
theory StoreProgress
  imports StoreTopicNames
begin

text \<open>
  Temporary progress previews (\<open>store.go\<close>): their registration, the boundary that replaces
  them, the recovery of the chat of previews written by older versions, and the previews whose
  replacement has been delivered.
\<close>

text \<open>Decoding the stored update (\<open>encoding/json\<close>): the chats of its message and of the message
  of its callback query, 0 where absent; none when the payload is not valid JSON.\<close>

type_synonym chat_decoder = "string \<Rightarrow> (int64 \<times> int64) option"

definition SetProgressMessage :: "int64 \<Rightarrow> int64 \<Rightarrow> int64 \<Rightarrow> unit store" where
  "SetProgressMessage inboxID chatID messageID =
     (if inboxID \<le> 0 \<or> chatID = 0 \<or> messageID \<le> 0 then throw (ErrMsg ''invalid progress message identity'')
      else bind (exec (\<lambda>d.
        if \<not> exists_row (\<lambda>r. in_id r = inboxID) (inbox d) then (0::nat, d)
        else if exists_row (\<lambda>p. pr_inbox_id p = inboxID \<and> pr_message_id p = messageID) (progress_messages d)
        then (1, d\<lparr>progress_messages := update_rows (\<lambda>p. pr_inbox_id p = inboxID \<and> pr_message_id p = messageID)
               (\<lambda>p. p\<lparr>pr_chat := (case pr_chat p of None \<Rightarrow> Some chatID | Some c \<Rightarrow> Some c)\<rparr>) (progress_messages d)\<rparr>)
        else (1, d\<lparr>progress_messages := progress_messages d @ [\<lparr>pr_inbox_id = inboxID, pr_chat = Some chatID,
               pr_message_id = messageID, pr_retired = False, pr_first_outbox_id = 0,
               pr_last_outbox_id = 0\<rparr>]\<rparr>))) (\<lambda>changed.
      if changed \<noteq> 1 then throw ErrNoRows else give ()))"

definition nth_option :: "'a list \<Rightarrow> nat \<Rightarrow> 'a option" where
  "nth_option xs n = (if n < length xs then Some (xs ! n) else None)"

definition RetireProgressMessages :: "int64 \<Rightarrow> int64 \<Rightarrow> int64 \<Rightarrow> int \<Rightarrow> unit store" where
  "RetireProgressMessages inboxID messageID firstID parts = transact (
     bind (if 0 < parts
           then query_row (\<lambda>d. nth_option (map out_id (select_by out_id
                  (\<lambda>r. out_inbox_id r = inboxID \<and> firstID \<le> out_id r) (outbox d))) (nat (parts - 1)))
           else give 0) (\<lambda>lastID.
     bind (execute (\<lambda>d. d\<lparr>progress_messages := update_rows
         (\<lambda>p. pr_inbox_id p = inboxID \<and> (messageID = 0 \<or> pr_message_id p = messageID) \<and> \<not> pr_retired p)
         (\<lambda>p. p\<lparr>pr_retired := True, pr_first_outbox_id := firstID, pr_last_outbox_id := lastID\<rparr>)
         (progress_messages d)\<rparr>)) (\<lambda>_.
     commit ())))"

definition to_progress_message :: "progress_row \<Rightarrow> progress_message" where
  "to_progress_message p = \<lparr>pm_inbox_id = pr_inbox_id p,
     pm_chat = (case pr_chat p of None \<Rightarrow> 0 | Some c \<Rightarrow> c), pm_message_id = pr_message_id p\<rparr>"

definition ProgressMessages :: "int64 \<Rightarrow> progress_message list store" where
  "ProgressMessages inboxID = query (\<lambda>d. map to_progress_message (select_by pr_message_id
     (\<lambda>p. pr_inbox_id p = inboxID \<and> pr_chat p \<noteq> None) (progress_messages d)))"

definition ClearProgressMessage :: "int64 \<Rightarrow> int64 \<Rightarrow> unit store" where
  "ClearProgressMessage inboxID messageID = execute (\<lambda>d. d\<lparr>progress_messages :=
     delete_rows (\<lambda>p. pr_inbox_id p = inboxID \<and> pr_message_id p = messageID) (progress_messages d)\<rparr>)"

section \<open>Unknown chats of old previews\<close>

text \<open>The chat of a preview is recovered only when the chats of the input's outputs, of its
  message and of its callback agree; 0 means unresolved.\<close>

definition resolve_chat :: "chat_decoder \<Rightarrow> int64 list \<Rightarrow> string \<Rightarrow> int64" where
  "resolve_chat decode chats raw =
     (if \<exists>c \<in> set chats. c \<noteq> hd chats then 0
      else let chat = (case chats of [] \<Rightarrow> 0 | c # _ \<Rightarrow> c) in
        case decode raw of
          None \<Rightarrow> chat
        | Some (messageChat, callbackChat) \<Rightarrow>
            if messageChat \<noteq> 0 \<and> chat \<noteq> 0 \<and> chat \<noteq> messageChat then 0
            else let chat' = (if messageChat \<noteq> 0 then messageChat else chat) in
              if callbackChat \<noteq> 0 \<and> chat' \<noteq> 0 \<and> chat' \<noteq> callbackChat then 0
              else if callbackChat \<noteq> 0 then callbackChat else chat')"

definition outbox_chats :: "int64 \<Rightarrow> database \<Rightarrow> int64 list" where
  "outbox_chats iid d = map out_chat (filter (\<lambda>r. out_inbox_id r = iid \<and> out_chat r \<noteq> 0) (outbox d))"

definition resolved_chats :: "chat_decoder \<Rightarrow> database \<Rightarrow> (int64 \<times> int64) list" where
  "resolved_chats decode d =
     filter (\<lambda>p. snd p \<noteq> 0)
       (map (\<lambda>r. (in_id r, resolve_chat decode (outbox_chats (in_id r) d) (in_raw r)))
         (filter (\<lambda>r. exists_row (\<lambda>p. pr_inbox_id p = in_id r \<and> pr_chat p = None) (progress_messages d)) (inbox d)))"

fun set_chats :: "(int64 \<times> int64) list \<Rightarrow> unit store" where
  "set_chats [] = give ()"
| "set_chats ((iid, chat) # rest) =
     bind (execute (\<lambda>d. d\<lparr>progress_messages := update_rows (\<lambda>p. pr_inbox_id p = iid \<and> pr_chat p = None)
       (\<lambda>p. p\<lparr>pr_chat := Some chat\<rparr>) (progress_messages d)\<rparr>)) (\<lambda>_. set_chats rest)"

definition backfillProgressChats :: "chat_decoder \<Rightarrow> unit store" where
  "backfillProgressChats decode = bind (query (resolved_chats decode)) set_chats"

section \<open>Delivered replacements\<close>

definition delivered :: "outbox_row \<Rightarrow> bool" where
  "delivered r \<longleftrightarrow> out_state r = OutboxDone \<or> out_state r = OutboxSent"

definition preview_replaced :: "database \<Rightarrow> progress_row \<Rightarrow> inbox_row \<Rightarrow> bool" where
  "preview_replaced d p i \<longleftrightarrow>
     (pr_retired p \<and>
        (pr_first_outbox_id p = 0 \<or>
         (exists_row (\<lambda>q. out_inbox_id q = in_id i \<and> out_id q = pr_first_outbox_id p) (outbox d) \<and>
          exists_row (\<lambda>q. out_inbox_id q = in_id i \<and> out_id q = pr_last_outbox_id p) (outbox d) \<and>
          \<not> exists_row (\<lambda>q. out_inbox_id q = in_id i \<and> pr_first_outbox_id p \<le> out_id q
              \<and> out_id q \<le> pr_last_outbox_id p \<and> \<not> delivered q) (outbox d)))) \<or>
     (\<not> pr_retired p \<and>
        in_state i \<in> {InboxDone, InboxCancelled, InboxFailed, InboxIgnored, InboxUncertain} \<and>
        exists_row (\<lambda>q. out_inbox_id q = in_id i \<and> out_kind q = ''text'') (outbox d) \<and>
        \<not> exists_row (\<lambda>q. out_inbox_id q = in_id i \<and> \<not> delivered q) (outbox d))"

definition completed_previews :: "int64 \<Rightarrow> database \<Rightarrow> progress_message list" where
  "completed_previews inboxID d = map to_progress_message (select_by (\<lambda>p. (pr_inbox_id p, pr_message_id p))
     (\<lambda>p. pr_chat p \<noteq> None \<and> exists_row (\<lambda>i. in_id i = pr_inbox_id p \<and> (inboxID = 0 \<or> in_id i = inboxID)
        \<and> preview_replaced d p i) (inbox d)) (progress_messages d))"

definition CompletedProgressMessages :: "chat_decoder \<Rightarrow> int64 \<Rightarrow> progress_message list store" where
  "CompletedProgressMessages decode inboxID = transact (
     bind (backfillProgressChats decode) (\<lambda>_.
     bind (query (completed_previews inboxID)) commit))"

end
