(* ===== verification/StoreCleanup.thy ===== *)
theory StoreCleanup
  imports StoreProgress
begin

text \<open>
  Retention (\<open>store.go\<close>): terminal inputs, settled outputs and expired follow-ups older than the
  cutoff leave the database in batches, each batch in its own transaction.
\<close>

definition inbox_terminal :: "inbox_state \<Rightarrow> bool" where
  "inbox_terminal s \<longleftrightarrow> s \<in> {InboxDone, InboxCancelled, InboxIgnored, InboxFailed, InboxUncertain}"

definition inbox_removable :: "int64 \<Rightarrow> database \<Rightarrow> inbox_row \<Rightarrow> bool" where
  "inbox_removable cutoff d r \<longleftrightarrow> inbox_terminal (in_state r)
     \<and> \<not> exists_row (\<lambda>p. pr_inbox_id p = in_id r) (progress_messages d)
     \<and> in_updated_at r < cutoff
     \<and> \<not> exists_row (\<lambda>m. m_inbox_id m = in_id r) (migrations d)"

definition inbox_batch :: "int64 \<Rightarrow> database \<Rightarrow> int64 list" where
  "inbox_batch cutoff d = map in_id (take messageCleanupBatchSize
     (select_by in_id (inbox_removable cutoff d) (inbox d)))"

definition cleanupInboxBatch :: "int64 \<Rightarrow> nat store" where
  "cleanupInboxBatch cutoff = transact (
     bind (exec (\<lambda>d. let batch = inbox_batch cutoff d
         in (count_rows (\<lambda>r. in_id r \<in> set batch) (inbox d),
             d\<lparr>inbox := delete_rows (\<lambda>r. in_id r \<in> set batch) (inbox d)\<rparr>))) (\<lambda>count.
     commit count))"

text \<open>Deliverable metadata and reserved buttons keep their message until they are settled.\<close>

definition outbox_removable :: "int64 \<Rightarrow> database \<Rightarrow> outbox_row \<Rightarrow> bool" where
  "outbox_removable cutoff d r \<longleftrightarrow>
     out_state r \<in> {OutboxDone, OutboxSent, OutboxFailed, OutboxUncertain, OutboxCancelled}
     \<and> \<not> (out_state r = OutboxDone \<and> 0 < out_message_id r
           \<and> ((out_header_editable r \<and> out_header_pending r) \<or> out_actions_pending r \<in> {1, 2}))
     \<and> out_updated_at r < cutoff
     \<and> \<not> exists_row (\<lambda>p. pr_inbox_id p = out_inbox_id r) (progress_messages d)
     \<and> \<not> exists_row (\<lambda>a. fa_outbox_id a = out_id r \<and> \<not> fa_consumed a \<and> fa_consumed_by a \<noteq> 0) (final_actions d)"

definition outbox_batch :: "int64 \<Rightarrow> database \<Rightarrow> int64 list" where
  "outbox_batch cutoff d = map out_id (take messageCleanupBatchSize
     (select_by out_id (outbox_removable cutoff d) (outbox d)))"

text \<open>The trigger \<open>delete_outbox_final_actions\<close> removes the buttons of a deleted message.\<close>

definition delete_outbox :: "int64 list \<Rightarrow> database \<Rightarrow> nat \<times> database" where
  "delete_outbox batch d =
     (count_rows (\<lambda>r. out_id r \<in> set batch) (outbox d),
      d\<lparr>outbox := delete_rows (\<lambda>r. out_id r \<in> set batch) (outbox d),
        final_actions := delete_rows (\<lambda>a. exists_row (\<lambda>r. out_id r \<in> set batch \<and> out_id r = fa_outbox_id a) (outbox d))
          (final_actions d)\<rparr>)"

definition cleanupOutboxBatch :: "int64 \<Rightarrow> (nat \<times> string list) store" where
  "cleanupOutboxBatch cutoff = transact (
     bind (query (\<lambda>d. map out_path (filter (\<lambda>r. out_id r \<in> set (outbox_batch cutoff d)
         \<and> out_kind r \<in> {''photo'', ''document''}) (outbox d)))) (\<lambda>paths.
     bind (exec (\<lambda>d. delete_outbox (outbox_batch cutoff d) d)) (\<lambda>count.
     commit (count, paths))))"

record cleanup_result =
  cr_inbox :: nat
  cr_outbox :: nat
  cr_followups :: nat
  cr_attachment_paths :: "string list"

text \<open>\<open>if err := ctx.Err(); err != nil\<close> between two batches is one more call that may fail.\<close>

definition ctx_check :: "unit store" where
  "ctx_check = query (\<lambda>_. ())"

fun cleanup_loop :: "nat \<Rightarrow> (nat \<times> string list) store \<Rightarrow> nat \<Rightarrow> string list \<Rightarrow> (nat \<times> string list) store" where
  "cleanup_loop 0 batch removed paths = throw Diverged"
| "cleanup_loop (Suc fuel) batch removed paths =
     bind batch (\<lambda>(count, found).
     if count < messageCleanupBatchSize then give (removed + count, paths @ found)
     else bind ctx_check (\<lambda>_. cleanup_loop fuel batch (removed + count) (paths @ found)))"

definition without_paths :: "nat store \<Rightarrow> (nat \<times> string list) store" where
  "without_paths m = bind m (\<lambda>n. give (n, []))"

text \<open>Every full batch removes rows, so a loop runs at most once per row and once more.\<close>

definition CleanupMessages :: "int64 \<Rightarrow> int64 \<Rightarrow> cleanup_result store" where
  "CleanupMessages now cutoff =
     bind (with_db (\<lambda>d. cleanup_loop (length (inbox d) + 1) (without_paths (cleanupInboxBatch cutoff)) 0 [])) (\<lambda>(n, _).
     bind (with_db (\<lambda>d. cleanup_loop (length (outbox d) + 1) (cleanupOutboxBatch cutoff) 0 [])) (\<lambda>(m, paths).
     bind (with_db (\<lambda>d. cleanup_loop (length (followup_requests d) + 1)
            (without_paths (CleanupFollowupRequests now cutoff)) 0 [])) (\<lambda>(k, _).
     give \<lparr>cr_inbox = n, cr_outbox = m, cr_followups = k, cr_attachment_paths = paths\<rparr>)))"

end
