(* ===== verification/StoreSettings.thy ===== *)
theory StoreSettings
  imports StoreTypes
begin

text \<open>
  Single-row settings: the selected argument preset (\<open>store.go\<close>) and the interface language
  (\<open>store/language.go\<close>, \<open>i18n/i18n.go\<close>).
\<close>

section \<open>The argument preset\<close>

text \<open>The stored selection is used only when it is the single row, has the expected types, and
  belongs to the configured presets.\<close>

definition stored_selection :: "string \<Rightarrow> int \<Rightarrow> (sql_value \<times> sql_value) list \<Rightarrow> int option" where
  "stored_selection fingerprint presetCount rows =
     (case rows of
        [(SqlInt index, SqlText saved)] \<Rightarrow>
          if saved = fingerprint \<and> 1 \<le> index \<and> index \<le> presetCount then Some index else None
      | _ \<Rightarrow> None)"

definition replace_selection :: "int \<Rightarrow> string \<Rightarrow> unit store" where
  "replace_selection index fingerprint =
     bind (execute (\<lambda>d. d\<lparr>args_selection := []\<rparr>)) (\<lambda>_.
     exec_unless (\<lambda>d. args_selection d \<noteq> [])
       (\<lambda>d. d\<lparr>args_selection := args_selection d @ [(SqlInt index, SqlText fingerprint)]\<rparr>))"

definition LoadOrResetOMPArgsSelection :: "string \<Rightarrow> int \<Rightarrow> int store" where
  "LoadOrResetOMPArgsSelection fingerprint presetCount =
     (if fingerprint = [] then throw (ErrMsg ''OMP arguments fingerprint must not be empty'')
      else if presetCount < 1 then throw (ErrMsg ''OMP argument preset count must be at least one'')
      else transact (
        bind (query args_selection) (\<lambda>rows.
        case stored_selection fingerprint presetCount rows of
          Some index \<Rightarrow> commit index
        | None \<Rightarrow> bind (replace_selection 1 fingerprint) (\<lambda>_. commit 1))))"

definition SetOMPArgsSelection :: "int \<Rightarrow> string \<Rightarrow> int \<Rightarrow> unit store" where
  "SetOMPArgsSelection index fingerprint presetCount =
     (if fingerprint = [] then throw (ErrMsg ''OMP arguments fingerprint must not be empty'')
      else if presetCount < 1 then throw (ErrMsg ''OMP argument preset count must be at least one'')
      else if index < 1 \<or> presetCount < index then throw (ErrMsg ''OMP argument preset index out of range'')
      else transact (bind (replace_selection index fingerprint) (\<lambda>_. commit ())))"

section \<open>The interface language\<close>

datatype language = English | Chinese

definition language_code :: "language \<Rightarrow> string" where
  "language_code l = (case l of English \<Rightarrow> ''en'' | Chinese \<Rightarrow> ''zh'')"

definition Parse :: "string \<Rightarrow> language \<times> bool" where
  "Parse value = (if value = ''en'' then (English, True)
     else if value = ''zh'' then (Chinese, True) else (English, False))"

definition Language :: "language store" where
  "Language =
     on_no_rows (query_row interface_language) (give English) (\<lambda>code.
     case Parse code of (parsed, ok) \<Rightarrow>
       if \<not> ok then throw (ErrMsg ''invalid stored interface language'') else give parsed)"

definition SetLanguage :: "string \<Rightarrow> unit store" where
  "SetLanguage code =
     (if \<not> snd (Parse code) then throw (ErrMsg ''unsupported interface language'')
      else execute (\<lambda>d. d\<lparr>interface_language := Some code\<rparr>))"

end
