(* ===== verification/StoreFootprints.thy ===== *)
theory StoreFootprints
  imports StoreCleanup StoreSettings
begin

text \<open>
  Which tables each operation can write. A property that reads other tables only is kept by
  the operation, which discharges most cases of an invariant proof; the loops of the code are
  related to the statements they repeat here, once for every relation.
\<close>

datatype table = TMeta | TInbox | TOutbox | TBindings | TIntents | THistory | TFavorites | TArgs
  | TMigrations | TLanguage | TNames | TReservations | TProgress | TActions | TFollowups

fun same :: "table \<Rightarrow> database \<Rightarrow> database \<Rightarrow> bool" where
  "same TMeta d d' = (meta d' = meta d)"
| "same TInbox d d' = (inbox d' = inbox d)"
| "same TOutbox d d' = (outbox d' = outbox d \<and> outbox_seq d' = outbox_seq d)"
| "same TBindings d d' = (bindings d' = bindings d)"
| "same TIntents d d' = (startup_intents d' = startup_intents d)"
| "same THistory d d' = (history d' = history d)"
| "same TFavorites d d' = (session_favorites d' = session_favorites d)"
| "same TArgs d d' = (args_selection d' = args_selection d)"
| "same TMigrations d d' = (migrations d' = migrations d)"
| "same TLanguage d d' = (interface_language d' = interface_language d)"
| "same TNames d d' = (topic_names d' = topic_names d)"
| "same TReservations d d' = (topic_reservations d' = topic_reservations d)"
| "same TProgress d d' = (progress_messages d' = progress_messages d)"
| "same TActions d d' = (final_actions d' = final_actions d)"
| "same TFollowups d d' = (followup_requests d' = followup_requests d)"

definition only :: "table set \<Rightarrow> database \<Rightarrow> database \<Rightarrow> bool" where
  "only S d d' \<longleftrightarrow> (\<forall>t. t \<notin> S \<longrightarrow> same t d d')"

lemma same_refl [simp]: "same t d d"
  by (cases t) simp_all

lemma same_trans: "same t d d' \<Longrightarrow> same t d' d'' \<Longrightarrow> same t d d''"
  by (cases t) simp_all


lemma all_tables: "(\<forall>t. P t) \<longleftrightarrow>
   P TMeta \<and> P TInbox \<and> P TOutbox \<and> P TBindings \<and> P TIntents \<and> P THistory \<and> P TFavorites \<and> P TArgs
   \<and> P TMigrations \<and> P TLanguage \<and> P TNames \<and> P TReservations \<and> P TProgress \<and> P TActions \<and> P TFollowups"
proof (intro iffI allI)
  fix t assume "P TMeta \<and> P TInbox \<and> P TOutbox \<and> P TBindings \<and> P TIntents \<and> P THistory \<and> P TFavorites
    \<and> P TArgs \<and> P TMigrations \<and> P TLanguage \<and> P TNames \<and> P TReservations \<and> P TProgress \<and> P TActions
    \<and> P TFollowups"
  then show "P t" by (cases t) simp_all
qed simp

lemma only_iff: "only S d d' \<longleftrightarrow>
   (TMeta \<notin> S \<longrightarrow> same TMeta d d') \<and> (TInbox \<notin> S \<longrightarrow> same TInbox d d') \<and>
   (TOutbox \<notin> S \<longrightarrow> same TOutbox d d') \<and> (TBindings \<notin> S \<longrightarrow> same TBindings d d') \<and>
   (TIntents \<notin> S \<longrightarrow> same TIntents d d') \<and> (THistory \<notin> S \<longrightarrow> same THistory d d') \<and>
   (TFavorites \<notin> S \<longrightarrow> same TFavorites d d') \<and> (TArgs \<notin> S \<longrightarrow> same TArgs d d') \<and>
   (TMigrations \<notin> S \<longrightarrow> same TMigrations d d') \<and> (TLanguage \<notin> S \<longrightarrow> same TLanguage d d') \<and>
   (TNames \<notin> S \<longrightarrow> same TNames d d') \<and> (TReservations \<notin> S \<longrightarrow> same TReservations d d') \<and>
   (TProgress \<notin> S \<longrightarrow> same TProgress d d') \<and> (TActions \<notin> S \<longrightarrow> same TActions d d') \<and>
   (TFollowups \<notin> S \<longrightarrow> same TFollowups d d')"
  unfolding only_def by (rule all_tables)

abbreviation footprint :: "table set \<Rightarrow> 'a store \<Rightarrow> bool" where
  "footprint S m \<equiv> follows (only S) m"

definition reads_only :: "table set \<Rightarrow> (database \<Rightarrow> bool) \<Rightarrow> bool" where
  "reads_only T P \<longleftrightarrow> (\<forall>d d'. only (- T) d d' \<longrightarrow> P d \<longrightarrow> P d')"

lemma only_mono: "only S d d' \<Longrightarrow> S \<subseteq> S' \<Longrightarrow> only S' d d'"
  unfolding only_def by blast

lemma untouched:
  assumes "reads_only T P" and "footprint S m" and "S \<inter> T = {}"
  shows "preserves P m"
proof -
  have "S \<subseteq> - T" using assms(3) by auto
  then have "P d \<longrightarrow> P d'" if "only S d d'" for d d'
    using assms(1) only_mono [OF that] unfolding reads_only_def by blast
  then show ?thesis
    unfolding preserves_def by (intro follows_mono [OF assms(2)])
qed

lemma untouched_relation:
  assumes "\<And>d d'. only (- T) d d' \<Longrightarrow> R d d'" and "footprint S m" and "S \<inter> T = {}"
  shows "follows R m"
  by (rule follows_mono [OF assms(2)]) (metis assms(1,3) disjoint_eq_subset_Compl only_mono)

section \<open>Loops\<close>

text \<open>For a relation that the repeated statement follows, the loop follows it.\<close>

locale store_relation = db_relation R for R :: "database \<Rightarrow> database \<Rightarrow> bool"
begin

lemma follows_fold:
  assumes "follows R m" and "\<And>x rest. follows R rest \<Longrightarrow> follows R (f x rest)"
  shows "follows R (fold f xs m)"
  using assms by (induction xs arbitrary: m) auto

lemma follows_append_loop:
  assumes "\<And>reply header he body rt. follows R (exec (insert_outbox (reply_row now iid chat thread reply header he body rt)))"
  shows "follows R (append_loop now iid chat thread bodyParts i replies header he replyTo firstID)"
  by (induction replies arbitrary: i header he replyTo firstID)
    (auto intro!: follows_reads follows_bind assms)

lemma follows_complete_loop:
  assumes "\<And>reply header he body rt. follows R (exec (insert_outbox (reply_row now iid chat thread reply header he body rt)))"
  shows "follows R (complete_loop now iid chat thread bodyParts i replies header he replyTo targetID)"
  by (induction replies arbitrary: i header he replyTo targetID)
    (auto intro!: follows_reads follows_bind assms)

lemma follows_insert_actions:
  assumes "\<And>d r. \<not> exists_row (\<lambda>r'. fa_token r' = fa_token r) (final_actions d) \<Longrightarrow>
      \<not> fa_consumed r \<Longrightarrow> fa_consumed_by r = 0 \<Longrightarrow> fa_outbox_id r = target \<Longrightarrow>
      R d (d\<lparr>final_actions := final_actions d @ [r]\<rparr>)"
  shows "follows R (insert_actions st target chat thread actions)"
  by (induction actions) (auto intro!: follows_reads follows_bind follows_exec_unless assms simp: Let_def)

lemma follows_recover_loop:
  assumes "\<And>iid. follows R (consumeFinalAction codec iid)"
    and "\<And>iid d. R d (snd (update_inbox (\<lambda>r. in_id r = iid \<and> in_state r = InboxPending)
       (\<lambda>r. r\<lparr>in_state := InboxCancelled\<rparr>) d))"
  shows "follows R (recover_loop codec ids)"
  by (induction ids) (auto intro!: follows_reads follows_bind follows_execute assms)

lemma follows_reserve_loop: "follows R (reserve_loop fuel botID chat thread base attempt name)"
  by (induction fuel arbitrary: attempt name) (auto intro!: follows_reads follows_bind)

lemma follows_set_chats:
  assumes "\<And>iid chat d. R d (d\<lparr>progress_messages := update_rows
     (\<lambda>p. pr_inbox_id p = iid \<and> pr_chat p = None) (\<lambda>p. p\<lparr>pr_chat := Some chat\<rparr>) (progress_messages d)\<rparr>)"
  shows "follows R (set_chats ps)"
  by (induction ps rule: set_chats.induct) (auto intro!: follows_reads follows_bind follows_execute assms)

lemma follows_pending_ids_loop: "follows R (pending_ids_loop ids acc)"
proof (induction ids acc rule: pending_ids_loop.induct)
  case (1 ids acc)
  then show ?case
    by (subst pending_ids_loop.simps) (auto intro!: follows_reads follows_bind)
qed

lemma follows_cleanup_loop:
  assumes "follows R batch"
  shows "follows R (cleanup_loop fuel batch acc paths)"
  by (induction fuel arbitrary: acc paths)
    (auto intro!: follows_reads follows_bind assms simp: ctx_check_def)

lemma follows_migrationGuard: "follows R (migrationGuard conv)"
  unfolding migrationGuard_def by (intro follows_intros)

lemma follows_migrationSessionGuard: "follows R (migrationSessionGuard botID file sid)"
  unfolding migrationSessionGuard_def by (intro follows_intros)

lemma follows_migrationSourceCAS: "follows R (migrationSourceCAS m)"
  unfolding migrationSourceCAS_def by (intro follows_intros)

lemmas follows_rules = follows_intros follows_stmt follows_fold follows_append_loop follows_complete_loop
  follows_insert_actions follows_recover_loop follows_reserve_loop follows_set_chats
  follows_pending_ids_loop follows_cleanup_loop follows_migrationGuard follows_migrationSessionGuard
  follows_migrationSourceCAS

end

interpretation foot: store_relation "only S" for S
  by unfold_locales (auto simp: only_def intro: same_trans)

interpretation kept: store_relation "\<lambda>d d'. P d \<longrightarrow> P d'" for P
  by unfold_locales auto

lemmas keep_rules = kept.follows_rules [folded preserves_def]

section \<open>The footprints\<close>

named_theorems footprints "the tables an operation can write"

lemmas only_simps = only_iff table_updates insert_inbox_def raise_offset_def insert_outbox_def

lemma inbox_footprints [footprints]:
  "footprint {TInbox, TMeta} (Accept now iid raw)"
  "footprint {TInbox, TMeta} (AcceptIgnored now iid)"
  "footprint {TMeta} (CheckBot iid)"
  "footprint {TInbox} (Mark now iid state)"
  "footprint {TInbox} (FinishSubmitted now iid state)"
  "footprint {TInbox} (Submit now iid replyTo)"
  "footprint {TInbox} (CancelPendingFollowupInbox now iid)"
  "footprint {TInbox} (SettleRejectedFinalAction now iid)"
  unfolding Accept_def AcceptIgnored_def CheckBot_def Mark_def FinishSubmitted_def Submit_def
    CancelPendingFollowupInbox_def SettleRejectedFinalAction_def
  by (intro foot.follows_rules; simp add: only_simps)+

lemma outbox_footprints [footprints]:
  "footprint {TOutbox} (Enqueue now chat thread body)"
  "footprint {TOutbox} (EnqueueAttachment now chat thread kind path name caption)"
  "footprint {TOutbox} (appendInboxReplies now iid chat thread replies header he bodyParts)"
  "footprint {TOutbox} (SetAssistantHeader now oid header)"
  "footprint {TOutbox} (ClaimNextOutput clock now)"
  "footprint {TOutbox} (RetryOutput now oid next)"
  "footprint {TOutbox} (RetryServerOutput now oid next maxAttempts)"
  "footprint {TOutbox} (MarkOutput now oid ostate)"
  "footprint {TOutbox} (MarkOutputDelivered now oid messageID sentHeader markup)"
  "footprint {TOutbox} NextAssistantHeader"
  "footprint {TOutbox} (MarkAssistantHeaderDelivered oid header actions)"
  "footprint {TOutbox} (ClaimFinalActionEdit now)"
  "footprint {TOutbox} (ReleaseAssistantEdit oid)"
  "footprint {TOutbox} (FinishFinalActionEdit oid snapshot)"
  unfolding Enqueue_def EnqueueAttachment_def appendInboxReplies_def SetAssistantHeader_def
    ClaimNextOutput_def RetryOutput_def RetryServerOutput_def MarkOutput_def MarkOutputDelivered_def
    NextAssistantHeader_def MarkAssistantHeaderDelivered_def ClaimFinalActionEdit_def
    ReleaseAssistantEdit_def FinishFinalActionEdit_def
  by (intro foot.follows_rules; auto simp: only_simps split: option.splits)+

lemma binding_footprints [footprints]:
  "footprint {TBindings, THistory} (Save b)"
  "footprint {TBindings} (TouchBinding botID chat thread generation usedAt)"
  "footprint {TBindings, THistory, TFavorites} (DeleteClosedBinding botID chat thread generation)"
  "footprint {TBindings} (SetRunning b running)"
  "footprint {TBindings} (SetInterrupted b interrupted)"
  "footprint {TFavorites} (SetPinnedSession botID chat thread workspace sid pinned)"
  "footprint {TFavorites} (SetPinnedSessionIfGeneration botID chat thread generation workspace sid pinned)"
  "footprint {TBindings, THistory, TFavorites} (deleteSessionReferences botID sid missing)"
  "footprint {TBindings, TIntents} (PrepareStart now b intent)"
  "footprint {TBindings, TIntents, THistory} (CommitStart b)"
  "footprint {TIntents} (retireStartupIntents p)"
  "footprint {TBindings} backfillSessionIDs"
  unfolding Save_def TouchBinding_def DeleteClosedBinding_def SetRunning_def SetInterrupted_def
    SetPinnedSession_def SetPinnedSessionIfGeneration_def deleteSessionReferences_def PrepareStart_def
    CommitStart_def retireStartupIntents_def backfillSessionIDs_def
  by (intro foot.follows_rules;
      auto simp: only_simps upsert_binding_def archive_binding_def pin_def split: if_splits)+

lemma migration_footprints [footprints]:
  "footprint {TMigrations} (PrepareMigration now m)"
  "footprint {TMigrations, TInbox} (UpdateMigration now m phase)"
  "footprint {TMigrations, TInbox} (FailMigration now mid kind)"
  "footprint {TMigrations, TInbox, TOutbox, TBindings, THistory} (publishMigration now m target notice recovery)"
  unfolding PrepareMigration_def UpdateMigration_def apply_update_def FailMigration_def publishMigration_def
  by (intro foot.follows_rules;
      auto simp: only_simps write_migration_def fail_submitted_def archive_binding_def)+

lemma consume_footprint: "footprint {TActions, TOutbox} (consumeFinalAction codec iid)"
  unfolding consumeFinalAction_def by (intro foot.follows_rules; simp add: only_simps)+

lemma action_footprints [footprints]:
  "footprint {TInbox, TOutbox, TActions} (completeInboxWithReplies codec now iid chat thread state replies targetID header he actions)"
  "footprint {TActions} (ReserveFinalAction claim)"
  "footprint {TActions, TOutbox} (ConsumeFinalAction codec iid)"
  "footprint {TActions, TInbox} (ReleaseFinalAction now iid)"
  unfolding completeInboxWithReplies_def registerFinalActions_def ReserveFinalAction_def
    ConsumeFinalAction_def ReleaseFinalAction_def
  by (intro foot.follows_rules consume_footprint; simp add: only_simps)+

lemma followup_footprints [footprints]:
  "footprint {TFollowups} (CreateFollowupRequest r)"
  "footprint {TFollowups} (FinishFollowupPrompt token inst messageID ok)"
  "footprint {TFollowups} (CancelFollowupRequests botID chat thread)"
  "footprint {TFollowups} (ConsumeFollowupRequest now r iid)"
  "footprint {TFollowups} (CleanupFollowupRequests now cutoff)"
  unfolding CreateFollowupRequest_def FinishFollowupPrompt_def CancelFollowupRequests_def
    ConsumeFollowupRequest_def CleanupFollowupRequests_def Let_def
  by (intro foot.follows_rules; auto simp: only_simps split: if_splits)+

lemma topic_footprints [footprints]:
  "footprint {TNames, TReservations} (ReserveTopicName botID chat thread base)"
  "footprint {TNames, TReservations} (ObserveTopicName botID chat thread name)"
  "footprint {TNames, TReservations} (ConfirmTopicName botID chat thread r)"
  "footprint {TReservations} (ReleaseTopicName botID chat thread r)"
  "footprint {TReservations} (RetainTopicName botID chat thread r)"
  unfolding ReserveTopicName_def ObserveTopicName_def ConfirmTopicName_def ReleaseTopicName_def
    RetainTopicName_def Let_def
  by (intro foot.follows_rules;
      simp add: only_simps raise_revision_def observe_name_def retain_request_def drop_request_def)+

lemma progress_footprints [footprints]:
  "footprint {TProgress} (SetProgressMessage iid chat messageID)"
  "footprint {TProgress} (RetireProgressMessages iid messageID firstID parts)"
  "footprint {TProgress} (CompletedProgressMessages decode iid)"
  "footprint {TProgress} (ClearProgressMessage iid messageID)"
  unfolding SetProgressMessage_def RetireProgressMessages_def CompletedProgressMessages_def
    backfillProgressChats_def ClearProgressMessage_def
  by (intro foot.follows_rules; simp add: only_simps)+

lemma cleanup_footprints [footprints]:
  "footprint {TInbox} (cleanupInboxBatch cutoff)"
  "footprint {TOutbox, TActions} (cleanupOutboxBatch cutoff)"
  unfolding cleanupInboxBatch_def cleanupOutboxBatch_def Let_def
  by (intro foot.follows_rules; simp add: only_simps delete_outbox_def)+

lemma settings_footprints [footprints]:
  "footprint {TArgs} (LoadOrResetOMPArgsSelection fingerprint presetCount)"
  "footprint {TArgs} (SetOMPArgsSelection index fingerprint presetCount)"
  "footprint {TLanguage} (SetLanguage code)"
  unfolding LoadOrResetOMPArgsSelection_def SetOMPArgsSelection_def SetLanguage_def replace_selection_def
  by (intro foot.follows_rules; simp add: only_simps)+

end
