(* ===== verification/StoreInit.thy ===== *)
theory StoreInit
  imports StoreFootprints
begin

text \<open>
  The recovery that \<open>initialize\<close> runs in one transaction whenever a daemon opens the
  database: chats and session identifiers of old rows are filled in, work whose outcome is
  unknown becomes uncertain, claims of the previous process are dropped, and reserved
  completion shortcuts are consumed without running them.
\<close>

definition settle_submitted :: "int64 \<Rightarrow> database \<Rightarrow> database" where
  "settle_submitted now d = snd (update_inbox (\<lambda>r. in_state r = InboxSubmitted)
     (\<lambda>r. r\<lparr>in_state := InboxUncertain, in_updated_at := now\<rparr>) d)"

definition cancel_accepted :: "int64 \<Rightarrow> database \<Rightarrow> database" where
  "cancel_accepted now d = snd (update_inbox (\<lambda>r. in_state r = InboxPending
       \<and> exists_row (\<lambda>a. fa_consumed a \<and> fa_consumed_by a = in_id r) (final_actions d))
     (\<lambda>r. r\<lparr>in_state := InboxCancelled, in_updated_at := now\<rparr>) d)"

definition settle_sending :: "int64 \<Rightarrow> database \<Rightarrow> database" where
  "settle_sending now d = snd (update_outbox (\<lambda>r. out_state r = OutboxSending)
     (\<lambda>r. r\<lparr>out_state := OutboxUncertain, out_updated_at := now\<rparr>) d)"

definition drop_edit_claims :: "database \<Rightarrow> database" where
  "drop_edit_claims d = snd (update_outbox (\<lambda>r. out_actions_pending r = 2) (\<lambda>r. r\<lparr>out_actions_pending := 0\<rparr>) d)"

definition drop_name_requests :: "database \<Rightarrow> database" where
  "drop_name_requests d =
     d\<lparr>topic_reservations := update_rows tr_active (\<lambda>r. r\<lparr>tr_active := False\<rparr>) (topic_reservations d)\<rparr>"

definition settle_interrupted :: "int64 \<Rightarrow> database \<Rightarrow> database" where
  "settle_interrupted now d =
     drop_name_requests (drop_edit_claims (settle_sending now (cancel_accepted now (settle_submitted now d))))"

lemmas settle_defs = settle_submitted_def cancel_accepted_def settle_sending_def drop_edit_claims_def
  drop_name_requests_def

text \<open>For a transitive relation the five updates are taken one at a time.\<close>

context store_relation
begin

lemma settle_interrupted_follows:
  assumes "\<And>d. R d (settle_submitted now d)" and "\<And>d. R d (cancel_accepted now d)"
    and "\<And>d. R d (settle_sending now d)" and "\<And>d. R d (drop_edit_claims d)" and "\<And>d. R d (drop_name_requests d)"
  shows "R d (settle_interrupted now d)"
  unfolding settle_interrupted_def by (meson assms R_trans)

end

definition recover :: "action_codec \<Rightarrow> chat_decoder \<Rightarrow> int64 \<Rightarrow> unit store" where
  "recover codec decode now = transact (
     bind (backfillProgressChats decode) (\<lambda>_.
     bind backfillSessionIDs (\<lambda>_.
     bind (execute (settle_interrupted now)) (\<lambda>_.
     bind (recoverFinalActionReservations codec) (\<lambda>_.
     commit ())))))"

lemma recover_footprint [footprints]:
  "footprint {TInbox, TOutbox, TBindings, TReservations, TProgress, TActions} (recover codec decode now)"
proof -
  have backfill: "footprint {TInbox, TOutbox, TBindings, TReservations, TProgress, TActions} backfillSessionIDs"
    by (rule follows_mono [OF binding_footprints(12)]) (erule only_mono, simp)
  have consume: "footprint {TInbox, TOutbox, TBindings, TReservations, TProgress, TActions} (consumeFinalAction codec iid)" for iid
    by (rule follows_mono [OF consume_footprint]) (erule only_mono, simp)
  have "only {TInbox, TOutbox, TBindings, TReservations, TProgress, TActions} d (settle_interrupted now d)" for d
    by (intro foot.settle_interrupted_follows; simp add: only_simps settle_defs)
  then show ?thesis
    unfolding recover_def backfillProgressChats_def recoverFinalActionReservations_def
    by (intro foot.follows_rules backfill consume; simp add: only_simps)
qed

end
