(* ===== verification/StoreSteps.thy ===== *)
theory StoreSteps
  imports StoreInit
begin

text \<open>
  The store as a transition system. A store operation is any call of the package that can
  write, with any arguments, on any world: it may fail at any driver call. The reachable
  databases are those that sequences of such calls lead to, restarts included. The locale
  states once how an invariant of single operations becomes a fact about every reachable
  database.
\<close>

section \<open>The operations\<close>

definition discard :: "'a store \<Rightarrow> unit store" where
  "discard m = bind m (\<lambda>_. give ())"

text \<open>The bridge passes \<open>MarkOutput\<close> the outcome of a finished delivery only
  (\<open>bridge.go\<close>, the delivery loop); claims go through \<open>ClaimNextOutput\<close>. The exported settlements
  end in done, uncertain or cancelled.\<close>

inductive store_op :: "action_codec \<Rightarrow> chat_decoder \<Rightarrow> unit store \<Rightarrow> bool" for codec decode where
  op_Accept: "store_op codec decode (discard (Accept now iid raw))"
| op_AcceptIgnored: "store_op codec decode (discard (AcceptIgnored now iid))"
| op_CheckBot: "store_op codec decode (discard (CheckBot iid))"
| op_Mark: "store_op codec decode (discard (Mark now iid state))"
| op_FinishSubmitted: "store_op codec decode (discard (FinishSubmitted now iid state))"
| op_Submit: "store_op codec decode (discard (Submit now iid replyTo))"
| op_CancelPending: "store_op codec decode (discard (CancelPendingFollowupInbox now iid))"
| op_SettleRejected: "store_op codec decode (discard (SettleRejectedFinalAction now iid))"
| op_Enqueue: "store_op codec decode (discard (Enqueue now chat thread body))"
| op_EnqueueAttachment: "store_op codec decode (discard (EnqueueAttachment now chat thread kind path name caption))"
| op_appendInboxReplies: "store_op codec decode (discard (appendInboxReplies now iid chat thread replies header he parts))"
| op_SetAssistantHeader: "store_op codec decode (discard (SetAssistantHeader now oid header))"
| op_ClaimNextOutput: "store_op codec decode (discard (ClaimNextOutput clock now))"
| op_RetryOutput: "store_op codec decode (discard (RetryOutput now oid next))"
| op_RetryServerOutput: "store_op codec decode (discard (RetryServerOutput now oid next maxAttempts))"
| op_MarkOutput: "ostate \<noteq> OutboxSending \<Longrightarrow> store_op codec decode (discard (MarkOutput now oid ostate))"
| op_MarkOutputDelivered: "store_op codec decode (discard (MarkOutputDelivered now oid messageID sentHeader markup))"
| op_NextAssistantHeader: "store_op codec decode (discard NextAssistantHeader)"
| op_MarkAssistantHeaderDelivered: "store_op codec decode (discard (MarkAssistantHeaderDelivered oid header actions))"
| op_ClaimFinalActionEdit: "store_op codec decode (discard (ClaimFinalActionEdit now))"
| op_ReleaseAssistantEdit: "store_op codec decode (discard (ReleaseAssistantEdit oid))"
| op_FinishFinalActionEdit: "store_op codec decode (discard (FinishFinalActionEdit oid snapshot))"
| op_Save: "store_op codec decode (discard (Save b))"
| op_TouchBinding: "store_op codec decode (discard (TouchBinding botID chat thread generation usedAt))"
| op_DeleteClosedBinding: "store_op codec decode (discard (DeleteClosedBinding botID chat thread generation))"
| op_SetRunning: "store_op codec decode (discard (SetRunning b running))"
| op_SetInterrupted: "store_op codec decode (discard (SetInterrupted b interrupted))"
| op_SetPinnedSession: "store_op codec decode (discard (SetPinnedSession botID chat thread workspace sid pinned))"
| op_SetPinnedIf: "store_op codec decode (discard (SetPinnedSessionIfGeneration botID chat thread generation workspace sid pinned))"
| op_deleteSessionReferences: "store_op codec decode (discard (deleteSessionReferences botID sid missing))"
| op_PrepareStart: "store_op codec decode (discard (PrepareStart now b intent))"
| op_CommitStart: "store_op codec decode (discard (CommitStart b))"
| op_retireStartupIntents: "store_op codec decode (discard (retireStartupIntents p))"
| op_PrepareMigration: "store_op codec decode (discard (PrepareMigration now m))"
| op_UpdateMigration: "store_op codec decode (discard (UpdateMigration now m phase))"
| op_FailMigration: "store_op codec decode (discard (FailMigration now mid kind))"
| op_publishMigration: "store_op codec decode (discard (publishMigration now m target notice recovery))"
| op_completeInboxWithReplies: "state \<in> {InboxDone, InboxUncertain, InboxCancelled} \<Longrightarrow> store_op codec decode (discard (completeInboxWithReplies codec now iid chat thread state replies targetID header he actions))"
| op_ReserveFinalAction: "store_op codec decode (discard (ReserveFinalAction claim))"
| op_ConsumeFinalAction: "store_op codec decode (discard (ConsumeFinalAction codec iid))"
| op_ReleaseFinalAction: "store_op codec decode (discard (ReleaseFinalAction now iid))"
| op_CreateFollowupRequest: "store_op codec decode (discard (CreateFollowupRequest r))"
| op_FinishFollowupPrompt: "store_op codec decode (discard (FinishFollowupPrompt token inst messageID ok))"
| op_CancelFollowupRequests: "store_op codec decode (discard (CancelFollowupRequests botID chat thread))"
| op_ConsumeFollowupRequest: "store_op codec decode (discard (ConsumeFollowupRequest now r iid))"
| op_CleanupFollowupRequests: "store_op codec decode (discard (CleanupFollowupRequests now cutoff))"
| op_ReserveTopicName: "store_op codec decode (discard (ReserveTopicName botID chat thread base))"
| op_ObserveTopicName: "store_op codec decode (discard (ObserveTopicName botID chat thread name))"
| op_ConfirmTopicName: "store_op codec decode (discard (ConfirmTopicName botID chat thread res))"
| op_ReleaseTopicName: "store_op codec decode (discard (ReleaseTopicName botID chat thread res))"
| op_RetainTopicName: "store_op codec decode (discard (RetainTopicName botID chat thread res))"
| op_SetProgressMessage: "store_op codec decode (discard (SetProgressMessage iid chat messageID))"
| op_RetireProgressMessages: "store_op codec decode (discard (RetireProgressMessages iid messageID firstID parts))"
| op_CompletedProgressMessages: "store_op codec decode (discard (CompletedProgressMessages decode iid))"
| op_ClearProgressMessage: "store_op codec decode (discard (ClearProgressMessage iid messageID))"
| op_cleanupInboxBatch: "store_op codec decode (discard (cleanupInboxBatch cutoff))"
| op_cleanupOutboxBatch: "store_op codec decode (discard (cleanupOutboxBatch cutoff))"
| op_LoadOrReset: "store_op codec decode (discard (LoadOrResetOMPArgsSelection fingerprint presetCount))"
| op_SetOMPArgsSelection: "store_op codec decode (discard (SetOMPArgsSelection index fingerprint presetCount))"
| op_SetLanguage: "store_op codec decode (discard (SetLanguage code))"
| op_recover: "store_op codec decode (discard (recover codec decode now))"

section \<open>Reachable databases\<close>

inductive store_step :: "action_codec \<Rightarrow> chat_decoder \<Rightarrow> database \<Rightarrow> database \<Rightarrow> bool" for codec decode where
  call: "store_op codec decode m \<Longrightarrow> m w = (r, w') \<Longrightarrow> store_step codec decode (db w) (db w')"

inductive reachable :: "action_codec \<Rightarrow> chat_decoder \<Rightarrow> database \<Rightarrow> bool" for codec decode where
  fresh: "reachable codec decode empty_database"
| step: "reachable codec decode d \<Longrightarrow> store_step codec decode d d' \<Longrightarrow> reachable codec decode d'"

text \<open>A call on a world without faults, for concrete runs.\<close>

definition after :: "'a store \<Rightarrow> database \<Rightarrow> database" where
  "after m d = db (snd (m (healthy d)))"

lemma step_after:
  assumes "store_op codec decode (discard m)"
  shows "store_step codec decode d (after m d)"
proof -
  obtain r w' where run: "m (healthy d) = (r, w')" by (cases "m (healthy d)")
  then have "snd (discard m (healthy d)) = w'"
    by (cases r) (simp_all add: discard_def bind_def give_def)
  with run show ?thesis
    using store_step.call [OF assms, of "healthy d" "fst (discard m (healthy d))" w']
    by (simp add: after_def prod_eq_iff healthy_def)
qed

lemma reachable_after:
  "store_op codec decode (discard m) \<Longrightarrow> reachable codec decode d \<Longrightarrow> reachable codec decode (after m d)"
  by (blast intro: reachable.step step_after)

text \<open>The contract of an invariant: the fresh database has it and every operation keeps it.\<close>

lemma preserves_discard: "preserves P m \<Longrightarrow> preserves P (discard m)"
  unfolding discard_def by (intro keep_rules) assumption

lemma footprint_discard: "footprint S m \<Longrightarrow> footprint S (discard m)"
  unfolding discard_def by (intro foot.follows_rules) assumption

lemma follows_discard: "follows R m \<Longrightarrow> follows R (discard m)"
  by (auto simp: follows_def discard_def bind_def give_def split: prod.splits sum.splits)

lemma follows_success:
  assumes "atomic m" and "\<And>d. R d d" and "\<And>w x w'. m w = (Inr x, w') \<Longrightarrow> R (db w) (db w')"
  shows "follows R m"
  unfolding follows_def
proof (intro allI impI)
  fix w r w' assume "m w = (r, w')"
  then show "R (db w) (db w')" using assms atomicD [OF assms(1), of w _ w'] by (cases r) auto
qed

section \<open>How a component evolves\<close>

text \<open>
  An invariant \<open>I\<close> together with a relation \<open>K\<close> between the database before and after that
  holds as long as \<open>I\<close> does. Operations compose over \<open>K\<close>, which is transitive; a retention
  batch deletes rows and follows the weaker \<open>S\<close> only, which relates the two ends of one step.
\<close>

definition evolving :: "(database \<Rightarrow> bool) \<Rightarrow> (database \<Rightarrow> database \<Rightarrow> bool) \<Rightarrow> database \<Rightarrow> database \<Rightarrow> bool" where
  "evolving I K d d' \<longleftrightarrow> (I d \<longrightarrow> I d' \<and> K d d')"

locale evolution_frame =
  fixes I :: "database \<Rightarrow> bool" and K :: "database \<Rightarrow> database \<Rightarrow> bool" and T :: "table set"
  assumes K_refl: "K d d"
    and K_trans: "K d d' \<Longrightarrow> K d' d'' \<Longrightarrow> K d d''"
    and frame: "only (- T) d d' \<Longrightarrow> evolving I K d d'"
begin

lemma evolving_refl: "evolving I K d d"
  by (simp add: evolving_def K_refl)

lemma evolving_trans: "evolving I K d d' \<Longrightarrow> evolving I K d' d'' \<Longrightarrow> evolving I K d d''"
  by (auto simp: evolving_def intro: K_trans)

lemma evolution_relation: "store_relation (evolving I K)"
  by unfold_locales (auto intro: evolving_refl evolving_trans)

lemma outside: "footprint S m \<Longrightarrow> S \<inter> T = {} \<Longrightarrow> follows (evolving I K) m"
  by (rule untouched_relation [OF frame])

lemma by_success:
  assumes "atomic m"
    and "\<And>w x w'. m w = (Inr x, w') \<Longrightarrow> I (db w) \<Longrightarrow> I (db w') \<and> K (db w) (db w')"
  shows "follows (evolving I K) m"
  using assms(2) db_relation.followsI [OF store_relation.axioms [OF evolution_relation] assms(1)]
  by (auto simp: evolving_def)

lemma drop_result: "follows (evolving I K) m \<Longrightarrow> follows (evolving I K) (discard m)"
  by (rule follows_discard)

end

sublocale evolution_frame < rel: store_relation "evolving I K"
  by (rule evolution_relation)

locale store_evolution = evolution_frame +
  fixes S :: "database \<Rightarrow> database \<Rightarrow> bool"
  assumes start: "I empty_database"
    and K_S: "K d d' \<Longrightarrow> S d d'"
    and each: "store_op codec decode m \<Longrightarrow> follows (evolving I K) m \<or> follows (evolving I S) m"
begin

lemma op_evolves:
  assumes "store_op codec decode m"
  shows "follows (evolving I S) m"
  using each [OF assms]
proof
  assume "follows (evolving I K) m"
  then show ?thesis by (rule follows_mono) (simp add: evolving_def K_S)
qed

lemma step_evolves: "store_step codec decode d d' \<Longrightarrow> I d \<Longrightarrow> I d' \<and> S d d'"
  by (erule store_step.cases) (auto dest!: op_evolves followsD simp: evolving_def)

lemma holds: "reachable codec decode d \<Longrightarrow> I d"
  by (induction rule: reachable.induct) (auto intro: start dest: step_evolves)

lemma evolves: "reachable codec decode d \<Longrightarrow> store_step codec decode d d' \<Longrightarrow> S d d'"
  using step_evolves holds by blast

end

end
