(* ===== verification/Samples.thy ===== *)
theory Samples
  imports StoreSteps
begin

text \<open>Concrete databases, reached by calls of the store, on which the properties are exercised.\<close>

definition sample_codec :: action_codec where
  "sample_codec = \<lparr>marshal = (\<lambda>_. ''[]''), unmarshal = (\<lambda>_. Some [])\<rparr>"

definition sample_decoder :: chat_decoder where
  "sample_decoder = (\<lambda>_. None)"

definition sample_db :: database where
  "sample_db = after (Accept 100 5 ''u'') empty_database"

lemma sample_reachable: "reachable sample_codec sample_decoder sample_db"
  unfolding sample_db_def by (intro reachable_after op_Accept reachable.fresh)

lemma sample_db_eq: "sample_db = empty_database\<lparr>
    inbox := [\<lparr>in_id = 5, in_raw = ''u'', in_state = InboxPending, in_reply_to = 0,
      in_created_at = 100, in_updated_at = 100\<rparr>],
    meta := [''offset'' \<mapsto> 6]\<rparr>"
  by (simp add: sample_db_def after_def Accept_def sql_run empty_database_def insert_inbox_def raise_offset_def
      wrap64_id in_int64_def max_int64_def)

text \<open>Two messages of one conversation.\<close>

definition sample_outbox :: database where
  "sample_outbox = after (Enqueue 101 3 4 ''second'') (after (Enqueue 100 3 4 ''first'') empty_database)"

lemma sample_outbox_reachable: "reachable sample_codec sample_decoder sample_outbox"
  unfolding sample_outbox_def by (intro reachable_after op_Enqueue reachable.fresh)

lemma sample_outbox_eq: "sample_outbox = empty_database\<lparr>
    outbox := [(queued_row 100 3 4 ''first'')\<lparr>out_id := 1\<rparr>, (queued_row 101 3 4 ''second'')\<lparr>out_id := 2\<rparr>],
    outbox_seq := 2\<rparr>"
  by (simp add: sample_outbox_def after_def Enqueue_def sql_run empty_database_def insert_outbox_def)

text \<open>A bound conversation whose pending input starts a migration.\<close>

definition sample_binding :: binding where
  "sample_binding = \<lparr>b_bot = 1, b_chat = 3, b_thread = 4, b_workspace = ''w'', b_session = ''/s/a.jsonl'',
     b_session_id = ''aaaaaaaa'', b_generation = 1, b_last_used_at = 9, b_running = True, b_interrupted = False\<rparr>"

definition sample_migration :: migration where
  "sample_migration = \<lparr>m_id = ''m1'', m_source = sample_binding, m_inbox_id = 5, m_phase = ''prepared'',
     m_summary_entry_id = [], m_summary_hash = [], m_candidate_file = [], m_candidate_id = [],
     m_provider = ''p'', m_model = ''m'', m_thinking = ''high'', m_fast = False, m_created_at = 104, m_error_kind = []\<rparr>"

definition sample_migrating :: database where
  "sample_migrating = after (PrepareMigration 104 sample_migration) (after (Save sample_binding) sample_db)"

lemma sample_migrating_reachable: "reachable sample_codec sample_decoder sample_migrating"
  unfolding sample_migrating_def
  by (intro reachable_after op_PrepareMigration op_Save sample_reachable)

lemma sample_migrating_eq: "sample_migrating = sample_db\<lparr>bindings := [sample_binding], migrations := [sample_migration]\<rparr>"
  by (simp add: sample_migrating_def after_def PrepareMigration_def Save_def sql_run sample_db_eq empty_database_def
      valid_new_migration_def sample_migration_def sample_binding_def migrationGuard_def migrationSessionGuard_def
      upsert_binding_def archive_binding_def find_binding_def starting_def m_conv_def b_conv_def Let_def)

text \<open>The first of the two messages is being sent.\<close>

definition sample_sending :: database where
  "sample_sending = after (ClaimNextOutput 110 110) sample_outbox"

lemma sample_sending_reachable: "reachable sample_codec sample_decoder sample_sending"
  unfolding sample_sending_def by (intro reachable_after op_ClaimNextOutput sample_outbox_reachable)

lemma sample_sending_eq: "sample_sending = sample_outbox\<lparr>
    outbox := [(queued_row 100 3 4 ''first'')\<lparr>out_id := 1, out_state := OutboxSending, out_attempt_count := 1,
        out_updated_at := 110\<rparr>,
      (queued_row 101 3 4 ''second'')\<lparr>out_id := 2\<rparr>]\<rparr>"
  by (simp add: sample_sending_def after_def ClaimNextOutput_def sql_run sample_outbox_eq first_by_def select_by_def
      claimable_def queued_row_def in_flight_def same_conversation_def update_outbox_def scanOutput_def empty_database_def)

text \<open>A delivered answer with one completion shortcut, and a callback that has reserved it.\<close>

definition sample_actions :: final_action_set where
  "sample_actions = \<lparr>as_binding = sample_binding, as_user = 7, as_config = ''cfg'', as_body_parts = 1,
     as_actions = [\<lparr>a_token = ''t1'', a_label = ''Go'', a_command = ''go''\<rparr>]\<rparr>"

definition sample_claim :: final_action_claim where
  "sample_claim = \<lparr>c_token = ''t1'', c_config = ''cfg'', c_inbox_id = 6, c_bot = 1, c_chat = 3, c_thread = 4,
     c_user = 7, c_message_id = 900, c_binding = sample_binding\<rparr>"

definition sample_answered :: database where
  "sample_answered =
     after (completeInboxWithReplies sample_codec 102 5 3 4 InboxDone [''body''] 0 [] True (Some sample_actions))
       (after (Submit 101 5 7) (after (Save sample_binding) sample_db))"

definition sample_delivered :: database where
  "sample_delivered = after (MarkOutputDelivered 104 1 900 [] ''[]'') (after (ClaimNextOutput 103 103) sample_answered)"

definition sample_reserved :: database where
  "sample_reserved = after (ReserveFinalAction sample_claim) (after (Accept 105 6 ''c'') sample_delivered)"

lemma sample_answered_reachable: "reachable sample_codec sample_decoder sample_answered"
  unfolding sample_answered_def
  by (intro reachable_after op_completeInboxWithReplies op_Submit op_Save sample_reachable) simp

lemma sample_reserved_reachable: "reachable sample_codec sample_decoder sample_reserved"
  unfolding sample_reserved_def sample_delivered_def
  by (intro reachable_after op_ReserveFinalAction op_Accept op_MarkOutputDelivered op_ClaimNextOutput
      sample_answered_reachable)

definition sample_shortcut :: final_action_row where
  "sample_shortcut = \<lparr>fa_token = ''t1'', fa_outbox_id = 1, fa_bot = 1, fa_chat = 3, fa_thread = 4, fa_user = 7,
     fa_workspace = ''w'', fa_session = ''/s/a.jsonl'', fa_session_id = ''aaaaaaaa'', fa_generation = 1,
     fa_config = ''cfg'', fa_command = ''go'', fa_consumed = False, fa_consumed_by = 0\<rparr>"

definition sample_answer :: outbox_row where
  "sample_answer = (queued_row 102 3 4 ''body'')\<lparr>out_id := 1, out_inbox_id := 5, out_reply_to := 7,
     out_header_editable := True, out_assistant_body := True, out_final_actions := ''[]'', out_actions_pending := 1\<rparr>"

lemma sample_answered_eq: "sample_answered = sample_db\<lparr>
    inbox := [\<lparr>in_id = 5, in_raw = ''u'', in_state = InboxDone, in_reply_to = 7, in_created_at = 100, in_updated_at = 102\<rparr>],
    bindings := [sample_binding], outbox := [sample_answer], outbox_seq := 1, final_actions := [sample_shortcut]\<rparr>"
proof -
  have save: "after (Save sample_binding) sample_db = sample_db\<lparr>bindings := [sample_binding]\<rparr>"
    by (simp add: after_def Save_def sql_run sample_db_eq empty_database_def migrationGuard_def migrationSessionGuard_def
        upsert_binding_def archive_binding_def sample_binding_def b_conv_def)
  have submit: "after (Submit 101 5 7) (sample_db\<lparr>bindings := [sample_binding]\<rparr>) = sample_db\<lparr>bindings := [sample_binding],
      inbox := [\<lparr>in_id = 5, in_raw = ''u'', in_state = InboxSubmitted, in_reply_to = 7, in_created_at = 100, in_updated_at = 101\<rparr>]\<rparr>"
    by (simp add: after_def Submit_def sql_run sample_db_eq empty_database_def update_inbox_def)
  show ?thesis
    unfolding sample_answered_def save submit
    by (simp add: after_def completeInboxWithReplies_def registerFinalActions_def sql_run Let_def sample_db_eq
        empty_database_def reply_target_def update_inbox_def update_outbox_def insert_outbox_def reply_row_def queued_row_def
        sample_actions_def sample_binding_def b_conv_def last_body_def first_by_def select_by_def set_buttons_def
        sample_codec_def sample_answer_def sample_shortcut_def)
qed

lemma sample_delivered_eq: "sample_delivered = sample_answered\<lparr>
    outbox := [sample_answer\<lparr>out_state := OutboxDone, out_attempt_count := 1, out_message_id := 900,
      out_next_attempt_at := 0, out_updated_at := 104, out_actions_pending := 0\<rparr>]\<rparr>"
  by (simp add: sample_delivered_def after_def ClaimNextOutput_def MarkOutputDelivered_def sql_run sample_answered_eq
      sample_answer_def first_by_def select_by_def claimable_def queued_row_def in_flight_def same_conversation_def
      update_outbox_def scanOutput_def)

lemma sample_reserved_eq: "sample_reserved = sample_delivered\<lparr>
    inbox := inbox sample_answered @ [\<lparr>in_id = 6, in_raw = ''c'', in_state = InboxPending, in_reply_to = 0,
      in_created_at = 105, in_updated_at = 105\<rparr>],
    meta := [''offset'' \<mapsto> 7], final_actions := [sample_shortcut\<lparr>fa_consumed_by := 6\<rparr>]\<rparr>"
proof -
  have accept: "after (Accept 105 6 ''c'') sample_delivered = sample_delivered\<lparr>
    inbox := inbox sample_answered @ [\<lparr>in_id = 6, in_raw = ''c'', in_state = InboxPending, in_reply_to = 0,
      in_created_at = 105, in_updated_at = 105\<rparr>], meta := [''offset'' \<mapsto> 7]\<rparr>"
    by (simp add: after_def Accept_def sql_run sample_delivered_eq sample_answered_eq sample_db_eq empty_database_def
        insert_inbox_def raise_offset_def wrap64_id in_int64_def max_int64_def)
  show ?thesis
    unfolding sample_reserved_def accept
    by (simp add: after_def ReserveFinalAction_def sql_run sample_claim_def sample_delivered_eq sample_answered_eq
        sample_db_eq empty_database_def reservable_def sample_shortcut_def sample_answer_def sample_binding_def b_conv_def
        starting_def queued_row_def update_final_actions_def)
qed

end
