(* ===== verification/BindingProps.thy ===== *)
theory BindingProps
  imports Samples
begin

text \<open>
  Properties of bindings, startup intents and migrations: one of each per conversation, a
  conversation is never both starting and migrating, the source of an unresolved migration stays
  bound unchanged, no two migrations share a session file, and a migration's phase, candidate
  and summary are recorded once.
\<close>

section \<open>What a successful call did\<close>

lemma Save_ok:
  assumes "Save b w = (Inr u, w')"
  shows "\<not> migrating (b_conv b) (db w)
    \<and> \<not> exists_row (session_locked (b_bot b) (b_session b) (b_session_id b)) (migrations (db w))
    \<and> db w' = upsert_binding b (archive_binding (b_conv b) (db w))"
  using assms unfolding Save_def migrationGuard_def migrationSessionGuard_def
  by (auto simp: sql_ok migrating_def split: if_splits)

lemma CommitStart_ok:
  assumes "CommitStart b w = (Inr u, w')"
  shows "\<exists>r lastUsed. find (\<lambda>r. ir_conv r = b_conv b) (startup_intents (db w)) = Some r
    \<and> si_generation (ir_intent r) = b_generation b
    \<and> lastUsed = (case find_binding (b_conv b) (db w) of None \<Rightarrow> b_last_used_at b | Some old \<Rightarrow> b_last_used_at old)
    \<and> db w' = (let d = upsert_binding (b\<lparr>b_last_used_at := lastUsed\<rparr>) (archive_binding (b_conv b) (db w))
               in d\<lparr>startup_intents := delete_rows (\<lambda>r. ir_conv r = b_conv b
                      \<and> si_generation (ir_intent r) = b_generation b) (startup_intents d)\<rparr>)"
proof -
  obtain r where r: "find (\<lambda>r. ir_conv r = b_conv b) (startup_intents (db w)) = Some r"
      "si_generation (ir_intent r) = b_generation b"
    using assms by (auto simp: CommitStart_def sql_ok split: if_splits)
  then show ?thesis
    using assms by (cases "find_binding (b_conv b) (db w)") (auto simp: CommitStart_def sql_ok Let_def)
qed

definition start_target_ok :: "binding \<Rightarrow> database \<Rightarrow> bool" where
  "start_target_ok previous d \<longleftrightarrow>
     (if 0 < b_generation previous
      then exists_row (\<lambda>b. b_conv b = b_conv previous \<and> b_generation b = b_generation previous) (bindings d)
      else \<not> exists_row (\<lambda>b. b_conv b = b_conv previous) (bindings d))"

definition stop_previous :: "binding \<Rightarrow> database \<Rightarrow> database" where
  "stop_previous previous d = (if b_running previous
     then d\<lparr>bindings := update_rows (\<lambda>b. b_conv b = b_conv previous \<and> b_generation b = b_generation previous
            \<and> b_running b) (\<lambda>b. b\<lparr>b_running := False\<rparr>) (bindings d)\<rparr>
     else d)"

lemma PrepareStart_ok:
  assumes "PrepareStart now previous intent w = (Inr u, w')"
  shows "0 \<le> b_generation previous \<and> si_conv intent = b_conv previous
    \<and> si_generation intent = wrap64 (b_generation previous + 1)
    \<and> \<not> migrating (b_conv previous) (db w) \<and> \<not> starting (b_conv previous) (db w)
    \<and> start_target_ok previous (stop_previous previous (db w))
    \<and> db w' = (stop_previous previous (db w))\<lparr>startup_intents := startup_intents (db w) @
         [\<lparr>ir_intent = intent, ir_created_at = now\<rparr>]\<rparr>"
proof -
  have conv: "si_conv intent = b_conv previous" "0 \<le> b_generation previous"
    "si_generation intent = wrap64 (b_generation previous + 1)"
    using assms by (auto simp: PrepareStart_def sql_ok si_conv_def b_conv_def split: if_splits)
  show ?thesis
  proof (cases "b_running previous")
    case True
    with assms conv show ?thesis
      unfolding PrepareStart_def migrationGuard_def migrationSessionGuard_def
      by (auto simp: sql_ok stmt_ok migrating_def starting_def update_bindings_def start_target_ok_def
          stop_previous_def split: if_split_asm)
  next
    case False
    with assms conv show ?thesis
      unfolding PrepareStart_def migrationGuard_def migrationSessionGuard_def
      by (auto simp: sql_ok stmt_ok migrating_def starting_def start_target_ok_def stop_previous_def
          split: if_split_asm)
  qed
qed

lemma deleteSessionReferences_ok:
  assumes "deleteSessionReferences botID sid missing w = (Inr n, w')"
  shows "sid \<noteq> [] \<and> \<not> exists_row (\<lambda>m. b_bot (m_source m) = botID \<and>
      (eq_nocase (b_session_id (m_source m)) sid \<or> eq_nocase (m_candidate_id m) sid)) (migrations (db w))
    \<and> bindings (db w') = delete_rows (\<lambda>b. b_bot b = botID \<and> eq_nocase (b_session_id b) sid) (bindings (db w))
    \<and> startup_intents (db w') = startup_intents (db w) \<and> migrations (db w') = migrations (db w)"
  using assms unfolding deleteSessionReferences_def
  by (cases "missing = []") (auto simp: sql_ok delete_bindings_def split: if_split_asm)

section \<open>The invariant\<close>

definition session_files :: "migration \<Rightarrow> string set" where
  "session_files m = {f. f \<noteq> [] \<and> (f = b_session (m_source m) \<or> f = m_candidate_file m)}"

definition session_ids :: "migration \<Rightarrow> string set" where
  "session_ids m = {to_lower s | s. s \<noteq> [] \<and> (s = b_session_id (m_source m) \<or> s = m_candidate_id m)}"

definition apart :: "migration \<Rightarrow> migration \<Rightarrow> bool" where
  "apart m m' \<longleftrightarrow> (b_bot (m_source m) = b_bot (m_source m') \<longrightarrow>
     session_files m \<inter> session_files m' = {} \<and> session_ids m \<inter> session_ids m' = {})"

definition source_captured :: "database \<Rightarrow> migration \<Rightarrow> bool" where
  "source_captured d m \<longleftrightarrow> (\<exists>b \<in> set (bindings d). b\<lparr>b_interrupted := b_interrupted (m_source m)\<rparr> = m_source m)"

definition migration_valid :: "migration \<Rightarrow> bool" where
  "migration_valid m \<longleftrightarrow> m_id m \<noteq> [] \<and> 0 < b_generation (m_source m) \<and> b_session (m_source m) \<noteq> []
     \<and> b_session_id (m_source m) \<noteq> [] \<and> 0 < migrationPhase (m_phase m)
     \<and> (m_candidate_file m = [] \<longleftrightarrow> m_candidate_id m = []) \<and> (m_summary_entry_id m = [] \<longleftrightarrow> m_summary_hash m = [])
     \<and> (m_candidate_file m \<noteq> [] \<longrightarrow> m_candidate_file m \<noteq> b_session (m_source m)
          \<and> \<not> eq_nocase (m_candidate_id m) (b_session_id (m_source m)))"

definition bindings_ok :: "database \<Rightarrow> bool" where
  "bindings_ok d \<longleftrightarrow> keys_unique b_conv (bindings d) \<and> keys_unique ir_conv (startup_intents d)
     \<and> keys_unique m_conv (migrations d) \<and> keys_unique m_id (migrations d)
     \<and> (\<forall>m \<in> set (migrations d). \<not> starting (m_conv m) d \<and> source_captured d m \<and> migration_valid m)
     \<and> (\<forall>m \<in> set (migrations d). \<forall>m' \<in> set (migrations d). m' \<noteq> m \<longrightarrow> apart m m')"

text \<open>A stored migration moves forward and never replaces what it recorded.\<close>

definition migration_continues :: "migration \<Rightarrow> migration \<Rightarrow> bool" where
  "migration_continues m m' \<longleftrightarrow> m_id m' = m_id m \<and> m_source m' = m_source m \<and> m_inbox_id m' = m_inbox_id m
     \<and> m_provider m' = m_provider m \<and> m_model m' = m_model m \<and> m_thinking m' = m_thinking m
     \<and> m_fast m' = m_fast m \<and> m_created_at m' = m_created_at m
     \<and> migrationPhase (m_phase m) \<le> migrationPhase (m_phase m')
     \<and> (m_candidate_file m \<noteq> [] \<longrightarrow> m_candidate_file m' = m_candidate_file m \<and> m_candidate_id m' = m_candidate_id m)
     \<and> (m_summary_entry_id m \<noteq> [] \<longrightarrow> m_summary_entry_id m' = m_summary_entry_id m \<and> m_summary_hash m' = m_summary_hash m)"

definition migrations_grow :: "database \<Rightarrow> database \<Rightarrow> bool" where
  "migrations_grow d d' \<longleftrightarrow> (\<forall>m \<in> set (migrations d). \<exists>m' \<in> set (migrations d'). migration_continues m m')"

definition migration_resolved :: "database \<Rightarrow> database \<Rightarrow> migration \<Rightarrow> bool" where
  "migration_resolved d d' m \<longleftrightarrow> (\<exists>target \<in> set (bindings d'). b_conv target = m_conv m
     \<and> b_generation target = wrap64 (b_generation (m_source m) + 1)
     \<and> (b_session target = m_candidate_file m \<and> b_session_id target = m_candidate_id m \<or>
        b_session target = b_session (m_source m) \<and> b_session_id target = b_session_id (m_source m)))
     \<and> (\<exists>i \<in> set (inbox d'). in_id i = m_inbox_id m \<and> in_state i = InboxDone)
     \<and> (\<exists>q \<in> set (outbox d'). outbox_seq d < out_id q \<and> out_inbox_id q = m_inbox_id m \<and> out_text q \<noteq> [])"

definition migrations_step :: "database \<Rightarrow> database \<Rightarrow> bool" where
  "migrations_step d d' \<longleftrightarrow> (\<forall>m \<in> set (migrations d).
     (\<exists>m' \<in> set (migrations d'). migration_continues m m') \<or> migration_resolved d d' m)"

lemma migration_continues_refl: "migration_continues m m"
  by (simp add: migration_continues_def)

lemma migration_continues_trans: "migration_continues m m' \<Longrightarrow> migration_continues m' m'' \<Longrightarrow> migration_continues m m''"
  by (auto simp: migration_continues_def)

lemma migrations_grow_same: "migrations d' = migrations d \<Longrightarrow> migrations_grow d d'"
  unfolding migrations_grow_def by (metis migration_continues_refl)

lemma captured_conv: "b\<lparr>b_interrupted := x\<rparr> = m_source m \<Longrightarrow> b_conv b = m_conv m \<and> b_session b = b_session (m_source m)
   \<and> b_session_id b = b_session_id (m_source m) \<and> b_generation b = b_generation (m_source m) \<and> b_bot b = b_bot (m_source m)"
proof -
  assume a: "b\<lparr>b_interrupted := x\<rparr> = m_source m"
  show ?thesis unfolding m_conv_def a [symmetric] by (simp add: b_conv_def)
qed

lemma migrating_iff: "migrating c d \<longleftrightarrow> (\<exists>m \<in> set (migrations d). m_conv m = c)"
  by (simp add: migrating_def exists_row_iff)

interpretation binds: evolution_frame bindings_ok migrations_grow "{TBindings, TIntents, TMigrations}"
proof unfold_locales
  show "migrations_grow d d" for d by (simp add: migrations_grow_same)
  show "migrations_grow d d''" if "migrations_grow d d'" "migrations_grow d' d''" for d d' d''
    using that unfolding migrations_grow_def by (meson migration_continues_trans)
  show "evolving bindings_ok migrations_grow d d'" if "only (- {TBindings, TIntents, TMigrations}) d d'" for d d'
    using that by (simp add: only_iff evolving_def bindings_ok_def source_captured_def starting_def migrations_grow_same)
qed

section \<open>Statements that leave the migrations alone\<close>

lemma keep_migrations:
  assumes "migrations d' = migrations d"
    and "bindings_ok d \<Longrightarrow> keys_unique b_conv (bindings d')"
    and "bindings_ok d \<Longrightarrow> keys_unique ir_conv (startup_intents d')"
    and "\<And>m. bindings_ok d \<Longrightarrow> m \<in> set (migrations d) \<Longrightarrow> starting (m_conv m) d' \<Longrightarrow> starting (m_conv m) d"
    and "\<And>m. bindings_ok d \<Longrightarrow> m \<in> set (migrations d) \<Longrightarrow> source_captured d m \<Longrightarrow> source_captured d' m"
  shows "evolving bindings_ok migrations_grow d d'"
  using assms by (auto simp: evolving_def bindings_ok_def migrations_grow_same)

lemma update_bindings_evolves:
  assumes conv: "\<And>b. b_conv (f b) = b_conv b"
    and guard: "\<And>b. p b \<Longrightarrow> \<not> migrating (b_conv b) d \<or> (\<exists>x. f b = b\<lparr>b_interrupted := x\<rparr>)"
  shows "evolving bindings_ok migrations_grow d (snd (update_bindings p f d))"
proof (rule keep_migrations)
  fix m assume m: "m \<in> set (migrations d)" and "source_captured d m"
  then obtain b where b: "b \<in> set (bindings d)" "b\<lparr>b_interrupted := b_interrupted (m_source m)\<rparr> = m_source m"
    by (auto simp: source_captured_def)
  have "migrating (b_conv b) d" using m captured_conv [OF b(2)] by (auto simp: migrating_iff)
  then have "(if p b then f b else b)\<lparr>b_interrupted := b_interrupted (m_source m)\<rparr> = m_source m"
    using guard [of b] b(2) by auto
  then show "source_captured (snd (update_bindings p f d)) m"
    using update_rows_mem [OF b(1), of p f] by (auto simp: source_captured_def update_bindings_def)
qed (auto simp: update_bindings_def bindings_ok_def starting_def conv intro!: keys_unique_update)

lemma keys_unique_replace:
  assumes "keys_unique key rows"
  shows "keys_unique key (update_rows (\<lambda>r'. key r' = key r) (\<lambda>_. r) rows)"
proof -
  have "map key (update_rows (\<lambda>r'. key r' = key r) (\<lambda>_. r) rows) = map key rows"
    by (simp add: update_rows_def)
  with assms show ?thesis by (simp add: keys_unique_def)
qed

lemma upsert_simps [simp]:
  "bindings (upsert_binding b (archive_binding c d)) = (if exists_row (\<lambda>b'. b_conv b' = b_conv b) (bindings d)
     then update_rows (\<lambda>b'. b_conv b' = b_conv b) (\<lambda>_. b) (bindings d) else bindings d @ [b])"
  "startup_intents (upsert_binding b (archive_binding c d)) = startup_intents d"
  "migrations (upsert_binding b (archive_binding c d)) = migrations d"
  by (simp_all add: upsert_binding_def archive_binding_def)

lemma upsert_evolves:
  assumes "\<not> migrating (b_conv b) d"
  shows "evolving bindings_ok migrations_grow d (upsert_binding b (archive_binding c d))"
proof (rule keep_migrations)
  fix m assume m: "m \<in> set (migrations d)" and "source_captured d m"
  then obtain s where s: "s \<in> set (bindings d)" "s\<lparr>b_interrupted := b_interrupted (m_source m)\<rparr> = m_source m"
    by (auto simp: source_captured_def)
  then have "b_conv s \<noteq> b_conv b" using assms m captured_conv [OF s(2)] by (auto simp: migrating_iff)
  then have "s \<in> set (bindings (upsert_binding b (archive_binding c d)))"
    using s(1) update_rows_mem [OF s(1), of "\<lambda>b'. b_conv b' = b_conv b" "\<lambda>_. b"]
    by auto
  then show "source_captured (upsert_binding b (archive_binding c d)) m"
    using s(2) by (auto simp: source_captured_def)
next
  assume ok: "bindings_ok d"
  then have "keys_unique b_conv (update_rows (\<lambda>b'. b_conv b' = b_conv b) (\<lambda>_. b) (bindings d))"
    by (intro keys_unique_replace) (simp add: bindings_ok_def)
  then show "keys_unique b_conv (bindings (upsert_binding b (archive_binding c d)))"
    using ok by (auto simp: bindings_ok_def keys_unique_snoc)
qed (auto simp: bindings_ok_def starting_def)

lemma delete_bindings_evolves:
  assumes "\<And>b. p b \<Longrightarrow> \<not> migrating (b_conv b) d"
  shows "evolving bindings_ok migrations_grow d (snd (delete_bindings p d))"
proof (rule keep_migrations)
  fix m assume m: "m \<in> set (migrations d)" and "source_captured d m"
  then obtain s where s: "s \<in> set (bindings d)" "s\<lparr>b_interrupted := b_interrupted (m_source m)\<rparr> = m_source m"
    by (auto simp: source_captured_def)
  have "migrating (b_conv s) d" using m captured_conv [OF s(2)] by (auto simp: migrating_iff)
  then have "\<not> p s" using assms by blast
  with s show "source_captured (snd (delete_bindings p d)) m"
    by (auto simp: source_captured_def delete_bindings_def set_delete_rows)
qed (auto simp: delete_bindings_def bindings_ok_def starting_def intro!: keys_unique_delete)

section \<open>The operations\<close>

abbreviation binds_evolve :: "'a store \<Rightarrow> bool" where
  "binds_evolve m \<equiv> follows (evolving bindings_ok migrations_grow) m"

lemma evolvingD: "evolving I K d d' \<Longrightarrow> I d \<Longrightarrow> I d' \<and> K d d'"
  by (simp add: evolving_def)

lemma Save_evolves: "binds_evolve (Save b)"
proof (rule binds.by_success)
  fix w u w' assume "Save b w = (Inr u, w')" and "bindings_ok (db w)"
  then show "bindings_ok (db w') \<and> migrations_grow (db w) (db w')"
    using Save_ok upsert_evolves evolvingD by metis
qed (simp add: Save_def)

lemma conv_update [simp]:
  "b_conv (b\<lparr>b_running := r\<rparr>) = b_conv b" "b_conv (b\<lparr>b_interrupted := r\<rparr>) = b_conv b"
  "b_conv (b\<lparr>b_last_used_at := n\<rparr>) = b_conv b" "b_conv (b\<lparr>b_session_id := s\<rparr>) = b_conv b"
  by (simp_all add: b_conv_def)

lemma binding_updates_evolve:
  "binds_evolve (TouchBinding botID chat thread generation usedAt)"
  "binds_evolve (SetRunning b running)"
  "binds_evolve (SetInterrupted b interrupted)"
  unfolding TouchBinding_def SetRunning_def SetInterrupted_def
  by (intro binds.rel.follows_rules update_bindings_evolves; auto)+

lemma DeleteClosedBinding_evolves: "binds_evolve (DeleteClosedBinding botID chat thread generation)"
  unfolding DeleteClosedBinding_def
  by (intro binds.rel.follows_rules delete_bindings_evolves; auto intro!: keep_migrations
      simp: bindings_ok_def starting_def source_captured_def)

lemma deleteSessionReferences_evolves: "binds_evolve (deleteSessionReferences botID sid missing)"
proof (rule binds.by_success)
  fix w n w' assume run: "deleteSessionReferences botID sid missing w = (Inr n, w')" and ok: "bindings_ok (db w)"
  define p where "p = (\<lambda>b :: binding. b_bot b = botID \<and> eq_nocase (b_session_id b) sid)"
  note run = deleteSessionReferences_ok [OF run, folded p_def]
  let ?d = "(db w)\<lparr>bindings := delete_rows p (bindings (db w))\<rparr>"
  have "evolving bindings_ok migrations_grow (db w) ?d"
  proof (rule keep_migrations)
    fix m assume m: "m \<in> set (migrations (db w))" and "source_captured (db w) m"
    then obtain s where s: "s \<in> set (bindings (db w))" "s\<lparr>b_interrupted := b_interrupted (m_source m)\<rparr> = m_source m"
      by (auto simp: source_captured_def)
    then have "\<not> p s"
      using run m captured_conv [OF s(2)] by (auto simp: p_def exists_row_iff)
    with s show "source_captured ?d m" by (auto simp: source_captured_def set_delete_rows)
  qed (auto simp: bindings_ok_def starting_def intro!: keys_unique_delete)
  then have "bindings_ok ?d" using ok by (auto dest: evolvingD)
  then show "bindings_ok (db w') \<and> migrations_grow (db w) (db w')"
    using run by (simp add: bindings_ok_def source_captured_def starting_def migrations_grow_same)
qed (simp add: deleteSessionReferences_def)

lemma not_migrating_update:
  assumes "\<not> migrating (b_conv previous) d"
  shows "evolving bindings_ok migrations_grow d (stop_previous previous d)"
  using update_bindings_evolves [of "\<lambda>b. b\<lparr>b_running := False\<rparr>"
      "\<lambda>b. b_conv b = b_conv previous \<and> b_generation b = b_generation previous \<and> b_running b" d]
    assms binds.evolving_refl
  by (auto simp: stop_previous_def update_bindings_def)

lemma add_intent_evolves:
  assumes "\<not> migrating (ir_conv r) d" and "\<not> starting (ir_conv r) d"
  shows "evolving bindings_ok migrations_grow d (d\<lparr>startup_intents := startup_intents d @ [r]\<rparr>)"
  by (rule keep_migrations)
    (use assms in \<open>auto simp: bindings_ok_def starting_def keys_unique_snoc exists_row_iff source_captured_def migrating_iff\<close>)

lemma PrepareStart_evolves: "binds_evolve (PrepareStart now previous intent)"
proof (rule binds.by_success)
  fix w u w' assume "PrepareStart now previous intent w = (Inr u, w')" and ok: "bindings_ok (db w)"
  note run = PrepareStart_ok [OF this(1)]
  let ?d = "stop_previous previous (db w)" and ?r = "\<lparr>ir_intent = intent, ir_created_at = now\<rparr>"
  have same: "migrations ?d = migrations (db w)" "startup_intents ?d = startup_intents (db w)"
    by (simp_all add: stop_previous_def)
  have "evolving bindings_ok migrations_grow (db w) ?d" using run by (simp add: not_migrating_update)
  moreover have "evolving bindings_ok migrations_grow ?d (?d\<lparr>startup_intents := startup_intents ?d @ [?r]\<rparr>)"
    by (rule add_intent_evolves) (use run same in \<open>simp_all add: ir_conv_def migrating_def starting_def\<close>)
  ultimately have "evolving bindings_ok migrations_grow (db w) (?d\<lparr>startup_intents := startup_intents ?d @ [?r]\<rparr>)"
    by (rule binds.evolving_trans)
  then show "bindings_ok (db w') \<and> migrations_grow (db w) (db w')" using run ok same by (simp add: evolving_def)
qed (simp add: PrepareStart_def)

lemma drop_intents_evolves:
  "evolving bindings_ok migrations_grow d (d\<lparr>startup_intents := delete_rows p (startup_intents d)\<rparr>)"
  by (rule keep_migrations)
    (auto simp: bindings_ok_def starting_def exists_row_iff set_delete_rows source_captured_def intro!: keys_unique_delete)

lemma retire_evolves: "binds_evolve (retireStartupIntents p)"
  unfolding retireStartupIntents_def by (intro binds.rel.follows_rules) (simp add: drop_intents_evolves)

lemma CommitStart_evolves: "binds_evolve (CommitStart b)"
proof (rule binds.by_success)
  fix w u w' assume "CommitStart b w = (Inr u, w')" and ok: "bindings_ok (db w)"
  then obtain r lastUsed where r: "find (\<lambda>r. ir_conv r = b_conv b) (startup_intents (db w)) = Some r"
    and w': "db w' = (let d = upsert_binding (b\<lparr>b_last_used_at := lastUsed\<rparr>) (archive_binding (b_conv b) (db w))
               in d\<lparr>startup_intents := delete_rows (\<lambda>r. ir_conv r = b_conv b
                      \<and> si_generation (ir_intent r) = b_generation b) (startup_intents d)\<rparr>)"
    using CommitStart_ok by blast
  have "starting (b_conv b) (db w)" using find_SomeD [OF r] by (auto simp: starting_def exists_row_iff)
  then have "\<not> migrating (b_conv (b\<lparr>b_last_used_at := lastUsed\<rparr>)) (db w)"
    using ok by (auto simp: bindings_ok_def migrating_iff)
  then have "evolving bindings_ok migrations_grow (db w)
      (upsert_binding (b\<lparr>b_last_used_at := lastUsed\<rparr>) (archive_binding (b_conv b) (db w)))"
    by (rule upsert_evolves)
  then have "evolving bindings_ok migrations_grow (db w) (db w')"
    unfolding w' Let_def by (rule binds.evolving_trans) (rule drop_intents_evolves)
  then show "bindings_ok (db w') \<and> migrations_grow (db w) (db w')" using ok by (rule evolvingD)
qed (simp add: CommitStart_def)

section \<open>The operations of a migration\<close>

lemma apart_sym: "apart m m' \<longleftrightarrow> apart m' m"
  unfolding apart_def by (auto simp: Int_commute)

lemma not_locked_disjoint:
  assumes "\<not> exists_row (session_locked botID f s) ms" and "m \<in> set ms" and "b_bot (m_source m) = botID"
  shows "f \<noteq> [] \<Longrightarrow> f \<notin> session_files m" and "s \<noteq> [] \<Longrightarrow> to_lower s \<notin> session_ids m"
  using assms by (auto simp: exists_row_iff session_locked_def session_files_def session_ids_def eq_nocase_def)

lemma PrepareMigration_evolves: "binds_evolve (PrepareMigration now m0)"
proof (rule binds.by_success)
  fix w u w' assume run: "PrepareMigration now m0 w = (Inr u, w')" and ok: "bindings_ok (db w)"
  define m where "m = (if m_created_at m0 = 0 then m0\<lparr>m_created_at := now\<rparr> else m0)"
  from PrepareMigration_ok [OF run] have valid: "valid_new_migration m0"
    and free: "\<not> exists_row (session_locked (b_bot (m_source m)) (b_session (m_source m)) (b_session_id (m_source m))) (migrations (db w))"
    and found: "find_binding (m_conv m) (db w) = Some (m_source m)" "\<not> starting (m_conv m) (db w)"
    and new: "\<not> exists_row (\<lambda>m'. m_id m' = m_id m \<or> m_conv m' = m_conv m) (migrations (db w))"
    and w': "db w' = (db w)\<lparr>migrations := migrations (db w) @ [m]\<rparr>"
    unfolding m_def by blast+
  have m: "migration_valid m" "m_candidate_file m = []" "m_candidate_id m = []" "b_session_id (m_source m) \<noteq> []" "b_session (m_source m) \<noteq> []"
    using valid by (auto simp: m_def valid_new_migration_def migration_valid_def migrationPhase_def)
  have "m_source m \<in> set (bindings (db w))"
    using found find_SomeD by (force simp: find_binding_def)
  then have "source_captured (db w') m" by (auto simp: source_captured_def w' intro: bexI [of _ "m_source m"])
  moreover have "apart m m'" if "m' \<in> set (migrations (db w))" for m'
    using not_locked_disjoint [OF free that] m unfolding apart_def
    by (auto simp: session_files_def [of m] session_ids_def [of m])
  moreover have "source_captured (db w') m' = source_captured (db w) m'" "starting c (db w') = starting c (db w)" for m' c
    by (simp_all add: w' source_captured_def starting_def)
  ultimately have "bindings_ok (db w')"
    using ok new found m(1) unfolding bindings_ok_def
    by (auto simp: w' keys_unique_snoc exists_row_iff apart_sym)
  moreover have "migrations_grow (db w) (db w')"
    unfolding migrations_grow_def using migration_continues_refl by (auto simp: w')
  ultimately show "bindings_ok (db w') \<and> migrations_grow (db w) (db w')" by blast
qed (simp add: PrepareMigration_def Let_def)

lemma replace_migration:
  assumes ok: "bindings_ok d" and c: "c \<in> set (migrations d)" and fc: "migration_continues c (f c)"
    and valid: "migration_valid (f c)"
    and apart: "\<And>m. m \<in> set (migrations d) \<Longrightarrow> m \<noteq> c \<Longrightarrow> apart (f c) m"
  shows "bindings_ok (d\<lparr>migrations := update_rows (\<lambda>m. m_id m = m_id c) f (migrations d)\<rparr>)
    \<and> migrations_grow d (d\<lparr>migrations := update_rows (\<lambda>m. m_id m = m_id c) f (migrations d)\<rparr>)"
proof -
  define g where "g = (\<lambda>m. if m = c then f c else m)"
  have rows: "update_rows (\<lambda>m. m_id m = m_id c) f (migrations d) = map g (migrations d)"
    unfolding update_rows_def g_def using ok c by (intro map_cong) (auto simp: bindings_ok_def dest: keys_unique_eq)
  have cont: "migration_continues m (g m)" for m
    using fc by (simp add: g_def migration_continues_refl)
  have same: "m_conv (g m) = m_conv m" "m_id (g m) = m_id m" "m_source (g m) = m_source m" for m
    using cont [of m] by (simp_all add: migration_continues_def m_conv_def)
  have "m_conv \<circ> g = m_conv" "m_id \<circ> g = m_id"
    using same by auto
  moreover have "apart (g m) (g m')" if "m \<in> set (migrations d)" "m' \<in> set (migrations d)" "g m' \<noteq> g m" for m m'
    using that ok apart [of m] apart [of m'] apart_sym unfolding g_def bindings_ok_def by (metis (full_types))
  moreover have "migration_valid (g m)" if "m \<in> set (migrations d)" for m
    using that ok valid by (auto simp: g_def bindings_ok_def)
  ultimately have "bindings_ok (d\<lparr>migrations := map g (migrations d)\<rparr>)"
    using ok same by (auto simp: bindings_ok_def keys_unique_def starting_def source_captured_def)
  then show ?thesis
    using cont by (auto simp: rows migrations_grow_def)
qed

lemma fail_submitted_same:
  "bindings (fail_submitted now iid d) = bindings d" "migrations (fail_submitted now iid d) = migrations d"
  "startup_intents (fail_submitted now iid d) = startup_intents d"
  by (simp_all add: fail_submitted_def update_inbox_def)

lemma bindings_depend:
  assumes "bindings d' = bindings e" "startup_intents d' = startup_intents e" "migrations d' = migrations e"
  shows "bindings_ok d' = bindings_ok e" and "migrations_grow d d' = migrations_grow d e"
  using assms by (simp_all add: bindings_ok_def source_captured_def starting_def migrations_grow_def)

lemma FailMigration_evolves: "binds_evolve (FailMigration now mid kind)"
proof (rule binds.by_success)
  fix w r w' assume run: "FailMigration now mid kind w = (Inr r, w')" and ok: "bindings_ok (db w)"
  from FailMigration_ok [OF run] obtain c where c: "find (\<lambda>m. m_id m = mid) (migrations (db w)) = Some c"
    and w': "db w' = fail_submitted now (m_inbox_id c) ((db w)\<lparr>migrations := update_rows (\<lambda>m. m_id m = mid)
               (\<lambda>m. m\<lparr>m_error_kind := kind\<rparr>) (migrations (db w))\<rparr>)" by blast
  have mid: "c \<in> set (migrations (db w))" "mid = m_id c" using find_SomeD [OF c] by auto
  let ?f = "\<lambda>m. m\<lparr>m_error_kind := kind\<rparr>"
  have "migration_valid c" "\<And>m. m \<in> set (migrations (db w)) \<Longrightarrow> m \<noteq> c \<Longrightarrow> apart c m"
    using ok mid by (auto simp: bindings_ok_def)
  then show "bindings_ok (db w') \<and> migrations_grow (db w) (db w')"
    unfolding w' bindings_depend [OF fail_submitted_same(1,3,2)] mid(2)
    by (intro replace_migration ok mid(1))
      (auto simp: migration_continues_def migration_valid_def apart_def session_files_def session_ids_def)
qed (simp add: FailMigration_def)

lemma update_files:
  assumes "\<not> stale_update c m0 phase" and "m = recorded c m0"
    and "f = (\<lambda>m'. m'\<lparr>m_phase := m_phase m, m_summary_entry_id := m_summary_entry_id m,
              m_summary_hash := m_summary_hash m, m_candidate_file := m_candidate_file m,
              m_candidate_id := m_candidate_id m, m_error_kind := m_error_kind m\<rparr>)"
  shows "session_files (f c) \<subseteq> session_files c \<union> (if discovers c m0 then {m_candidate_file m0} else {})"
    and "m_candidate_id m0 = [] \<Longrightarrow> m_candidate_file m0 = [] \<Longrightarrow> session_ids (f c) \<subseteq> session_ids c"
    and "m_candidate_file m0 \<noteq> [] \<Longrightarrow> session_ids (f c) \<subseteq> session_ids c \<union> (if discovers c m0 then {to_lower (m_candidate_id m0)} else {})"
  using assms by (auto simp: recorded_def discovers_def session_files_def session_ids_def stale_update_def)

lemma UpdateMigration_evolves: "binds_evolve (UpdateMigration now m0 phase)"
proof (rule binds.by_success)
  fix w u w' assume run: "UpdateMigration now m0 phase w = (Inr u, w')" and ok: "bindings_ok (db w)"
  from UpdateMigration_ok [OF run] obtain c where valid: "valid_migration_update m0 phase"
    and c: "find_migration (m_conv m0) (db w) = Some c" and fresh: "\<not> stale_update c m0 phase"
    and free: "discovers c m0 \<longrightarrow>
        \<not> exists_row (session_locked (b_bot (m_source m0)) (m_candidate_file m0) (m_candidate_id m0)) (migrations (db w))"
    and w': "db w' = (if m_error_kind (recorded c m0) \<noteq> []
                then fail_submitted now (m_inbox_id c) (write_migration (recorded c m0) (db w))
                else write_migration (recorded c m0) (db w))" by blast
  define m where "m = recorded c m0"
  define f where "f = (\<lambda>m' :: migration. m'\<lparr>m_phase := m_phase m, m_summary_entry_id := m_summary_entry_id m,
              m_summary_hash := m_summary_hash m, m_candidate_file := m_candidate_file m,
              m_candidate_id := m_candidate_id m, m_error_kind := m_error_kind m\<rparr>)"
  have mem: "c \<in> set (migrations (db w))" using c find_SomeD by (force simp: find_migration_def)
  have old: "migration_valid c" "\<And>x. x \<in> set (migrations (db w)) \<Longrightarrow> x \<noteq> c \<Longrightarrow> apart c x"
    using ok mem by (auto simp: bindings_ok_def)
  have src: "m_id m = m_id c" "m_source m = m_source c" "m_source m0 = m_source c" "m_phase c = phase" "m_phase m = m_phase m0"
    "m_candidate_file m = m_candidate_file m0" "m_candidate_id m = m_candidate_id m0"
    "m_summary_entry_id m = m_summary_entry_id m0" "m_summary_hash m = m_summary_hash m0"
    using fresh by (auto simp: m_def recorded_def stale_update_def sameMigrationSource_def)
  have pair: "m_candidate_file m0 = [] \<longleftrightarrow> m_candidate_id m0 = []" "m_summary_entry_id m0 = [] \<longleftrightarrow> m_summary_hash m0 = []"
    "migrationPhase phase \<le> migrationPhase (m_phase m0)" "0 < migrationPhase (m_phase m0)"
    using valid by (auto simp: valid_migration_update_def Let_def migrationPhase_def split: if_splits)
  have cont: "migration_continues c (f c)"
    using fresh src pair by (auto simp: migration_continues_def f_def stale_update_def)
  have disjoint: "m_candidate_file m0 \<notin> session_files x \<and> to_lower (m_candidate_id m0) \<notin> session_ids x"
    if "x \<in> set (migrations (db w))" "b_bot (m_source x) = b_bot (m_source c)" "discovers c m0" for x
    using not_locked_disjoint [OF free [rule_format, OF that(3)] that(1)] that src pair by (auto simp: discovers_def)
  have "migration_valid (f c)"
    using old(1) src pair fresh disjoint [OF mem]
    by (auto simp: migration_valid_def f_def stale_update_def discovers_def session_files_def session_ids_def eq_nocase_def)
  moreover have "apart (f c) x" if "x \<in> set (migrations (db w))" "x \<noteq> c" for x
  proof (cases "b_bot (m_source x) = b_bot (m_source c)")
    case True
    have "session_files (f c) \<inter> session_files x = {}" "session_ids (f c) \<inter> session_ids x = {}"
      using old(2) [OF that] True update_files [OF fresh m_def f_def] disjoint [OF that(1) True] pair
      unfolding apart_def by (cases "m_candidate_file m0 = []"; cases "discovers c m0"; auto)+
    then show ?thesis by (simp add: apart_def)
  qed (use src in \<open>simp add: apart_def f_def\<close>)
  ultimately have "bindings_ok (write_migration m (db w)) \<and> migrations_grow (db w) (write_migration m (db w))"
    using replace_migration [where f = f, OF ok mem cont] by (simp add: write_migration_def f_def src)
  then show "bindings_ok (db w') \<and> migrations_grow (db w) (db w')"
    unfolding w' m_def using bindings_depend [OF fail_submitted_same(1,3,2)] by auto
qed (simp add: UpdateMigration_def)

lemma published_tables:
  "bindings (published now c target notice rt d) = update_rows (\<lambda>b. b_conv b = b_conv target) (\<lambda>_. target) (bindings d)"
  "migrations (published now c target notice rt d) = delete_rows (\<lambda>m. m_id m = m_id c) (migrations d)"
  "startup_intents (published now c target notice rt d) = startup_intents d"
  "inbox (published now c target notice rt d) = update_rows (\<lambda>r. in_id r = m_inbox_id c)
      (\<lambda>r. r\<lparr>in_state := InboxDone, in_updated_at := now\<rparr>) (inbox d)"
  "outbox (published now c target notice rt d) = outbox d @ [(queued_row now (b_chat target) (b_thread target) notice)
      \<lparr>out_inbox_id := m_inbox_id c, out_reply_to := rt, out_id := outbox_seq d + 1\<rparr>]"
  by (simp_all add: published_def table_updates insert_outbox_def archive_binding_def)

lemma publishMigration_steps: "follows (evolving bindings_ok migrations_step) (publishMigration now m0 target notice recovery)"
proof (rule follows_success)
  show "atomic (publishMigration now m0 target notice recovery)" by (simp add: publishMigration_def)
  show "evolving bindings_ok migrations_step d d" for d
    unfolding evolving_def migrations_step_def using migration_continues_refl by blast
  fix w u w' assume run: "publishMigration now m0 target notice recovery w = (Inr u, w')"
  show "evolving bindings_ok migrations_step (db w) (db w')"
    unfolding evolving_def
  proof
    assume ok: "bindings_ok (db w)"
    from publishMigration_ok [OF run] obtain c b i where target: "valid_target m0 target notice"
      and c: "find_migration (m_conv m0) (db w) = Some c" and fresh: "\<not> stale_publication c m0"
      and acc: "\<not> target_rejected c target recovery" and b: "find_binding (m_conv c) (db w) = Some b"
      and i: "find (\<lambda>r. in_id r = m_inbox_id c \<and> in_state r \<in> {InboxPending, InboxSubmitted, InboxUncertain}) (inbox (db w)) = Some i"
      and w': "db w' = published now c target notice (in_reply_to i) (db w)" by blast
    note tables = published_tables [of now c target notice "in_reply_to i" "db w", folded w']
    have mem: "c \<in> set (migrations (db w))" using c find_SomeD by (force simp: find_migration_def)
    have src: "m_source m0 = m_source c" using fresh by (simp add: stale_publication_def sameMigrationSource_def)
    have conv: "b_conv target = m_conv c"
      using target src by (simp add: valid_target_def m_conv_def b_conv_def)
    have others: "m \<in> set (migrations (db w)) \<Longrightarrow> m \<noteq> c \<Longrightarrow> m_conv m \<noteq> b_conv target \<and> m_id m \<noteq> m_id c" for m
      using ok mem conv by (auto simp: bindings_ok_def dest: keys_unique_eq)
    have kept: "source_captured (db w') m" if m: "m \<in> set (migrations (db w))" "m \<noteq> c" for m
    proof -
      obtain s where s: "s \<in> set (bindings (db w))" "s\<lparr>b_interrupted := b_interrupted (m_source m)\<rparr> = m_source m"
        using ok m by (auto simp: bindings_ok_def source_captured_def)
      have "s \<in> set (bindings (db w'))"
        using update_rows_mem [OF s(1), of "\<lambda>b. b_conv b = b_conv target" "\<lambda>_. target"] captured_conv [OF s(2)] others [OF m]
        by (simp add: tables)
      with s(2) show ?thesis by (auto simp: source_captured_def)
    qed
    have rest: "m \<in> set (migrations (db w')) \<longleftrightarrow> m \<in> set (migrations (db w)) \<and> m \<noteq> c" for m
      using others [of m] mem by (auto simp: tables set_delete_rows)
    have "bindings_ok (db w')"
      using ok kept by (auto simp: bindings_ok_def tables starting_def set_delete_rows
          intro: keys_unique_replace keys_unique_delete)
    moreover have "migration_resolved (db w) (db w') c"
    proof -
      have "b \<in> set (bindings (db w)) \<and> b_conv b = b_conv target"
        using b conv by (auto simp: find_binding_def dest: find_SomeD)
      then have "target \<in> set (bindings (db w'))"
        using update_rows_mem [of b "bindings (db w)" "\<lambda>b. b_conv b = b_conv target" "\<lambda>_. target"] by (simp add: tables)
      moreover have "\<exists>j \<in> set (inbox (db w')). in_id j = m_inbox_id c \<and> in_state j = InboxDone"
      proof
        show "i\<lparr>in_state := InboxDone, in_updated_at := now\<rparr> \<in> set (inbox (db w'))"
          using find_SomeD [OF i] by (auto simp: tables set_update_rows)
      qed (use find_SomeD [OF i] in simp)
      ultimately show ?thesis
        using target acc src conv unfolding migration_resolved_def
        by (auto simp: tables valid_target_def target_rejected_def target_is_candidate_def target_is_source_def queued_row_def
            intro!: bexI [of _ target])
    qed
    then have "migrations_step (db w) (db w')"
      unfolding migrations_step_def using rest migration_continues_refl by metis
    ultimately show "bindings_ok (db w') \<and> migrations_step (db w) (db w')" by blast
  qed
qed

section \<open>Recovery\<close>

text \<open>Identifiers are filled in only where none is stored; the source of a migration has one.\<close>

lemma backfill_evolves: "binds_evolve backfillSessionIDs"
proof -
  have loop: "preserves (\<lambda>d. bindings_ok d \<and> migrations_grow d0 d \<and> (\<forall>p \<in> set ids. \<not> migrating (fst p) d))
     (fold (\<lambda>(key, sid) rest. bind rest (\<lambda>_. execute (\<lambda>d. snd (update_bindings (\<lambda>b. b_conv b = key)
       (\<lambda>b. b\<lparr>b_session_id := sid\<rparr>) d)))) ids' m)"
    if "set ids' \<subseteq> set ids" and "preserves (\<lambda>d. bindings_ok d \<and> migrations_grow d0 d \<and> (\<forall>p \<in> set ids. \<not> migrating (fst p) d)) m"
    for ids ids' d0 m
    using that
  proof (induction ids' arbitrary: m)
    case (Cons p rest)
    obtain key sid where p: "p = (key, sid)" by (cases p)
    have "preserves (\<lambda>d. bindings_ok d \<and> migrations_grow d0 d \<and> (\<forall>p \<in> set ids. \<not> migrating (fst p) d))
       (bind m (\<lambda>_. execute (\<lambda>d. snd (update_bindings (\<lambda>b. b_conv b = key) (\<lambda>b. b\<lparr>b_session_id := sid\<rparr>) d))))"
    proof (rule keep_rules)
      show "preserves (\<lambda>d. bindings_ok d \<and> migrations_grow d0 d \<and> (\<forall>p \<in> set ids. \<not> migrating (fst p) d)) m"
        by (rule Cons.prems(2))
      show "preserves (\<lambda>d. bindings_ok d \<and> migrations_grow d0 d \<and> (\<forall>p \<in> set ids. \<not> migrating (fst p) d))
        (execute (\<lambda>d. snd (update_bindings (\<lambda>b. b_conv b = key) (\<lambda>b. b\<lparr>b_session_id := sid\<rparr>) d)))" for x
      proof (rule keep_rules, intro impI)
        fix d assume d: "bindings_ok d \<and> migrations_grow d0 d \<and> (\<forall>p \<in> set ids. \<not> migrating (fst p) d)"
        then have "\<not> migrating key d" using Cons.prems(1) p by auto
        then have "evolving bindings_ok migrations_grow d (snd (update_bindings (\<lambda>b. b_conv b = key) (\<lambda>b. b\<lparr>b_session_id := sid\<rparr>) d))"
          by (intro update_bindings_evolves) auto
        then show "bindings_ok (snd (update_bindings (\<lambda>b. b_conv b = key) (\<lambda>b. b\<lparr>b_session_id := sid\<rparr>) d))
          \<and> migrations_grow d0 (snd (update_bindings (\<lambda>b. b_conv b = key) (\<lambda>b. b\<lparr>b_session_id := sid\<rparr>) d))
          \<and> (\<forall>p \<in> set ids. \<not> migrating (fst p) (snd (update_bindings (\<lambda>b. b_conv b = key) (\<lambda>b. b\<lparr>b_session_id := sid\<rparr>) d)))"
          using d by (auto simp: evolving_def migrating_def update_bindings_def intro: binds.K_trans)
      qed
    qed
    then show ?case using Cons.IH Cons.prems(1) by (simp add: p)
  qed simp
  show ?thesis
    unfolding follows_def evolving_def
  proof (intro allI impI)
    fix w r w' assume run: "backfillSessionIDs w = (r, w')" and ok: "bindings_ok (db w)"
    define ids where "ids = filter (\<lambda>p. snd p \<noteq> [])
       (map (\<lambda>b. (b_conv b, sessionIDFromPath (b_session b))) (filter (\<lambda>b. b_session_id b = []) (bindings (db w))))"
    have free: "\<not> migrating (fst p) (db w)" if "p \<in> set ids" for p
    proof
      assume "migrating (fst p) (db w)"
      then obtain m where m: "m \<in> set (migrations (db w))" "m_conv m = fst p" by (auto simp: migrating_iff)
      obtain b where b: "b \<in> set (bindings (db w))" "b_session_id b = []" "b_conv b = fst p"
        using \<open>p \<in> set ids\<close> by (auto simp: ids_def)
      obtain s where s: "s \<in> set (bindings (db w))" "s\<lparr>b_interrupted := b_interrupted (m_source m)\<rparr> = m_source m"
        using ok m by (auto simp: bindings_ok_def source_captured_def)
      have "s = b" using ok s b m captured_conv [OF s(2)] by (auto simp: bindings_ok_def intro: keys_unique_eq)
      then show False using captured_conv [OF s(2)] b(2) ok m by (auto simp: bindings_ok_def migration_valid_def)
    qed
    show "bindings_ok (db w') \<and> migrations_grow (db w) (db w')"
    proof (cases "faulty w")
      case True
      then show ?thesis using run ok
        by (auto simp: backfillSessionIDs_def bind_def query_def stmt_def migrations_grow_same)
    next
      case False
      define P where "P = (\<lambda>d. bindings_ok d \<and> migrations_grow (db w) d \<and> (\<forall>p \<in> set ids. \<not> migrating (fst p) d))"
      have "P (db w)" using ok free by (simp add: P_def migrations_grow_same)
      moreover have "preserves P (fold (\<lambda>(key, sid) rest. bind rest (\<lambda>_. execute (\<lambda>d. snd (update_bindings
         (\<lambda>b. b_conv b = key) (\<lambda>b. b\<lparr>b_session_id := sid\<rparr>) d)))) ids (give ()))" (is "preserves P ?loop")
        unfolding P_def by (rule loop) (rule order_refl, rule keep_rules)
      moreover have "?loop (consumed w) = (r, w')"
        using run False by (simp add: backfillSessionIDs_def bind_def query_def stmt_def consumed_def ids_def)
      ultimately have "P (db w')"
        using preservesD [of P ?loop "consumed w" r w'] by simp
      then show ?thesis by (simp add: P_def)
    qed
  qed
qed

lemma binds_unchanged:
  "bindings d' = bindings d \<Longrightarrow> startup_intents d' = startup_intents d \<Longrightarrow> migrations d' = migrations d \<Longrightarrow>
   evolving bindings_ok migrations_grow d d'"
  by (simp add: evolving_def bindings_depend(1) [of d' d] migrations_grow_same)

lemma recover_binds_evolve: "binds_evolve (recover codec decode now)"
proof -
  have consume: "binds_evolve (consumeFinalAction codec iid)" for iid
    by (rule binds.outside [OF consume_footprint]) simp
  have settle: "evolving bindings_ok migrations_grow d (settle_interrupted now d)" for d
    by (rule binds_unchanged)
      (simp_all add: settle_interrupted_def settle_defs update_inbox_def update_outbox_def)
  show ?thesis
    unfolding recover_def backfillProgressChats_def recoverFinalActionReservations_def
    by (intro binds.rel.follows_rules backfill_evolves consume settle binds_unchanged)
      (auto simp: update_inbox_def)
qed

interpretation binding_life: store_evolution bindings_ok migrations_grow "{TBindings, TIntents, TMigrations}" migrations_step
proof unfold_locales
  show "bindings_ok empty_database" by (simp add: bindings_ok_def empty_database_def keys_unique_def)
  show "migrations_step d d'" if "migrations_grow d d'" for d d'
    using that by (auto simp: migrations_grow_def migrations_step_def)
  have publish: "follows (evolving bindings_ok migrations_step) (discard (publishMigration now m target notice recovery))"
    for now m target notice recovery
    using publishMigration_steps [of now m target notice recovery]
    by (auto simp: follows_def discard_def bind_def give_def split: prod.splits sum.splits)
  show "binds_evolve m \<or> follows (evolving bindings_ok migrations_step) m" if "store_op codec decode m" for codec decode m
    using that
  proof (induction rule: store_op.induct)
    case (op_publishMigration now m target notice recovery)
    show ?case by (rule disjI2, rule publish)
  qed (rule disjI1, rule binds.drop_result,
      (rule Save_evolves binding_updates_evolve DeleteClosedBinding_evolves deleteSessionReferences_evolves
         PrepareStart_evolves CommitStart_evolves retire_evolves PrepareMigration_evolves UpdateMigration_evolves
         FailMigration_evolves recover_binds_evolve
       | rule binds.outside, rule footprints, simp))+
qed

section \<open>The contract\<close>

text \<open>C12: In every reachable database a conversation has at most one binding, one start intent and
  one migration, never a start intent and a migration together; every unresolved migration still
  finds the source binding it captured (apart from the crash marker), so its compare-and-swap can
  never report a stale source; and the session files and ids that two migrations of a bot claim, as source or as
  candidate, are disjoint.\<close>

theorem binding_invariant:
  assumes "reachable codec decode d"
  shows "keys_unique b_conv (bindings d) \<and> keys_unique ir_conv (startup_intents d) \<and> keys_unique m_conv (migrations d)
    \<and> (\<forall>m \<in> set (migrations d). \<not> starting (m_conv m) d \<and> migration_valid m
         \<and> migrationSourceCAS m (healthy d) = (Inr (), healthy d)
         \<and> (\<forall>m' \<in> set (migrations d). m' \<noteq> m \<longrightarrow> apart m m'))"
proof -
  have ok: "bindings_ok d" using binding_life.holds [OF assms] .
  have "migrationSourceCAS m (healthy d) = (Inr (), healthy d)" if m: "m \<in> set (migrations d)" for m
  proof -
    obtain b where b: "b \<in> set (bindings d)" "b\<lparr>b_interrupted := b_interrupted (m_source m)\<rparr> = m_source m"
      using ok m by (auto simp: bindings_ok_def source_captured_def)
    have "find_binding (m_conv m) d = Some b"
      unfolding find_binding_def using ok b captured_conv [OF b(2)]
      by (intro find_unique [of b_conv]) (auto simp: bindings_ok_def)
    with b(2) show ?thesis by (simp add: migrationSourceCAS_def sql_run)
  qed
  with ok show ?thesis by (auto simp: bindings_ok_def)
qed

theorem binding_invariant_witness:
  "sample_migration \<in> set (migrations sample_migrating) \<and> \<not> starting (1, 3, 4) sample_migrating
     \<and> migrationSourceCAS sample_migration (healthy sample_migrating) = (Inr (), healthy sample_migrating)"
  using binding_invariant [OF sample_migrating_reachable]
  by (simp add: sample_migrating_eq sample_migration_def sample_binding_def m_conv_def b_conv_def)

text \<open>C13: Whatever a store call does, failed or not, an unresolved migration keeps its identity and
  its captured source, its phase never goes back, and a candidate or summary once recorded is never
  replaced; a migration disappears only together with its publication: the binding is the next generation
  on a recorded session, the input is done, and its notice is queued.\<close>

theorem migration_lifecycle:
  assumes "reachable codec decode d" and "store_step codec decode d d'"
  shows "migrations_step d d'"
  using assms by (rule binding_life.evolves)

theorem migration_lifecycle_witness:
  "migrations_step sample_migrating (after (UpdateMigration 105 (sample_migration\<lparr>m_phase := ''handoff''\<rparr>) ''prepared'') sample_migrating)"
  using migration_lifecycle [OF sample_migrating_reachable step_after [OF op_UpdateMigration]] .

end
