(* ===== verification/OutboxProps.thy ===== *)
theory OutboxProps
  imports Samples
begin

text \<open>
  Properties of the durable outbox: ids are never reused, at most one message of a conversation
  is being sent and it is the oldest one in flight, and a queued message is never altered, lost or
  sent again once its delivery is settled.
\<close>

section \<open>The life of a message\<close>

definition outbox_edge :: "outbox_state \<Rightarrow> outbox_state \<Rightarrow> bool" where
  "outbox_edge s s' \<longleftrightarrow>
     (case s of
        OutboxPending \<Rightarrow> s' = OutboxSending
      | OutboxSending \<Rightarrow> s' \<noteq> OutboxSending
      | _ \<Rightarrow> False)"

lemma sending_edge: "s = OutboxSending \<Longrightarrow> s' \<noteq> OutboxSending \<Longrightarrow> outbox_edge s s'"
  by (simp add: outbox_edge_def)

definition settled :: "outbox_state \<Rightarrow> bool" where
  "settled s \<longleftrightarrow> s \<noteq> OutboxPending \<and> s \<noteq> OutboxSending"

definition output_continues :: "outbox_row \<Rightarrow> outbox_row \<Rightarrow> bool" where
  "output_continues r r' \<longleftrightarrow>
     out_id r' = out_id r \<and> out_inbox_id r' = out_inbox_id r \<and> out_chat r' = out_chat r
     \<and> out_thread r' = out_thread r \<and> out_text r' = out_text r \<and> out_reply_to r' = out_reply_to r
     \<and> out_kind r' = out_kind r \<and> out_path r' = out_path r \<and> out_name r' = out_name r
     \<and> out_created_at r' = out_created_at r \<and> out_header_editable r' = out_header_editable r
     \<and> out_assistant_body r' = out_assistant_body r
     \<and> outbox_edge\<^sup>*\<^sup>* (out_state r) (out_state r')
     \<and> (settled (out_state r) \<longrightarrow> out_message_id r' = out_message_id r)"

definition fifo :: "outbox_row list \<Rightarrow> bool" where
  "fifo rows \<longleftrightarrow> (\<forall>r \<in> set rows. \<forall>r' \<in> set rows. out_state r = OutboxSending \<and> in_flight r'
     \<and> same_conversation r r' \<and> r' \<noteq> r \<longrightarrow> out_id r < out_id r')"

definition outbox_ok :: "database \<Rightarrow> bool" where
  "outbox_ok d \<longleftrightarrow> keys_unique out_id (outbox d) \<and> (\<forall>r \<in> set (outbox d). 0 < out_id r \<and> out_id r \<le> outbox_seq d)
     \<and> 0 \<le> outbox_seq d \<and> fifo (outbox d)"

definition fresh_or_old :: "database \<Rightarrow> database \<Rightarrow> bool" where
  "fresh_or_old d d' \<longleftrightarrow> outbox_seq d \<le> outbox_seq d' \<and>
     (\<forall>r' \<in> set (outbox d'). outbox_seq d < out_id r' \<or> (\<exists>r \<in> set (outbox d). output_continues r r'))"

definition outbox_grows :: "database \<Rightarrow> database \<Rightarrow> bool" where
  "outbox_grows d d' \<longleftrightarrow> fresh_or_old d d' \<and> (\<forall>r \<in> set (outbox d). \<exists>r' \<in> set (outbox d'). output_continues r r')"

definition outbox_step :: "database \<Rightarrow> database \<Rightarrow> bool" where
  "outbox_step d d' \<longleftrightarrow> fresh_or_old d d' \<and> (\<forall>r \<in> set (outbox d).
     (\<exists>r' \<in> set (outbox d'). output_continues r r') \<or> (\<exists>cutoff. outbox_removable cutoff d r))"

lemma output_continues_refl: "output_continues r r"
  by (simp add: output_continues_def)

lemma settled_reach: "outbox_edge\<^sup>*\<^sup>* s s' \<Longrightarrow> settled s \<Longrightarrow> s' = s"
  by (induction rule: rtranclp_induct) (auto simp: outbox_edge_def settled_def split: outbox_state.splits)

lemma output_continues_trans: "output_continues r r' \<Longrightarrow> output_continues r' r'' \<Longrightarrow> output_continues r r''"
  unfolding output_continues_def by (auto dest: settled_reach)

lemma output_continues_id: "output_continues r r' \<Longrightarrow> out_id r' = out_id r"
  by (simp add: output_continues_def)

lemma fresh_or_old_trans: "fresh_or_old d d' \<Longrightarrow> fresh_or_old d' d'' \<Longrightarrow> fresh_or_old d d''"
  unfolding fresh_or_old_def
  by (auto dest: output_continues_trans) (metis (no_types) order_le_less_trans output_continues_id output_continues_trans)

lemma outbox_grows_same: "outbox d' = outbox d \<Longrightarrow> outbox_seq d' = outbox_seq d \<Longrightarrow> outbox_grows d d'"
  unfolding outbox_grows_def fresh_or_old_def by (metis output_continues_refl order_refl)

lemma outbox_grows_trans: "outbox_grows d d' \<Longrightarrow> outbox_grows d' d'' \<Longrightarrow> outbox_grows d d''"
  unfolding outbox_grows_def by (meson fresh_or_old_trans output_continues_trans)

interpretation outputs: evolution_frame outbox_ok outbox_grows "{TOutbox}"
proof unfold_locales
  show "outbox_grows d d" for d by (simp add: outbox_grows_same)
  show "outbox_grows d d''" if "outbox_grows d d'" "outbox_grows d' d''" for d d' d''
    using that by (rule outbox_grows_trans)
  show "evolving outbox_ok outbox_grows d d'" if "only (- {TOutbox}) d d'" for d d'
    using that by (simp add: only_iff evolving_def outbox_ok_def outbox_grows_same)
qed

lemma outbox_unchanged:
  "outbox d' = outbox d \<Longrightarrow> outbox_seq d' = outbox_seq d \<Longrightarrow> evolving outbox_ok outbox_grows d d'"
  by (simp add: evolving_def outbox_ok_def outbox_grows_same)

section \<open>Inserts and updates\<close>

lemma outbox_insert_evolves:
  assumes "out_state r = OutboxPending"
  shows "evolving outbox_ok outbox_grows d (snd (insert_outbox r d))"
proof -
  define new where "new = r\<lparr>out_id := outbox_seq d + 1\<rparr>"
  have rows: "outbox (snd (insert_outbox r d)) = outbox d @ [new]" "outbox_seq (snd (insert_outbox r d)) = outbox_seq d + 1"
    by (simp_all add: insert_outbox_def new_def)
  have new: "out_id new = outbox_seq d + 1" "out_state new = OutboxPending" using assms by (simp_all add: new_def)
  have "fifo (outbox d @ [new])" if "outbox_ok d"
    using that new unfolding outbox_ok_def fifo_def by (fastforce simp: in_flight_def)
  moreover have "keys_unique out_id (outbox d @ [new])" if "outbox_ok d"
    using that new unfolding outbox_ok_def by (auto simp: keys_unique_snoc exists_row_iff)
  ultimately have "outbox_ok (snd (insert_outbox r d))" if "outbox_ok d"
    using that new rows by (auto simp: outbox_ok_def)
  moreover have "outbox_grows d (snd (insert_outbox r d))"
    unfolding outbox_grows_def fresh_or_old_def rows using new output_continues_refl by auto
  ultimately show ?thesis by (simp add: evolving_def)
qed

definition kept_columns :: "(outbox_row \<Rightarrow> outbox_row) \<Rightarrow> bool" where
  "kept_columns f \<longleftrightarrow> (\<forall>r. out_id (f r) = out_id r \<and> out_inbox_id (f r) = out_inbox_id r \<and> out_chat (f r) = out_chat r
     \<and> out_thread (f r) = out_thread r \<and> out_text (f r) = out_text r \<and> out_reply_to (f r) = out_reply_to r
     \<and> out_kind (f r) = out_kind r \<and> out_path (f r) = out_path r \<and> out_name (f r) = out_name r
     \<and> out_created_at (f r) = out_created_at r \<and> out_header_editable (f r) = out_header_editable r
     \<and> out_assistant_body (f r) = out_assistant_body r)"

lemma outbox_update_grows:
  assumes "kept_columns f"
    and "\<And>r. p r \<Longrightarrow> (out_state (f r) = out_state r \<or> outbox_edge (out_state r) (out_state (f r)))
      \<and> (settled (out_state r) \<longrightarrow> out_message_id (f r) = out_message_id r)"
  shows "outbox_grows d (snd (update_outbox p f d))"
proof -
  have step: "output_continues r (if p r then f r else r)" for r
    using assms(1) assms(2) [of r] by (auto simp: output_continues_def kept_columns_def)
  have "\<exists>r' \<in> set (update_rows p f (outbox d)). output_continues r r'" if "r \<in> set (outbox d)" for r
    using update_rows_rel [of output_continues, OF step that] .
  moreover have "\<exists>r \<in> set (outbox d). output_continues r r'" if "r' \<in> set (update_rows p f (outbox d))" for r'
    using update_rows_back [of output_continues, OF step that] .
  ultimately show ?thesis
    by (simp add: outbox_grows_def fresh_or_old_def update_outbox_def)
qed

lemma outbox_update_evolves:
  assumes keep: "kept_columns f"
    and edge: "\<And>r. p r \<Longrightarrow> (out_state (f r) = out_state r \<or> out_state r = OutboxSending \<and> out_state (f r) \<noteq> OutboxSending)
      \<and> (settled (out_state r) \<longrightarrow> out_message_id (f r) = out_message_id r)"
  shows "evolving outbox_ok outbox_grows d (snd (update_outbox p f d))"
proof -
  have grows: "outbox_grows d (snd (update_outbox p f d))"
    using edge sending_edge by (intro outbox_update_grows keep) metis
  define g where "g = (\<lambda>r. if p r then f r else r)"
  have state: "out_state (g r) = out_state r \<or> out_state r = OutboxSending \<and> out_state (g r) \<noteq> OutboxSending" for r
    using edge [of r] by (simp add: g_def)
  have g: "out_id (g r) = out_id r" "same_conversation (g r) (g r') = same_conversation r r'" for r r'
    using keep by (auto simp: g_def kept_columns_def same_conversation_def)
  have shrink: "out_state (g r) = OutboxSending \<Longrightarrow> out_state r = OutboxSending" "in_flight (g r) \<Longrightarrow> in_flight r" for r
    using state [of r] by (auto simp: in_flight_def)
  have "fifo (update_rows p f (outbox d))" if "fifo (outbox d)"
    unfolding fifo_def set_update_rows g_def [symmetric]
  proof (intro ballI impI)
    fix x y assume "x \<in> g ` set (outbox d)" "y \<in> g ` set (outbox d)"
      and c: "out_state x = OutboxSending \<and> in_flight y \<and> same_conversation x y \<and> y \<noteq> x"
    then obtain a b where "x = g a" "y = g b" "a \<in> set (outbox d)" "b \<in> set (outbox d)" by blast
    with that c show "out_id x < out_id y" unfolding fifo_def using g shrink by metis
  qed
  then have "outbox_ok (snd (update_outbox p f d))" if "outbox_ok d"
    using that g(1) keep
    by (auto simp: outbox_ok_def update_outbox_def set_update_rows kept_columns_def intro!: keys_unique_update)
  with grows show ?thesis by (simp add: evolving_def)
qed

section \<open>The operations\<close>

abbreviation outbox_evolves :: "'a store \<Rightarrow> bool" where
  "outbox_evolves m \<equiv> follows (evolving outbox_ok outbox_grows) m"

lemma enqueue_evolves:
  "outbox_evolves (Enqueue now chat thread body)"
  "outbox_evolves (EnqueueAttachment now chat thread kind path name caption)"
  "outbox_evolves (appendInboxReplies now iid chat thread replies header he parts)"
  unfolding Enqueue_def EnqueueAttachment_def appendInboxReplies_def
  by (intro outputs.rel.follows_rules outbox_insert_evolves; simp add: queued_row_def reply_row_def)+

lemma send_evolves:
  "outbox_evolves (SetAssistantHeader now oid header)"
  "outbox_evolves (RetryOutput now oid next)"
  "outbox_evolves (RetryServerOutput now oid next maxAttempts)"
  "outbox_evolves (MarkOutputDelivered now oid messageID sentHeader markup)"
  "outbox_evolves (MarkAssistantHeaderDelivered oid header actions)"
  "outbox_evolves (ClaimFinalActionEdit now)"
  "outbox_evolves (ReleaseAssistantEdit oid)"
  "outbox_evolves (FinishFinalActionEdit oid snapshot)"
  unfolding SetAssistantHeader_def RetryOutput_def RetryServerOutput_def MarkOutputDelivered_def
    MarkAssistantHeaderDelivered_def ClaimFinalActionEdit_def ReleaseAssistantEdit_def FinishFinalActionEdit_def
  by (intro outputs.rel.follows_rules outbox_update_evolves;
      simp add: kept_columns_def set_header_def settled_def)+

lemma NextAssistantHeader_evolves: "outbox_evolves NextAssistantHeader"
  unfolding NextAssistantHeader_def
proof (rule outputs.rel.follows_stmt)
  fix d x d'
  assume "(case first_by out_id header_edit_due (outbox d) of None \<Rightarrow> (Inl ErrNoRows, d)
     | Some r \<Rightarrow> (Inr (scanOutput (r\<lparr>out_actions_pending := 2\<rparr>)),
                 snd (update_outbox (\<lambda>r'. out_id r' = out_id r) (\<lambda>r'. r'\<lparr>out_actions_pending := 2\<rparr>) d))) = (Inr x, d')"
  then show "evolving outbox_ok outbox_grows d d'"
    by (cases "first_by out_id header_edit_due (outbox d)")
      (auto intro!: outbox_update_evolves simp: kept_columns_def)
qed

lemma MarkOutput_evolves:
  assumes "ostate \<noteq> OutboxSending"
  shows "outbox_evolves (MarkOutput now oid ostate)"
  unfolding MarkOutput_def using assms
  by (intro outputs.rel.follows_rules outbox_update_evolves)
    (cases ostate; auto simp: kept_columns_def settled_def)+

text \<open>A claim turns the oldest message in flight of a conversation into the one being sent.\<close>

definition claim_row :: "int64 \<Rightarrow> outbox_row \<Rightarrow> outbox_row" where
  "claim_row clock r = r\<lparr>out_state := OutboxSending, out_attempt_count := out_attempt_count r + 1,
     out_updated_at := clock\<rparr>"

lemma ClaimNextOutput_ok:
  assumes "ClaimNextOutput clock now w = (Inr out, w')"
  shows "\<exists>r. first_by out_id (claimable now (outbox (db w))) (outbox (db w)) = Some r
    \<and> out = (scanOutput r)\<lparr>o_attempt_count := wrap64 (out_attempt_count r + 1)\<rparr>
    \<and> db w' = snd (update_outbox (\<lambda>q. out_id q = out_id r \<and> out_state q = OutboxPending) (claim_row clock) (db w))"
  using assms unfolding ClaimNextOutput_def claim_row_def [abs_def]
  by (auto simp: sql_ok scanOutput_def split: if_splits)

lemma claim_fifo:
  assumes "keys_unique out_id rows" and "fifo rows" and "c \<in> set rows" and "claimable now rows c"
  shows "fifo (update_rows (\<lambda>q. out_id q = out_id c \<and> out_state q = OutboxPending) (claim_row clock) rows)"
proof -
  define g where "g = (\<lambda>q. if q = c then claim_row clock q else q)"
  have rows: "update_rows (\<lambda>q. out_id q = out_id c \<and> out_state q = OutboxPending) (claim_row clock) rows = map g rows"
    unfolding update_rows_def g_def using assms(1,3,4)
    by (intro map_cong) (auto simp: claimable_def dest: keys_unique_eq)
  have simps: "out_id (g q) = out_id q" "same_conversation (g q) (g q') = same_conversation q q'" for q q'
    by (simp_all add: g_def claim_row_def same_conversation_def)
  show ?thesis
    unfolding rows fifo_def set_map
  proof (intro ballI impI)
    fix x y assume "x \<in> g ` set rows" "y \<in> g ` set rows"
      and c: "out_state x = OutboxSending \<and> in_flight y \<and> same_conversation x y \<and> y \<noteq> x"
    then obtain a b where ab: "x = g a" "y = g b" "a \<in> set rows" "b \<in> set rows" by blast
    have conv: "same_conversation a b" "a \<noteq> b" using c ab simps by auto
    have flight: "in_flight b" using c ab assms(4) by (auto simp: g_def in_flight_def claimable_def split: if_splits)
    show "out_id x < out_id y"
    proof (cases "a = c")
      case True
      then have "\<not> out_id b < out_id c" "out_id b \<noteq> out_id c"
        using assms conv flight ab keys_unique_eq [OF assms(1)]
        by (auto simp: claimable_def exists_row_iff same_conversation_def)
      then show ?thesis using True ab simps by simp
    next
      case False
      then have sending: "out_state a = OutboxSending" using c ab by (simp add: g_def)
      then have "b \<noteq> c" using assms(4) conv ab by (auto simp: claimable_def exists_row_iff)
      then show ?thesis using assms(2) sending flight conv ab simps unfolding fifo_def by metis
    qed
  qed
qed

lemma ClaimNextOutput_evolves: "outbox_evolves (ClaimNextOutput clock now)"
proof (rule outputs.by_success)
  fix w out w' assume "ClaimNextOutput clock now w = (Inr out, w')" and ok: "outbox_ok (db w)"
  then obtain r where r: "first_by out_id (claimable now (outbox (db w))) (outbox (db w)) = Some r"
    and w': "db w' = snd (update_outbox (\<lambda>q. out_id q = out_id r \<and> out_state q = OutboxPending) (claim_row clock) (db w))"
    using ClaimNextOutput_ok by blast
  have "outbox_grows (db w) (db w')"
    unfolding w' by (rule outbox_update_grows)
      (simp_all add: kept_columns_def claim_row_def outbox_edge_def settled_def)
  moreover have "fifo (outbox (db w'))"
    using claim_fifo [of "outbox (db w)" r now clock] first_by_Some [OF r] ok
    by (simp add: w' update_outbox_def outbox_ok_def)
  moreover have "keys_unique out_id (outbox (db w'))" "\<forall>q \<in> set (outbox (db w')). 0 < out_id q \<and> out_id q \<le> outbox_seq (db w')"
    using ok by (auto simp: w' outbox_ok_def update_outbox_def claim_row_def set_update_rows intro!: keys_unique_update)
  ultimately show "outbox_ok (db w') \<and> outbox_grows (db w) (db w')"
    using ok by (simp add: outbox_ok_def w' update_outbox_def)
qed (simp add: ClaimNextOutput_def)

lemma settlement_outbox_evolves:
  "outbox_evolves (completeInboxWithReplies codec now iid chat thread state replies targetID header he actions)"
  unfolding completeInboxWithReplies_def registerFinalActions_def Let_def
  by (intro outputs.rel.follows_rules outbox_update_evolves outbox_insert_evolves)
    (auto simp: queued_row_def reply_row_def kept_columns_def set_header_def set_buttons_def
      update_inbox_def intro: outbox_unchanged)

lemma consume_outbox_evolves: "outbox_evolves (consumeFinalAction codec iid)"
  unfolding consumeFinalAction_def
  by (intro outputs.rel.follows_rules outbox_update_evolves)
    (auto simp: kept_columns_def set_buttons_def update_final_actions_def intro: outbox_unchanged)

lemma ConsumeFinalAction_outbox_evolves: "outbox_evolves (ConsumeFinalAction codec iid)"
  unfolding ConsumeFinalAction_def by (intro outputs.rel.follows_rules consume_outbox_evolves)

lemma publish_outbox_evolves: "outbox_evolves (publishMigration now m target notice recovery)"
  unfolding publishMigration_def
  by (intro outputs.rel.follows_rules outbox_insert_evolves)
    (auto simp: queued_row_def archive_binding_def table_updates intro: outbox_unchanged)

lemma settle_outbox_evolves: "evolving outbox_ok outbox_grows d (settle_interrupted now d)"
  by (intro outputs.rel.settle_interrupted_follows; unfold settle_defs;
      (rule outbox_update_evolves | rule outbox_unchanged); simp add: update_inbox_def kept_columns_def settled_def)

lemma recover_outbox_evolves: "outbox_evolves (recover codec decode now)"
  unfolding recover_def backfillProgressChats_def recoverFinalActionReservations_def
  by (intro outputs.rel.follows_rules consume_outbox_evolves settle_outbox_evolves
      outputs.outside [OF binding_footprints(12)])
    (auto simp: update_inbox_def intro: outbox_unchanged)

lemma outbox_grows_step: "outbox_grows d d' \<Longrightarrow> outbox_step d d'"
  by (auto simp: outbox_grows_def outbox_step_def)

lemma outbox_step_refl: "outbox_step d d"
  by (simp add: outbox_grows_step outbox_grows_same)

lemma delete_outbox_step: "evolving outbox_ok outbox_step d (snd (delete_outbox (outbox_batch cutoff d) d))"
proof -
  have "outbox_removable cutoff d r"
    if "outbox_ok d" "r \<in> set (outbox d)" "out_id r \<in> set (outbox_batch cutoff d)" for r
  proof -
    from that(3) obtain q where "q \<in> set (outbox d)" "outbox_removable cutoff d q" "out_id q = out_id r"
      by (auto simp: outbox_batch_def dest!: in_set_takeD simp: set_select_by)
    with that show ?thesis by (auto simp: outbox_ok_def dest: keys_unique_eq)
  qed
  then show ?thesis
    using output_continues_refl
    by (auto simp: evolving_def outbox_step_def outbox_ok_def fresh_or_old_def delete_outbox_def set_delete_rows
        fifo_def intro!: keys_unique_delete) (metis output_continues_refl)+
qed

lemma cleanup_outbox_step: "follows (evolving outbox_ok outbox_step) (cleanupOutboxBatch cutoff)"
proof (intro follows_success)
  fix w x w' assume "cleanupOutboxBatch cutoff w = (Inr x, w')"
  then have "db w' = snd (delete_outbox (outbox_batch cutoff (db w)) (db w))"
    by (auto simp: cleanupOutboxBatch_def sql_ok)
  then show "evolving outbox_ok outbox_step (db w) (db w')" by (simp add: delete_outbox_step)
qed (simp_all add: cleanupOutboxBatch_def evolving_def outbox_step_refl)

interpretation outbox_life: store_evolution outbox_ok outbox_grows "{TOutbox}" outbox_step
proof unfold_locales
  show "outbox_ok empty_database" by (simp add: outbox_ok_def empty_database_def keys_unique_def fifo_def)
  show "outbox_step d d'" if "outbox_grows d d'" for d d' using that by (rule outbox_grows_step)
  have cleanup: "follows (evolving outbox_ok outbox_step) (discard (cleanupOutboxBatch cutoff))" for cutoff
    by (rule follows_discard [OF cleanup_outbox_step])
  show "outbox_evolves m \<or> follows (evolving outbox_ok outbox_step) m" if "store_op codec decode m" for codec decode m
    using that
  proof (induction rule: store_op.induct)
    case (op_cleanupOutboxBatch cutoff)
    show ?case by (rule disjI2, rule cleanup)
  qed (rule disjI1, rule outputs.drop_result,
      (rule enqueue_evolves send_evolves NextAssistantHeader_evolves ClaimNextOutput_evolves
         settlement_outbox_evolves ConsumeFinalAction_outbox_evolves publish_outbox_evolves recover_outbox_evolves
       | rule MarkOutput_evolves, assumption
       | rule outputs.outside, rule footprints, simp))+
qed

section \<open>The contract of the outbox\<close>

text \<open>C11: In every reachable database message ids are positive, distinct and covered by the id
  counter, and whenever a message of a conversation is being sent every other message of the
  conversation still in flight is younger: at most one delivery runs per conversation, in order.\<close>

theorem outbox_invariant:
  assumes "reachable codec decode d"
  shows "keys_unique out_id (outbox d) \<and> (\<forall>r \<in> set (outbox d). 0 < out_id r \<and> out_id r \<le> outbox_seq d)
    \<and> (\<forall>r \<in> set (outbox d). \<forall>q \<in> set (outbox d). out_state r = OutboxSending \<and> in_flight q
         \<and> same_conversation r q \<and> q \<noteq> r \<longrightarrow> out_id r < out_id q)"
  using outbox_life.holds [OF assms] by (simp add: outbox_ok_def fifo_def)

theorem outbox_invariant_witness:
  "out_state (hd (outbox sample_sending)) = OutboxSending \<and>
   out_id (hd (outbox sample_sending)) < out_id (last (outbox sample_sending))"
  using outbox_invariant [OF sample_sending_reachable]
  by (auto simp: sample_sending_eq in_flight_def same_conversation_def queued_row_def)

text \<open>C9: Whatever a store call does, failed or not, every queued message keeps its identity,
  destination, content and reply target; its state only moves along pending, sending, settled
  (a failed send may return to pending), a settled message never moves again and keeps the
  Telegram message id it got; only messages the retention policy allows to remove leave the table,
  and every other row is new, with an id never used before.\<close>

theorem outbox_lifecycle:
  assumes "reachable codec decode d" and "store_step codec decode d d'"
  shows "outbox_step d d'"
  using assms by (rule outbox_life.evolves)

theorem outbox_lifecycle_witness: "outbox_step sample_outbox (after (ClaimNextOutput 110 110) sample_outbox)"
  using outbox_lifecycle [OF sample_outbox_reachable step_after [OF op_ClaimNextOutput]] .

text \<open>C15: The rows the claim query accepts are exactly the heads of the conversations' queues:
  the oldest message in flight, when it is pending and due. The guard against a running delivery
  is implied by the order invariant.\<close>

theorem claimable_is_head:
  assumes "reachable codec decode d" and "r \<in> set (outbox d)"
  shows "claimable now (outbox d) r \<longleftrightarrow>
     first_by out_id (\<lambda>q. in_flight q \<and> same_conversation q r) (outbox d) = Some r
     \<and> out_state r = OutboxPending \<and> out_next_attempt_at r \<le> now"
proof -
  have ok: "keys_unique out_id (outbox d)" "fifo (outbox d)"
    using outbox_life.holds [OF assms(1)] by (simp_all add: outbox_ok_def)
  let ?head = "first_by out_id (\<lambda>q. in_flight q \<and> same_conversation q r) (outbox d)"
  show ?thesis
  proof
    assume c: "claimable now (outbox d) r"
    then have "in_flight r" by (simp add: claimable_def in_flight_def)
    then have "?head \<noteq> None" using assms(2) by (auto simp: first_by_None same_conversation_def)
    then obtain h where h: "?head = Some h" by blast
    have "out_id h \<le> out_id r"
      using first_by_Some(3) [OF h assms(2)] \<open>in_flight r\<close> by (simp add: same_conversation_def)
    moreover have "\<not> out_id h < out_id r"
      using c first_by_Some(1,2) [OF h] by (auto simp: claimable_def exists_row_iff)
    ultimately have "h = r"
      using keys_unique_eq [OF ok(1) first_by_Some(1) [OF h] assms(2)] by simp
    with h c show "?head = Some r \<and> out_state r = OutboxPending \<and> out_next_attempt_at r \<le> now"
      by (simp add: claimable_def)
  next
    assume h: "?head = Some r \<and> out_state r = OutboxPending \<and> out_next_attempt_at r \<le> now"
    then have head: "?head = Some r" by simp
    have first: "out_id r \<le> out_id q" if "q \<in> set (outbox d)" "in_flight q" "same_conversation q r" for q
      using first_by_Some(3) [OF head that(1)] that(2,3) by simp
    have "\<not> (same_conversation q r \<and> out_state q = OutboxSending)" if q: "q \<in> set (outbox d)" for q
    proof
      assume s: "same_conversation q r \<and> out_state q = OutboxSending"
      then have "out_id q < out_id r"
        using ok(2) [unfolded fifo_def, rule_format, OF q assms(2)] s h by (fastforce simp: in_flight_def)
      then show False using first [OF q] s by (simp add: in_flight_def)
    qed
    moreover have "\<not> (same_conversation q r \<and> out_id q < out_id r \<and> in_flight q)" if "q \<in> set (outbox d)" for q
      using first [OF that] by auto
    ultimately show "claimable now (outbox d) r"
      using h by (simp add: claimable_def exists_row_iff)
  qed
qed

theorem claimable_is_head_witness:
  "claimable 110 (outbox sample_outbox) (hd (outbox sample_outbox)) \<and>
   \<not> claimable 110 (outbox sample_outbox) (last (outbox sample_outbox))"
  using claimable_is_head [OF sample_outbox_reachable, of "hd (outbox sample_outbox)" 110]
    claimable_is_head [OF sample_outbox_reachable, of "last (outbox sample_outbox)" 110]
  by (simp add: sample_outbox_eq first_by_def select_by_def in_flight_def same_conversation_def queued_row_def)

text \<open>C10: Without driver faults the sender's claim returns the head with the smallest id among the
  claimable ones, with its attempt counted, and makes it, and nothing else, a running delivery; it
  reports no rows, and changes nothing, exactly when no message is claimable.\<close>

theorem ClaimNextOutput_outcome:
  assumes "reachable codec decode d"
  shows "case ClaimNextOutput clock now (healthy d) of
      (Inl e, w') \<Rightarrow> e = ErrNoRows \<and> db w' = d \<and> (\<forall>r \<in> set (outbox d). \<not> claimable now (outbox d) r)
    | (Inr out, w') \<Rightarrow> (\<exists>r \<in> set (outbox d). claimable now (outbox d) r
        \<and> (\<forall>q \<in> set (outbox d). claimable now (outbox d) q \<longrightarrow> out_id r \<le> out_id q)
        \<and> out = (scanOutput r)\<lparr>o_attempt_count := wrap64 (out_attempt_count r + 1)\<rparr>
        \<and> db w' = d\<lparr>outbox := map (\<lambda>q. if q = r then claim_row clock q else q) (outbox d)\<rparr>)"
proof -
  have ok: "keys_unique out_id (outbox d)"
    using outbox_life.holds [OF assms(1)] by (simp add: outbox_ok_def)
  show ?thesis
  proof (cases "first_by out_id (claimable now (outbox d)) (outbox d)")
    case None
    then have none: "\<forall>r \<in> set (outbox d). \<not> claimable now (outbox d) r" by (simp add: first_by_None)
    then show ?thesis by (simp add: None ClaimNextOutput_def sql_run)
  next
    case (Some r)
    note r = first_by_Some [OF Some]
    let ?p = "\<lambda>q. out_id q = out_id r \<and> out_state q = OutboxPending"
    have "count_rows ?p (outbox d) = 1"
      using r(1,2) by (intro keys_unique_count [OF ok]) (auto simp: claimable_def)
    moreover have "update_rows ?p (claim_row clock) (outbox d) = map (\<lambda>q. if q = r then claim_row clock q else q) (outbox d)"
      unfolding update_rows_def using ok r(1,2) by (intro map_cong) (auto simp: claimable_def dest: keys_unique_eq)
    ultimately show ?thesis
      using Some r
      by (auto simp: ClaimNextOutput_def sql_run update_outbox_def claim_row_def [abs_def] scanOutput_def)
  qed
qed

theorem ClaimNextOutput_outcome_witness:
  "\<exists>r \<in> set (outbox sample_outbox). claimable 110 (outbox sample_outbox) r \<and> out_text r = ''first''"
  using ClaimNextOutput_outcome [OF sample_outbox_reachable, of 110 110]
  by (auto simp: sample_outbox_eq claimable_def queued_row_def exists_row_def in_flight_def same_conversation_def)

end
