(* ===== verification/InboxProps.thy ===== *)
theory InboxProps
  imports Samples
begin

text \<open>
  Properties of the durable inbox: an update is stored once and its polling offset moves past
  it, an input never runs twice, and the payload of an ignored update is erased.
\<close>

section \<open>The life of an input\<close>

definition inbox_edge :: "inbox_state \<Rightarrow> inbox_state \<Rightarrow> bool" where
  "inbox_edge s s' \<longleftrightarrow>
     (case s of
        InboxPending \<Rightarrow> s' \<in> {InboxSubmitted, InboxDone, InboxCancelled, InboxFailed, InboxIgnored}
      | InboxSubmitted \<Rightarrow> s' \<in> {InboxDone, InboxCancelled, InboxFailed, InboxUncertain}
      | InboxUncertain \<Rightarrow> s' = InboxDone
      | _ \<Rightarrow> False)"

definition input_continues :: "inbox_row \<Rightarrow> inbox_row \<Rightarrow> bool" where
  "input_continues r r' \<longleftrightarrow> in_id r' = in_id r \<and> in_created_at r' = in_created_at r
     \<and> inbox_edge\<^sup>*\<^sup>* (in_state r) (in_state r')
     \<and> (in_raw r' = in_raw r \<or> in_state r' = InboxIgnored)
     \<and> (in_state r \<noteq> InboxPending \<longrightarrow> in_reply_to r' = in_reply_to r)"

definition inbox_ok :: "database \<Rightarrow> bool" where
  "inbox_ok d \<longleftrightarrow> keys_unique in_id (inbox d) \<and> (\<forall>r \<in> set (inbox d). in_state r = InboxIgnored \<longrightarrow> in_raw r = [])
     \<and> (\<forall>r \<in> set (inbox d). in_int64 (in_id r) \<longrightarrow> in_id r < max_int64 \<longrightarrow>
          (\<exists>v. meta d ''offset'' = Some v \<and> in_id r < v))"

definition offset_grows :: "database \<Rightarrow> database \<Rightarrow> bool" where
  "offset_grows d d' \<longleftrightarrow> (\<forall>v. meta d ''offset'' = Some v \<longrightarrow> (\<exists>v'. meta d' ''offset'' = Some v' \<and> v \<le> v'))"

definition inbox_grows :: "database \<Rightarrow> database \<Rightarrow> bool" where
  "inbox_grows d d' \<longleftrightarrow> offset_grows d d' \<and> (\<forall>r \<in> set (inbox d). \<exists>r' \<in> set (inbox d'). input_continues r r')"

definition inbox_step :: "database \<Rightarrow> database \<Rightarrow> bool" where
  "inbox_step d d' \<longleftrightarrow> offset_grows d d' \<and> (\<forall>r \<in> set (inbox d).
     (\<exists>r' \<in> set (inbox d'). input_continues r r') \<or>
     (inbox_terminal (in_state r) \<and> \<not> exists_row (\<lambda>m. m_inbox_id m = in_id r) (migrations d)))"

lemma input_continues_refl [simp]: "input_continues r r"
  by (simp add: input_continues_def)

lemma terminal_reach:
  "inbox_edge\<^sup>*\<^sup>* s s' \<Longrightarrow> s \<in> {InboxDone, InboxCancelled, InboxFailed, InboxIgnored} \<Longrightarrow> s' = s"
  by (induction rule: rtranclp_induct) (auto simp: inbox_edge_def)

lemma pending_reach: "inbox_edge\<^sup>*\<^sup>* s s' \<Longrightarrow> s \<noteq> InboxPending \<Longrightarrow> s' \<noteq> InboxPending"
  by (induction rule: rtranclp_induct) (auto simp: inbox_edge_def split: inbox_state.splits)

lemma input_continues_trans: "input_continues r r' \<Longrightarrow> input_continues r' r'' \<Longrightarrow> input_continues r r''"
  unfolding input_continues_def
  by (auto dest: terminal_reach pending_reach)

lemma offset_grows_trans: "offset_grows d d' \<Longrightarrow> offset_grows d' d'' \<Longrightarrow> offset_grows d d''"
  unfolding offset_grows_def by fastforce

lemma inbox_grows_offset: "inbox d' = inbox d \<Longrightarrow> offset_grows d d' \<Longrightarrow> inbox_grows d d'"
  unfolding inbox_grows_def by (metis input_continues_refl)

lemma inbox_grows_same: "inbox d' = inbox d \<Longrightarrow> meta d' = meta d \<Longrightarrow> inbox_grows d d'"
  by (simp add: inbox_grows_offset offset_grows_def)

interpretation inboxes: evolution_frame inbox_ok inbox_grows "{TInbox, TMeta}"
proof unfold_locales
  show "inbox_grows d d" for d by (simp add: inbox_grows_same)
  show "inbox_grows d d''" if "inbox_grows d d'" "inbox_grows d' d''" for d d' d''
    using that unfolding inbox_grows_def by (meson input_continues_trans offset_grows_trans)
  show "evolving inbox_ok inbox_grows d d'" if "only (- {TInbox, TMeta}) d d'" for d d'
    using that by (simp add: only_iff evolving_def inbox_ok_def inbox_grows_same)
qed

section \<open>Updates of the table\<close>

lemma inbox_update_evolves:
  assumes same: "\<And>r. in_id (f r) = in_id r \<and> in_created_at (f r) = in_created_at r"
    and edge: "\<And>r. p r \<Longrightarrow> inbox_edge (in_state r) (in_state (f r))
        \<and> (in_raw (f r) = (if in_state (f r) = InboxIgnored then [] else in_raw r))
        \<and> (in_state r \<noteq> InboxPending \<longrightarrow> in_reply_to (f r) = in_reply_to r)"
  shows "evolving inbox_ok inbox_grows d (snd (update_inbox p f d))"
proof -
  have step: "input_continues r (if p r then f r else r)" for r
    using same [of r] edge [of r] by (auto simp: input_continues_def)
  have "inbox_grows d (snd (update_inbox p f d))"
    using update_rows_rel [of input_continues, OF step]
    by (auto simp: inbox_grows_def update_inbox_def offset_grows_def)
  moreover have "inbox_ok (snd (update_inbox p f d))" if "inbox_ok d"
    using that same edge by (auto simp: inbox_ok_def update_inbox_def set_update_rows intro!: keys_unique_update)
  ultimately show ?thesis by (simp add: evolving_def)
qed

lemma inbox_none_evolves: "count_rows p (inbox d) = 0 \<Longrightarrow> snd (update_inbox p f d) = d"
  by (simp add: update_none)

lemma insert_evolves:
  assumes "in_state r = InboxIgnored \<Longrightarrow> in_raw r = []"
  shows "evolving inbox_ok inbox_grows d (raise_offset (wrap64 (in_id r + 1)) (insert_inbox r d))"
proof -
  have wrap: "wrap64 (i + 1) = i + 1" if "in_int64 i" "i < max_int64" for i
    using that by (intro wrap64_id) (auto simp: in_int64_def)
  have "inbox_ok (raise_offset (wrap64 (in_id r + 1)) (insert_inbox r d))" if "inbox_ok d"
    using that assms wrap
    by (fastforce simp: inbox_ok_def raise_offset_def insert_inbox_def keys_unique_snoc exists_row_iff
        split: option.splits)
  then show ?thesis
    by (auto simp: evolving_def inbox_grows_def offset_grows_def raise_offset_def insert_inbox_def
        intro!: bexI input_continues_refl)
qed

section \<open>The operations\<close>

abbreviation inbox_evolves :: "'a store \<Rightarrow> bool" where
  "inbox_evolves m \<equiv> follows (evolving inbox_ok inbox_grows) m"

lemma accept_evolves: "inbox_evolves (Accept now iid raw)" "inbox_evolves (AcceptIgnored now iid)"
  unfolding Accept_def AcceptIgnored_def
proof -
  show "inbox_evolves (transact (
     bind (execute (insert_inbox \<lparr>in_id = iid, in_raw = raw, in_state = InboxPending,
             in_reply_to = 0, in_created_at = now, in_updated_at = now\<rparr>)) (\<lambda>_.
     bind (execute (raise_offset (wrap64 (iid + 1)))) (\<lambda>_. commit ()))))"
    using insert_evolves [of "\<lparr>in_id = iid, in_raw = raw, in_state = InboxPending,
             in_reply_to = 0, in_created_at = now, in_updated_at = now\<rparr>"]
    by (intro inboxes.by_success) (auto simp: sql_ok evolving_def)
  show "inbox_evolves (transact (
     bind (execute (insert_inbox \<lparr>in_id = iid, in_raw = [], in_state = InboxIgnored,
             in_reply_to = 0, in_created_at = now, in_updated_at = now\<rparr>)) (\<lambda>_.
     bind (execute (raise_offset (wrap64 (iid + 1)))) (\<lambda>_. commit ()))))"
    using insert_evolves [of "\<lparr>in_id = iid, in_raw = [], in_state = InboxIgnored,
             in_reply_to = 0, in_created_at = now, in_updated_at = now\<rparr>"]
    by (intro inboxes.by_success) (auto simp: sql_ok evolving_def)
qed

lemma inbox_unchanged: "inbox d' = inbox d \<Longrightarrow> meta d' = meta d \<Longrightarrow> evolving inbox_ok inbox_grows d d'"
  by (simp add: evolving_def inbox_ok_def inbox_grows_same)

lemma CheckBot_evolves: "inbox_evolves (CheckBot iid)"
  unfolding CheckBot_def
  by (intro inboxes.rel.follows_rules)
    (auto simp: evolving_def inbox_ok_def offset_grows_def intro: inbox_grows_offset)

lemma mark_evolves:
  "inbox_evolves (Mark now iid state)" "inbox_evolves (FinishSubmitted now iid state)"
  "inbox_evolves (Submit now iid replyTo)" "inbox_evolves (CancelPendingFollowupInbox now iid)"
  "inbox_evolves (SettleRejectedFinalAction now iid)"
  unfolding Mark_def FinishSubmitted_def Submit_def CancelPendingFollowupInbox_def SettleRejectedFinalAction_def
  by ((intro inboxes.rel.follows_rules inbox_update_evolves;
      cases state; auto simp: inbox_edge_def)+)

lemma fail_submitted_evolves: "evolving inbox_ok inbox_grows d (fail_submitted now iid d)"
  unfolding fail_submitted_def by (rule inbox_update_evolves) (auto simp: inbox_edge_def)

lemma migration_inbox_evolves:
  "inbox_evolves (UpdateMigration now m phase)" "inbox_evolves (FailMigration now mid kind)"
  unfolding UpdateMigration_def apply_update_def FailMigration_def
  by (intro inboxes.rel.follows_rules fail_submitted_evolves;
      simp add: write_migration_def inbox_unchanged)+

lemma published_inbox: "inbox (published now current target notice replyTo d) =
    update_rows (\<lambda>r. in_id r = m_inbox_id current) (\<lambda>r. r\<lparr>in_state := InboxDone, in_updated_at := now\<rparr>) (inbox d)"
  "meta (published now current target notice replyTo d) = meta d"
  by (simp_all add: published_def table_updates insert_outbox_def archive_binding_def)

lemma inbox_depends:
  assumes "inbox d' = inbox d''" and "meta d' = meta d''"
  shows "inbox_ok d' = inbox_ok d''" and "inbox_grows d d' = inbox_grows d d''"
  using assms by (simp_all add: inbox_ok_def inbox_grows_def offset_grows_def)

lemma unique_update:
  "keys_unique key rows \<Longrightarrow> i \<in> set rows \<Longrightarrow> p i \<Longrightarrow> (\<And>r. p r \<Longrightarrow> key r = key i) \<Longrightarrow>
   update_rows p f rows = update_rows (\<lambda>r. p r \<and> r = i) f rows"
  by (auto simp: update_rows_def dest: keys_unique_eq)

lemma publish_inbox_evolves: "inbox_evolves (publishMigration now m target notice recovery)"
proof (rule inboxes.by_success)
  fix w u w' assume run: "publishMigration now m target notice recovery w = (Inr u, w')" and ok: "inbox_ok (db w)"
  from publishMigration_ok [OF run] obtain current i where
    i: "find (\<lambda>r. in_id r = m_inbox_id current \<and> in_state r \<in> {InboxPending, InboxSubmitted, InboxUncertain})
      (inbox (db w)) = Some i" and w': "db w' = published now current target notice (in_reply_to i) (db w)"
    by blast
  define f where "f = (\<lambda>r :: inbox_row. r\<lparr>in_state := InboxDone, in_updated_at := now\<rparr>)"
  define q where "q = (\<lambda>r. in_id r = m_inbox_id current \<and> r = i)"
  have "update_rows (\<lambda>r. in_id r = m_inbox_id current) f (inbox (db w)) = update_rows q f (inbox (db w))"
    unfolding q_def using ok find_SomeD [OF i] by (intro unique_update [where key = in_id]) (auto simp: inbox_ok_def)
  then have same: "inbox (db w') = inbox (snd (update_inbox q f (db w)))" "meta (db w') = meta (snd (update_inbox q f (db w)))"
    by (simp_all add: w' published_inbox update_inbox_def f_def)
  have "evolving inbox_ok inbox_grows (db w) (snd (update_inbox q f (db w)))"
    unfolding q_def f_def using find_SomeD [OF i]
    by (intro inbox_update_evolves) (auto simp: inbox_edge_def)
  then show "inbox_ok (db w') \<and> inbox_grows (db w) (db w')"
    using ok inbox_depends [OF same] by (simp add: evolving_def)
qed (simp add: publishMigration_def)

lemma complete_inbox_evolves:
  assumes "state \<in> {InboxDone, InboxUncertain, InboxCancelled}"
  shows "inbox_evolves (completeInboxWithReplies codec now iid chat thread state replies targetID header he actions)"
  unfolding completeInboxWithReplies_def registerFinalActions_def Let_def
  using assms
  by (intro inboxes.rel.follows_rules inbox_update_evolves)
    (auto simp: inbox_edge_def insert_outbox_def update_outbox_def intro: inbox_unchanged)

lemma release_inbox_evolves: "inbox_evolves (ReleaseFinalAction now iid)"
  unfolding ReleaseFinalAction_def
  by (intro inboxes.rel.follows_rules inbox_update_evolves)
    (auto simp: inbox_edge_def update_final_actions_def intro: inbox_unchanged)

lemma consume_inbox_evolves: "inbox_evolves (consumeFinalAction codec iid)"
  by (rule inboxes.outside [OF consume_footprint]) simp

lemma settle_inbox_evolves: "evolving inbox_ok inbox_grows d (settle_interrupted now d)"
  by (intro inboxes.rel.settle_interrupted_follows; unfold settle_defs;
      (rule inbox_update_evolves | rule inbox_unchanged); auto simp: inbox_edge_def update_outbox_def)

lemma recover_inbox_evolves: "inbox_evolves (recover codec decode now)"
  unfolding recover_def backfillProgressChats_def recoverFinalActionReservations_def
  by (intro inboxes.rel.follows_rules consume_inbox_evolves settle_inbox_evolves
      inboxes.outside [OF binding_footprints(12)] inbox_update_evolves)
    (auto simp: inbox_edge_def intro: inbox_unchanged)

lemma inbox_grows_step: "inbox_grows d d' \<Longrightarrow> inbox_step d d'"
  by (auto simp: inbox_grows_def inbox_step_def)

lemma inbox_step_refl: "inbox_step d d"
  by (simp add: inbox_grows_step inbox_grows_same)

lemma cleanup_inbox_step: "follows (evolving inbox_ok inbox_step) (cleanupInboxBatch cutoff)"
proof -
  have "evolving inbox_ok inbox_step d (d\<lparr>inbox := delete_rows (\<lambda>r. in_id r \<in> set (inbox_batch cutoff d)) (inbox d)\<rparr>)" for d
  proof -
    have "inbox_terminal (in_state r) \<and> \<not> exists_row (\<lambda>m. m_inbox_id m = in_id r) (migrations d)"
      if "inbox_ok d" "r \<in> set (inbox d)" "in_id r \<in> set (inbox_batch cutoff d)" for r
    proof -
      from that(3) obtain q where q: "q \<in> set (inbox d)" "inbox_removable cutoff d q" "in_id q = in_id r"
        by (auto simp: inbox_batch_def dest!: in_set_takeD simp: set_select_by)
      with that have "q = r" by (auto simp: inbox_ok_def intro: keys_unique_eq)
      with q show ?thesis by (simp add: inbox_removable_def)
    qed
    then show ?thesis
      by (auto simp: evolving_def inbox_step_def inbox_ok_def offset_grows_def set_delete_rows
          intro!: keys_unique_delete)
  qed
  moreover have "db w' = (db w)\<lparr>inbox := delete_rows (\<lambda>r. in_id r \<in> set (inbox_batch cutoff (db w))) (inbox (db w))\<rparr>"
    if "cleanupInboxBatch cutoff w = (Inr n, w')" for w n w'
    using that by (auto simp: cleanupInboxBatch_def sql_ok Let_def)
  ultimately show ?thesis
    by (intro follows_success) (simp_all add: cleanupInboxBatch_def evolving_def inbox_step_refl)
qed

interpretation inbox_life: store_evolution inbox_ok inbox_grows "{TInbox, TMeta}" inbox_step
proof unfold_locales
  show "inbox_ok empty_database" by (simp add: inbox_ok_def empty_database_def keys_unique_def)
  show "inbox_step d d'" if "inbox_grows d d'" for d d' using that by (rule inbox_grows_step)
  have cleanup: "follows (evolving inbox_ok inbox_step) (discard (cleanupInboxBatch cutoff))" for cutoff
    by (rule follows_discard [OF cleanup_inbox_step])
  show "inbox_evolves m \<or> follows (evolving inbox_ok inbox_step) m" if "store_op codec decode m" for codec decode m
    using that
  proof (induction rule: store_op.induct)
    case (op_cleanupInboxBatch cutoff)
    show ?case by (rule disjI2, rule cleanup)
  qed (rule disjI1, rule inboxes.drop_result,
      (rule accept_evolves CheckBot_evolves mark_evolves migration_inbox_evolves publish_inbox_evolves
         release_inbox_evolves recover_inbox_evolves
       | rule complete_inbox_evolves, assumption
       | rule inboxes.outside, rule footprints, simp))+
qed

section \<open>The contract of the inbox\<close>

text \<open>C14: In every reachable database an update is stored at most once, an ignored update has
  no payload left, and the polling offset is beyond every stored update, so Telegram is never
  asked for a stored update again.\<close>

theorem inbox_invariant:
  assumes "reachable codec decode d"
  shows "keys_unique in_id (inbox d) \<and> (\<forall>r \<in> set (inbox d).
      (in_state r = InboxIgnored \<longrightarrow> in_raw r = []) \<and>
      (in_int64 (in_id r) \<and> in_id r < max_int64 \<longrightarrow> (\<exists>v. meta d ''offset'' = Some v \<and> in_id r < v)))"
  using inbox_life.holds [OF assms] by (auto simp: inbox_ok_def)

theorem inbox_invariant_witness: "keys_unique in_id (inbox sample_db) \<and> (\<exists>v. meta sample_db ''offset'' = Some v \<and> 5 < v)"
  using inbox_invariant [OF sample_reachable]
  by (simp add: sample_db_eq empty_database_def in_int64_def max_int64_def)

text \<open>C8: Whatever a store call does, failed or not, every stored input keeps its identity, its
  payload (unless it is ignored) and, once submitted, its reply target; its state only moves
  forward along pending, submitted, settled, never back to pending; only a settled input that no
  migration refers to can leave the table; and the polling offset never decreases.\<close>

theorem inbox_lifecycle:
  assumes "reachable codec decode d" and "store_step codec decode d d'"
  shows "inbox_step d d'"
  using assms by (rule inbox_life.evolves)

theorem inbox_lifecycle_witness: "inbox_step sample_db (after (Submit 101 5 7) sample_db)"
  using inbox_lifecycle [OF sample_reachable step_after [OF op_Submit]] .

text \<open>C16: Accepting an update either fails and changes nothing, or stores it as pending with its
  payload unless the id was stored already (a redelivery changes no row), and moves the polling
  offset past it without ever lowering it.\<close>

theorem Accept_outcome:
  assumes "Accept now iid raw w = (res, w')"
  shows "case res of
      Inl e \<Rightarrow> db w' = db w
    | Inr _ \<Rightarrow>
        inbox (db w') = inbox (db w) @ (if exists_row (\<lambda>r. in_id r = iid) (inbox (db w)) then []
          else [\<lparr>in_id = iid, in_raw = raw, in_state = InboxPending, in_reply_to = 0,
                 in_created_at = now, in_updated_at = now\<rparr>])
        \<and> (iid < max_int64 \<longrightarrow> 0 \<le> iid \<longrightarrow> meta (db w') ''offset'' = Some (case meta (db w) ''offset'' of
              None \<Rightarrow> iid + 1 | Some v \<Rightarrow> max v (iid + 1)))"
proof (cases res)
  case (Inl e)
  then show ?thesis using assms atomicD [of "Accept now iid raw" w e w'] by (simp add: Accept_def)
next
  case (Inr u)
  with assms show ?thesis
    by (auto simp: raise_offset_def insert_inbox_def dest!: Accept_ok split: option.splits)
qed

theorem Accept_outcome_witness:
  "inbox (after (Accept 100 5 ''u'') empty_database) =
    [\<lparr>in_id = 5, in_raw = ''u'', in_state = InboxPending, in_reply_to = 0, in_created_at = 100, in_updated_at = 100\<rparr>]"
  using Accept_outcome [of 100 5 "''u''" "healthy empty_database" "Inr ()" "healthy (after (Accept 100 5 ''u'') empty_database)"]
  by (simp add: after_def Accept_def sql_run empty_database_def insert_inbox_def raise_offset_def)

text \<open>Reading the pending ones among many ids in batches of 500 gives exactly the ids that
  are pending.\<close>

theorem PendingIDs_exact:
  "PendingIDs ids (healthy d) =
     (Inr {in_id r | r. r \<in> set (inbox d) \<and> in_state r = InboxPending \<and> in_id r \<in> set ids}, healthy d)"
  unfolding PendingIDs_def by (simp add: pending_ids_loop_run)

text \<open>A page of pending inputs followed by the page after its last id is the longer page: walking
  the pending inputs by cursor neither skips nor repeats one.\<close>

theorem PendingAfter_pages:
  assumes "PendingAfter a t (int n) (healthy d) = (Inr page, w)" and "length page = n"
    and "keys_unique in_id (inbox d)" and "0 < m"
    and "PendingAfter (input_id (last page)) t (int m) (healthy d) = (Inr rest, w')"
  shows "fst (PendingAfter a t (int (n + m)) (healthy d)) = Inr (page @ rest)"
proof -
  define all where "all = select_by in_id (\<lambda>r. in_state r = InboxPending \<and> a < in_id r \<and> in_id r \<le> t) (inbox d)"
  define conv where "conv = (\<lambda>r :: inbox_row. \<lparr>input_id = in_id r, input_raw = in_raw r\<rparr>)"
  have n: "0 < n" and page: "page = map conv (take n all)"
    using assms(1) by (auto simp: PendingAfter_def sql_run all_def conv_def split: if_splits)
  then have len: "n \<le> length all" using assms(2) by simp
  have last: "input_id (last page) = in_id (all ! (n - 1))"
  proof -
    have "take n all \<noteq> []" using n len by auto
    then show ?thesis using n len by (simp add: page conv_def last_map last_conv_nth min_absorb2)
  qed
  have "all ! (n - 1) \<in> set all" using n len by simp
  then have after: "a < in_id (all ! (n - 1))" by (simp add: all_def set_select_by)
  have "select_by in_id (\<lambda>r. in_state r = InboxPending \<and> in_id (all ! (n - 1)) < in_id r \<and> in_id r \<le> t) (inbox d)
      = filter (\<lambda>r. in_id (all ! (n - 1)) < in_id r) all"
    unfolding all_def by (rule select_by_filter) (use after in \<open>auto simp flip: all_def\<close>)
  moreover have "filter (\<lambda>r. in_id (all ! (n - 1)) < in_id r) all = drop n all"
    using filter_after_prefix [OF strictly_sorted_select_by n] assms(3) len by (simp add: all_def)
  ultimately have "rest = map conv (take m (drop n all))"
    using assms(4,5) by (simp add: PendingAfter_def sql_run last conv_def)
  then show ?thesis
    using n assms(4) by (simp add: PendingAfter_def sql_run page conv_def take_add nat_int_add flip: all_def)
qed

theorem PendingAfter_pages_witness:
  "fst (PendingAfter 0 9 (int (1 + 1)) (healthy (after (Accept 100 6 ''v'') sample_db))) =
     Inr [\<lparr>input_id = 5, input_raw = ''u''\<rparr>, \<lparr>input_id = 6, input_raw = ''v''\<rparr>]"
  using PendingAfter_pages [of 0 9 1 "after (Accept 100 6 ''v'') sample_db" "[\<lparr>input_id = 5, input_raw = ''u''\<rparr>]" _ 1
      "[\<lparr>input_id = 6, input_raw = ''v''\<rparr>]"]
  by (simp add: PendingAfter_def sql_run after_def sample_db_eq Accept_def insert_inbox_def raise_offset_def
      empty_database_def select_by_def keys_unique_def)

lemma Submit_error:
  assumes "keys_unique in_id (inbox (db w))" and "Submit now iid replyTo w = (Inl e, w')"
  shows "db w' = db w"
proof -
  define p where "p = (\<lambda>r :: inbox_row. in_id r = iid \<and> in_state r = InboxPending)"
  have "count_rows p (inbox (db w)) = 1" if "r \<in> set (inbox (db w))" "p r" for r
    using that by (intro keys_unique_count [OF assms(1)]) (auto simp: p_def)
  then have "count_rows p (inbox (db w)) \<noteq> 1 \<longrightarrow> (\<forall>r \<in> set (inbox (db w)). \<not> p r)" by blast
  with assms(2) show ?thesis
    by (auto simp: Submit_def bind_def exec_def stmt_def throw_def give_def update_inbox_def p_def update_rows_none
        split: if_splits list.splits)
qed

lemma update_rows_gone:
  assumes "\<And>r. p r \<Longrightarrow> \<not> q (f r)" and "\<And>r. q r \<Longrightarrow> p r"
  shows "\<not> (\<exists>r \<in> set (update_rows p f rows). q r)"
proof
  assume "\<exists>r \<in> set (update_rows p f rows). q r"
  then obtain r where r: "q (if p r then f r else r)" unfolding set_update_rows by blast
  show False
  proof (cases "p r")
    case True
    with r assms(1) [OF True] show False by simp
  next
    case False
    with r assms(2) [of r] show False by simp
  qed
qed

lemma Submit_nothing_pending:
  assumes "\<not> (\<exists>r \<in> set (inbox (db v)). in_id r = iid \<and> in_state r = InboxPending)"
  shows "fst (Submit now iid replyTo v) \<noteq> Inr () \<and> db (snd (Submit now iid replyTo v)) = db v"
proof -
  have zero: "count_rows (\<lambda>r. in_id r = iid \<and> in_state r = InboxPending) (inbox (db v)) = 0"
    using assms by (simp add: count_rows_0)
  from assms zero show ?thesis
    by (auto simp: Submit_def bind_def exec_def stmt_def throw_def give_def update_inbox_def update_rows_none)
qed

text \<open>C17: From a reachable database, and whatever the driver does, a submission that reports success found
  the input pending and the reply target valid, and it did exactly this: that one row is now submitted, with
  the reply target and the time, its payload and everything else in the database untouched; and no later
  submission of the input, whatever its time and target, succeeds or changes anything. A submission that
  reports an error changed nothing. On a healthy connection it succeeds exactly when the target is valid and
  the input pending, and otherwise reports which of the two failed.\<close>

theorem Submit_once:
  assumes "reachable codec decode (db w)" and "Submit now iid replyTo w = (res, w')"
  shows "(case res of
        Inl e \<Rightarrow> db w' = db w
      | Inr _ \<Rightarrow> 0 \<le> replyTo
          \<and> (\<exists>r \<in> set (inbox (db w)). in_id r = iid \<and> in_state r = InboxPending
               \<and> db w' = (db w)\<lparr>inbox := update_rows (\<lambda>q. q = r)
                    (\<lambda>q. q\<lparr>in_state := InboxSubmitted, in_reply_to := replyTo, in_updated_at := now\<rparr>) (inbox (db w))\<rparr>)
          \<and> (\<forall>v now' replyTo'. db v = db w' \<longrightarrow>
               fst (Submit now' iid replyTo' v) \<noteq> Inr () \<and> db (snd (Submit now' iid replyTo' v)) = db v))
    \<and> fst (Submit now iid replyTo (healthy (db w))) =
      (if replyTo < 0 then Inl (ErrMsg ''invalid reply target'')
       else if \<exists>r \<in> set (inbox (db w)). in_id r = iid \<and> in_state r = InboxPending then Inr ()
       else Inl ErrInboxStateTransition)"
proof
  have unique: "keys_unique in_id (inbox (db w))" using inbox_life.holds [OF assms(1)] by (simp add: inbox_ok_def)
  show "case res of
        Inl e \<Rightarrow> db w' = db w
      | Inr _ \<Rightarrow> 0 \<le> replyTo
          \<and> (\<exists>r \<in> set (inbox (db w)). in_id r = iid \<and> in_state r = InboxPending
               \<and> db w' = (db w)\<lparr>inbox := update_rows (\<lambda>q. q = r)
                    (\<lambda>q. q\<lparr>in_state := InboxSubmitted, in_reply_to := replyTo, in_updated_at := now\<rparr>) (inbox (db w))\<rparr>)
          \<and> (\<forall>v now' replyTo'. db v = db w' \<longrightarrow>
               fst (Submit now' iid replyTo' v) \<noteq> Inr () \<and> db (snd (Submit now' iid replyTo' v)) = db v)"
  proof (cases res)
    case (Inl e)
    then show ?thesis using Submit_error [OF unique] assms(2) by simp
  next
    case (Inr u)
    note run = Submit_ok [OF assms(2) [unfolded Inr]]
    from run(2) obtain r where r: "r \<in> set (inbox (db w))" "in_id r = iid" "in_state r = InboxPending" by blast
    have one: "in_id q = iid \<and> in_state q = InboxPending \<longleftrightarrow> q = r" if "q \<in> set (inbox (db w))" for q
      using keys_unique_eq [OF unique that r(1)] r(2,3) by metis
    have "update_rows (\<lambda>q. in_id q = iid \<and> in_state q = InboxPending) f (inbox (db w)) = update_rows (\<lambda>q. q = r) f (inbox (db w))" for f
      unfolding update_rows_def by (rule map_cong [OF refl]) (simp only: one)
    note exact = run(3) [unfolded this]
    have settled: "\<not> (\<exists>q \<in> set (inbox (db w')). in_id q = iid \<and> in_state q = InboxPending)"
    proof -
      have "inbox (db w') = update_rows (\<lambda>q. in_id q = iid \<and> in_state q = InboxPending)
        (\<lambda>q. q\<lparr>in_state := InboxSubmitted, in_reply_to := replyTo, in_updated_at := now\<rparr>) (inbox (db w))"
        using run(3) by simp
      then show ?thesis by (simp only:) (rule update_rows_gone, simp_all)
    qed
    have again: "fst (Submit now' iid replyTo' v) \<noteq> Inr () \<and> db (snd (Submit now' iid replyTo' v)) = db v"
      if "db v = db w'" for v now' replyTo'
      by (rule Submit_nothing_pending) (simp only: that settled not_False_eq_True)
    show ?thesis unfolding Inr sum.case using run(1) r exact again by blast
  qed
  define p where "p = (\<lambda>r :: inbox_row. in_id r = iid \<and> in_state r = InboxPending)"
  have "count_rows p (inbox (db w)) = (if \<exists>r \<in> set (inbox (db w)). p r then 1 else 0)"
  proof (cases "\<exists>r \<in> set (inbox (db w)). p r")
    case True
    then obtain r where "r \<in> set (inbox (db w))" "p r" by blast
    then have "count_rows p (inbox (db w)) = 1"
      by (intro keys_unique_count [OF unique]) (auto simp: p_def)
    then show ?thesis using True by simp
  qed (simp add: count_rows_0)
  then show "fst (Submit now iid replyTo (healthy (db w))) =
      (if replyTo < 0 then Inl (ErrMsg ''invalid reply target'')
       else if \<exists>r \<in> set (inbox (db w)). in_id r = iid \<and> in_state r = InboxPending then Inr ()
       else Inl ErrInboxStateTransition)"
    by (auto simp: Submit_def sql_run update_inbox_def p_def)
qed

theorem Submit_once_witness:
  "fst (Submit 101 5 7 (healthy sample_db)) = Inr ()
   \<and> map in_state (inbox (after (Submit 101 5 7) sample_db)) = [InboxSubmitted]
   \<and> fst (Submit 102 5 8 (healthy (after (Submit 101 5 7) sample_db))) \<noteq> Inr ()"
proof -
  have run: "Submit 101 5 7 (healthy sample_db) = (Inr (), healthy (after (Submit 101 5 7) sample_db))"
    by (simp add: Submit_def sql_run after_def sample_db_eq update_inbox_def empty_database_def)
  have reach: "reachable sample_codec sample_decoder (db (healthy sample_db))"
    using sample_reachable by (simp add: healthy_def)
  from Submit_once [OF reach run] run show ?thesis
    by (auto simp: healthy_def sample_db_eq)
qed

end
