(* ===== verification/ActionProps.thy ===== *)
theory ActionProps
  imports OutboxProps InboxProps
begin

text \<open>
  Properties of the settlement of an input and of completion shortcuts: a settlement is all or
  nothing, a callback claims at most one shortcut, a shortcut runs at most once, and a restart consumes
  every reserved shortcut without running it.
\<close>

section \<open>Registration\<close>

text \<open>The shortcut an action becomes, below the message \<open>target\<close>.\<close>

definition shortcut_row :: "final_action_set \<Rightarrow> int64 \<Rightarrow> int64 \<Rightarrow> int64 \<Rightarrow> final_action \<Rightarrow> final_action_row" where
  "shortcut_row st target chat thread action =
     \<lparr>fa_token = a_token action, fa_outbox_id = target, fa_bot = b_bot (as_binding st), fa_chat = chat,
      fa_thread = thread, fa_user = as_user st, fa_workspace = b_workspace (as_binding st),
      fa_session = b_session (as_binding st), fa_session_id = b_session_id (as_binding st),
      fa_generation = b_generation (as_binding st), fa_config = as_config st,
      fa_command = a_command action, fa_consumed = False, fa_consumed_by = 0\<rparr>"

lemma insert_actions_exact:
  "insert_actions st target chat thread actions w = (Inr u, w') \<Longrightarrow>
   db w' = (db w)\<lparr>final_actions := final_actions (db w) @ map (shortcut_row st target chat thread) actions\<rparr>
     \<and> (keys_unique fa_token (final_actions (db w)) \<longrightarrow>
          keys_unique fa_token (final_actions (db w) @ map (shortcut_row st target chat thread) actions))"
proof (induction actions arbitrary: w)
  case Nil
  then show ?case by (simp add: sql_ok)
next
  case (Cons action rest)
  let ?r = "shortcut_row st target chat thread action"
  from Cons.prems obtain w1 where w1: "db w1 = (db w)\<lparr>final_actions := final_actions (db w) @ [?r]\<rparr>"
    and fresh: "\<not> exists_row (\<lambda>a. fa_token a = a_token action) (final_actions (db w))"
    and rest: "insert_actions st target chat thread rest w1 = (Inr u, w')"
    by (auto simp: sql_ok Let_def shortcut_row_def split: if_splits)
  have "keys_unique fa_token (final_actions (db w)) \<longrightarrow> keys_unique fa_token (final_actions (db w1))"
    using fresh by (auto simp: w1 keys_unique_snoc shortcut_row_def)
  with Cons.IH [OF rest] show ?case by (auto simp: w1)
qed

text \<open>The newest text of the answer that may carry shortcuts.\<close>

definition answer_ids :: "int64 \<Rightarrow> int64 \<Rightarrow> int64 \<Rightarrow> database \<Rightarrow> int64 set" where
  "answer_ids iid chat thread d = out_id ` {q \<in> set (outbox d). out_inbox_id q = iid \<and> out_chat q = chat
     \<and> out_thread q = thread \<and> out_kind q = ''text'' \<and> out_assistant_body q}"

lemma last_body_newest:
  "last_body iid chat thread d = (if answer_ids iid chat thread d = {} then None else Some (Max (answer_ids iid chat thread d)))"
proof -
  let ?p = "\<lambda>r. out_inbox_id r = iid \<and> out_chat r = chat \<and> out_thread r = thread \<and> out_kind r = ''text'' \<and> out_assistant_body r"
  let ?ids = "answer_ids iid chat thread d"
  show ?thesis
  proof (cases "first_by (\<lambda>r. - out_id r) ?p (outbox d)")
    case None
    then have "?ids = {}" by (auto simp: answer_ids_def first_by_None)
    with None show ?thesis by (simp add: last_body_def)
  next
    case (Some q)
    note q = first_by_Some [OF Some]
    have "out_id q \<in> ?ids" using q(1,2) by (auto simp: answer_ids_def)
    moreover have "n \<le> out_id q" if "n \<in> ?ids" for n using that q(3) by (force simp: answer_ids_def)
    moreover have "finite ?ids" by (simp add: answer_ids_def)
    ultimately have "Max ?ids = out_id q" "?ids \<noteq> {}" by (auto intro: Max_eqI)
    with Some show ?thesis by (simp add: last_body_def)
  qed
qed

text \<open>What registration does to the database, and the binding it requires.\<close>

definition offer_actions :: "action_codec \<Rightarrow> int64 \<Rightarrow> int64 \<Rightarrow> int64 \<Rightarrow> final_action_set \<Rightarrow> database \<Rightarrow> database" where
  "offer_actions codec iid chat thread st d =
     (let ids = answer_ids iid chat thread d in
      if ids = {} then d
      else d\<lparr>final_actions := final_actions d @ map (shortcut_row st (Max ids) chat thread) (as_actions st),
             outbox := update_rows (\<lambda>r. out_id r = Max ids) 
               (\<lambda>r. r\<lparr>out_final_actions := marshal codec (as_actions st),
                  out_actions_pending := (if out_actions_pending r = 2 then 2 else 1)\<rparr>) (outbox d)\<rparr>)"

lemma set_buttons_fun: "set_buttons e = (\<lambda>r. r\<lparr>out_final_actions := e, out_actions_pending := (if out_actions_pending r = 2 then 2 else 1)\<rparr>)"
  by (simp add: set_buttons_def fun_eq_iff)

definition offer_bound :: "int64 \<Rightarrow> int64 \<Rightarrow> final_action_set \<Rightarrow> database \<Rightarrow> bool" where
  "offer_bound chat thread st d \<longleftrightarrow>
     (let b = as_binding st in b_bot b \<noteq> 0 \<and> b_chat b = chat \<and> b_thread b = thread \<and> 0 < as_user st \<and> b_session b \<noteq> []
        \<and> as_config st \<noteq> []
        \<and> (\<exists>b' \<in> set (bindings d). b_conv b' = b_conv b \<and> b_workspace b' = b_workspace b \<and> b_session b' = b_session b
              \<and> b_session_id b' = b_session_id b \<and> b_generation b' = b_generation b))"

lemma last_body_Some:
  assumes "last_body iid chat thread d = Some t"
  shows "\<exists>q \<in> set (outbox d). out_id q = t \<and> out_inbox_id q = iid"
proof -
  obtain q where q: "first_by (\<lambda>r. - out_id r) (\<lambda>r. out_inbox_id r = iid \<and> out_chat r = chat \<and> out_thread r = thread
      \<and> out_kind r = ''text'' \<and> out_assistant_body r) (outbox d) = Some q" "t = out_id q"
    using assms by (auto simp: last_body_def)
  then show ?thesis using first_by_Some(1,2) [OF q(1)] by auto
qed

lemma registerFinalActions_exact:
  assumes "registerFinalActions codec iid chat thread st w = (Inr u, w')"
  shows "db w' = offer_actions codec iid chat thread st (db w) \<and> offer_bound chat thread st (db w)
     \<and> (keys_unique fa_token (final_actions (db w)) \<longrightarrow> keys_unique fa_token (final_actions (db w')))"
proof -
  from assms obtain w1 where w1: "db w1 = db w" and bound: "offer_bound chat thread st (db w)"
    and rest: "on_no_rows (query_row (last_body iid chat thread)) (give ()) (\<lambda>target.
                bind (insert_actions st target chat thread (as_actions st)) (\<lambda>_.
                execute (\<lambda>d. snd (update_outbox (\<lambda>r. out_id r = target)
                  (set_buttons (marshal codec (as_actions st))) d)))) w1 = (Inr u, w')"
    unfolding registerFinalActions_def Let_def
    by (auto simp: bind_ok query_ok throw_ok offer_bound_def b_conv_def exists_row_iff Let_def split: if_splits)
  show ?thesis
  proof (cases "answer_ids iid chat thread (db w) = {}")
    case True
    with rest w1 bound show ?thesis by (auto simp: sql_ok last_body_newest offer_actions_def)
  next
    case False
    let ?t = "Max (answer_ids iid chat thread (db w))"
    from rest False w1 obtain w2 w3 where w2: "db w2 = db w"
      and ins: "insert_actions st ?t chat thread (as_actions st) w2 = (Inr (), w3)"
      and w': "db w' = snd (update_outbox (\<lambda>r. out_id r = ?t) (set_buttons (marshal codec (as_actions st))) (db w3))"
      by (auto simp: sql_ok last_body_newest)
    from insert_actions_exact [OF ins] bound False show ?thesis
      by (simp add: w' w2 update_outbox_def offer_actions_def set_buttons_fun Let_def)
  qed
qed

lemma offer_actions_cols:
  "\<exists>new. final_actions (offer_actions codec iid chat thread st d) = final_actions d @ new
     \<and> map out_id (outbox (offer_actions codec iid chat thread st d)) = map out_id (outbox d)
     \<and> (\<forall>a \<in> set new. \<not> fa_consumed a \<and> fa_consumed_by a = 0 \<and> (\<exists>q \<in> set (outbox d). out_id q = fa_outbox_id a))"
proof (cases "answer_ids iid chat thread d = {}")
  case True
  then show ?thesis by (intro exI [of _ "[]"]) (simp add: offer_actions_def)
next
  case False
  have ids: "map out_id (update_rows p (set_buttons e) rows) = map out_id rows" for p e rows
    by (simp add: map_update_rows set_buttons_def)
  have "Max (answer_ids iid chat thread d) \<in> answer_ids iid chat thread d"
    using False by (intro Max_in) (simp_all add: answer_ids_def)
  then have "\<exists>q \<in> set (outbox d). out_id q = Max (answer_ids iid chat thread d)" by (auto simp: answer_ids_def)
  with False show ?thesis
    by (intro exI [of _ "map (shortcut_row st (Max (answer_ids iid chat thread d)) chat thread) (as_actions st)"])
      (auto simp: offer_actions_def ids [unfolded set_buttons_fun] shortcut_row_def Let_def)
qed

section \<open>Settlement\<close>

text \<open>The rows one settlement queues, in the order of the replies: the first one carries the header and answers
  the original message, and the first \<open>bodyParts\<close> of them are parts of the answer.\<close>

definition settled_rows :: "int64 \<Rightarrow> int64 \<Rightarrow> int64 \<Rightarrow> int64 \<Rightarrow> int \<Rightarrow> string list \<Rightarrow> string \<Rightarrow> bool \<Rightarrow> int64 \<Rightarrow> int64 \<Rightarrow> outbox_row list" where
  "settled_rows now iid chat thread bodyParts replies header headed replyTo seq =
     map (\<lambda>k. \<lparr>out_id = seq + 1 + int k, out_inbox_id = iid, out_chat = chat, out_thread = thread, out_text = replies ! k,
        out_state = OutboxPending, out_reply_to = (if k = 0 then replyTo else 0), out_kind = ''text'', out_path = [],
        out_name = [], out_created_at = now, out_updated_at = now, out_next_attempt_at = now, out_attempt_count = 0,
        out_server_retry_count = 0, out_header = (if k = 0 \<and> headed then header else []), out_message_id = 0,
        out_header_pending = False, out_header_editable = (k = 0 \<and> headed), out_assistant_body = (int k < bodyParts),
        out_final_actions = [], out_actions_pending = 0\<rparr>) [0..<length replies]"

lemma settled_rows_Cons:
  "settled_rows now iid chat thread bodyParts (reply # replies) header headed replyTo seq =
     (reply_row now iid chat thread reply (if headed then header else []) headed (0 < bodyParts) replyTo)\<lparr>out_id := seq + 1\<rparr>
     # settled_rows now iid chat thread (bodyParts - 1) replies [] False 0 (seq + 1)"
  unfolding settled_rows_def length_Cons
  by (subst upt_conv_Cons) (auto simp: reply_row_def queued_row_def map_Suc_upt [symmetric] simp del: upt_Suc)

lemma complete_loop_exact:
  "complete_loop now iid chat thread bodyParts i replies header headed replyTo t w = (Inr x, w') \<Longrightarrow> headed \<or> header = [] \<Longrightarrow>
   db w' = (db w)\<lparr>outbox := outbox (db w)
        @ settled_rows now iid chat thread (bodyParts - i) replies header headed replyTo (outbox_seq (db w)),
      outbox_seq := outbox_seq (db w) + int (length replies)\<rparr>
   \<and> x = (if headed \<and> replies \<noteq> [] then outbox_seq (db w) + 1 else t)"
proof (induction replies arbitrary: i header headed replyTo t w)
  case Nil
  then show ?case by (simp add: sql_ok settled_rows_def)
next
  case (Cons reply rest)
  define q where "q = (reply_row now iid chat thread reply (if headed then header else []) headed (0 < bodyParts - i) replyTo)
    \<lparr>out_id := outbox_seq (db w) + 1\<rparr>"
  from Cons.prems obtain w1 where w1: "db w1 = (db w)\<lparr>outbox := outbox (db w) @ [q], outbox_seq := outbox_seq (db w) + 1\<rparr>"
    and rest: "complete_loop now iid chat thread bodyParts (i + 1) rest [] False 0
      (if headed then outbox_seq (db w) + 1 else t) w1 = (Inr x, w')"
    by (cases headed) (auto simp: sql_ok insert_outbox_def q_def)
  from Cons.IH [OF rest] show ?case
    unfolding settled_rows_Cons q_def [symmetric] by (simp add: w1 diff_diff_eq)
qed

text \<open>What a successful settlement does: the input takes the state, its replies are queued, the header of a target
  is edited, and the shortcuts are offered.\<close>

definition settle_input :: "int64 \<Rightarrow> int64 \<Rightarrow> inbox_state \<Rightarrow> database \<Rightarrow> database" where
  "settle_input now iid state d = d\<lparr>inbox := update_rows (\<lambda>r. in_id r = iid \<and> in_state r = InboxSubmitted)
     (\<lambda>r. r\<lparr>in_state := state, in_updated_at := now\<rparr>) (inbox d)\<rparr>"

definition queue_replies :: "int64 \<Rightarrow> int64 \<Rightarrow> int64 \<Rightarrow> int64 \<Rightarrow> int \<Rightarrow> string list \<Rightarrow> string \<Rightarrow> bool \<Rightarrow> int64 \<Rightarrow> database \<Rightarrow> database" where
  "queue_replies now iid chat thread bodyParts replies header headed replyTo d =
     d\<lparr>outbox := outbox d @ settled_rows now iid chat thread bodyParts replies header headed replyTo (outbox_seq d),
       outbox_seq := outbox_seq d + int (length replies)\<rparr>"

definition header_row :: "int64 \<Rightarrow> int64 \<Rightarrow> outbox_row \<Rightarrow> bool" where
  "header_row targetID iid r \<longleftrightarrow> out_id r = targetID \<and> out_inbox_id r = iid \<and> out_kind r = ''text'' \<and> out_header_editable r"

definition edit_header :: "int64 \<Rightarrow> int64 \<Rightarrow> int64 \<Rightarrow> string \<Rightarrow> database \<Rightarrow> database" where
  "edit_header now iid targetID header d = (if targetID = 0 then d
     else d\<lparr>outbox := update_rows (header_row targetID iid)
       (\<lambda>r. r\<lparr>out_header := header, out_header_pending := (out_header_pending r \<or> out_header r \<noteq> header), out_updated_at := now\<rparr>)
       (outbox d)\<rparr>)"

definition settled :: "action_codec \<Rightarrow> int64 \<Rightarrow> int64 \<Rightarrow> int64 \<Rightarrow> int64 \<Rightarrow> inbox_state \<Rightarrow> string list \<Rightarrow> int64 \<Rightarrow> string \<Rightarrow> bool
     \<Rightarrow> final_action_set option \<Rightarrow> int64 \<Rightarrow> database \<Rightarrow> database" where
  "settled codec now iid chat thread state replies targetID header headed actions replyTo d =
     (let d' = edit_header now iid targetID header
         (queue_replies now iid chat thread (case actions of None \<Rightarrow> 0 | Some st \<Rightarrow> as_body_parts st) replies
            header (headed \<and> targetID = 0) replyTo (settle_input now iid state d))
      in case actions of None \<Rightarrow> d' | Some st \<Rightarrow> if as_actions st = [] then d' else offer_actions codec iid chat thread st d')"

lemma complete_exact:
  assumes "completeInboxWithReplies codec now iid chat thread state replies targetID header headed actions w = (Inr x, w')"
  shows "\<exists>replyTo. reply_target iid (db w) = Some replyTo
    \<and> db w' = settled codec now iid chat thread state replies targetID header headed actions replyTo (db w)
    \<and> x = (if targetID = 0 \<and> headed \<and> replies \<noteq> [] then outbox_seq (db w) + 1 else targetID)
    \<and> (targetID = 0 \<or> count_rows (header_row targetID iid) (outbox (db w)) = 1)
    \<and> (case actions of None \<Rightarrow> True
       | Some st \<Rightarrow> as_actions st = [] \<or> (state = InboxDone \<and> offer_bound chat thread st (db w)))
    \<and> (keys_unique fa_token (final_actions (db w)) \<longrightarrow> keys_unique fa_token (final_actions (db w')))"
proof -
  define reg where "reg = (case actions of None \<Rightarrow> give ()
       | Some st \<Rightarrow> if as_actions st = [] then give ()
           else if state \<noteq> InboxDone then throw (ErrMsg ''final actions require successful settlement'')
           else registerFinalActions codec iid chat thread st)"
  define edit where "edit = (if targetID \<noteq> 0
           then bind (exec (update_outbox (\<lambda>r. out_id r = targetID \<and> out_inbox_id r = iid
                    \<and> out_kind r = ''text'' \<and> out_header_editable r) (set_header now header))) (\<lambda>edited.
                if edited \<noteq> 1 then throw ErrNoRows else give ())
           else give ())"
  define bodyParts where "bodyParts = (case actions of None \<Rightarrow> 0 | Some st \<Rightarrow> as_body_parts st)"
  let ?h = "if targetID = 0 \<and> headed then header else []"
  from assms obtain replyTo w0 w1 w2 w3 where target: "reply_target iid (db w) = Some replyTo"
    and w0: "db w0 = settle_input now iid state (db w)"
    and loop: "complete_loop now iid chat thread bodyParts 0 replies ?h (headed \<and> targetID = 0) replyTo targetID w0 = (Inr x, w1)"
    and edit: "edit w1 = (Inr (), w2)" and reg: "reg w2 = (Inr (), w3)" and w': "db w' = db w3"
    unfolding completeInboxWithReplies_def reg_def [symmetric] edit_def [symmetric] bodyParts_def [symmetric]
    by (auto simp: sql_ok update_inbox_def settle_input_def split: if_split_asm)
  have same: "settled_rows now iid chat thread b replies ?h (headed \<and> targetID = 0) r n
      = settled_rows now iid chat thread b replies header (headed \<and> targetID = 0) r n" for b r n
    by (cases "headed \<and> targetID = 0") (auto simp: settled_rows_def)
  have w1: "db w1 = queue_replies now iid chat thread bodyParts replies header (headed \<and> targetID = 0) replyTo (db w0)"
    and x: "x = (if targetID = 0 \<and> headed \<and> replies \<noteq> [] then outbox_seq (db w) + 1 else targetID)"
    using complete_loop_exact [OF loop] w0 by (auto simp: same queue_replies_def settle_input_def)
  have set_header: "set_header now header = (\<lambda>r. r\<lparr>out_header := header,
      out_header_pending := (out_header_pending r \<or> out_header r \<noteq> header), out_updated_at := now\<rparr>)"
    by (auto simp: set_header_def fun_eq_iff)
  have w2: "db w2 = edit_header now iid targetID header (db w1)"
    using edit by (auto simp: edit_def sql_ok edit_header_def header_row_def [abs_def] update_outbox_def set_header split: if_split_asm)
  have old: "count_rows (header_row targetID iid) (settled_rows now iid chat thread b replies header False r n) = 0" for b r n
    by (auto simp: count_rows_0 settled_rows_def header_row_def)
  have count: "targetID = 0 \<or> count_rows (header_row targetID iid) (outbox (db w)) = 1"
  proof (cases "targetID = 0")
    case False
    then have "count_rows (header_row targetID iid) (outbox (db w1)) = 1"
      using edit by (auto simp: edit_def sql_ok update_outbox_def header_row_def [abs_def] split: if_split_asm)
    then show ?thesis using False old by (simp add: w1 w0 queue_replies_def settle_input_def count_rows_def)
  qed simp
  have tables: "final_actions (db w2) = final_actions (db w)" "bindings (db w2) = bindings (db w)"
    by (simp_all add: w2 w1 w0 edit_header_def queue_replies_def settle_input_def)
  then have bound: "offer_bound chat thread st (db w2) = offer_bound chat thread st (db w)" for st
    by (simp add: offer_bound_def)
  have "db w' = settled codec now iid chat thread state replies targetID header headed actions replyTo (db w)
    \<and> (case actions of None \<Rightarrow> True
       | Some st \<Rightarrow> as_actions st = [] \<or> (state = InboxDone \<and> offer_bound chat thread st (db w)))
    \<and> (keys_unique fa_token (final_actions (db w)) \<longrightarrow> keys_unique fa_token (final_actions (db w')))"
  proof (cases "\<exists>st. actions = Some st \<and> as_actions st \<noteq> []")
    case False
    then have "db w3 = db w2" using reg by (auto simp: reg_def sql_ok split: option.splits if_splits)
    then show ?thesis
      using False w' tables by (auto simp: settled_def w2 w1 w0 bodyParts_def split: option.splits)
  next
    case True
    then obtain st where st: "actions = Some st" "as_actions st \<noteq> []" "state = InboxDone"
      "registerFinalActions codec iid chat thread st w2 = (Inr (), w3)"
      using reg by (auto simp: reg_def sql_ok split: if_splits)
    note reg = registerFinalActions_exact [OF st(4)]
    have "keys_unique fa_token (final_actions (db w)) \<longrightarrow> keys_unique fa_token (final_actions (db w'))"
      using reg unfolding tables w' by blast
    moreover have "db w' = settled codec now iid chat thread state replies targetID header headed actions replyTo (db w)"
      using reg st(1-3) by (simp add: w' settled_def w2 w1 w0 bodyParts_def)
    moreover have "offer_bound chat thread st (db w)" using reg unfolding bound by blast
    ultimately show ?thesis using st(1-3) by simp
  qed
  with target x count show ?thesis by blast
qed

lemma settled_actions:
  "\<exists>new. final_actions (settled codec now iid chat thread state replies targetID header headed actions replyTo d) = final_actions d @ new
    \<and> (\<forall>a \<in> set new. \<not> fa_consumed a \<and> fa_consumed_by a = 0
         \<and> (\<exists>q \<in> set (outbox (settled codec now iid chat thread state replies targetID header headed actions replyTo d)).
              out_id q = fa_outbox_id a))"
proof -
  define d' where "d' = edit_header now iid targetID header
         (queue_replies now iid chat thread (case actions of None \<Rightarrow> 0 | Some st \<Rightarrow> as_body_parts st) replies
            header (headed \<and> targetID = 0) replyTo (settle_input now iid state d))"
  have same: "final_actions d' = final_actions d" by (simp add: d'_def edit_header_def queue_replies_def settle_input_def)
  have kept: "(\<exists>q \<in> set (outbox a). out_id q = n) \<longleftrightarrow> (\<exists>q \<in> set (outbox b). out_id q = n)"
    if "map out_id (outbox a) = map out_id (outbox b)" for a b n
    using that by (metis (mono_tags, lifting) image_iff list.set_map)
  show ?thesis
  proof (cases "\<exists>st. actions = Some st \<and> as_actions st \<noteq> []")
    case False
    then have "settled codec now iid chat thread state replies targetID header headed actions replyTo d = d'"
      by (auto simp: settled_def d'_def Let_def split: option.splits)
    then show ?thesis using same by (intro exI [of _ "[]"]) simp
  next
    case True
    then obtain st where "settled codec now iid chat thread state replies targetID header headed actions replyTo d
        = offer_actions codec iid chat thread st d'"
      by (auto simp: settled_def d'_def Let_def)
    moreover obtain new where new: "final_actions (offer_actions codec iid chat thread st d') = final_actions d' @ new"
      "map out_id (outbox (offer_actions codec iid chat thread st d')) = map out_id (outbox d')"
      "\<forall>a \<in> set new. \<not> fa_consumed a \<and> fa_consumed_by a = 0 \<and> (\<exists>q \<in> set (outbox d'). out_id q = fa_outbox_id a)"
      using offer_actions_cols by blast
    ultimately show ?thesis using same unfolding kept [OF new(2), symmetric] by (intro exI [of _ new]) simp
  qed
qed

lemma complete_actions_ok:
  assumes "completeInboxWithReplies codec now iid chat thread state replies targetID h he actions w = (Inr x, w')"
  shows "\<exists>new. final_actions (db w') = final_actions (db w) @ new
    \<and> (\<forall>a \<in> set new. \<not> fa_consumed a \<and> fa_consumed_by a = 0 \<and> (\<exists>q \<in> set (outbox (db w')). out_id q = fa_outbox_id a))
    \<and> (keys_unique fa_token (final_actions (db w)) \<longrightarrow> keys_unique fa_token (final_actions (db w')))"
proof -
  from complete_exact [OF assms] obtain replyTo
    where d: "db w' = settled codec now iid chat thread state replies targetID h he actions replyTo (db w)"
      and keys: "keys_unique fa_token (final_actions (db w)) \<longrightarrow> keys_unique fa_token (final_actions (db w'))" by blast
  from settled_actions [of codec now iid chat thread state replies targetID h he actions replyTo "db w"] keys
  show ?thesis unfolding d by blast
qed

section \<open>The life of a shortcut\<close>

definition action_continues :: "final_action_row \<Rightarrow> final_action_row \<Rightarrow> bool" where
  "action_continues a b \<longleftrightarrow> b = a\<lparr>fa_consumed := fa_consumed b, fa_consumed_by := fa_consumed_by b\<rparr>
     \<and> (fa_consumed a \<longrightarrow> fa_consumed b \<and> fa_consumed_by b = fa_consumed_by a)"

definition actions_ok :: "database \<Rightarrow> bool" where
  "actions_ok d \<longleftrightarrow> outbox_ok d \<and> keys_unique fa_token (final_actions d)
     \<and> (\<forall>a \<in> set (final_actions d). \<forall>b \<in> set (final_actions d).
          fa_consumed_by a = fa_consumed_by b \<and> fa_consumed_by a \<noteq> 0 \<longrightarrow> a = b)
     \<and> (\<forall>a \<in> set (final_actions d). \<exists>q \<in> set (outbox d). out_id q = fa_outbox_id a)"

definition actions_grow :: "database \<Rightarrow> database \<Rightarrow> bool" where
  "actions_grow d d' \<longleftrightarrow> (\<forall>a \<in> set (final_actions d). \<exists>b \<in> set (final_actions d'). action_continues a b)"

definition actions_step :: "database \<Rightarrow> database \<Rightarrow> bool" where
  "actions_step d d' \<longleftrightarrow> (\<forall>a \<in> set (final_actions d).
     (\<exists>b \<in> set (final_actions d'). action_continues a b) \<or> fa_consumed a \<or> fa_consumed_by a = 0)"

lemma action_continues_refl: "action_continues a a"
  by (simp add: action_continues_def)

lemma action_continues_trans: "action_continues a b \<Longrightarrow> action_continues b c \<Longrightarrow> action_continues a c"
  by (cases a; cases b; cases c) (auto simp: action_continues_def)

lemma action_continues_cols: "action_continues a b \<Longrightarrow> fa_token b = fa_token a \<and> fa_outbox_id b = fa_outbox_id a"
  by (cases a; cases b) (simp add: action_continues_def)

lemma actions_grow_same: "final_actions d' = final_actions d \<Longrightarrow> actions_grow d d'"
  unfolding actions_grow_def by (metis action_continues_refl)

interpretation shortcuts: evolution_frame actions_ok actions_grow "{TActions, TOutbox}"
proof unfold_locales
  show "actions_grow d d" for d by (simp add: actions_grow_same)
  show "actions_grow d d''" if "actions_grow d d'" "actions_grow d' d''" for d d' d''
    using that unfolding actions_grow_def by (meson action_continues_trans)
  show "evolving actions_ok actions_grow d d'" if "only (- {TActions, TOutbox}) d d'" for d d'
    using that by (simp add: only_iff evolving_def actions_ok_def outbox_ok_def actions_grow_same)
qed

lemma ids_grow: "outbox_grows d d' \<Longrightarrow> \<exists>q \<in> set (outbox d). out_id q = n \<Longrightarrow> \<exists>q \<in> set (outbox d'). out_id q = n"
  unfolding outbox_grows_def output_continues_def by metis

lemma outbox_part:
  assumes "evolving outbox_ok outbox_grows d d'" and "final_actions d' = final_actions d"
  shows "evolving actions_ok actions_grow d d'"
  using assms ids_grow by (auto simp: evolving_def actions_ok_def actions_grow_same)

abbreviation actions_evolve :: "'a store \<Rightarrow> bool" where
  "actions_evolve m \<equiv> follows (evolving actions_ok actions_grow) m"

lemma by_outbox: "outbox_evolves m \<Longrightarrow> footprint S m \<Longrightarrow> TActions \<notin> S \<Longrightarrow> actions_evolve m"
  unfolding follows_def only_iff by (auto intro: outbox_part)

lemma add_actions_evolves:
  assumes "evolving outbox_ok outbox_grows d d'" and "final_actions d' = final_actions d @ new"
    and "keys_unique fa_token (final_actions d) \<longrightarrow> keys_unique fa_token (final_actions d')"
    and "\<forall>a \<in> set new. \<not> fa_consumed a \<and> fa_consumed_by a = 0 \<and> (\<exists>q \<in> set (outbox d'). out_id q = fa_outbox_id a)"
  shows "evolving actions_ok actions_grow d d'"
  unfolding evolving_def
proof
  assume ok: "actions_ok d"
  then have out: "outbox_ok d'" "outbox_grows d d'" using assms(1) by (auto simp: evolving_def actions_ok_def)
  have "actions_ok d'"
    using ok out assms(2-4) ids_grow [OF out(2)] by (auto simp: actions_ok_def)
  moreover have "actions_grow d d'"
    unfolding actions_grow_def assms(2) using action_continues_refl by auto
  ultimately show "actions_ok d' \<and> actions_grow d d'" ..
qed

lemma complete_actions_evolve:
  "actions_evolve (completeInboxWithReplies codec now iid chat thread state replies targetID h he actions)"
proof (rule shortcuts.by_success)
  fix w x w' assume run: "completeInboxWithReplies codec now iid chat thread state replies targetID h he actions w = (Inr x, w')"
    and ok: "actions_ok (db w)"
  obtain new where new: "final_actions (db w') = final_actions (db w) @ new"
    "\<forall>a \<in> set new. \<not> fa_consumed a \<and> fa_consumed_by a = 0 \<and> (\<exists>q \<in> set (outbox (db w')). out_id q = fa_outbox_id a)"
    "keys_unique fa_token (final_actions (db w)) \<longrightarrow> keys_unique fa_token (final_actions (db w'))"
    using complete_actions_ok [OF run] by blast
  have "evolving outbox_ok outbox_grows (db w) (db w')"
    using followsD [OF settlement_outbox_evolves run] .
  from add_actions_evolves [OF this new(1,3,2)] ok show "actions_ok (db w') \<and> actions_grow (db w) (db w')"
    by (simp add: evolving_def)
qed (simp add: completeInboxWithReplies_def)

lemma update_actions_evolves:
  assumes "\<And>a. p a \<Longrightarrow> action_continues a (f a)"
    and "\<And>a. p a \<Longrightarrow> fa_consumed_by (f a) = fa_consumed_by a \<or> fa_consumed_by (f a) = 0"
  shows "evolving actions_ok actions_grow d (snd (update_final_actions p f d))"
proof -
  define g where "g = (\<lambda>a. if p a then f a else a)"
  have cont: "action_continues a (g a)" for a
    using assms(1) [of a] action_continues_refl by (simp add: g_def)
  then have keep: "fa_token (g a) = fa_token a" "fa_outbox_id (g a) = fa_outbox_id a" for a
    using action_continues_cols [OF cont [of a]] by simp_all
  have claim: "fa_consumed_by (g a) = fa_consumed_by a \<or> fa_consumed_by (g a) = 0" for a
    using assms(2) [of a] by (simp add: g_def)
  have rows: "snd (update_final_actions p f d) = d\<lparr>final_actions := map g (final_actions d)\<rparr>"
    by (simp add: update_final_actions_def update_rows_def g_def)
  have "fa_token \<circ> g = fa_token" using keep by auto
  moreover have "g a = g b" if "a \<in> set (final_actions d)" "b \<in> set (final_actions d)" "actions_ok d"
      "fa_consumed_by (g a) = fa_consumed_by (g b)" "fa_consumed_by (g a) \<noteq> 0" for a b
    using that claim [of a] claim [of b] unfolding actions_ok_def by metis
  moreover have "outbox_ok (d\<lparr>final_actions := map g (final_actions d)\<rparr>) = outbox_ok d"
    by (simp add: outbox_ok_def)
  ultimately have "actions_ok (snd (update_final_actions p f d))" if "actions_ok d"
    using that keep by (auto simp: actions_ok_def rows keys_unique_def)
  moreover have "actions_grow d (snd (update_final_actions p f d))"
    using cont by (auto simp: actions_grow_def rows)
  ultimately show ?thesis by (simp add: evolving_def)
qed

section \<open>The operations\<close>

lemma consume_actions_evolve: "actions_evolve (consumeFinalAction codec iid)"
proof -
  have buttons: "evolving actions_ok actions_grow d (snd (update_outbox p (set_buttons e) d))" for p e d
    by (intro outbox_part outbox_update_evolves)
      (simp_all add: kept_columns_def set_buttons_def update_outbox_def)
  show ?thesis
    unfolding consumeFinalAction_def
    by (intro shortcuts.rel.follows_rules update_actions_evolves buttons) (simp_all add: action_continues_def)
qed

lemma ConsumeFinalAction_actions_evolve: "actions_evolve (ConsumeFinalAction codec iid)"
  unfolding ConsumeFinalAction_def by (intro shortcuts.rel.follows_rules consume_actions_evolve)

lemma release_actions_evolve: "actions_evolve (ReleaseFinalAction now iid)"
  unfolding ReleaseFinalAction_def
  by (intro shortcuts.rel.follows_rules update_actions_evolves)
    (auto simp: action_continues_def update_inbox_def intro!: shortcuts.frame simp: only_iff)

lemma ReserveFinalAction_ok:
  assumes "ReserveFinalAction c w = (Inr (command, granted), w')"
  shows "0 < c_inbox_id c \<and> (if granted
     then \<exists>a. find (reservable c (db w)) (final_actions (db w)) = Some a \<and> command = fa_command a
        \<and> db w' = snd (update_final_actions (\<lambda>a. fa_token a = c_token c \<and> \<not> fa_consumed a \<and> fa_consumed_by a = 0)
            (\<lambda>a. a\<lparr>fa_consumed_by := c_inbox_id c\<rparr>) (db w))
     else db w' = db w)"
  using assms unfolding ReserveFinalAction_def by (auto simp: sql_ok split: if_splits)

lemma reserve_actions_evolve: "actions_evolve (ReserveFinalAction c)"
proof (rule shortcuts.by_success)
  fix w x w' assume run: "ReserveFinalAction c w = (Inr x, w')" and ok: "actions_ok (db w)"
  obtain command granted where x: "x = (command, granted)" by (cases x)
  show "actions_ok (db w') \<and> actions_grow (db w) (db w')"
  proof (cases granted)
    case False
    then show ?thesis using ReserveFinalAction_ok [OF run [unfolded x]] ok by (simp add: actions_grow_same)
  next
    case True
    with ReserveFinalAction_ok [OF run [unfolded x]] obtain a
      where pos: "0 < c_inbox_id c" and a: "find (reservable c (db w)) (final_actions (db w)) = Some a"
        and w': "db w' = snd (update_final_actions (\<lambda>a. fa_token a = c_token c \<and> \<not> fa_consumed a \<and> fa_consumed_by a = 0)
            (\<lambda>a. a\<lparr>fa_consumed_by := c_inbox_id c\<rparr>) (db w))" by auto
    have free: "b \<in> set (final_actions (db w)) \<Longrightarrow> fa_consumed_by b \<noteq> c_inbox_id c" for b
      using find_SomeD [OF a] by (auto simp: reservable_def exists_row_iff)
    define g where "g = (\<lambda>b :: final_action_row. if fa_token b = c_token c \<and> \<not> fa_consumed b \<and> fa_consumed_by b = 0
      then b\<lparr>fa_consumed_by := c_inbox_id c\<rparr> else b)"
    have rows: "db w' = (db w)\<lparr>final_actions := map g (final_actions (db w))\<rparr>"
      by (simp add: w' update_final_actions_def update_rows_def g_def)
    have cont: "action_continues b (g b)" for b by (simp add: g_def action_continues_def)
    have keep: "fa_token (g b) = fa_token b" "fa_outbox_id (g b) = fa_outbox_id b" for b
      using action_continues_cols [OF cont [of b]] by simp_all
    have claim: "g b \<noteq> b \<Longrightarrow> fa_consumed_by (g b) = c_inbox_id c"
      "g b \<noteq> b \<Longrightarrow> fa_token b = c_token c" for b
      by (auto simp: g_def split: if_splits)
    have "g b = g e" if "b \<in> set (final_actions (db w))" "e \<in> set (final_actions (db w))"
      "fa_consumed_by (g b) = fa_consumed_by (g e)" "fa_consumed_by (g b) \<noteq> 0" for b e
    proof (cases "g b = b \<and> g e = e")
      case True
      then show ?thesis using that ok by (auto simp: actions_ok_def)
    next
      case False
      then have "g b \<noteq> b \<and> g e \<noteq> e"
        using that(3) claim(1) [of b] claim(1) [of e] free [OF that(1)] free [OF that(2)]
        by (cases "g b = b"; cases "g e = e") simp_all
      then have token: "fa_token b = fa_token e" using claim(2) [of b] claim(2) [of e] by metis
      have "keys_unique fa_token (final_actions (db w))" using ok by (simp add: actions_ok_def)
      from keys_unique_eq [OF this that(1,2) token] show ?thesis by simp
    qed
    moreover have "fa_token \<circ> g = fa_token" using keep by auto
    moreover have "outbox_ok (db w')" using ok by (simp add: rows actions_ok_def outbox_ok_def)
    ultimately have "actions_ok (db w')"
      using ok keep by (auto simp: actions_ok_def rows keys_unique_def)
    moreover have "actions_grow (db w) (db w')" using cont by (auto simp: actions_grow_def rows)
    ultimately show ?thesis ..
  qed
qed (simp add: ReserveFinalAction_def)

lemma recover_actions_evolve: "actions_evolve (recover codec decode now)"
proof -
  have settle: "evolving actions_ok actions_grow d (settle_interrupted now d)" for d
    by (rule outbox_part [OF settle_outbox_evolves])
      (simp add: settle_interrupted_def settle_defs update_inbox_def update_outbox_def)
  show ?thesis
    unfolding recover_def backfillProgressChats_def recoverFinalActionReservations_def
    by (intro shortcuts.rel.follows_rules consume_actions_evolve settle shortcuts.outside [OF binding_footprints(12)]
        shortcuts.frame) (auto simp: only_iff update_inbox_def)
qed

lemma delete_outbox_actions_step:
  "evolving actions_ok actions_step d (snd (delete_outbox (outbox_batch cutoff d) d))"
  unfolding evolving_def
proof
  assume ok: "actions_ok d"
  let ?d = "snd (delete_outbox (outbox_batch cutoff d) d)"
  let ?gone = "\<lambda>a. exists_row (\<lambda>r. out_id r \<in> set (outbox_batch cutoff d) \<and> out_id r = fa_outbox_id a) (outbox d)"
  have acts: "final_actions ?d = delete_rows ?gone (final_actions d)"
    and out: "outbox ?d = delete_rows (\<lambda>r. out_id r \<in> set (outbox_batch cutoff d)) (outbox d)"
    by (simp_all add: delete_outbox_def)
  have "outbox_ok ?d" using delete_outbox_step [of d cutoff] ok by (simp add: evolving_def actions_ok_def)
  then have "actions_ok ?d"
    using ok by (auto simp: actions_ok_def acts out set_delete_rows exists_row_iff intro!: keys_unique_delete) metis
  moreover have "fa_consumed a \<or> fa_consumed_by a = 0" if a: "a \<in> set (final_actions d)" "?gone a" for a
  proof -
    from a(2) obtain q where "q \<in> set (outbox d)" "out_id q = fa_outbox_id a" "outbox_removable cutoff d q"
      by (auto simp: exists_row_iff outbox_batch_def dest!: in_set_takeD simp: set_select_by)
    with a(1) show ?thesis by (auto simp: outbox_removable_def exists_row_iff)
  qed
  then have "actions_step d ?d"
    unfolding actions_step_def acts set_delete_rows using action_continues_refl by blast
  ultimately show "actions_ok ?d \<and> actions_step d ?d" ..
qed

lemma cleanup_actions_step: "follows (evolving actions_ok actions_step) (cleanupOutboxBatch cutoff)"
proof (intro follows_success)
  show "evolving actions_ok actions_step d d" for d
    unfolding evolving_def actions_step_def using action_continues_refl by blast
  fix w x w' assume "cleanupOutboxBatch cutoff w = (Inr x, w')"
  then have "db w' = snd (delete_outbox (outbox_batch cutoff (db w)) (db w))"
    by (auto simp: cleanupOutboxBatch_def sql_ok)
  then show "evolving actions_ok actions_step (db w) (db w')" by (simp add: delete_outbox_actions_step)
qed (simp add: cleanupOutboxBatch_def)

interpretation shortcut_life: store_evolution actions_ok actions_grow "{TActions, TOutbox}" actions_step
proof unfold_locales
  show "actions_ok empty_database"
    using outbox_life.start by (simp add: actions_ok_def empty_database_def keys_unique_def)
  show "actions_step d d'" if "actions_grow d d'" for d d'
    using that by (auto simp: actions_grow_def actions_step_def)
  have cleanup: "follows (evolving actions_ok actions_step) (discard (cleanupOutboxBatch cutoff))" for cutoff
    by (rule follows_discard [OF cleanup_actions_step])
  show "actions_evolve m \<or> follows (evolving actions_ok actions_step) m" if "store_op codec decode m" for codec decode m
    using that
  proof (induction rule: store_op.induct)
    case (op_cleanupOutboxBatch cutoff)
    show ?case by (rule disjI2, rule cleanup)
  qed (rule disjI1, rule shortcuts.drop_result,
      (rule complete_actions_evolve ConsumeFinalAction_actions_evolve release_actions_evolve reserve_actions_evolve
         recover_actions_evolve
       | rule by_outbox, rule enqueue_evolves send_evolves NextAssistantHeader_evolves ClaimNextOutput_evolves
         publish_outbox_evolves, rule footprints, simp
       | rule by_outbox, rule MarkOutput_evolves, assumption, rule footprints, simp
       | rule shortcuts.outside, rule footprints, simp))+
qed

section \<open>The contract\<close>

text \<open>C20: In every reachable database the tokens of completion shortcuts are distinct, one callback
  claims at most one shortcut, and every shortcut belongs to a message that is still stored.\<close>

theorem shortcut_invariant:
  assumes "reachable codec decode d"
  shows "keys_unique fa_token (final_actions d)
    \<and> (\<forall>a \<in> set (final_actions d). \<forall>b \<in> set (final_actions d).
         fa_consumed_by a = fa_consumed_by b \<and> fa_consumed_by a \<noteq> 0 \<longrightarrow> a = b)
    \<and> (\<forall>a \<in> set (final_actions d). \<exists>q \<in> set (outbox d). out_id q = fa_outbox_id a)"
  using shortcut_life.holds [OF assms] by (simp add: actions_ok_def)

theorem shortcut_invariant_witness:
  "\<exists>q \<in> set (outbox sample_reserved). out_id q = fa_outbox_id (hd (final_actions sample_reserved))"
  using shortcut_invariant [OF sample_reserved_reachable] by (simp add: sample_reserved_eq)

text \<open>C19: Whatever a store call does, failed or not, a completion shortcut keeps its token, command,
  user, session and configuration; once consumed it stays consumed by the same callback; and a
  reserved shortcut is never removed before it is consumed or released.\<close>

theorem shortcut_lifecycle:
  assumes "reachable codec decode d" and "store_step codec decode d d'"
  shows "actions_step d d'"
  using assms by (rule shortcut_life.evolves)

theorem shortcut_lifecycle_witness:
  "actions_step sample_reserved (after (ConsumeFinalAction sample_codec 6) sample_reserved)"
  using shortcut_lifecycle [OF sample_reserved_reachable step_after [OF op_ConsumeFinalAction]] .

text \<open>C21: Settling an input with its replies is all or nothing, for every target, header and set of completion
  shortcuts. An error leaves the database as it was. Success found the input submitted, and the database
  afterwards is exactly \<^term>\<open>settled\<close>: the input takes the requested state; the replies are queued as pending
  texts, in order, with the next ids, the first one answering the original message unless the input already had a
  text output, and carrying the editable header when one was asked for and no earlier message is the target, the
  first \<open>as_body_parts\<close> of them marked as parts of the answer; the header of the target message, when one is
  given, is replaced, and exactly one such editable message of the input existed; and when shortcuts are given, the
  settlement is a success under the current binding of their session, and they are recorded, in order, below
  the newest part of the answer, which shows their buttons (when there is no such part, nothing is recorded).
  Nothing else changes. The result is the id of the first reply when that carries the header, else the target.\<close>

theorem completeInboxWithReplies_outcome:
  assumes "completeInboxWithReplies codec now iid chat thread state replies targetID header headed actions w = (res, w')"
  shows "case res of
      Inl e \<Rightarrow> db w' = db w
    | Inr x \<Rightarrow> \<exists>i. find (\<lambda>r. in_id r = iid \<and> in_state r = InboxSubmitted) (inbox (db w)) = Some i
        \<and> db w' = settled codec now iid chat thread state replies targetID header headed actions
            (if \<exists>q \<in> set (outbox (db w)). out_inbox_id q = iid \<and> out_kind q = ''text'' then 0 else in_reply_to i) (db w)
        \<and> x = (if targetID = 0 \<and> headed \<and> replies \<noteq> [] then outbox_seq (db w) + 1 else targetID)
        \<and> (targetID = 0 \<or> count_rows (header_row targetID iid) (outbox (db w)) = 1)
        \<and> (case actions of None \<Rightarrow> True
           | Some st \<Rightarrow> as_actions st = [] \<or> (state = InboxDone \<and> offer_bound chat thread st (db w)))"
proof (cases res)
  case (Inl e)
  then show ?thesis using assms
      atomicD [of "completeInboxWithReplies codec now iid chat thread state replies targetID header headed actions" w e w']
    by (simp add: completeInboxWithReplies_def)
next
  case (Inr x)
  from complete_exact [OF assms [unfolded Inr]] obtain replyTo where target: "reply_target iid (db w) = Some replyTo"
    and rest: "db w' = settled codec now iid chat thread state replies targetID header headed actions replyTo (db w)"
      "x = (if targetID = 0 \<and> headed \<and> replies \<noteq> [] then outbox_seq (db w) + 1 else targetID)"
      "targetID = 0 \<or> count_rows (header_row targetID iid) (outbox (db w)) = 1"
      "case actions of None \<Rightarrow> True
       | Some st \<Rightarrow> as_actions st = [] \<or> (state = InboxDone \<and> offer_bound chat thread st (db w))" by blast
  from target obtain i where i: "find (\<lambda>r. in_id r = iid \<and> in_state r = InboxSubmitted) (inbox (db w)) = Some i"
    and eq: "replyTo = (if exists_row (\<lambda>q. out_inbox_id q = in_id i \<and> out_kind q = ''text'') (outbox (db w)) then 0 else in_reply_to i)"
    by (auto simp: reply_target_def)
  have "in_id i = iid" using find_SomeD [OF i] by simp
  then have "replyTo = (if \<exists>q \<in> set (outbox (db w)). out_inbox_id q = iid \<and> out_kind q = ''text'' then 0 else in_reply_to i)"
    using eq by (simp add: exists_row_iff)
  then show ?thesis unfolding Inr sum.case using rest i by (intro exI [of _ i]) simp
qed

text \<open>The settlement of the samples: one reply with an editable header and one shortcut.\<close>

theorem completeInboxWithReplies_outcome_witness:
  "sample_answered = settled sample_codec 102 5 3 4 InboxDone [''body''] 0 [] True (Some sample_actions) 7
     (after (Submit 101 5 7) (after (Save sample_binding) sample_db))
   \<and> final_actions sample_answered = [sample_shortcut]"
proof
  let ?m = "completeInboxWithReplies sample_codec 102 5 3 4 InboxDone [''body''] 0 [] True (Some sample_actions)"
  let ?d = "after (Submit 101 5 7) (after (Save sample_binding) sample_db)"
  show shortcut: "final_actions sample_answered = [sample_shortcut]" by (simp add: sample_answered_eq)
  have before: "final_actions ?d = []" "outbox ?d = []"
    "inbox ?d = [\<lparr>in_id = 5, in_raw = ''u'', in_state = InboxSubmitted, in_reply_to = 7, in_created_at = 100, in_updated_at = 101\<rparr>]"
    by (simp_all add: after_def Submit_def Save_def sql_run sample_db_eq empty_database_def update_inbox_def migrationGuard_def
      migrationSessionGuard_def upsert_binding_def archive_binding_def sample_binding_def b_conv_def)
  obtain res w' where run: "?m (healthy ?d) = (res, w')" by (cases "?m (healthy ?d)")
  then have w': "sample_answered = db w'" by (simp add: sample_answered_def after_def [of ?m])
  note outcome = completeInboxWithReplies_outcome [OF run]
  show "sample_answered = settled sample_codec 102 5 3 4 InboxDone [''body''] 0 [] True (Some sample_actions) 7 ?d"
  proof (cases res)
    case (Inl e)
    then have "db w' = ?d" using outcome by (simp add: healthy_def)
    then show ?thesis using shortcut before(1) w' by simp
  next
    case (Inr x)
    then show ?thesis using outcome before by (auto simp: healthy_def w')
  qed
qed

end
