(* ===== verification/RecoveryProps.thy ===== *)
theory RecoveryProps
  imports ActionProps
begin

text \<open>
  Exactly-once consumption of completion shortcuts, and what a restart leaves behind: nothing
  submitted, nothing being sent, no reservation, and no callback of a shortcut still pending.
\<close>

section \<open>Consumption\<close>

definition remaining_buttons :: "action_codec \<Rightarrow> string \<Rightarrow> final_action list \<Rightarrow> string" where
  "remaining_buttons codec token actions =
     (let rest = filter (\<lambda>action. a_token action \<noteq> token) actions in if rest \<noteq> [] then marshal codec rest else [])"

definition consumed_shortcut :: "action_codec \<Rightarrow> string \<Rightarrow> int64 \<Rightarrow> final_action list \<Rightarrow> database \<Rightarrow> database" where
  "consumed_shortcut codec token outboxID actions d =
     d\<lparr>final_actions := update_rows (\<lambda>a. fa_token a = token \<and> \<not> fa_consumed a) (\<lambda>a. a\<lparr>fa_consumed := True\<rparr>) (final_actions d),
       outbox := update_rows (\<lambda>r. out_id r = outboxID) (set_buttons (remaining_buttons codec token actions)) (outbox d)\<rparr>"

lemma consumeFinalAction_ok:
  assumes "consumeFinalAction codec iid w = (Inr u, w')"
  shows "\<exists>token outboxID encoded actions. reservation iid (db w) = Some (token, outboxID, encoded)
     \<and> unmarshal codec encoded = Some actions \<and> db w' = consumed_shortcut codec token outboxID actions (db w)"
proof -
  from assms obtain p w1 where p: "reservation iid (db w) = Some p" and w1: "db w1 = db w"
    and rest: "(case p of (token, outboxID, encoded) \<Rightarrow> case unmarshal codec encoded of
       None \<Rightarrow> throw (ErrMsg ''invalid JSON'')
     | Some actions \<Rightarrow>
         let remaining = filter (\<lambda>action. a_token action \<noteq> token) actions;
             encoded' = (if remaining \<noteq> [] then marshal codec remaining else [])
         in bind (execute (\<lambda>d. snd (update_final_actions (\<lambda>a. fa_token a = token \<and> \<not> fa_consumed a)
              (\<lambda>a. a\<lparr>fa_consumed := True\<rparr>) d))) (\<lambda>_.
            execute (\<lambda>d. snd (update_outbox (\<lambda>r. out_id r = outboxID) (set_buttons encoded') d)))) w1 = (Inr u, w')"
    by (auto simp: consumeFinalAction_def bind_ok query_row_ok)
  obtain token outboxID encoded where pe: "p = (token, outboxID, encoded)" by (cases p)
  show ?thesis
  proof (cases "unmarshal codec encoded")
    case None
    with rest pe show ?thesis by (simp add: throw_ok)
  next
    case (Some actions)
    have "db w' = consumed_shortcut codec token outboxID actions (db w)"
      using rest by (auto simp: pe Some w1 Let_def bind_ok execute_ok consumed_shortcut_def remaining_buttons_def
          update_final_actions_def update_outbox_def)
    with p pe Some show ?thesis by blast
  qed
qed

lemma reservation_Some:
  assumes "reservation iid d = Some (token, outboxID, encoded)"
  obtains a where "a \<in> set (final_actions d)" and "\<not> fa_consumed a" and "fa_consumed_by a = iid"
    and "fa_token a = token" and "fa_outbox_id a = outboxID"
  using assms by (auto simp: reservation_def split: option.splits dest!: find_SomeD)

definition claims :: "database \<Rightarrow> int64 \<Rightarrow> bool" where
  "claims d iid \<longleftrightarrow> (\<exists>a \<in> set (final_actions d). \<not> fa_consumed a \<and> fa_consumed_by a = iid)"

lemma consumed_no_claim:
  assumes ok: "actions_ok d" and iid: "iid \<noteq> 0" and res: "reservation iid d = Some (token, outboxID, encoded)"
  shows "\<not> claims (consumed_shortcut codec token outboxID actions d) iid"
proof
  assume "claims (consumed_shortcut codec token outboxID actions d) iid"
  then obtain b where b: "b \<in> set (final_actions d)" "fa_consumed_by b = iid" "\<not> fa_consumed b" "fa_token b \<noteq> token"
    by (auto simp: claims_def consumed_shortcut_def set_update_rows split: if_splits)
  obtain a where "a \<in> set (final_actions d)" "fa_consumed_by a = iid" "fa_token a = token"
    using reservation_Some [OF res] by metis
  with b ok iid have "a = b" by (auto simp: actions_ok_def)
  with b(4) \<open>fa_token a = token\<close> show False by simp
qed

lemma no_claim_no_reservation: "\<not> claims d iid \<Longrightarrow> reservation iid d = None"
  by (auto simp: claims_def reservation_def find_None split: option.splits dest!: find_SomeD)

section \<open>Recovery\<close>

text \<open>Recovery only consumes reservations and cancels callbacks.\<close>

definition winds_down :: "database \<Rightarrow> database \<Rightarrow> bool" where
  "winds_down d d' \<longleftrightarrow>
     (\<forall>b \<in> set (final_actions d'). \<exists>a \<in> set (final_actions d). fa_consumed_by b = fa_consumed_by a
        \<and> (fa_consumed a \<longrightarrow> fa_consumed b))
     \<and> (\<forall>r' \<in> set (inbox d'). r' \<in> set (inbox d) \<or> in_state r' = InboxCancelled)
     \<and> (\<forall>q' \<in> set (outbox d'). \<exists>q \<in> set (outbox d). out_state q' = out_state q
          \<and> (out_actions_pending q' = 2 \<longrightarrow> out_actions_pending q = 2))
     \<and> topic_reservations d' = topic_reservations d"

lemma winds_down_refl: "winds_down d d"
  by (auto simp: winds_down_def)

lemma winds_down_trans: "winds_down d d' \<Longrightarrow> winds_down d' d'' \<Longrightarrow> winds_down d d''"
  unfolding winds_down_def by (metis (no_types, opaque_lifting))

lemma winds_down_claims: "winds_down d d' \<Longrightarrow> claims d' iid \<Longrightarrow> claims d iid"
  unfolding winds_down_def claims_def by metis

lemma consumed_winds_down: "winds_down d (consumed_shortcut codec token outboxID actions d)"
  by (auto simp: winds_down_def consumed_shortcut_def set_update_rows set_buttons_def)

lemma cancel_winds_down:
  "winds_down d (snd (update_inbox (\<lambda>r. in_id r = iid \<and> in_state r = InboxPending) (\<lambda>r. r\<lparr>in_state := InboxCancelled\<rparr>) d))"
  by (auto simp: winds_down_def update_inbox_def set_update_rows)

definition pending_input :: "database \<Rightarrow> int64 \<Rightarrow> bool" where
  "pending_input d iid \<longleftrightarrow> (\<exists>r \<in> set (inbox d). in_id r = iid \<and> in_state r = InboxPending)"

lemma cancel_not_pending:
  "\<not> pending_input (snd (update_inbox (\<lambda>r. in_id r = iid \<and> in_state r = InboxPending)
      (\<lambda>r. r\<lparr>in_state := InboxCancelled\<rparr>) d)) iid"
proof -
  have "\<forall>r \<in> set (update_rows (\<lambda>r. in_id r = iid \<and> in_state r = InboxPending)
      (\<lambda>r. r\<lparr>in_state := InboxCancelled\<rparr>) (inbox d)). \<not> (in_id r = iid \<and> in_state r = InboxPending)"
    unfolding set_update_rows by (intro ballI, elim imageE) (simp split: if_split_asm)
  then show ?thesis by (auto simp: pending_input_def update_inbox_def)
qed

lemma winds_down_pending: "winds_down d d' \<Longrightarrow> pending_input d' iid \<Longrightarrow> pending_input d iid"
  unfolding winds_down_def pending_input_def by (metis inbox_state.distinct)

lemma recover_loop_ok:
  "recover_loop codec ids w = (Inr u, w') \<Longrightarrow> actions_ok (db w) \<Longrightarrow> 0 \<notin> set ids \<Longrightarrow>
   actions_ok (db w') \<and> winds_down (db w) (db w') \<and> (\<forall>iid \<in> set ids. \<not> claims (db w') iid \<and> \<not> pending_input (db w') iid)"
proof (induction ids arbitrary: w)
  case Nil
  then show ?case by (simp add: sql_ok winds_down_refl)
next
  case (Cons iid ids)
  from Cons.prems(1) obtain w1 w2 where consume: "consumeFinalAction codec iid w = (Inr (), w1)"
    and w2: "db w2 = snd (update_inbox (\<lambda>r. in_id r = iid \<and> in_state r = InboxPending) (\<lambda>r. r\<lparr>in_state := InboxCancelled\<rparr>) (db w1))"
    and rest: "recover_loop codec ids w2 = (Inr u, w')"
    by (auto simp: sql_ok)
  from consumeFinalAction_ok [OF consume] obtain token outboxID encoded actions where
    res: "reservation iid (db w) = Some (token, outboxID, encoded)"
    and w1: "db w1 = consumed_shortcut codec token outboxID actions (db w)" by blast
  have "actions_ok (db w1)"
    using followsD [OF consume_actions_evolve consume] Cons.prems(2) by (simp add: evolving_def)
  then have ok2: "actions_ok (db w2)" by (simp add: w2 update_inbox_def actions_ok_def outbox_ok_def)
  have down: "winds_down (db w) (db w2)"
    unfolding w2 w1 by (rule winds_down_trans [OF consumed_winds_down cancel_winds_down])
  from Cons.IH [OF rest ok2] Cons.prems(3) have IH: "actions_ok (db w')" "winds_down (db w2) (db w')"
    "\<forall>i \<in> set ids. \<not> claims (db w') i \<and> \<not> pending_input (db w') i" by simp_all
  have "\<not> claims (db w1) iid" unfolding w1 using consumed_no_claim [OF Cons.prems(2) _ res] Cons.prems(3) by simp
  then have "\<not> claims (db w2) iid" by (simp add: w2 claims_def update_inbox_def)
  moreover have "\<not> pending_input (db w2) iid" unfolding w2 by (rule cancel_not_pending)
  ultimately show ?case
    using IH winds_down_trans [OF down IH(2)] winds_down_claims [OF IH(2)] winds_down_pending [OF IH(2)] by auto
qed

lemma settle_interrupted_tables:
  "final_actions (settle_interrupted now d) = final_actions d"
  "r \<in> set (inbox (settle_interrupted now d)) \<Longrightarrow> in_state r \<noteq> InboxSubmitted
     \<and> (in_state r = InboxPending \<longrightarrow> \<not> (\<exists>a \<in> set (final_actions d). fa_consumed a \<and> fa_consumed_by a = in_id r))"
  "q \<in> set (outbox (settle_interrupted now d)) \<Longrightarrow> out_state q \<noteq> OutboxSending \<and> out_actions_pending q \<noteq> 2"
  "n \<in> set (topic_reservations (settle_interrupted now d)) \<Longrightarrow> \<not> tr_active n"
proof -
  show "final_actions (settle_interrupted now d) = final_actions d"
    by (simp add: settle_interrupted_def settle_defs update_inbox_def update_outbox_def)
  have "inbox (settle_interrupted now d) = inbox (cancel_accepted now (settle_submitted now d))"
    by (simp add: settle_interrupted_def drop_name_requests_def drop_edit_claims_def settle_sending_def update_outbox_def)
  then show "r \<in> set (inbox (settle_interrupted now d)) \<Longrightarrow> in_state r \<noteq> InboxSubmitted
     \<and> (in_state r = InboxPending \<longrightarrow> \<not> (\<exists>a \<in> set (final_actions d). fa_consumed a \<and> fa_consumed_by a = in_id r))"
    by (auto simp: cancel_accepted_def settle_submitted_def update_inbox_def set_update_rows exists_row_iff)
  have "outbox (settle_interrupted now d) = outbox (drop_edit_claims (settle_sending now d))"
    by (simp add: settle_interrupted_def settle_defs update_outbox_def update_inbox_def)
  then show "q \<in> set (outbox (settle_interrupted now d)) \<Longrightarrow> out_state q \<noteq> OutboxSending \<and> out_actions_pending q \<noteq> 2"
    by (auto simp: drop_edit_claims_def settle_sending_def update_outbox_def set_update_rows)
  show "n \<in> set (topic_reservations (settle_interrupted now d)) \<Longrightarrow> \<not> tr_active n"
    by (auto simp: settle_interrupted_def drop_name_requests_def set_update_rows)
qed

lemma set_chats_tables:
  "set_chats ps w = (Inr u, w') \<Longrightarrow> only {TProgress} (db w) (db w')"
  by (rule followsD [OF foot.follows_set_chats]) (auto simp: only_simps)

lemma recover_ok:
  assumes "recover codec decode now w = (Inr u, w')"
  obtains d0 w2 w3 where "final_actions d0 = final_actions (db w)" and "outbox_ok d0 = outbox_ok (db w)"
    and "outbox d0 = outbox (db w)" and "db w2 = settle_interrupted now d0"
    and "recover_loop codec (reserved_ids (db w2)) w2 = (Inr (), w3)" and "db w' = db w3"
proof -
  from assms obtain w0 wa wb wc w2 w3 where w0: "db w0 = db w"
    and chats: "backfillProgressChats decode w0 = (Inr (), wa)" and ids: "backfillSessionIDs wa = (Inr (), wb)"
    and w2: "db w2 = settle_interrupted now (db wb)"
    and loop: "recoverFinalActionReservations codec w2 = (Inr (), w3)" and w': "db w' = db w3"
    by (auto simp: recover_def sql_ok)
  have "only {TProgress} (db w0) (db wa)"
    using chats unfolding backfillProgressChats_def
    by (auto simp: bind_ok query_ok dest!: set_chats_tables)
  moreover have "only {TBindings} (db wa) (db wb)" by (rule followsD [OF binding_footprints(12) ids])
  ultimately have same: "final_actions (db wb) = final_actions (db w)" "outbox (db wb) = outbox (db w)"
      "outbox_seq (db wb) = outbox_seq (db w)"
    by (simp_all add: only_iff w0)
  from loop obtain w2' where w2': "db w2' = db w2" and loop: "recover_loop codec (reserved_ids (db w2)) w2' = (Inr (), w3)"
    by (auto simp: recoverFinalActionReservations_def bind_ok query_ok)
  show ?thesis
    by (rule that [of "db wb" w2' w3]) (use same w2 w2' loop w' in \<open>simp_all add: outbox_ok_def\<close>)
qed

section \<open>The contract\<close>

text \<open>C18: After a restart that succeeds no input counts as submitted, no message as being sent or
  edited and no title request as active; no completion shortcut is reserved any more: every claimed
  one is consumed, and the callback that claimed it is not pending, so it can never run.\<close>

theorem recover_settles:
  assumes "reachable codec decode d" and "db w = d" and "recover codec' decode' now w = (Inr u, w')"
  shows "(\<forall>r \<in> set (inbox (db w')). in_state r \<noteq> InboxSubmitted)
    \<and> (\<forall>q \<in> set (outbox (db w')). out_state q \<noteq> OutboxSending \<and> out_actions_pending q \<noteq> 2)
    \<and> (\<forall>n \<in> set (topic_reservations (db w')). \<not> tr_active n)
    \<and> (\<forall>a \<in> set (final_actions (db w')). fa_consumed_by a \<noteq> 0 \<longrightarrow>
         fa_consumed a \<and> \<not> pending_input (db w') (fa_consumed_by a))"
proof -
  obtain d0 w2 w3 where d0: "final_actions d0 = final_actions (db w)" "outbox_ok d0 = outbox_ok (db w)" "outbox d0 = outbox (db w)"
    and w2: "db w2 = settle_interrupted now d0"
    and loop: "recover_loop codec' (reserved_ids (db w2)) w2 = (Inr (), w3)" and w': "db w' = db w3"
    by (rule recover_ok [OF assms(3)])
  have "actions_ok d0" using shortcut_life.holds [OF assms(1)] d0 assms(2) by (simp add: actions_ok_def)
  then have ok2: "actions_ok (db w2)"
    using outbox_part [OF settle_outbox_evolves [of d0 now] settle_interrupted_tables(1)] w2 by (simp add: evolving_def)
  have "0 \<notin> set (reserved_ids (db w2))" by (auto simp: reserved_ids_def)
  from recover_loop_ok [OF loop ok2 this] have down: "winds_down (db w2) (db w3)"
    and finished: "\<forall>i \<in> set (reserved_ids (db w2)). \<not> claims (db w3) i \<and> \<not> pending_input (db w3) i" by simp_all
  have "fa_consumed a \<and> \<not> pending_input (db w3) (fa_consumed_by a)"
    if a: "a \<in> set (final_actions (db w3))" "fa_consumed_by a \<noteq> 0" for a
  proof -
    obtain b where b: "b \<in> set (final_actions (db w2))" "fa_consumed_by a = fa_consumed_by b" "fa_consumed b \<longrightarrow> fa_consumed a"
      using down a(1) unfolding winds_down_def by blast
    show ?thesis
    proof (cases "fa_consumed b")
      case True
      then have "\<not> pending_input (db w2) (fa_consumed_by b)"
        using b(1) settle_interrupted_tables(2) [of _ now d0] by (force simp: w2 pending_input_def settle_interrupted_tables(1))
      then show ?thesis using True b winds_down_pending [OF down] by auto
    next
      case False
      then have "fa_consumed_by a \<in> set (reserved_ids (db w2))" using b a(2) by (auto simp: reserved_ids_def)
      then show ?thesis using finished a(1) by (auto simp: claims_def)
    qed
  qed
  moreover have "in_state r \<noteq> InboxSubmitted" if "r \<in> set (inbox (db w3))" for r
    using down that settle_interrupted_tables(2) [of r now d0] unfolding winds_down_def w2 by auto
  moreover have "out_state q \<noteq> OutboxSending \<and> out_actions_pending q \<noteq> 2" if "q \<in> set (outbox (db w3))" for q
    using down that settle_interrupted_tables(3) [of _ now d0] unfolding winds_down_def w2 by metis
  moreover have "\<not> tr_active n" if "n \<in> set (topic_reservations (db w3))" for n
    using down that settle_interrupted_tables(4) [of n now d0] unfolding winds_down_def w2 by simp
  ultimately show ?thesis by (simp add: w')
qed

text \<open>C22: A reserved shortcut is consumed exactly once: after a successful consumption no
  shortcut is claimed by the callback any more, and consuming again, whatever the codec and the driver do, never
  succeeds.\<close>

theorem ConsumeFinalAction_once:
  assumes "reachable codec decode d" and "db w = d" and "iid \<noteq> 0" and "ConsumeFinalAction codec' iid w = (Inr u, w')"
  shows "(\<exists>a \<in> set (final_actions d). \<not> fa_consumed a \<and> fa_consumed_by a = iid
            \<and> (\<exists>b \<in> set (final_actions (db w')). fa_token b = fa_token a \<and> fa_consumed b))
    \<and> \<not> claims (db w') iid \<and> (\<forall>codec'' u' w''. ConsumeFinalAction codec'' iid w' \<noteq> (Inr u', w''))"
proof -
  from assms(4) obtain w1 w2 where w1: "db w1 = d" and run: "consumeFinalAction codec' iid w1 = (Inr (), w2)" and w': "db w' = db w2"
    using assms(2) by (auto simp: ConsumeFinalAction_def sql_ok)
  from consumeFinalAction_ok [OF run] obtain token outboxID encoded actions where
    res: "reservation iid d = Some (token, outboxID, encoded)" and d': "db w' = consumed_shortcut codec' token outboxID actions d"
    unfolding w1 w' by blast
  obtain a where a: "a \<in> set (final_actions d)" "\<not> fa_consumed a" "fa_consumed_by a = iid" "fa_token a = token"
    using reservation_Some [OF res] by metis
  have "a\<lparr>fa_consumed := True\<rparr> \<in> set (final_actions (db w'))"
    using a by (auto simp: d' consumed_shortcut_def set_update_rows)
  then have "\<exists>b \<in> set (final_actions (db w')). fa_token b = fa_token a \<and> fa_consumed b" by (rule bexI [rotated]) simp
  moreover have none: "\<not> claims (db w') iid"
    unfolding d' by (rule consumed_no_claim [OF shortcut_life.holds [OF assms(1)] assms(3) res])
  moreover have "ConsumeFinalAction codec'' iid w' \<noteq> (Inr u', w'')" for codec'' u' w''
  proof
    assume "ConsumeFinalAction codec'' iid w' = (Inr u', w'')"
    then obtain v v' where "db v = db w'" "consumeFinalAction codec'' iid v = (Inr (), v')"
      by (auto simp: ConsumeFinalAction_def sql_ok)
    then show False using consumeFinalAction_ok no_claim_no_reservation [OF none] by fastforce
  qed
  ultimately show ?thesis using a by blast
qed

theorem recover_settles_witness:
  "out_state (hd (outbox (after (recover sample_codec sample_decoder 200) sample_sending))) \<noteq> OutboxSending
   \<and> fst (recover sample_codec sample_decoder 200 (healthy sample_sending)) = Inr ()"
proof -
  have run: "recover sample_codec sample_decoder 200 (healthy sample_sending) =
      (Inr (), healthy (after (recover sample_codec sample_decoder 200) sample_sending))"
    by (simp add: after_def recover_def sql_run sample_sending_eq sample_outbox_eq empty_database_def
        backfillProgressChats_def resolved_chats_def backfillSessionIDs_def settle_interrupted_def settle_defs
        update_inbox_def update_outbox_def queued_row_def recoverFinalActionReservations_def reserved_ids_def)
  have "outbox (after (recover sample_codec sample_decoder 200) sample_sending) \<noteq> []"
    by (simp add: after_def recover_def sql_run sample_sending_eq sample_outbox_eq empty_database_def
        backfillProgressChats_def resolved_chats_def backfillSessionIDs_def settle_interrupted_def settle_defs
        update_inbox_def update_outbox_def queued_row_def recoverFinalActionReservations_def reserved_ids_def)
  with recover_settles [OF sample_sending_reachable _ run] show ?thesis
    by (simp add: run)
qed

theorem ConsumeFinalAction_once_witness:
  "\<not> claims (after (ConsumeFinalAction sample_codec 6) sample_reserved) 6
   \<and> fst (ConsumeFinalAction sample_codec 6 (healthy (after (ConsumeFinalAction sample_codec 6) sample_reserved))) \<noteq> Inr ()"
proof -
  have run: "ConsumeFinalAction sample_codec 6 (healthy sample_reserved) =
      (Inr (), healthy (after (ConsumeFinalAction sample_codec 6) sample_reserved))"
    by (simp add: after_def ConsumeFinalAction_def consumeFinalAction_def sql_run sample_reserved_eq sample_delivered_eq
        sample_answered_eq sample_db_eq empty_database_def reservation_def sample_shortcut_def sample_answer_def
        sample_codec_def queued_row_def update_final_actions_def update_outbox_def)
  from ConsumeFinalAction_once [OF sample_reserved_reachable _ _ run] show ?thesis
    by (metis healthy_simps(1) prod.collapse zero_neq_numeral)
qed

end
