(* ===== verification/FollowupProps.thy ===== *)
theory FollowupProps
  imports Samples
begin

text \<open>
  Properties of follow-up prompts: at most one open prompt per user of a conversation, a prompt
  never reopens, and a delivered prompt is claimed by at most one input, once.
\<close>

section \<open>The life of a prompt\<close>

definition followup_edge :: "followup_state \<Rightarrow> followup_state \<Rightarrow> bool" where
  "followup_edge s s' \<longleftrightarrow>
     (case s of
        FollowupPending \<Rightarrow> s' \<in> {FollowupDelivered, FollowupUncertain, FollowupCancelled}
      | FollowupDelivered \<Rightarrow> s' \<in> {FollowupCancelled, FollowupConsumed}
      | _ \<Rightarrow> False)"

definition followup_continues :: "followup_request \<Rightarrow> followup_request \<Rightarrow> bool" where
  "followup_continues r r' \<longleftrightarrow>
     r' = r\<lparr>fr_state := fr_state r', fr_prompt_id := fr_prompt_id r', fr_inbox_id := fr_inbox_id r'\<rparr>
     \<and> followup_edge\<^sup>*\<^sup>* (fr_state r) (fr_state r')
     \<and> (fr_state r = FollowupConsumed \<longrightarrow> fr_inbox_id r' = fr_inbox_id r \<and> fr_prompt_id r' = fr_prompt_id r)"

definition followups_ok :: "database \<Rightarrow> bool" where
  "followups_ok d \<longleftrightarrow> keys_unique fr_token (followup_requests d) \<and> prompts_unique (followup_requests d)
     \<and> claims_unique (followup_requests d)
     \<and> (\<forall>r \<in> set (followup_requests d). \<forall>q \<in> set (followup_requests d).
          followup_open r \<and> followup_open q \<and> fr_conv r = fr_conv q \<and> fr_user r = fr_user q \<longrightarrow> r = q)"

definition followups_grow :: "database \<Rightarrow> database \<Rightarrow> bool" where
  "followups_grow d d' \<longleftrightarrow> (\<forall>r \<in> set (followup_requests d). \<exists>r' \<in> set (followup_requests d'). followup_continues r r')"

definition followups_step :: "database \<Rightarrow> database \<Rightarrow> bool" where
  "followups_step d d' \<longleftrightarrow> (\<forall>r \<in> set (followup_requests d).
     (\<exists>r' \<in> set (followup_requests d'). followup_continues r r') \<or> (\<exists>now cutoff. followup_expired now cutoff d r))"

lemma followup_continues_refl: "followup_continues r r"
  by (simp add: followup_continues_def)

lemma consumed_reach: "followup_edge\<^sup>*\<^sup>* s s' \<Longrightarrow> s = FollowupConsumed \<Longrightarrow> s' = FollowupConsumed"
  by (induction rule: rtranclp_induct) (auto simp: followup_edge_def)

lemma followup_continues_trans: "followup_continues r r' \<Longrightarrow> followup_continues r' r'' \<Longrightarrow> followup_continues r r''"
  using consumed_reach [of "fr_state r" "fr_state r'"]
  by (cases r; cases r'; cases r'') (auto simp: followup_continues_def)

lemma followups_grow_same: "followup_requests d' = followup_requests d \<Longrightarrow> followups_grow d d'"
  unfolding followups_grow_def by (metis followup_continues_refl)

interpretation followups: evolution_frame followups_ok followups_grow "{TFollowups}"
proof unfold_locales
  show "followups_grow d d" for d by (simp add: followups_grow_same)
  show "followups_grow d d''" if "followups_grow d d'" "followups_grow d' d''" for d d' d''
    using that unfolding followups_grow_def by (meson followup_continues_trans)
  show "evolving followups_ok followups_grow d d'" if "only (- {TFollowups}) d d'" for d d'
    using that by (simp add: only_iff evolving_def followups_ok_def followups_grow_same)
qed

section \<open>Updates\<close>

lemma followup_update_evolves:
  assumes cols: "\<And>r. p r \<Longrightarrow> followup_continues r (f r)"
    and shut: "\<And>r. p r \<Longrightarrow> followup_open (f r) \<Longrightarrow> followup_open r"
    and prompts: "followups_ok d \<Longrightarrow> prompts_unique (update_rows p f (followup_requests d))"
    and claims: "followups_ok d \<Longrightarrow> claims_unique (update_rows p f (followup_requests d))"
  shows "evolving followups_ok followups_grow d (snd (update_followups p f d))"
proof -
  define g where "g = (\<lambda>r. if p r then f r else r)"
  have rows: "update_rows p f (followup_requests d) = map g (followup_requests d)" by (simp add: update_rows_def g_def)
  have cont: "followup_continues r (g r)" for r using cols [of r] followup_continues_refl by (simp add: g_def)
  have same: "fr_token (g r) = fr_token r" "fr_conv (g r) = fr_conv r" "fr_user (g r) = fr_user r" for r
    using cont [of r] by (cases r; cases "g r"; simp add: followup_continues_def fr_conv_def)+
  have opened: "followup_open (g r) \<Longrightarrow> followup_open r" for r using shut [of r] by (simp add: g_def split: if_splits)
  have "fr_token \<circ> g = fr_token" using same by auto
  moreover have "g r = g q" if "followups_ok d" "r \<in> set (followup_requests d)" "q \<in> set (followup_requests d)"
    "followup_open (g r)" "followup_open (g q)" "fr_conv (g r) = fr_conv (g q)" "fr_user (g r) = fr_user (g q)" for r q
    using that opened [of r] opened [of q] same unfolding followups_ok_def by metis
  ultimately have "followups_ok (snd (update_followups p f d))" if "followups_ok d"
    using that prompts claims unfolding rows
    by (auto simp: followups_ok_def update_followups_def rows keys_unique_def)
  moreover have "followups_grow d (snd (update_followups p f d))"
    using cont by (auto simp: followups_grow_def update_followups_def rows)
  ultimately show ?thesis by (simp add: evolving_def)
qed

lemma same_prompts:
  assumes "\<And>r. fr_bot (f r) = fr_bot r \<and> fr_chat (f r) = fr_chat r \<and> fr_prompt_id (f r) = fr_prompt_id r"
  shows "prompts_unique (update_rows p f rows) = prompts_unique rows"
proof -
  have "map (\<lambda>r. (fr_bot r, fr_chat r, fr_prompt_id r)) (filter (\<lambda>r. 0 < fr_prompt_id r) (update_rows p f rows)) =
     map (\<lambda>r. (fr_bot r, fr_chat r, fr_prompt_id r)) (filter (\<lambda>r. 0 < fr_prompt_id r) rows)"
    using assms by (induction rows) (auto simp: update_rows_def)
  then show ?thesis by (simp add: prompts_unique_def)
qed

lemma same_claims:
  assumes "\<And>r. fr_inbox_id (f r) = fr_inbox_id r"
  shows "claims_unique (update_rows p f rows) = claims_unique rows"
proof -
  have "map fr_inbox_id (filter (\<lambda>r. 0 < fr_inbox_id r) (update_rows p f rows)) =
     map fr_inbox_id (filter (\<lambda>r. 0 < fr_inbox_id r) rows)"
    using assms by (induction rows) (auto simp: update_rows_def)
  then show ?thesis by (simp add: claims_unique_def)
qed

abbreviation followups_evolve :: "'a store \<Rightarrow> bool" where
  "followups_evolve m \<equiv> follows (evolving followups_ok followups_grow) m"

lemma cancel_continues:
  "followup_open q \<Longrightarrow> followup_continues q (q\<lparr>fr_state := FollowupCancelled\<rparr>)"
  by (cases q) (auto simp: followup_continues_def followup_open_def followup_edge_def)

lemma cancel_followups_evolves:
  "evolving followups_ok followups_grow d (snd (update_followups (\<lambda>q. c q \<and> followup_open q)
     (\<lambda>q. q\<lparr>fr_state := FollowupCancelled\<rparr>) d))"
  by (rule followup_update_evolves)
    (auto simp: cancel_continues followup_open_def [of "_\<lparr>fr_state := _\<rparr>"] same_prompts same_claims followups_ok_def)

lemma CancelFollowupRequests_evolves: "followups_evolve (CancelFollowupRequests botID chat thread)"
  unfolding CancelFollowupRequests_def
  by (intro followups.rel.follows_rules cancel_followups_evolves)

lemma CreateFollowupRequest_ok:
  assumes "CreateFollowupRequest r w = (Inr u, w')"
  shows "\<exists>d. d = snd (update_followups (\<lambda>q. (fr_conv q = fr_conv r \<and> fr_user q = fr_user r) \<and> followup_open q)
       (\<lambda>q. q\<lparr>fr_state := FollowupCancelled\<rparr>) (db w))
     \<and> \<not> exists_row (\<lambda>q. fr_token q = fr_token r) (followup_requests d)
     \<and> db w' = d\<lparr>followup_requests := followup_requests d @
          [r\<lparr>fr_prompt_id := 0, fr_inbox_id := 0, fr_state := FollowupPending\<rparr>]\<rparr>"
  using assms by (auto simp: CreateFollowupRequest_def sql_ok)

lemma CreateFollowupRequest_evolves: "followups_evolve (CreateFollowupRequest r)"
proof (rule followups.by_success)
  fix w u w' assume "CreateFollowupRequest r w = (Inr u, w')" and ok: "followups_ok (db w)"
  then obtain d where d: "d = snd (update_followups (\<lambda>q. (fr_conv q = fr_conv r \<and> fr_user q = fr_user r) \<and> followup_open q)
       (\<lambda>q. q\<lparr>fr_state := FollowupCancelled\<rparr>) (db w))"
    and fresh: "\<not> exists_row (\<lambda>q. fr_token q = fr_token r) (followup_requests d)"
    and w': "db w' = d\<lparr>followup_requests := followup_requests d @
          [r\<lparr>fr_prompt_id := 0, fr_inbox_id := 0, fr_state := FollowupPending\<rparr>]\<rparr>"
    using CreateFollowupRequest_ok by blast
  have dok: "followups_ok d" "followups_grow (db w) d"
    using cancel_followups_evolves [of "db w" "\<lambda>q. fr_conv q = fr_conv r \<and> fr_user q = fr_user r"] ok
    by (simp_all add: evolving_def d)
  have shut: "\<not> followup_open q" if "q \<in> set (followup_requests d)" "fr_conv q = fr_conv r" "fr_user q = fr_user r" for q
    using that by (auto simp: d update_followups_def set_update_rows fr_conv_def followup_open_def split: if_splits)
  have "followups_ok (db w')"
    using dok(1) fresh shut
    by (auto simp: followups_ok_def w' keys_unique_snoc prompts_unique_def claims_unique_def fr_conv_def)
  moreover have "followups_grow d (db w')"
    unfolding followups_grow_def w' using followup_continues_refl by auto
  ultimately show "followups_ok (db w') \<and> followups_grow (db w) (db w')"
    using dok(2) followups.K_trans by blast
qed (simp add: CreateFollowupRequest_def)

lemma finish_continues:
  "fr_state r = FollowupPending \<or> fr_state r = FollowupCancelled \<Longrightarrow> state \<in> {FollowupDelivered, FollowupUncertain}
   \<Longrightarrow> followup_continues r (finish_prompt state mid r)"
  by (cases r) (auto simp: followup_continues_def finish_prompt_def followup_edge_def)

lemma FinishFollowupPrompt_evolves: "followups_evolve (FinishFollowupPrompt token inst messageID sent)"
  unfolding FinishFollowupPrompt_def Let_def
proof (intro followups.rel.follows_rules followup_update_evolves)
  show "followup_continues r (finish_prompt (if sent \<and> 0 < messageID then FollowupDelivered else FollowupUncertain)
      (if sent \<and> 0 < messageID then messageID else 0) r)" if "finishable token inst r" for r
    using that by (intro finish_continues) (auto simp: finishable_def)
qed (auto simp: update_followups_def finishable_def finish_prompt_def followup_open_def same_claims followups_ok_def)

lemma ConsumeFollowupRequest_evolves: "followups_evolve (ConsumeFollowupRequest now r iid)"
proof -
  have "evolving followups_ok followups_grow d (snd (update_followups (claimable_followup now r iid d)
      (\<lambda>q. q\<lparr>fr_state := FollowupConsumed, fr_inbox_id := iid\<rparr>) d))"
    if unique: "claims_unique (followup_requests (snd (update_followups (claimable_followup now r iid d)
      (\<lambda>q. q\<lparr>fr_state := FollowupConsumed, fr_inbox_id := iid\<rparr>) d)))" for d
  proof (rule followup_update_evolves)
    show "followup_continues q (q\<lparr>fr_state := FollowupConsumed, fr_inbox_id := iid\<rparr>)"
      if "claimable_followup now r iid d q" for q
      using that by (cases q) (auto simp: followup_continues_def claimable_followup_def followup_edge_def)
    show "claims_unique (update_rows (claimable_followup now r iid d)
        (\<lambda>q. q\<lparr>fr_state := FollowupConsumed, fr_inbox_id := iid\<rparr>) (followup_requests d))"
      using unique by (simp add: update_followups_def)
  qed (auto simp: followup_open_def same_prompts followups_ok_def)
  then show ?thesis
    unfolding ConsumeFollowupRequest_def
    by (intro followups.rel.follows_rules) (auto simp: Let_def split: prod.splits if_splits, metis snd_conv)
qed

lemma distinct_filter_delete:
  "distinct (map f (filter p rows)) \<Longrightarrow> distinct (map f (filter p (delete_rows q rows)))"
  by (induction rows) (auto simp: set_delete_rows)

lemma cleanup_followups_step: "follows (evolving followups_ok followups_step) (CleanupFollowupRequests now cutoff)"
proof -
  have step: "evolving followups_ok followups_step d
      (d\<lparr>followup_requests := delete_rows (\<lambda>r. fr_token r \<in> set (expired_batch now cutoff d)) (followup_requests d)\<rparr>)" for d
  proof -
    let ?d' = "d\<lparr>followup_requests := delete_rows (\<lambda>r. fr_token r \<in> set (expired_batch now cutoff d)) (followup_requests d)\<rparr>"
    have "followups_ok ?d'" if "followups_ok d"
    proof -
      have "prompts_unique (followup_requests ?d')"
        using that by (simp add: followups_ok_def prompts_unique_def distinct_filter_delete)
      moreover have "claims_unique (followup_requests ?d')"
        using that by (simp add: followups_ok_def claims_unique_def distinct_filter_delete)
      ultimately show ?thesis
        using that unfolding followups_ok_def by (auto simp: set_delete_rows)
    qed
    moreover have "followups_step d ?d'" if "followups_ok d"
      unfolding followups_step_def
    proof
      fix r assume r: "r \<in> set (followup_requests d)"
      show "(\<exists>r' \<in> set (followup_requests ?d'). followup_continues r r') \<or> (\<exists>now cutoff. followup_expired now cutoff d r)"
      proof (cases "fr_token r \<in> set (expired_batch now cutoff d)")
        case True
        then obtain q where "q \<in> set (followup_requests d)" "followup_expired now cutoff d q" "fr_token q = fr_token r"
          by (auto simp: expired_batch_def table_simps dest!: in_set_takeD)
        then have "followup_expired now cutoff d r"
          using that r keys_unique_eq [of fr_token "followup_requests d" q r] by (auto simp: followups_ok_def)
        then show ?thesis by blast
      qed (use r followup_continues_refl in \<open>auto simp: set_delete_rows\<close>)
    qed
    ultimately show ?thesis by (simp add: evolving_def)
  qed
  show ?thesis
  proof (intro follows_success)
    show "evolving followups_ok followups_step d d" for d
      unfolding evolving_def followups_step_def using followup_continues_refl by blast
    fix w x w' assume "CleanupFollowupRequests now cutoff w = (Inr x, w')"
    then have "db w' = (db w)\<lparr>followup_requests := delete_rows
        (\<lambda>r. fr_token r \<in> set (expired_batch now cutoff (db w))) (followup_requests (db w))\<rparr>"
      by (auto simp: CleanupFollowupRequests_def sql_ok Let_def)
    then show "evolving followups_ok followups_step (db w) (db w')" using step by simp
  qed (simp add: CleanupFollowupRequests_def)
qed

text \<open>Only the cleanup removes prompts.\<close>

lemma followup_ops:
  "store_op codec decode m \<Longrightarrow> follows (evolving followups_ok followups_grow) m
     \<or> (\<exists>now cutoff. m = discard (CleanupFollowupRequests now cutoff))"
proof (induction rule: store_op.induct)
  case (op_CleanupFollowupRequests now cutoff)
  show ?case by blast
qed (rule disjI1, rule followups.drop_result,
    (rule CreateFollowupRequest_evolves FinishFollowupPrompt_evolves ConsumeFollowupRequest_evolves
       CancelFollowupRequests_evolves
     | rule followups.outside, rule footprints, simp))+

lemma discard_db: "discard m w = (res, w') \<Longrightarrow> \<exists>r. m w = (r, w')"
  by (auto simp: discard_def bind_def give_def split: prod.splits sum.splits)

lemma cleanup_followups_expired:
  assumes "followups_ok (db w)" and "CleanupFollowupRequests now cutoff w = (res, w')"
  shows "set (followup_requests (db w')) \<subseteq> set (followup_requests (db w))
    \<and> (\<forall>r \<in> set (followup_requests (db w)). r \<in> set (followup_requests (db w')) \<or> followup_expired now cutoff (db w) r)"
proof (cases res)
  case (Inl e)
  have "db w' = db w"
    using assms(2) atomicD [of "CleanupFollowupRequests now cutoff" w e w']
    by (simp add: Inl CleanupFollowupRequests_def)
  then show ?thesis by simp
next
  case (Inr n)
  have rows: "followup_requests (db w') = delete_rows
      (\<lambda>r. fr_token r \<in> set (expired_batch now cutoff (db w))) (followup_requests (db w))"
    using assms(2) unfolding Inr by (auto simp: CleanupFollowupRequests_def sql_ok Let_def)
  have "followup_expired now cutoff (db w) r"
    if r: "r \<in> set (followup_requests (db w))" and batch: "fr_token r \<in> set (expired_batch now cutoff (db w))" for r
  proof -
    obtain q where "q \<in> set (followup_requests (db w))" "followup_expired now cutoff (db w) q" "fr_token q = fr_token r"
      using batch by (auto simp: expired_batch_def table_simps dest!: in_set_takeD)
    then show ?thesis
      using r keys_unique_eq [of fr_token "followup_requests (db w)" q r] assms(1) by (auto simp: followups_ok_def)
  qed
  then show ?thesis by (auto simp: rows set_delete_rows)
qed

interpretation followup_life: store_evolution followups_ok followups_grow "{TFollowups}" followups_step
proof unfold_locales
  show "followups_ok empty_database"
    by (simp add: followups_ok_def empty_database_def keys_unique_def prompts_unique_def claims_unique_def)
  show "followups_step d d'" if "followups_grow d d'" for d d'
    using that by (auto simp: followups_grow_def followups_step_def)
  show "follows (evolving followups_ok followups_grow) m \<or> follows (evolving followups_ok followups_step) m"
    if "store_op codec decode m" for codec decode m
    using followup_ops [OF that] follows_discard [OF cleanup_followups_step] by blast
qed

section \<open>A delivered prompt\<close>

definition sample_prompt :: followup_request where
  "sample_prompt = \<lparr>fr_token = ''t'', fr_instance = ''i'', fr_bot = 1, fr_chat = 3, fr_thread = 4, fr_user = 8,
     fr_prompt_id = 70, fr_task_id = 2, fr_inbox_id = 0, fr_workspace = ''w'', fr_session = ''/s/a.jsonl'',
     fr_generation = 1, fr_expires_at = 500, fr_state = FollowupDelivered\<rparr>"

definition sample_prompted :: database where
  "sample_prompted = after (FinishFollowupPrompt ''t'' ''i'' 70 True)
     (after (CreateFollowupRequest sample_prompt) (after (Save sample_binding) sample_db))"

lemma sample_prompted_reachable: "reachable sample_codec sample_decoder sample_prompted"
  unfolding sample_prompted_def
  by (intro reachable_after op_FinishFollowupPrompt op_CreateFollowupRequest op_Save sample_reachable)

lemma sample_prompted_eq:
  "sample_prompted = sample_db\<lparr>bindings := [sample_binding], followup_requests := [sample_prompt]\<rparr>"
proof -
  have save: "after (Save sample_binding) sample_db = sample_db\<lparr>bindings := [sample_binding]\<rparr>"
    by (simp add: after_def Save_def sql_run sample_db_eq empty_database_def sample_binding_def migrationGuard_def
        migrationSessionGuard_def upsert_binding_def archive_binding_def find_binding_def starting_def b_conv_def Let_def)
  show ?thesis
    unfolding sample_prompted_def save
    by (simp add: after_def CreateFollowupRequest_def FinishFollowupPrompt_def sql_run sample_db_eq empty_database_def
        update_followups_def sample_prompt_def finishable_def finish_prompt_def prompts_unique_def)
qed

section \<open>The contract\<close>

text \<open>C24: In every reachable database follow-up prompts have distinct tokens and distinct prompt
  messages, every input claims at most one prompt, and a user has at most one open prompt in a
  conversation.\<close>

theorem followup_invariant:
  assumes "reachable codec decode d"
  shows "keys_unique fr_token (followup_requests d) \<and> prompts_unique (followup_requests d)
    \<and> claims_unique (followup_requests d)
    \<and> (\<forall>r \<in> set (followup_requests d). \<forall>q \<in> set (followup_requests d).
         followup_open r \<and> followup_open q \<and> fr_conv r = fr_conv q \<and> fr_user r = fr_user q \<longrightarrow> r = q)"
  using followup_life.holds [OF assms] by (simp add: followups_ok_def)

theorem followup_invariant_witness:
  "followup_requests sample_prompted \<noteq> [] \<and> prompts_unique (followup_requests sample_prompted)"
  using followup_invariant [OF sample_prompted_reachable] by (simp add: sample_prompted_eq)

text \<open>C23: Whatever a store call does, failed or not, a follow-up prompt keeps its token, owner, binding
  and expiry; it moves only from pending to delivered or uncertain, from delivered to consumed, or
  from either open state to cancelled; and a consumed prompt never changes. No call but the cleanup removes a
  prompt, and a cleanup, at whatever time and retention cutoff it runs, changes no prompt and removes only
  those that have expired by that time, expired before that cutoff, and were not claimed by an input that is
  still pending or submitted.\<close>

theorem followup_lifecycle:
  assumes "reachable codec decode (db w)" and "store_op codec decode m" and "m w = (res, w')"
  shows "(followups_grow (db w) (db w') \<or> (\<exists>now cutoff. m = discard (CleanupFollowupRequests now cutoff)))
    \<and> (\<forall>now cutoff. m = discard (CleanupFollowupRequests now cutoff) \<longrightarrow>
         set (followup_requests (db w')) \<subseteq> set (followup_requests (db w))
       \<and> (\<forall>r \<in> set (followup_requests (db w)). r \<in> set (followup_requests (db w'))
            \<or> (fr_expires_at r \<le> now \<and> fr_expires_at r < cutoff
                \<and> \<not> (\<exists>i \<in> set (inbox (db w)). in_id i = fr_inbox_id r \<and> in_state i \<in> {InboxPending, InboxSubmitted}))))"
proof
  have ok: "followups_ok (db w)" by (rule followup_life.holds [OF assms(1)])
  show "followups_grow (db w) (db w') \<or> (\<exists>now cutoff. m = discard (CleanupFollowupRequests now cutoff))"
    using followup_ops [OF assms(2)] followsD [of "evolving followups_ok followups_grow" m w res w'] assms(3) ok
    by (auto simp: evolving_def)
  show "\<forall>now cutoff. m = discard (CleanupFollowupRequests now cutoff) \<longrightarrow>
         set (followup_requests (db w')) \<subseteq> set (followup_requests (db w))
       \<and> (\<forall>r \<in> set (followup_requests (db w)). r \<in> set (followup_requests (db w'))
            \<or> (fr_expires_at r \<le> now \<and> fr_expires_at r < cutoff
                \<and> \<not> (\<exists>i \<in> set (inbox (db w)). in_id i = fr_inbox_id r \<and> in_state i \<in> {InboxPending, InboxSubmitted})))"
  proof (intro allI impI)
    fix now cutoff assume m: "m = discard (CleanupFollowupRequests now cutoff)"
    obtain r where "CleanupFollowupRequests now cutoff w = (r, w')" using assms(3) discard_db unfolding m by blast
    from cleanup_followups_expired [OF ok this]
    show "set (followup_requests (db w')) \<subseteq> set (followup_requests (db w))
       \<and> (\<forall>r \<in> set (followup_requests (db w)). r \<in> set (followup_requests (db w'))
            \<or> (fr_expires_at r \<le> now \<and> fr_expires_at r < cutoff
                \<and> \<not> (\<exists>i \<in> set (inbox (db w)). in_id i = fr_inbox_id r \<and> in_state i \<in> {InboxPending, InboxSubmitted})))"
      by (auto simp: followup_expired_def exists_row_iff)
  qed
qed

theorem followup_lifecycle_witness:
  "sample_prompt \<in> set (followup_requests (after (CleanupFollowupRequests 499 900) sample_prompted))"
proof -
  let ?m = "discard (CleanupFollowupRequests 499 900)"
  obtain res w' where run: "?m (healthy sample_prompted) = (res, w')" by (cases "?m (healthy sample_prompted)")
  from discard_db [OF run] have w': "db w' = after (CleanupFollowupRequests 499 900) sample_prompted"
    by (auto simp: after_def)
  have reach: "reachable sample_codec sample_decoder (db (healthy sample_prompted))"
    using sample_prompted_reachable by (simp add: healthy_def)
  have kept: "r \<in> set (followup_requests (db w')) \<or> fr_expires_at r \<le> 499" if "r \<in> set (followup_requests sample_prompted)" for r
    using followup_lifecycle [OF reach op_CleanupFollowupRequests run] that by (auto simp: healthy_def)
  from kept [of sample_prompt] show ?thesis by (simp add: w' sample_prompted_eq) (simp add: sample_prompt_def)
qed

lemma ConsumeFollowupRequest_True:
  "ConsumeFollowupRequest now r iid w = (Inr True, w') \<Longrightarrow>
     count_rows (claimable_followup now r iid (db w)) (followup_requests (db w)) = 1
   \<and> db w' = (db w)\<lparr>followup_requests := update_rows (claimable_followup now r iid (db w))
        (\<lambda>p. p\<lparr>fr_state := FollowupConsumed, fr_inbox_id := iid\<rparr>) (followup_requests (db w))\<rparr>"
  by (auto simp: ConsumeFollowupRequest_def sql_ok stmt_ok update_followups_def split: if_split_asm)

text \<open>C25: Consuming a prompt either leaves the database as it was, or it found the one delivered,
  unexpired prompt with the given token, prompt message, owner and binding, whose binding is running and whose
  input is pending; that prompt alone is then recorded as consumed by the input, and a second
  consumption of it, whatever the time, the input and the driver, never reports success.\<close>

theorem ConsumeFollowupRequest_once:
  assumes "reachable codec decode (db w)" and "ConsumeFollowupRequest now r iid w = (res, w')"
  shows "if res = Inr True
    then \<exists>q. claimable_followup now r iid (db w) q
       \<and> {p \<in> set (followup_requests (db w)). claimable_followup now r iid (db w) p} = {q}
       \<and> db w' = (db w)\<lparr>followup_requests := update_rows (\<lambda>p. p = q)
            (\<lambda>p. p\<lparr>fr_state := FollowupConsumed, fr_inbox_id := iid\<rparr>) (followup_requests (db w))\<rparr>
       \<and> (\<forall>v now' iid'. db v = db w' \<longrightarrow> fst (ConsumeFollowupRequest now' r iid' v) \<noteq> Inr True)
    else db w' = db w"
proof (cases "res = Inr True")
  case False
  then have "db w' = db w"
    using assms(2) atomicD [of "ConsumeFollowupRequest now r iid" w _ w']
    by (cases res) (auto simp: ConsumeFollowupRequest_def sql_ok stmt_ok split: if_split_asm)
  with False show ?thesis by simp
next
  case True
  let ?c = "claimable_followup now r iid (db w)" and ?rows = "followup_requests (db w)"
  have one: "count_rows ?c ?rows = 1" and w': "db w' = (db w)\<lparr>followup_requests := update_rows ?c
      (\<lambda>p. p\<lparr>fr_state := FollowupConsumed, fr_inbox_id := iid\<rparr>) ?rows\<rparr>"
    using ConsumeFollowupRequest_True [of now r iid w w'] assms(2) True by simp_all
  have keys: "keys_unique fr_token ?rows" using followup_life.holds [OF assms(1)] by (simp add: followups_ok_def)
  obtain q where q: "q \<in> set ?rows" "?c q" using one count_rows_pos [of ?c ?rows] by auto
  have only: "p = q" if "p \<in> set ?rows" "fr_token p = fr_token r" for p
    using keys_unique_eq [OF keys that(1) q(1)] that(2) q(2) by (simp add: claimable_followup_def)
  have same: "?c p \<longleftrightarrow> p = q" if "p \<in> set ?rows" for p
    using only [OF that] q(2) by (auto simp: claimable_followup_def)
  have rows: "update_rows ?c f ?rows = update_rows (\<lambda>p. p = q) f ?rows" for f
    using same by (simp add: update_rows_def)
  have "fr_state p = FollowupConsumed" if "p \<in> set (followup_requests (db w'))" "fr_token p = fr_token r" for p
  proof -
    have "p \<in> (\<lambda>p. if p = q then p\<lparr>fr_state := FollowupConsumed, fr_inbox_id := iid\<rparr> else p) ` set ?rows"
      using that(1) unfolding w' rows by (simp add: set_update_rows)
    then show ?thesis
    proof (rule imageE)
      fix x assume p: "p = (if x = q then x\<lparr>fr_state := FollowupConsumed, fr_inbox_id := iid\<rparr> else x)" and x: "x \<in> set ?rows"
      have "fr_token x = fr_token p" by (simp add: p)
      then have "x = q" using only [OF x] that(2) by simp
      then show ?thesis by (simp add: p)
    qed
  qed
  then have none: "count_rows (claimable_followup now' r iid' (db w')) (followup_requests (db w')) = 0" for now' iid'
    unfolding count_rows_0 claimable_followup_def by fastforce
  have "fst (ConsumeFollowupRequest now' r iid' v) \<noteq> Inr True" if "db v = db w'" for now' iid' v
    using ConsumeFollowupRequest_True [of now' r iid' v] none that
    by (metis prod.collapse zero_neq_one)
  moreover have "{p \<in> set ?rows. ?c p} = {q}" using same q by blast
  moreover have "db w' = (db w)\<lparr>followup_requests := update_rows (\<lambda>p. p = q)
      (\<lambda>p. p\<lparr>fr_state := FollowupConsumed, fr_inbox_id := iid\<rparr>) ?rows\<rparr>"
    using w' unfolding rows .
  ultimately show ?thesis unfolding if_P [OF True] using q(2) by (intro exI [of _ q]) blast
qed

theorem ConsumeFollowupRequest_once_witness:
  "fst (ConsumeFollowupRequest 201 sample_prompt 5
     (healthy (after (ConsumeFollowupRequest 200 sample_prompt 5) sample_prompted))) \<noteq> Inr True"
proof -
  have run: "ConsumeFollowupRequest 200 sample_prompt 5 (healthy sample_prompted) =
      (Inr True, healthy (after (ConsumeFollowupRequest 200 sample_prompt 5) sample_prompted))"
    by (simp add: after_def ConsumeFollowupRequest_def sql_run sample_prompted_eq sample_db_eq empty_database_def
        sample_prompt_def sample_binding_def claimable_followup_def claims_unique_def update_followups_def fr_conv_def b_conv_def)
  have "reachable sample_codec sample_decoder (db (healthy sample_prompted))"
    using sample_prompted_reachable by simp
  from ConsumeFollowupRequest_once [OF this run]
  have "\<forall>v now' iid'. db v = db (healthy (after (ConsumeFollowupRequest 200 sample_prompt 5) sample_prompted))
      \<longrightarrow> fst (ConsumeFollowupRequest now' sample_prompt iid' v) \<noteq> Inr True"
    unfolding simp_thms(6) if_True by blast
  then show ?thesis by blast
qed

end
