(* ===== verification/GoStrings.thy ===== *)
theory GoStrings
  imports GoText
begin

text \<open>
  The functions of Go's \<open>strings\<close>, \<open>unicode\<close> and \<open>unicode/utf8\<close> packages that the Markdown code
  of \<open>internal/telegram\<close> uses, over byte strings.
\<close>

section \<open>Lines\<close>

definition newline :: char where
  "newline = CHR 0x0A"

definition tab :: char where
  "tab = CHR 0x09"

lemma newline_code [simp]: "of_char newline = (10 :: nat)"
  by (simp add: newline_def)

lemma tab_code [simp]: "of_char tab = (9 :: nat)"
  by (simp add: tab_def)

text \<open>\<open>strings.Split(s, sep)\<close> with a one-byte separator.\<close>

fun split_on :: "char \<Rightarrow> string \<Rightarrow> string list" where
  "split_on c [] = [[]]"
| "split_on c (x # s) =
     (if x = c then [] # split_on c s
      else (case split_on c s of [] \<Rightarrow> [[x]] | l # ls \<Rightarrow> (x # l) # ls))"

abbreviation split_lines :: "string \<Rightarrow> string list" where
  "split_lines \<equiv> split_on newline"

text \<open>\<open>strings.Join\<close>.\<close>

fun join :: "string \<Rightarrow> string list \<Rightarrow> string" where
  "join sep [] = []"
| "join sep [x] = x"
| "join sep (x # y # xs) = x @ sep @ join sep (y # xs)"

abbreviation join_lines :: "string list \<Rightarrow> string" where
  "join_lines \<equiv> join [newline]"

lemma split_on_nonempty [simp]: "split_on c s \<noteq> []"
  by (cases s) (auto split: list.splits)

lemma join_Cons: "xs \<noteq> [] \<Longrightarrow> join sep (x # xs) = x @ sep @ join sep xs"
  by (cases xs) simp_all

lemma join_split [simp]: "join [c] (split_on c s) = s"
proof (induction s)
  case (Cons x s)
  show ?case
  proof (cases "x = c")
    case False
    obtain l ls where split: "split_on c s = l # ls" by (cases "split_on c s") auto
    then show ?thesis using Cons False by (cases ls) auto
  qed (use Cons in \<open>simp add: join_Cons\<close>)
qed simp

lemma split_on_append: "c \<notin> set x \<Longrightarrow> split_on c (x @ s) = (case split_on c s of l # ls \<Rightarrow> (x @ l) # ls | [] \<Rightarrow> [])"
  by (induction x) (auto split: list.splits)

lemma split_on_line [simp]: "c \<notin> set x \<Longrightarrow> split_on c x = [x]"
  using split_on_append [of c x "[]"] by simp

lemma split_on_sep: "c \<notin> set x \<Longrightarrow> split_on c (x @ c # s) = x # split_on c s"
  using split_on_append [of c x "c # s"] by simp

lemma split_join: "xs \<noteq> [] \<Longrightarrow> \<forall>x \<in> set xs. c \<notin> set x \<Longrightarrow> split_on c (join [c] xs) = xs"
  by (induction "[c]" xs rule: join.induct) (auto simp: split_on_sep)

lemma split_on_parts: "l \<in> set (split_on c s) \<Longrightarrow> c \<notin> set l"
  by (induction s arbitrary: l) (auto split: if_splits list.splits)

lemma split_on_chars: "l \<in> set (split_on c s) \<Longrightarrow> set l \<subseteq> set s"
  by (induction s arbitrary: l) (auto split: if_splits list.splits, fastforce+)

lemma length_join: "xs \<noteq> [] \<Longrightarrow> length (join [c] xs) + 1 = sum_list (map (\<lambda>l. length l + 1) xs)"
  by (induction "[c]" xs rule: join.induct) auto

lemma join_append: "xs \<noteq> [] \<Longrightarrow> ys \<noteq> [] \<Longrightarrow> join sep (xs @ ys) = join sep xs @ sep @ join sep ys"
  by (induction sep xs rule: join.induct) (auto simp: join_Cons)

section \<open>White space\<close>

text \<open>\<open>unicode.IsSpace\<close>.\<close>

definition is_space :: "rune \<Rightarrow> bool" where
  "is_space r \<longleftrightarrow> (9 \<le> r \<and> r \<le> 13) \<or> r = 32 \<or> r = 133 \<or> r = 160 \<or> r = 5760 \<or> (8192 \<le> r \<and> r \<le> 8202)
     \<or> r = 8232 \<or> r = 8233 \<or> r = 8239 \<or> r = 8287 \<or> r = 12288"

text \<open>\<open>utf8.DecodeLastRuneInString\<close>: it steps over at most three continuation bytes to a byte that may
  start a rune and decodes from there.\<close>

definition rune_start :: "char \<Rightarrow> bool" where
  "rune_start c \<longleftrightarrow> \<not> continuation (of_char c)"

definition last_start :: "string \<Rightarrow> nat" where
  "last_start s = (case find (\<lambda>j. j \<le> length s \<and> rune_start (s ! (length s - j))) [2, 3, 4] of
       Some j \<Rightarrow> length s - j
     | None \<Rightarrow> length s - 5)"

definition decode_last_rune :: "string \<Rightarrow> rune \<times> nat" where
  "decode_last_rune s =
     (if s = [] then (rune_error, 0)
      else if of_char (last s) < (128 :: nat) then (of_char (last s), 1)
      else (case decode_rune (drop (last_start s) s) of
         (r, n) \<Rightarrow> if last_start s + n \<noteq> length s then (rune_error, 1) else (r, n)))"

lemma decode_last_rune_size: "s \<noteq> [] \<Longrightarrow> 0 < snd (decode_last_rune s) \<and> snd (decode_last_rune s) \<le> length s"
proof -
  assume s: "s \<noteq> []"
  have "last_start s < length s"
    using s by (auto simp: last_start_def find_Some_iff split: option.splits)
  then have "drop (last_start s) s \<noteq> []" by simp
  from decode_rune_size [OF this] s show ?thesis
    by (auto simp: decode_last_rune_def Suc_le_eq split: prod.splits)
qed

definition trim_left_func :: "(rune \<Rightarrow> bool) \<Rightarrow> string \<Rightarrow> string" where
  "trim_left_func p s = concat (map snd (dropWhile (p \<circ> fst) (runes s)))"

function trim_right_func :: "(rune \<Rightarrow> bool) \<Rightarrow> string \<Rightarrow> string" where
  "trim_right_func p s =
     (if s = [] then []
      else if p (fst (decode_last_rune s)) then trim_right_func p (take (length s - snd (decode_last_rune s)) s)
      else s)"
  by pat_completeness auto
termination
  using decode_last_rune_size by (relation "measure (\<lambda>(p, s). length s)") auto

declare trim_right_func.simps [simp del]

definition trim_space :: "string \<Rightarrow> string" where
  "trim_space s = trim_right_func is_space (trim_left_func is_space s)"

text \<open>\<open>strings.TrimLeft\<close>, \<open>TrimRight\<close> with a cut set of ASCII bytes.\<close>

definition trim_left :: "char list \<Rightarrow> string \<Rightarrow> string" where
  "trim_left cutset s = dropWhile (\<lambda>c. c \<in> set cutset) s"

definition trim_right :: "char list \<Rightarrow> string \<Rightarrow> string" where
  "trim_right cutset s = rev (dropWhile (\<lambda>c. c \<in> set cutset) (rev s))"

definition trim_prefix :: "string \<Rightarrow> string \<Rightarrow> string" where
  "trim_prefix s p = (if has_prefix s p then drop (length p) s else s)"

lemma set_trim_left_func: "set (trim_left_func p s) \<subseteq> set s"
proof -
  have "set (concat (map snd (dropWhile (p \<circ> fst) (runes s)))) \<subseteq> set (concat (map snd (runes s)))"
    using set_dropWhileD [of _ "p \<circ> fst" "runes s"] by fastforce
  then show ?thesis by (simp only: trim_left_func_def concat_runes)
qed

lemma trim_right_func_prefix: "prefix (trim_right_func p s) s"
proof (induction p s rule: trim_right_func.induct)
  case (1 p s)
  show ?case
  proof (cases "s \<noteq> [] \<and> p (fst (decode_last_rune s))")
    case True
    then have "prefix (trim_right_func p s) (take (length s - snd (decode_last_rune s)) s)"
      using 1 by (subst trim_right_func.simps) simp
    then show ?thesis using take_is_prefix prefix_order.order_trans by blast
  qed (subst trim_right_func.simps, auto)
qed

lemma set_trim_space: "set (trim_space s) \<subseteq> set s"
  using set_mono_prefix [OF trim_right_func_prefix] set_trim_left_func unfolding trim_space_def by fast

section \<open>Searching and replacing\<close>

definition repeat_char :: "char \<Rightarrow> nat \<Rightarrow> string" where
  "repeat_char c n = replicate n c"

definition rune_count :: "string \<Rightarrow> nat" where
  "rune_count s = length (runes s)"

text \<open>\<open>strings.NewReplacer(old1, "", old2, "", ...)\<close>: at every position the first old string that matches is
  removed, without looking at the result again.\<close>

function remove_all :: "string list \<Rightarrow> string \<Rightarrow> string" where
  "remove_all olds s =
     (case s of [] \<Rightarrow> []
      | c # t \<Rightarrow> (case find (\<lambda>old. old \<noteq> [] \<and> has_prefix s old) olds of
          Some old \<Rightarrow> remove_all olds (drop (length old) s)
        | None \<Rightarrow> c # remove_all olds t))"
  by pat_completeness auto
termination by (relation "measure (length \<circ> snd)") (auto simp: find_Some_iff diff_less length_greater_0_conv)

declare remove_all.simps [simp del]

section \<open>ASCII text\<close>

definition ascii :: "string \<Rightarrow> bool" where
  "ascii s \<longleftrightarrow> (\<forall>c \<in> set s. of_char c < (128 :: nat))"

lemma ascii_simps [simp]:
  "ascii []" "ascii (c # s) \<longleftrightarrow> of_char c < (128 :: nat) \<and> ascii s" "ascii (s @ t) \<longleftrightarrow> ascii s \<and> ascii t"
  by (auto simp: ascii_def)

lemma ascii_runes: "ascii s \<Longrightarrow> runes s = map (\<lambda>c. (of_char c, [c])) s"
  by (induction s) (simp_all add: runes_ascii)

lemma ascii_units: "ascii s \<Longrightarrow> text_units s = length s"
  by (induction s) (simp_all add: text_units_def ascii_runes rune_units_def)

lemma ascii_trim_left: "ascii s \<Longrightarrow> trim_left_func p s = dropWhile (\<lambda>c. p (of_char c)) s"
  by (induction s) (simp_all add: trim_left_func_def ascii_runes comp_def)

lemma ascii_trim_right: "ascii s \<Longrightarrow> trim_right_func p s = rev (dropWhile (\<lambda>c. p (of_char c)) (rev s))"
proof (induction s rule: rev_induct)
  case (snoc c s)
  have "decode_last_rune (s @ [c]) = (of_char c, 1)" using snoc.prems by (simp add: decode_last_rune_def)
  then show ?case using snoc by (subst trim_right_func.simps) simp
qed (simp add: trim_right_func.simps)

lemma ascii_trim_space_empty:
  assumes s: "ascii s"
  shows "trim_space s = [] \<longleftrightarrow> (\<forall>c \<in> set s. is_space (of_char c))"
proof -
  let ?p = "\<lambda>c. is_space (of_char c)"
  let ?l = "dropWhile ?p s"
  have "set ?l \<subseteq> set s" using set_dropWhileD by fast
  then have "ascii ?l" using s by (auto simp: ascii_def)
  then have "trim_space s = [] \<longleftrightarrow> (\<forall>c \<in> set ?l. ?p c)"
    using s by (simp add: trim_space_def ascii_trim_left ascii_trim_right)
  also have "\<dots> \<longleftrightarrow> ?l = []"
  proof (cases "?l = []")
    case False
    then have "\<not> ?p (hd ?l)" by (rule hd_dropWhile)
    with False show ?thesis using hd_in_set [OF False] by (simp only: simp_thms) blast
  next
    case True
    show ?thesis unfolding True by simp
  qed
  finally show ?thesis by (simp add: dropWhile_eq_Nil_conv)
qed

end
