(* ===== verification/MarkdownText.thy ===== *)
theory MarkdownText
  imports GoStrings
begin

text \<open>
  Text measures and literal splitting (\<open>internal/telegram/markdown.go\<close>): HTML escaping, the UTF-16 length
  Telegram sees, cutting text at rune boundaries, and fenced blocks that carry text verbatim.
  Lengths and limits are Go \<open>int\<close>s; they stay far below $2^{63}$ because they count bytes of strings in memory.
\<close>

section \<open>Escaping and lengths\<close>

definition escape_char :: "char \<Rightarrow> string" where
  "escape_char c = (if c = CHR ''&'' then ''&amp;'' else if c = CHR ''<'' then ''&lt;''
     else if c = CHR ''>'' then ''&gt;'' else [c])"

definition escapeHTML :: "string \<Rightarrow> string" where
  "escapeHTML s = concat (map escape_char s)"

definition literalUTF16Len :: "string \<Rightarrow> int" where
  "literalUTF16Len s = sum_list (map (\<lambda>p. if 65535 < fst p then 2 else 1) (runes s))"

definition utf16Len :: "string \<Rightarrow> int" where
  "utf16Len s = int (text_units s)"

definition skip_tag :: "string \<Rightarrow> string" where
  "skip_tag s = tl (dropWhile (\<lambda>c. c \<noteq> CHR ''>'') s)"

definition entity_length :: "string \<Rightarrow> nat" where
  "entity_length s =
     (if has_prefix s ''&amp;'' then 5
      else if has_prefix s ''&lt;'' \<or> has_prefix s ''&gt;'' then 4
      else if has_prefix s ''&quot;'' then 6
      else 1)"

function renderedUTF16Len :: "string \<Rightarrow> int" where
  "renderedUTF16Len html =
     (case html of [] \<Rightarrow> 0
      | c # rest \<Rightarrow>
          if c = CHR ''<'' then
            (if CHR ''>'' \<in> set html then renderedUTF16Len (skip_tag html) else 1 + renderedUTF16Len rest)
          else if c = CHR ''&'' then 1 + renderedUTF16Len (drop (entity_length html) html)
          else int (rune_units (fst (decode_rune html))) + renderedUTF16Len (drop (snd (decode_rune html)) html))"
  by pat_completeness auto
termination
proof (relation "measure length")
  fix c and html rest :: string assume "html = c # rest"
  then have s: "html \<noteq> []" by simp
  have "length (skip_tag html) \<le> length (tl html)" if "c = CHR ''<''"
    using that \<open>html = c # rest\<close> length_dropWhile_le [of "\<lambda>c. c \<noteq> CHR ''>''" rest] by (simp add: skip_tag_def)
  then show "c = CHR ''<'' \<Longrightarrow> (skip_tag html, html) \<in> measure length"
    using s \<open>html = c # rest\<close> by simp
  show "(drop (entity_length html) html, html) \<in> measure length"
    using s by (simp add: entity_length_def)
  show "(drop (snd (decode_rune html)) html, html) \<in> measure length"
    using s decode_rune_size(1) [OF s] by simp
qed auto

declare renderedUTF16Len.simps [simp del]

fun plain_loop :: "string \<Rightarrow> bool \<Rightarrow> bool \<Rightarrow> bool" where
  "plain_loop [] text spaces \<longleftrightarrow> \<not> spaces \<or> text"
| "plain_loop (c # s) text spaces =
     (let b = of_char c :: nat in
      if (97 \<le> b \<and> b \<le> 122) \<or> (65 \<le> b \<and> b \<le> 90) \<or> (48 \<le> b \<and> b \<le> 57) then plain_loop s True spaces
      else if c = CHR '' '' then plain_loop s text True
      else if c = newline then (if spaces \<and> \<not> text then False else plain_loop s False False)
      else False)"

definition plainASCIIText :: "string \<Rightarrow> bool" where
  "plainASCIIText s = plain_loop s False False"

definition MaxMessageUTF16 :: int where
  "MaxMessageUTF16 = 4096"

section \<open>Cutting\<close>

text \<open>\<open>for i, r := range s\<close> with the text before \<open>i\<close> kept.\<close>

fun clip_loop :: "(rune \<times> string) list \<Rightarrow> int \<Rightarrow> int \<Rightarrow> string" where
  "clip_loop [] units used = []"
| "clip_loop ((r, piece) # rest) units used =
     (let sz = int (rune_units r)
      in if units < used + sz then [] else piece @ clip_loop rest units (used + sz))"

definition clipUnits :: "string \<Rightarrow> int \<Rightarrow> string" where
  "clipUnits s units = (if units \<le> 0 then [] else clip_loop (runes s) units 0)"

text \<open>\<open>cur\<close> is \<open>s[start:i]\<close>.\<close>

fun hard_split :: "(rune \<times> string) list \<Rightarrow> int \<Rightarrow> string list \<Rightarrow> string \<Rightarrow> int \<Rightarrow> string list" where
  "hard_split [] limit acc cur n = (if cur \<noteq> [] \<or> acc = [] then acc @ [cur] else acc)"
| "hard_split ((r, piece) # rest) limit acc cur n =
     (let sz = int (rune_units r)
      in if limit < n + sz then hard_split rest limit (acc @ [cur]) piece sz
         else hard_split rest limit acc (cur @ piece) (n + sz))"

definition hardSplitUnits :: "string \<Rightarrow> int \<Rightarrow> string list" where
  "hardSplitUnits s limit = hard_split (runes s) limit [] [] 0"

section \<open>Fences\<close>

definition isFence :: "string \<Rightarrow> bool" where
  "isFence trimmed \<longleftrightarrow> has_prefix trimmed ''```'' \<or> has_prefix trimmed ''~~~''"

definition fenceMarker :: "string \<Rightarrow> string" where
  "fenceMarker trimmed = repeat_char (hd trimmed) (length (takeWhile (\<lambda>c. c = hd trimmed) trimmed))"

text \<open>\<open>rest\<close> are the lines from index \<open>i\<close> on.\<close>

fun fence_loop :: "string \<Rightarrow> string list \<Rightarrow> nat \<Rightarrow> string list \<Rightarrow> string list \<times> nat" where
  "fence_loop marker [] i body = (body, i)"
| "fence_loop marker (line # rest) i body =
     (if trim_space line = marker then (body, i + 1) else fence_loop marker rest (i + 1) (body @ [line]))"

definition collectFence :: "string list \<Rightarrow> nat \<Rightarrow> string list \<times> nat" where
  "collectFence lines start =
     fence_loop (fenceMarker (trim_space (lines ! start))) (drop (start + 1) lines) (start + 1) []"

definition longest_marker :: "string \<Rightarrow> string list \<Rightarrow> int \<Rightarrow> int" where
  "longest_marker marker lines longest = fold (\<lambda>line longest. let line = trim_space line in
     if length marker \<le> length line \<and> (\<forall>c \<in> set line. c = hd marker) then max longest (int (length line)) else longest)
     lines longest"

definition literalFence :: "string \<Rightarrow> string \<Rightarrow> string" where
  "literalFence str marker =
     (let longest = longest_marker marker (split_lines str) (int (length marker) - 1);
          marker' = (if int (length marker) \<le> longest then repeat_char (hd marker) (nat (longest + 1)) else marker)
      in marker' @ [newline] @ str @ [newline] @ marker')"

record literal_state =
  ls_parts :: "string list"
  ls_chunk :: string
  ls_units :: int

definition literal_flush :: "string \<Rightarrow> literal_state \<Rightarrow> literal_state" where
  "literal_flush marker st =
     (if ls_chunk st \<noteq> []
      then \<lparr>ls_parts = ls_parts st @ [literalFence (ls_chunk st) marker], ls_chunk = [], ls_units = 0\<rparr>
      else st)"

definition appendPiece :: "string \<Rightarrow> int \<Rightarrow> string \<Rightarrow> int \<Rightarrow> literal_state \<Rightarrow> literal_state" where
  "appendPiece marker limit piece sz st =
     (let st = (if limit < ls_units st + sz then literal_flush marker st else st)
      in st\<lparr>ls_chunk := ls_chunk st @ piece, ls_units := ls_units st + sz\<rparr>)"

definition literal_line :: "string \<Rightarrow> int \<Rightarrow> string \<Rightarrow> literal_state \<Rightarrow> literal_state" where
  "literal_line marker limit line st =
     (let sz = literalUTF16Len line
      in if sz \<le> limit then appendPiece marker limit line sz st
         else fold (\<lambda>piece. appendPiece marker limit piece (literalUTF16Len piece))
                (hardSplitUnits line limit) (literal_flush marker st))"

text \<open>The loop cuts the text at its newlines.\<close>

fun literal_loop :: "string \<Rightarrow> int \<Rightarrow> string list \<Rightarrow> literal_state \<Rightarrow> literal_state" where
  "literal_loop marker limit [] st = st"
| "literal_loop marker limit [line] st = literal_line marker limit line st"
| "literal_loop marker limit (line # rest) st =
     literal_loop marker limit rest (appendPiece marker limit [newline] 1 (literal_line marker limit line st))"

definition splitLiteralBlock :: "string \<Rightarrow> string \<Rightarrow> int \<Rightarrow> string list" where
  "splitLiteralBlock str marker limit =
     (let st = literal_flush marker (literal_loop marker limit (split_lines str)
                 \<lparr>ls_parts = [], ls_chunk = [], ls_units = 0\<rparr>)
      in if ls_parts st = [] then [literalFence [] marker] else ls_parts st)"

definition splitFenceBlock :: "string list \<Rightarrow> string \<Rightarrow> int \<Rightarrow> string list" where
  "splitFenceBlock body marker limit = splitLiteralBlock (join_lines body) marker limit"

section \<open>Tails\<close>

text \<open>\<open>previewTailStart\<close>: the byte offset of the longest suffix of at most \<open>limit\<close> units.\<close>

function tail_loop :: "string \<Rightarrow> int \<Rightarrow> int \<Rightarrow> nat" where
  "tail_loop s limit units =
     (if s = [] then 0
      else if limit < units + int (rune_units (fst (decode_last_rune s))) then length s
      else tail_loop (take (length s - snd (decode_last_rune s)) s) limit
             (units + int (rune_units (fst (decode_last_rune s)))))"
  by pat_completeness auto
termination
  using decode_last_rune_size by (relation "measure (\<lambda>(s, limit, units). length s)") auto

declare tail_loop.simps [simp del]

definition previewTailStart :: "string \<Rightarrow> int \<Rightarrow> nat" where
  "previewTailStart str limit = tail_loop str limit 0"

text \<open>\<open>rev_lines\<close> are the lines still to visit, last first; \<open>kept\<close> the lines after them.\<close>

fun source_tail :: "string list \<Rightarrow> string list \<Rightarrow> int \<Rightarrow> string list" where
  "source_tail [] kept remaining = kept"
| "source_tail (line # rev_lines) kept remaining =
     (let remaining = (if kept = [] then remaining else remaining - 1)
      in if kept \<noteq> [] \<and> remaining < 0 then kept
         else (let start = previewTailStart line remaining
               in if 0 < start then drop start line # kept
                  else source_tail rev_lines (line # kept) (remaining - utf16Len line)))"

definition previewSourceTail :: "string list \<Rightarrow> int \<Rightarrow> string" where
  "previewSourceTail lines limit =
     (if lines = [] \<or> limit \<le> 0 then [] else join_lines (source_tail (rev lines) [] limit))"

text \<open>The longest runs of backticks and of tildes.\<close>

fun marker_runs :: "(rune \<times> string) list \<Rightarrow> rune \<Rightarrow> nat \<Rightarrow> nat \<Rightarrow> nat \<Rightarrow> nat \<times> nat" where
  "marker_runs [] previous run backticks tildes = (backticks, tildes)"
| "marker_runs ((r, piece) # rest) previous run backticks tildes =
     (let run = (if r \<noteq> previous then 0 else run) + 1
      in marker_runs rest r run (if r = 96 then max backticks run else backticks)
           (if r = 126 then max tildes run else tildes))"

end
