(* ===== verification/MarkdownBlocks.thy ===== *)
theory MarkdownBlocks
  imports MarkdownText
begin

text \<open>
  Block structure of Markdown (\<open>internal/telegram/markdown.go\<close>): the line patterns, the collectors that decide
  where a block ends, the blank-line separated blocks, and tables. The regular expressions are written as
  the deterministic matchers they are: no pattern needs backtracking beyond the cases noted at it.
\<close>

section \<open>Line patterns\<close>

text \<open>The class \<open>\s\<close>; \<open>inlineLinkSpace\<close> is the same set.\<close>

definition inlineLinkSpace :: "char \<Rightarrow> bool" where
  "inlineLinkSpace c \<longleftrightarrow> c \<in> {CHR '' '', CHR 0x09, CHR 0x0A, CHR 0x0C, CHR 0x0D}"

definition is_digit :: "char \<Rightarrow> bool" where
  "is_digit c \<longleftrightarrow> 48 \<le> (of_char c :: nat) \<and> of_char c \<le> (57 :: nat)"

text \<open>\<open>^\s{0,3}(#{1,6})\s+(.+)$\<close>, group 2. When nothing but spaces follows the marks, \<open>\s+\<close> gives the last
  one back to \<open>.+\<close>.\<close>

definition heading_text :: "string \<Rightarrow> string option" where
  "heading_text rest =
     (let spaces = takeWhile inlineLinkSpace rest; body = dropWhile inlineLinkSpace rest
      in if spaces = [] then None
         else if body \<noteq> [] then (if newline \<in> set body then None else Some body)
         else if 2 \<le> length spaces \<and> last spaces \<noteq> newline then Some [last spaces] else None)"

definition headingRe :: "string \<Rightarrow> string option" where
  "headingRe line =
     (let rest = dropWhile inlineLinkSpace line; marks = takeWhile (\<lambda>c. c = CHR ''#'') rest
      in if length (takeWhile inlineLinkSpace line) \<le> 3 \<and> 1 \<le> length marks \<and> length marks \<le> 6
         then heading_text (drop (length marks) rest) else None)"

text \<open>\<open>^\s*(?:-{3,}|\*{3,}|_{3,})\s*$\<close>\<close>

definition ruleRe :: "string \<Rightarrow> bool" where
  "ruleRe line =
     (let core = rev (dropWhile inlineLinkSpace (rev (dropWhile inlineLinkSpace line)))
      in 3 \<le> length core \<and> hd core \<in> {CHR ''-'', CHR ''*'', CHR ''_''} \<and> (\<forall>c \<in> set core. c = hd core))"

text \<open>\<open>^(\s*)([-*+]|\d{1,9}[.)])\s+(.*)$\<close>: indentation, marker and text.\<close>

definition item_marker :: "string \<Rightarrow> string option" where
  "item_marker rest =
     (case rest of [] \<Rightarrow> None
      | c # _ \<Rightarrow>
          if c \<in> {CHR ''-'', CHR ''*'', CHR ''+''} then Some [c]
          else (let digits = takeWhile is_digit rest; after = dropWhile is_digit rest
                in if 1 \<le> length digits \<and> length digits \<le> 9 \<and> after \<noteq> [] \<and> hd after \<in> {CHR ''.'', CHR '')''}
                   then Some (digits @ [hd after]) else None))"

definition listItemRe :: "string \<Rightarrow> (string \<times> string \<times> string) option" where
  "listItemRe line =
     (let rest = dropWhile inlineLinkSpace line
      in case item_marker rest of
           None \<Rightarrow> None
         | Some marker \<Rightarrow>
             (let after = drop (length marker) rest; body = dropWhile inlineLinkSpace after
              in if after \<noteq> [] \<and> inlineLinkSpace (hd after) \<and> newline \<notin> set body
                 then Some (takeWhile inlineLinkSpace line, marker, body) else None))"

text \<open>\<open>^\s*\|?[\s:|-]*-[\s:|-]*\|?\s*$\<close>: the optional parts at both ends are in the class.\<close>

definition tableDelim :: "string \<Rightarrow> bool" where
  "tableDelim line \<longleftrightarrow> CHR ''-'' \<in> set line
     \<and> (\<forall>c \<in> set line. inlineLinkSpace c \<or> c \<in> {CHR '':'', CHR ''|'', CHR ''-''})"

text \<open>The destination part of a link, after \<open>](\<close>: \<open>\s*([^\s)]+)(?:\s+("[^"]*"|'[^']*'))?\s*\)\<close>, as the
  destination and the text after the link.\<close>

definition link_title :: "string \<Rightarrow> string option" where
  "link_title rest =
     (case rest of
        q # s \<Rightarrow> if q \<in> {CHR 0x22, CHR 0x27} \<and> q \<in> set s then Some (tl (dropWhile (\<lambda>c. c \<noteq> q) s)) else None
      | [] \<Rightarrow> None)"

definition link_close :: "string \<Rightarrow> string option" where
  "link_close rest = (case dropWhile inlineLinkSpace rest of
       c # after \<Rightarrow> if c = CHR '')'' then Some after else None
     | [] \<Rightarrow> None)"

definition href_char :: "char \<Rightarrow> bool" where
  "href_char c \<longleftrightarrow> \<not> inlineLinkSpace c \<and> c \<noteq> CHR '')''"

definition link_dest :: "string \<Rightarrow> (string \<times> string) option" where
  "link_dest s =
     (let start = dropWhile inlineLinkSpace s; href = takeWhile href_char start; rest = dropWhile href_char start
      in if href = [] then None
         else (case link_close rest of
             Some after \<Rightarrow> Some (href, after)
           | None \<Rightarrow>
               if rest \<noteq> [] \<and> inlineLinkSpace (hd rest)
               then (case link_title (dropWhile inlineLinkSpace rest) of
                   Some after_title \<Rightarrow> (case link_close after_title of Some after \<Rightarrow> Some (href, after) | None \<Rightarrow> None)
                 | None \<Rightarrow> None)
               else None))"

text \<open>The label \<open>((?:\\.|[^\]\\])*)\]\<close>, with the text after its bracket.\<close>

fun link_label :: "string \<Rightarrow> string \<Rightarrow> (string \<times> string) option" where
  "link_label [] label = None"
| "link_label (c # s) label =
     (if c = CHR '']'' then Some (label, s)
      else if c = CHR 0x5C
      then (case s of [] \<Rightarrow> None | e # t \<Rightarrow> if e = newline then None else link_label t (label @ [c, e]))
      else link_label s (label @ [c]))"

text \<open>\<open>linkRe\<close> at the beginning of \<open>s\<close>: the label and the text after the link.\<close>

definition linkRe :: "string \<Rightarrow> (string \<times> string) option" where
  "linkRe s =
     (let opener = trim_prefix s ''!''
      in if has_prefix opener ''['' then
           (case link_label (tl opener) [] of
              None \<Rightarrow> None
            | Some (label, rest) \<Rightarrow>
                if has_prefix rest ''('' then map_option (\<lambda>(href, after). (label, after)) (link_dest (tl rest)) else None)
         else None)"

section \<open>Blocks\<close>

datatype markdownBlockKind = markdownBlank | markdownFence | markdownTable | markdownHeading | markdownQuote
  | markdownRule | markdownList | markdownParagraph

record markdownBlock =
  block_kind :: markdownBlockKind
  block_end :: nat
  block_body :: "string list"

definition isTableStart :: "string list \<Rightarrow> nat \<Rightarrow> bool" where
  "isTableStart lines i \<longleftrightarrow>
     (if length lines \<le> i + 1 \<or> \<not> tableDelim (lines ! (i + 1)) then False
      else CHR ''|'' \<in> set (trim_space (lines ! i)) \<and> CHR ''|'' \<in> set (trim_space (lines ! (i + 1))))"

definition collectTable :: "string list \<Rightarrow> nat \<Rightarrow> string list \<times> nat" where
  "collectTable lines i =
     (let rows = takeWhile (\<lambda>l. CHR ''|'' \<in> set l \<and> trim_space l \<noteq> []) (drop i lines)
      in (map trim_space rows, i + length rows))"

definition blank_cut :: "char list" where
  "blank_cut = [CHR '' '', tab]"

definition collectQuote :: "string list \<Rightarrow> nat \<Rightarrow> string list \<times> nat" where
  "collectQuote lines start =
     (let quoted = takeWhile (\<lambda>l. has_prefix (trim_left blank_cut l) ''>'') (drop start lines)
      in (map (\<lambda>l. trim_left blank_cut (trim_prefix (trim_left blank_cut l) ''>'')) quoted, start + length quoted))"

definition paragraphBoundary :: "string list \<Rightarrow> nat \<Rightarrow> bool" where
  "paragraphBoundary lines i =
     (let line = lines ! i; trimmed = trim_space line
      in trimmed = [] \<or> isFence trimmed \<or> isTableStart lines i \<or> headingRe line \<noteq> None
         \<or> has_prefix trimmed ''>'' \<or> ruleRe line \<or> listItemRe line \<noteq> None)"

function paragraph_loop :: "string list \<Rightarrow> nat \<Rightarrow> nat" where
  "paragraph_loop lines i =
     (if i < length lines \<and> \<not> paragraphBoundary lines i then paragraph_loop lines (i + 1) else i)"
  by pat_completeness auto
termination by (relation "measure (\<lambda>(lines, i). length lines - i)") auto

declare paragraph_loop.simps [simp del]

lemma paragraph_loop_bounds: "i \<le> paragraph_loop lines i \<and> (i \<le> length lines \<longrightarrow> paragraph_loop lines i \<le> length lines)"
proof (induction lines i rule: paragraph_loop.induct)
  case (1 lines i)
  then show ?case by (subst (1 2) paragraph_loop.simps) auto
qed

definition paragraphEnd :: "string list \<Rightarrow> nat \<Rightarrow> nat" where
  "paragraphEnd lines start = paragraph_loop lines (start + 1)"

definition list_continues :: "string \<Rightarrow> bool" where
  "list_continues line \<longleftrightarrow> trim_space line \<noteq> []
     \<and> (listItemRe line \<noteq> None \<or> has_prefix line '' '' \<or> has_prefix line [tab])"

definition collectMarkdownBlock :: "string list \<Rightarrow> nat \<Rightarrow> markdownBlock" where
  "collectMarkdownBlock lines start =
     (let line = lines ! start; trimmed = trim_space line
      in if trimmed = [] then \<lparr>block_kind = markdownBlank, block_end = start + 1, block_body = []\<rparr>
         else if isFence trimmed
         then (case collectFence lines start of (body, e) \<Rightarrow>
             \<lparr>block_kind = markdownFence, block_end = e, block_body = body\<rparr>)
         else if isTableStart lines start
         then (case collectTable lines start of (body, e) \<Rightarrow>
             \<lparr>block_kind = markdownTable, block_end = e, block_body = body\<rparr>)
         else if headingRe line \<noteq> None
         then \<lparr>block_kind = markdownHeading, block_end = start + 1, block_body = []\<rparr>
         else if has_prefix trimmed ''>''
         then (case collectQuote lines start of (body, e) \<Rightarrow>
             \<lparr>block_kind = markdownQuote, block_end = e, block_body = body\<rparr>)
         else if ruleRe line
         then \<lparr>block_kind = markdownRule, block_end = start + 1, block_body = []\<rparr>
         else if listItemRe line \<noteq> None
         then \<lparr>block_kind = markdownList,
                block_end = start + 1 + length (takeWhile list_continues (drop (start + 1) lines)), block_body = []\<rparr>
         else \<lparr>block_kind = markdownParagraph, block_end = paragraphEnd lines start, block_body = []\<rparr>)"

text \<open>\<open>markdownBlocks\<close>: \<open>cur\<close> is the block being collected.\<close>

definition flush_block :: "string list \<Rightarrow> string list \<Rightarrow> string list" where
  "flush_block blocks cur = (if cur \<noteq> [] then blocks @ [join_lines cur] else blocks)"

definition fence_block :: "string list \<Rightarrow> nat \<Rightarrow> string list \<times> nat" where
  "fence_block lines i =
     (case collectFence lines i of (body, next) \<Rightarrow>
        (lines ! i # body @
           (if i < next - 1 \<and> trim_space (lines ! (next - 1)) = fenceMarker (trim_space (lines ! i))
            then [lines ! (next - 1)] else []), next))"

lemma fence_loop_end: "i \<le> snd (fence_loop marker rest i body) \<and> snd (fence_loop marker rest i body) \<le> i + length rest"
proof (induction rest arbitrary: i body)
  case (Cons line rest)
  show ?case using Cons [of "i + 1" "body @ [line]"] by simp
qed simp

lemma collectFence_end: "i < snd (collectFence lines i)"
  using fence_loop_end [of "i + 1" _ "drop (i + 1) lines" "[]"] by (simp add: collectFence_def Suc_le_eq)

lemma fence_block_end: "i < snd (fence_block lines i)"
  using collectFence_end [of i lines] by (auto simp: fence_block_def split: prod.splits)

lemma collectTable_end: "isTableStart lines i \<Longrightarrow> i < snd (collectTable lines i)"
proof -
  assume t: "isTableStart lines i"
  then have bar: "CHR ''|'' \<in> set (trim_space (lines ! i))" and i: "i < length lines"
    by (auto simp: isTableStart_def split: if_splits)
  then have "CHR ''|'' \<in> set (lines ! i)" using set_trim_space by blast
  moreover have "trim_space (lines ! i) \<noteq> []" using bar by auto
  moreover have "drop i lines = lines ! i # drop (i + 1) lines" using i by (simp add: Cons_nth_drop_Suc)
  ultimately show ?thesis by (simp add: collectTable_def)
qed

function blocks_loop :: "string list \<Rightarrow> nat \<Rightarrow> string list \<Rightarrow> string list \<Rightarrow> string list" where
  "blocks_loop lines i blocks cur =
     (if length lines \<le> i then flush_block blocks cur
      else if trim_space (lines ! i) = [] then blocks_loop lines (i + 1) (flush_block blocks cur) []
      else if isFence (trim_space (lines ! i))
      then blocks_loop lines (snd (fence_block lines i))
             (flush_block blocks cur @ [join_lines (fst (fence_block lines i))]) []
      else if isTableStart lines i
      then blocks_loop lines (snd (collectTable lines i))
             (flush_block blocks cur @ [join_lines (fst (collectTable lines i))]) []
      else blocks_loop lines (i + 1) blocks (cur @ [lines ! i]))"
  by pat_completeness auto
termination
  using fence_block_end collectTable_end
  by (relation "measure (\<lambda>(lines, i, blocks, cur). length lines - i)") (auto intro: diff_less_mono2)

declare blocks_loop.simps [simp del]

definition markdownBlocks :: "string \<Rightarrow> string list" where
  "markdownBlocks md = blocks_loop (split_lines md) 0 [] []"

section \<open>Tables\<close>

lemma link_label_rest: "link_label s label = Some (l, rest) \<Longrightarrow> length rest < length s"
  by (induction s label rule: link_label.induct) (auto split: if_splits list.splits)

lemma link_close_rest: "link_close s = Some after \<Longrightarrow> length after < length s"
  using length_dropWhile_le [of inlineLinkSpace s] by (auto simp: link_close_def split: list.splits if_splits)

lemma link_title_rest: "link_title s = Some after \<Longrightarrow> length after < length s"
proof -
  assume a: "link_title s = Some after"
  then obtain q t where s: "s = q # t" and after: "after = tl (dropWhile (\<lambda>c. c \<noteq> q) t)"
    by (auto simp: link_title_def split: list.splits if_splits)
  show ?thesis using length_dropWhile_le [of "\<lambda>c. c \<noteq> q" t] by (simp add: s after)
qed

lemma link_dest_rest: "link_dest s = Some (href, after) \<Longrightarrow> length after < length s"
proof -
  assume a: "link_dest s = Some (href, after)"
  let ?start = "dropWhile inlineLinkSpace s" and ?rest = "dropWhile href_char (dropWhile inlineLinkSpace s)"
  have "length ?rest \<le> length s"
    using length_dropWhile_le [of inlineLinkSpace s] length_dropWhile_le [of href_char ?start] by simp
  moreover have "length (dropWhile inlineLinkSpace ?rest) \<le> length ?rest" by (rule length_dropWhile_le)
  ultimately show ?thesis
    using a by (auto simp: link_dest_def Let_def split: if_splits option.splits
        dest!: link_close_rest link_title_rest)
qed

lemma linkRe_rest: "linkRe s = Some (label, after) \<Longrightarrow> length after < length s"
proof -
  assume a: "linkRe s = Some (label, after)"
  let ?opener = "trim_prefix s ''!''"
  have "length ?opener \<le> length s" by (simp add: trim_prefix_def)
  moreover obtain rest href where "link_label (tl ?opener) [] = Some (label, rest)" "link_dest (tl rest) = Some (href, after)"
    using a by (auto simp: linkRe_def Let_def split: if_splits option.splits)
  ultimately show ?thesis using link_label_rest [of "tl ?opener" "[]" label rest] link_dest_rest [of "tl rest" href after] by simp
qed

function strip_links :: "string \<Rightarrow> string" where
  "strip_links s =
     (case s of [] \<Rightarrow> []
      | c # t \<Rightarrow> (case linkRe s of
          Some m \<Rightarrow> fst m @ strip_links (snd m)
        | None \<Rightarrow> c # strip_links t))"
  by pat_completeness auto
termination by (relation "measure length") (auto dest: linkRe_rest)

declare strip_links.simps [simp del]

definition stripInlineMarks :: "string \<Rightarrow> string" where
  "stripInlineMarks s = remove_all [''**'', ''__'', ''~~'', [CHR 0x60]] (strip_links s)"

definition tableCells :: "string \<Rightarrow> string list" where
  "tableCells row =
     (let row = trim_suffix (trim_prefix (trim_space row) ''|'') ''|''
      in map (\<lambda>p. trim_space (stripInlineMarks p)) (split_on (CHR ''|'') row))"

datatype align = align_none | align_left | align_right | align_center

definition columnAligns :: "string list \<Rightarrow> align list" where
  "columnAligns delimiter = map (\<lambda>d.
     let left = has_prefix d '':''; right = has_suffix d '':''
     in if left \<and> right then align_center else if right then align_right
        else if left then align_left else align_none) delimiter"

definition maxTableWidth :: nat where
  "maxTableWidth = 48"

text \<open>\<open>label\<close>: an empty or missing header cell is called by its number.\<close>

definition column_label :: "string list \<Rightarrow> nat \<Rightarrow> string" where
  "column_label header c =
     (let label = (if c < length header then header ! c else [])
      in if label = [] then ''col'' @ nat_decimal (c + 1) else label)"

definition middle_dot :: string where
  "middle_dot = [CHR '' '', CHR 0xC2, CHR 0xB7, CHR '' '']"

definition compactTable :: "string list list \<Rightarrow> string list \<Rightarrow> nat \<Rightarrow> string" where
  "compactTable rows header columns = join_lines (map (\<lambda>row. join middle_dot (map (\<lambda>c.
       escapeHTML (column_label header c) @ '': '' @ escapeHTML (if c < length row then row ! c else []))
       [0..<columns])) (tl rows))"

definition column_widths :: "string list list \<Rightarrow> nat \<Rightarrow> nat list" where
  "column_widths rows columns = map (\<lambda>c. fold max (map (\<lambda>r. if c < length r then rune_count (r ! c) else 0) rows) 0)
     [0..<columns]"

definition pad_cell :: "align list \<Rightarrow> nat list \<Rightarrow> string \<Rightarrow> nat \<Rightarrow> string" where
  "pad_cell aligns widths cell c =
     (let missing = widths ! c - rune_count cell;
          align = (if c < length aligns then aligns ! c else align_none)
      in case align of
           align_right \<Rightarrow> repeat_char (CHR '' '') missing @ cell
         | align_center \<Rightarrow> (let left = missing div 2
             in repeat_char (CHR '' '') left @ cell @ repeat_char (CHR '' '') (missing - left))
         | _ \<Rightarrow> cell @ repeat_char (CHR '' '') missing)"

definition format_row :: "align list \<Rightarrow> nat list \<Rightarrow> nat \<Rightarrow> string list \<Rightarrow> string" where
  "format_row aligns widths columns r = trim_right [CHR '' ''] (join '' | '' (map (\<lambda>c.
     if c < length r then pad_cell aligns widths (r ! c) c else repeat_char (CHR '' '') (widths ! c)) [0..<columns]))"

definition table_lines :: "align list \<Rightarrow> nat list \<Rightarrow> nat \<Rightarrow> string list list \<Rightarrow> string list" where
  "table_lines aligns widths columns rows =
     format_row aligns widths columns (hd rows) # join '' | '' (map (repeat_char (CHR ''-'')) widths)
     # map (format_row aligns widths columns) (tl rows)"

definition table_rows :: "string list \<Rightarrow> string list list" where
  "table_rows lines = tableCells (lines ! 0) # map tableCells (drop 2 lines)"

definition renderTable :: "string list \<Rightarrow> string" where
  "renderTable lines =
     (if length lines < 2 then ''<pre>'' @ escapeHTML (join_lines lines) @ ''</pre>''
      else (let header = tableCells (lines ! 0);
                aligns = columnAligns (tableCells (lines ! 1));
                rows = table_rows lines;
                columns = fold max (map length rows) 0
            in if columns = 0 then []
               else (let widths = column_widths rows columns
                     in if maxTableWidth < sum_list widths + 3 * (columns - 1) then compactTable rows header columns
                        else ''<pre>'' @ escapeHTML (join_lines (table_lines aligns widths columns rows)) @ ''</pre>'')))"

text \<open>\<open>literalTableText\<close> shows the same cells and labels without escaping.\<close>

definition literalTableText :: "string list \<Rightarrow> string" where
  "literalTableText lines =
     (let header = tableCells (lines ! 0);
          rows = map tableCells (drop 2 lines);
          columns = fold max (map length rows) (length header);
          labels = map (column_label header) [0..<columns]
      in if rows = [] then join middle_dot labels
         else join_lines (map (\<lambda>row. join middle_dot (map (\<lambda>c.
                labels ! c @ '': '' @ (if c < length row then row ! c else [])) [0..<columns])) rows))"

end
