(* ===== verification/MarkdownInline.thy ===== *)
theory MarkdownInline
  imports MarkdownBlocks
begin

text \<open>
  The inline parser and renderer (\<open>internal/telegram/markdown_inline.go\<close>): tokens, links, delimiter matching, and
  HTML output. A token kind of the source is a constructor that holds the fields that kind uses.

  Whether a rune above the ASCII range is punctuation or a symbol depends on the Unicode tables of the Go
  toolchain; that classification is the parameter \<open>wide_punct\<close>, and every theorem holds for each
  classification.
\<close>

section \<open>Tokens\<close>

record inlineMatch =
  im_open :: nat
  im_width :: nat

record delimiter =
  dl_raw :: string
  dl_marker :: char
  dl_remaining :: nat
  dl_canOpen :: bool
  dl_canClose :: bool
  dl_previewOpen :: bool
  dl_opens :: "nat list"
  dl_closes :: "inlineMatch list"

datatype inlineToken =
    inlineText string
  | inlineEscape string string \<comment> \<open>raw, body\<close>
  | inlineDelimiter delimiter
  | inlineCode string string bool bool \<comment> \<open>raw, body, closed, previewOpen\<close>
  | inlineLink string string "inlineToken list" bool \<comment> \<open>raw, href, label, img\<close>

fun token_raw :: "inlineToken \<Rightarrow> string" where
  "token_raw (inlineText raw) = raw"
| "token_raw (inlineEscape raw body) = raw"
| "token_raw (inlineDelimiter d) = dl_raw d"
| "token_raw (inlineCode raw body closed previewOpen) = raw"
| "token_raw (inlineLink raw href label img) = raw"

type_synonym unicode_class = "rune \<Rightarrow> bool"

section \<open>Scanning\<close>

text \<open>\<open>s[a:b]\<close>\<close>

definition substr :: "string \<Rightarrow> nat \<Rightarrow> nat \<Rightarrow> string" where
  "substr s a b = take (b - a) (drop a s)"

definition inlinePunctuation :: "char \<Rightarrow> bool" where
  "inlinePunctuation c = (let b = of_char c :: nat
     in (33 \<le> b \<and> b \<le> 47) \<or> (58 \<le> b \<and> b \<le> 64) \<or> (91 \<le> b \<and> b \<le> 96) \<or> (123 \<le> b \<and> b \<le> 126))"

text \<open>\<open>unicode.IsPunct(r) || unicode.IsSymbol(r)\<close>\<close>

definition is_punct :: "unicode_class \<Rightarrow> rune \<Rightarrow> bool" where
  "is_punct wide_punct r =
     (if r < 128 then (33 \<le> r \<and> r \<le> 47) \<or> (58 \<le> r \<and> r \<le> 64) \<or> (91 \<le> r \<and> r \<le> 96) \<or> (123 \<le> r \<and> r \<le> 126)
      else wide_punct r)"

definition inlineRun :: "string \<Rightarrow> nat \<Rightarrow> nat" where
  "inlineRun s start = length (takeWhile (\<lambda>c. c = s ! start) (drop start s))"

definition index_byte :: "char \<Rightarrow> string \<Rightarrow> nat option" where
  "index_byte c s = (if c \<in> set s then Some (length (takeWhile (\<lambda>x. x \<noteq> c) s)) else None)"

lemma inlineRun_pos: "start < length s \<Longrightarrow> 0 < inlineRun s start"
  by (simp add: inlineRun_def flip: Cons_nth_drop_Suc)

lemma index_byte_less: "index_byte c s = Some n \<Longrightarrow> n < length s"
  by (induction s arbitrary: n) (auto simp: index_byte_def split: if_splits)

function inlineCodeEnd :: "string \<Rightarrow> nat \<Rightarrow> nat \<Rightarrow> nat option" where
  "inlineCodeEnd s start width =
     (if length s \<le> start then None
      else case index_byte (CHR 0x60) (drop start s) of
        None \<Rightarrow> None
      | Some off \<Rightarrow>
          (if inlineRun s (start + off) = width then Some (start + off)
           else inlineCodeEnd s (start + off + inlineRun s (start + off)) width))"
  by pat_completeness auto
termination
proof (relation "measure (\<lambda>(s, start, width). length s - start)")
  fix s :: string and start width off :: nat
  assume start: "\<not> length s \<le> start" and "index_byte (CHR 0x60) (drop start s) = Some off"
  then have "off < length (drop start s)" using index_byte_less by blast
  then have "start + off < length s" by simp
  then show "((s, start + off + inlineRun s (start + off), width), (s, start, width))
      \<in> measure (\<lambda>(s, start, width). length s - start)"
    using inlineRun_pos [of "start + off" s] by simp
qed simp

declare inlineCodeEnd.simps [simp del]

definition inlineEscaped :: "string \<Rightarrow> nat \<Rightarrow> bool" where
  "inlineEscaped s start \<longleftrightarrow> odd (length (takeWhile (\<lambda>c. c = CHR 0x5C) (rev (take start s))))"

text \<open>\<open>inlineFlanking\<close>: open, close, previewOpen.\<close>

definition inlineFlanking :: "unicode_class \<Rightarrow> string \<Rightarrow> nat \<Rightarrow> nat \<Rightarrow> bool \<times> bool \<times> bool" where
  "inlineFlanking wide_punct s start width =
     (let before = (if 0 < start then fst (decode_last_rune (take start s)) else 0);
          after = (if start + width < length s then fst (decode_rune (drop (start + width) s)) else 0);
          beforeSpace = (start = 0 \<or> is_space before);
          afterSpace = (start + width = length s \<or> is_space after);
          beforePunct = is_punct wide_punct before;
          afterPunct = is_punct wide_punct after;
          left = (\<not> afterSpace \<and> (\<not> afterPunct \<or> beforeSpace \<or> beforePunct));
          right = (\<not> beforeSpace \<and> (\<not> beforePunct \<or> afterSpace \<or> afterPunct));
          underscore = (s ! start = CHR ''_'' \<and> width = 1);
          open = (if underscore then left \<and> (\<not> right \<or> beforePunct) else left);
          close = (if underscore then right \<and> (\<not> left \<or> afterPunct) else right)
      in (open, close, open \<and> (beforeSpace \<or> beforePunct) \<and> \<not> afterPunct \<and> \<not> inlineEscaped s start))"

section \<open>Links\<close>

text \<open>\<open>inlineLinkDestinations\<close> walks backwards; \<open>dests\<close> maps the position of \<open>]\<close> to the end of the link and the
  bounds of its destination. A position of 0 stands for none.\<close>

record dest_state =
  ds_dests :: "nat \<rightharpoonup> nat \<times> nat \<times> nat"
  ds_closeEnd :: nat
  ds_spaceTail :: nat
  ds_doubleCloseEnd :: nat
  ds_singleCloseEnd :: nat
  ds_urlEnd :: nat
  ds_urlFinish :: nat
  ds_hrefStart :: nat
  ds_hrefEnd :: nat
  ds_end :: nat

definition dest_record :: "string \<Rightarrow> nat \<Rightarrow> dest_state \<Rightarrow> dest_state" where
  "dest_record s i st =
     (if s ! i = CHR ''('' \<and> 0 < i \<and> s ! (i - 1) = CHR '']'' \<and> 0 < ds_end st
      then st\<lparr>ds_dests := (ds_dests st)(i - 1 \<mapsto> (ds_end st, ds_hrefStart st, ds_hrefEnd st))\<rparr> else st)"

definition dest_title :: "char \<Rightarrow> dest_state \<Rightarrow> nat \<times> dest_state" where
  "dest_title c st =
     (if c = CHR 0x22 then (ds_doubleCloseEnd st, st\<lparr>ds_doubleCloseEnd := ds_closeEnd st\<rparr>)
      else if c = CHR 0x27 then (ds_singleCloseEnd st, st\<lparr>ds_singleCloseEnd := ds_closeEnd st\<rparr>)
      else (0, st))"

definition dest_tail :: "char \<Rightarrow> nat \<Rightarrow> nat \<Rightarrow> dest_state \<Rightarrow> dest_state" where
  "dest_tail c i titleEnd st =
     (if inlineLinkSpace c then st
      else if c = CHR '')'' then st\<lparr>ds_closeEnd := i + 1, ds_spaceTail := i + 1\<rparr>
      else if c = CHR 0x22 \<or> c = CHR 0x27 then st\<lparr>ds_closeEnd := 0, ds_spaceTail := titleEnd\<rparr>
      else st\<lparr>ds_closeEnd := 0, ds_spaceTail := 0\<rparr>)"

definition dest_url :: "char \<Rightarrow> nat \<Rightarrow> dest_state \<Rightarrow> dest_state" where
  "dest_url c i st =
     (let st = (if inlineLinkSpace c \<or> c = CHR '')'' then st\<lparr>ds_urlEnd := i, ds_urlFinish := ds_spaceTail st\<rparr> else st)
      in if inlineLinkSpace c then st
         else if c = CHR '')'' then st\<lparr>ds_end := 0\<rparr>
         else st\<lparr>ds_hrefStart := i, ds_hrefEnd := ds_urlEnd st, ds_end := ds_urlFinish st\<rparr>)"

definition dest_step :: "string \<Rightarrow> nat \<Rightarrow> dest_state \<Rightarrow> dest_state" where
  "dest_step s i st = (case dest_title (s ! i) (dest_record s i st) of
     (titleEnd, st) \<Rightarrow> dest_url (s ! i) i (dest_tail (s ! i) i titleEnd st))"

definition dest_start :: "string \<Rightarrow> dest_state" where
  "dest_start s = \<lparr>ds_dests = Map.empty, ds_closeEnd = 0, ds_spaceTail = 0, ds_doubleCloseEnd = 0,
     ds_singleCloseEnd = 0, ds_urlEnd = length s, ds_urlFinish = 0, ds_hrefStart = 0, ds_hrefEnd = 0, ds_end = 0\<rparr>"

definition inlineLinkDestinations :: "string \<Rightarrow> nat \<rightharpoonup> nat \<times> nat \<times> nat" where
  "inlineLinkDestinations s = ds_dests (fold (dest_step s) (rev [0..<length s]) (dest_start s))"

record linkMatch =
  lm_start :: nat
  lm_end :: nat
  lm_label_start :: nat
  lm_label_end :: nat
  lm_href_start :: nat
  lm_href_end :: nat

definition link_matches :: "string \<Rightarrow> nat \<Rightarrow> nat \<times> nat \<times> nat \<Rightarrow> nat list \<Rightarrow> linkMatch list" where
  "link_matches s i dest pending = map (\<lambda>open. \<lparr>
     lm_start = (if 0 < open \<and> s ! (open - 1) = CHR ''!'' then open - 1 else open), lm_end = fst dest,
     lm_label_start = open + 1, lm_label_end = i, lm_href_start = fst (snd dest), lm_href_end = snd (snd dest)\<rparr>) pending"

function links_loop :: "string \<Rightarrow> (nat \<rightharpoonup> nat \<times> nat \<times> nat) \<Rightarrow> nat \<Rightarrow> nat list \<Rightarrow> linkMatch list \<Rightarrow> linkMatch list" where
  "links_loop s dests i pending found =
     (if length s \<le> i then found
      else if s ! i = CHR 0x5C \<and> i + 1 < length s then
        (if s ! (i + 1) = newline then links_loop s dests (i + 2) [] found
         else if s ! (i + 1) = CHR ''!'' \<and> i + 2 < length s \<and> s ! (i + 2) = CHR ''[''
         then links_loop s dests (i + 3) pending found
         else links_loop s dests (i + 2) pending found)
      else if s ! i = CHR ''['' then links_loop s dests (i + 1) (pending @ [i]) found
      else if s ! i = CHR '']'' then
        links_loop s dests (i + 1) []
          (case dests i of Some dest \<Rightarrow> found @ link_matches s i dest pending | None \<Rightarrow> found)
      else links_loop s dests (i + 1) pending found)"
  by pat_completeness auto
termination by (relation "measure (\<lambda>(s, dests, i, pending, found). length s - i)") auto

declare links_loop.simps [simp del]

definition inlineLinks :: "string \<Rightarrow> linkMatch list" where
  "inlineLinks s = (if CHR ''['' \<in> set s then links_loop s (inlineLinkDestinations s) 0 [] [] else [])"


section \<open>Parsing\<close>

definition flush_text :: "string \<Rightarrow> nat \<Rightarrow> nat \<Rightarrow> inlineToken list \<Rightarrow> inlineToken list" where
  "flush_text s plain e tokens = (if plain < e then tokens @ [inlineText (substr s plain e)] else tokens)"

text \<open>A code body that begins and ends with a space, and is not blank, loses one on each side.\<close>

definition code_body :: "string \<Rightarrow> string" where
  "code_body body =
     (if 2 \<le> length body \<and> hd body = CHR '' '' \<and> last body = CHR '' '' \<and> (\<exists>c \<in> set body. c \<noteq> CHR '' '')
      then butlast (tl body) else body)"

definition code_token :: "string \<Rightarrow> nat \<Rightarrow> inlineToken \<times> nat" where
  "code_token s i =
     (let width = inlineRun s i
      in case inlineCodeEnd s (i + width) width of
           None \<Rightarrow> (inlineCode (drop i s) (drop (i + width) s) False (\<not> inlineEscaped s i), length s)
         | Some e \<Rightarrow> (inlineCode (substr s i (e + width)) (code_body (substr s (i + width) e)) True False, e + width))"

definition escaped_before :: "inlineToken list \<Rightarrow> char \<Rightarrow> bool" where
  "escaped_before tokens c \<longleftrightarrow> tokens \<noteq> [] \<and>
     (case last tokens of inlineEscape raw body \<Rightarrow> has_suffix body [c] | _ \<Rightarrow> False)"

definition delimiter_token :: "unicode_class \<Rightarrow> string \<Rightarrow> nat \<Rightarrow> inlineToken list \<Rightarrow> inlineToken" where
  "delimiter_token wide_punct s i tokens =
     (let width = inlineRun s i
      in case inlineFlanking wide_punct s i width of
           (open, close, previewOpen) \<Rightarrow> inlineDelimiter \<lparr>dl_raw = substr s i (i + width), dl_marker = s ! i,
             dl_remaining = width, dl_canOpen = open, dl_canClose = close,
             dl_previewOpen = (previewOpen \<and> \<not> escaped_before tokens (s ! i)), dl_opens = [], dl_closes = []\<rparr>)"

definition link_token :: "(string \<Rightarrow> inlineToken list) \<Rightarrow> string \<Rightarrow> linkMatch \<Rightarrow> inlineToken" where
  "link_token parse_label s m =
     (let raw = substr s (lm_start m) (lm_end m)
      in inlineLink raw (substr s (lm_href_start m) (lm_href_end m))
           (parse_label (substr s (lm_label_start m) (lm_label_end m))) (hd raw = CHR ''!''))"

lemma code_token_end: "i < length s \<Longrightarrow> i < snd (code_token s i)"
proof -
  assume i: "i < length s"
  have "start \<le> e" if "inlineCodeEnd s start width = Some e" for start width e
    using that
  proof (induction s start width rule: inlineCodeEnd.induct)
    case (1 s start width)
    from "1.prems" show ?case
      by (subst (asm) inlineCodeEnd.simps) (auto split: if_splits option.splits dest: "1.IH")
  qed
  from this [of "i + inlineRun s i" "inlineRun s i"] show ?thesis
    using inlineRun_pos [OF i] i by (fastforce simp: code_token_def Let_def split: option.splits)
qed

text \<open>\<open>matches\<close> are the link candidates from \<open>linkIndex\<close> on. A candidate ends after it starts
  (\<open>inlineLinks_extent\<close> below), so the test of its end is never false.\<close>

function parse_loop :: "unicode_class \<Rightarrow> (string \<Rightarrow> inlineToken list) \<Rightarrow> string \<Rightarrow> linkMatch list
    \<Rightarrow> nat \<Rightarrow> nat \<Rightarrow> inlineToken list \<Rightarrow> inlineToken list" where
  "parse_loop wide_punct parse_label s matches i plain tokens =
     (if length s \<le> i then flush_text s plain (length s) tokens
      else let matches = dropWhile (\<lambda>m. lm_start m < i) matches; flushed = flush_text s plain i tokens
      in if s ! i = CHR 0x5C \<and> i + 1 < length s \<and> inlinePunctuation (s ! (i + 1))
         then parse_loop wide_punct parse_label s matches (i + 2) (i + 2)
                (flushed @ [inlineEscape (substr s i (i + 2)) (substr s (i + 1) (i + 2))])
         else if s ! i = CHR 0x60
         then parse_loop wide_punct parse_label s matches (snd (code_token s i)) (snd (code_token s i))
                (flushed @ [fst (code_token s i)])
         else if matches \<noteq> [] \<and> lm_start (hd matches) = i \<and> i < lm_end (hd matches)
         then parse_loop wide_punct parse_label s matches (lm_end (hd matches)) (lm_end (hd matches))
                (flushed @ [link_token parse_label s (hd matches)])
         else if s ! i = CHR ''*'' \<or> s ! i = CHR ''_'' \<or> s ! i = CHR ''~''
         then (if s ! i \<noteq> CHR ''~'' \<or> 2 \<le> inlineRun s i
               then parse_loop wide_punct parse_label s matches (i + inlineRun s i) (i + inlineRun s i)
                      (flushed @ [delimiter_token wide_punct s i flushed])
               else parse_loop wide_punct parse_label s matches (i + inlineRun s i) plain tokens)
         else parse_loop wide_punct parse_label s matches (i + 1) plain tokens)"
  by pat_completeness auto
termination
  using code_token_end inlineRun_pos
  by (relation "measure (\<lambda>(wide_punct, parse_label, s, matches, i, plain, tokens). length s - i)")
    (auto intro: diff_less_mono2)

declare parse_loop.simps [simp del]

section \<open>Matching delimiters\<close>

type_synonym floors = "char \<times> bool \<times> nat \<Rightarrow> nat"

definition floor_key :: "delimiter \<Rightarrow> char \<times> bool \<times> nat" where
  "floor_key d = (dl_marker d, dl_canOpen d, length (dl_raw d) mod 3)"

definition the_delimiter :: "inlineToken \<Rightarrow> delimiter" where
  "the_delimiter t = (case t of inlineDelimiter d \<Rightarrow> d)"

definition eligible :: "delimiter \<Rightarrow> delimiter \<Rightarrow> bool" where
  "eligible opener current \<longleftrightarrow>
     \<not> (dl_marker opener \<noteq> dl_marker current \<or> dl_remaining opener = 0)
     \<and> \<not> (dl_marker current \<noteq> CHR ''~'' \<and> (dl_canClose opener \<or> dl_canOpen current)
          \<and> (length (dl_raw opener) + length (dl_raw current)) mod 3 = 0
          \<and> (length (dl_raw opener) mod 3 \<noteq> 0 \<or> length (dl_raw current) mod 3 \<noteq> 0))"

text \<open>The stack of token indices, top first; the result is the stack down to the opener found.\<close>

fun find_opener :: "inlineToken list \<Rightarrow> nat \<Rightarrow> delimiter \<Rightarrow> nat list \<Rightarrow> nat list" where
  "find_opener tokens floor current [] = []"
| "find_opener tokens floor current (j # stack) =
     (if j < floor then []
      else if eligible (the_delimiter (tokens ! j)) current then j # stack
      else find_opener tokens floor current stack)"

definition match_width :: "delimiter \<Rightarrow> delimiter \<Rightarrow> nat" where
  "match_width opener current = (if 2 \<le> dl_remaining opener \<and> 2 \<le> dl_remaining current then 2 else 1)"

definition spent :: "delimiter \<Rightarrow> bool" where
  "spent d \<longleftrightarrow> dl_remaining d = 0 \<or> (dl_marker d = CHR ''~'' \<and> dl_remaining d < 2)"

definition open_match :: "nat \<Rightarrow> delimiter \<Rightarrow> delimiter" where
  "open_match width opener =
     opener\<lparr>dl_opens := dl_opens opener @ [width], dl_remaining := dl_remaining opener - width\<rparr>"

definition close_match :: "nat \<Rightarrow> nat \<Rightarrow> delimiter \<Rightarrow> delimiter" where
  "close_match index width current =
     current\<lparr>dl_closes := dl_closes current @ [\<lparr>im_open = index, im_width = width\<rparr>],
       dl_remaining := dl_remaining current - width\<rparr>"

function close_loop :: "nat \<Rightarrow> delimiter \<Rightarrow> inlineToken list \<Rightarrow> nat list \<Rightarrow> floors
    \<Rightarrow> delimiter \<times> inlineToken list \<times> nat list \<times> floors" where
  "close_loop i current tokens stack floors =
     (if spent current then (current, tokens, stack, floors)
      else case find_opener tokens (floors (floor_key current)) current stack of
        [] \<Rightarrow> (current, tokens, stack, floors(floor_key current := i))
      | index # rest \<Rightarrow>
          (let opener = the_delimiter (tokens ! index);
               width = match_width opener current;
               opener' = open_match width opener
           in close_loop i (close_match index width current) (tokens[index := inlineDelimiter opener'])
                (if spent opener' then rest else index # rest) floors))"
  by pat_completeness auto
termination
  by (relation "measure (\<lambda>(i, current, tokens, stack, floors). dl_remaining current)")
    (auto simp: close_match_def match_width_def spent_def)

declare close_loop.simps [simp del]

definition match_token :: "nat \<Rightarrow> inlineToken list \<times> nat list \<times> floors \<Rightarrow> inlineToken list \<times> nat list \<times> floors" where
  "match_token i st = (case st of (tokens, stack, floors) \<Rightarrow>
     (case tokens ! i of
        inlineDelimiter d \<Rightarrow>
          (case (if dl_canClose d then close_loop i d tokens stack floors else (d, tokens, stack, floors)) of
             (d', tokens', stack', floors') \<Rightarrow>
               (tokens'[i := inlineDelimiter d'],
                if dl_canOpen d' \<and> \<not> spent d' then i # stack' else stack', floors'))
      | _ \<Rightarrow> st))"

definition matchInlineDelimiters :: "inlineToken list \<Rightarrow> inlineToken list" where
  "matchInlineDelimiters tokens = fst (fold match_token [0..<length tokens] (tokens, [], \<lambda>_. 0))"

text \<open>Labels are parsed without links, so the recursion is one level deep.\<close>

definition parse_label :: "unicode_class \<Rightarrow> string \<Rightarrow> inlineToken list" where
  "parse_label wide_punct s = matchInlineDelimiters (parse_loop wide_punct (\<lambda>_. []) s [] 0 0 [])"

definition parseInline :: "unicode_class \<Rightarrow> string \<Rightarrow> bool \<Rightarrow> inlineToken list" where
  "parseInline wide_punct s links =
     (if links then matchInlineDelimiters (parse_loop wide_punct (parse_label wide_punct) s (inlineLinks s) 0 0 [])
      else parse_label wide_punct s)"

end
