(* ===== verification/MarkdownConvert.thy ===== *)
theory MarkdownConvert
  imports MarkdownInline
begin

text \<open>
  Conversion of Markdown to Telegram's HTML subset (\<open>markdown.go\<close>, \<open>markdown_inline.go\<close>): the inline renderer with
  its stack of open tags, and the block converter. \<open>ConvertMarkdown\<close> is a partial function: its loop returns
  to the same line when a quote block collects nothing, so not returning is the value \<^term>\<open>None\<close>.
\<close>

section \<open>Rendering inline tokens\<close>

record inlineTag =
  tag_name :: string
  tag_href :: string

record inlineSpan =
  sp_body :: string
  sp_tags :: "inlineTag list"
  sp_code :: bool

text \<open>\<open>rn_underflow\<close> records that a closing delimiter found no active tag, where the slice expression of the
  source would panic.\<close>

record inlineRenderer =
  rn_out :: string
  rn_active :: "inlineTag list"
  rn_emitted :: "inlineTag list"
  rn_spans :: "inlineSpan list option"
  rn_underflow :: bool

fun common_tags :: "inlineTag list \<Rightarrow> inlineTag list \<Rightarrow> nat" where
  "common_tags (t # ts) (u # us) = (if t = u then 1 + common_tags ts us else 0)"
| "common_tags _ _ = 0"

definition quote_attr :: "string \<Rightarrow> string" where
  "quote_attr s = concat (map (\<lambda>c. if c = CHR 0x22 then ''&quot;'' else [c]) s)"

definition open_tag :: "inlineTag \<Rightarrow> string" where
  "open_tag t = (if tag_name t = ''a'' then ''<a href='' @ [CHR 0x22] @ quote_attr (escapeHTML (tag_href t)) @ [CHR 0x22] @ ''>''
     else ''<'' @ tag_name t @ ''>'')"

definition close_tag :: "inlineTag \<Rightarrow> string" where
  "close_tag t = ''</'' @ tag_name t @ ''>''"

definition sync_tags :: "inlineTag list \<Rightarrow> inlineRenderer \<Rightarrow> inlineRenderer" where
  "sync_tags want r =
     (let common = common_tags want (rn_emitted r)
      in r\<lparr>rn_out := rn_out r @ concat (map close_tag (rev (drop common (rn_emitted r))))
             @ concat (map open_tag (drop common want)), rn_emitted := want\<rparr>)"

text \<open>The first tag of each name, in canonical order.\<close>

definition canonical_tags :: "inlineTag list \<Rightarrow> inlineTag list" where
  "canonical_tags tags = concat (map (\<lambda>name. case find (\<lambda>t. tag_name t = name) tags of Some t \<Rightarrow> [t] | None \<Rightarrow> [])
     [''a'', ''b'', ''i'', ''s''])"

definition add_span :: "inlineSpan \<Rightarrow> inlineSpan list \<Rightarrow> inlineSpan list" where
  "add_span span spans = (if sp_body span = [] then spans else spans @ [span\<lparr>sp_tags := canonical_tags (sp_tags span)\<rparr>])"

fun code_lines :: "string list \<Rightarrow> inlineSpan list \<Rightarrow> inlineSpan list" where
  "code_lines [] spans = spans"
| "code_lines [line] spans = add_span \<lparr>sp_body = line, sp_tags = [], sp_code = True\<rparr> spans"
| "code_lines (line # rest) spans = code_lines rest
     (add_span \<lparr>sp_body = [newline], sp_tags = [], sp_code = False\<rparr>
       (add_span \<lparr>sp_body = line, sp_tags = [], sp_code = True\<rparr> spans))"

definition appendInlineSpan :: "inlineSpan \<Rightarrow> inlineSpan list \<Rightarrow> inlineSpan list" where
  "appendInlineSpan span spans =
     (if sp_code span \<and> newline \<in> set (sp_body span) then code_lines (split_lines (sp_body span)) spans
      else add_span span spans)"

definition render_text :: "string \<Rightarrow> inlineRenderer \<Rightarrow> inlineRenderer" where
  "render_text s r =
     (if s = [] then r
      else case rn_spans r of
        Some spans \<Rightarrow> r\<lparr>rn_spans := Some (appendInlineSpan \<lparr>sp_body = s, sp_tags = rn_active r, sp_code = False\<rparr> spans)\<rparr>
      | None \<Rightarrow> (let r = sync_tags (rn_active r) r in r\<lparr>rn_out := rn_out r @ escapeHTML s\<rparr>))"

definition pop_tag :: "inlineRenderer \<Rightarrow> inlineRenderer" where
  "pop_tag r = r\<lparr>rn_active := butlast (rn_active r), rn_underflow := rn_underflow r \<or> rn_active r = []\<rparr>"

definition push_tag :: "inlineTag \<Rightarrow> inlineRenderer \<Rightarrow> inlineRenderer" where
  "push_tag t r = r\<lparr>rn_active := rn_active r @ [t]\<rparr>"

definition style_tag :: "char \<Rightarrow> nat \<Rightarrow> inlineTag" where
  "style_tag marker width = \<lparr>tag_name = (if marker = CHR ''~'' then ''s'' else if width = 2 then ''b'' else ''i''), tag_href = []\<rparr>"

definition render_delimiter :: "delimiter \<Rightarrow> inlineRenderer \<Rightarrow> inlineRenderer" where
  "render_delimiter d r =
     fold (\<lambda>width. push_tag (style_tag (dl_marker d) width)) (rev (dl_opens d))
       (render_text (take (dl_remaining d) (dl_raw d)) ((pop_tag ^^ length (dl_closes d)) r))"

definition render_code :: "string \<Rightarrow> inlineRenderer \<Rightarrow> inlineRenderer" where
  "render_code body r =
     (case rn_spans r of
        Some spans \<Rightarrow> r\<lparr>rn_spans := Some (appendInlineSpan \<lparr>sp_body = body, sp_tags = [], sp_code = True\<rparr> spans)\<rparr>
      | None \<Rightarrow> (let r = sync_tags [] r in r\<lparr>rn_out := rn_out r @ ''<code>'' @ escapeHTML body @ ''</code>''\<rparr>))"

text \<open>U+1F5BC\<close>

definition picture :: string where
  "picture = [CHR 0xF0, CHR 0x9F, CHR 0x96, CHR 0xBC]"

fun render_tokens :: "inlineToken list \<Rightarrow> inlineRenderer \<Rightarrow> inlineRenderer"
  and render_token :: "inlineToken \<Rightarrow> inlineRenderer \<Rightarrow> inlineRenderer" where
  "render_tokens [] r = r"
| "render_tokens (t # ts) r = render_tokens ts (render_token t r)"
| "render_token (inlineText raw) r = render_text raw r"
| "render_token (inlineEscape raw body) r = render_text body r"
| "render_token (inlineDelimiter d) r = render_delimiter d r"
| "render_token (inlineCode raw body closed previewOpen) r = (if \<not> closed then render_text raw r else render_code body r)"
| "render_token (inlineLink raw href label img) r =
     (let r = push_tag \<lparr>tag_name = ''a'', tag_href = href\<rparr> r;
          r = (if img then (let r = render_text picture r in if label \<noteq> [] then render_text '' '' r else r) else r)
      in pop_tag (render_tokens label r))"

definition new_renderer :: "inlineTag list \<Rightarrow> inlineSpan list option \<Rightarrow> inlineRenderer" where
  "new_renderer active spans = \<lparr>rn_out = [], rn_active = active, rn_emitted = [], rn_spans = spans, rn_underflow = False\<rparr>"

definition inline_marks :: "char list" where
  "inline_marks = [CHR 0x5C, CHR 0x60, CHR ''['', CHR ''*'', CHR ''_'', CHR ''~'']"

definition convertInline :: "unicode_class \<Rightarrow> string \<Rightarrow> string" where
  "convertInline wide_punct s =
     (if \<not> (\<exists>c \<in> set s. c \<in> set inline_marks) then escapeHTML s
      else rn_out (sync_tags [] (render_tokens (parseInline wide_punct s True) (new_renderer [] None))))"

definition bold_tag :: inlineTag where
  "bold_tag = \<lparr>tag_name = ''b'', tag_href = []\<rparr>"

definition convertHeadingInline :: "unicode_class \<Rightarrow> string \<Rightarrow> string" where
  "convertHeadingInline wide_punct s =
     rn_out (sync_tags [] (render_tokens (parseInline wide_punct s True) (new_renderer [bold_tag] None)))"

section \<open>Blocks\<close>

definition expand_tabs :: "string \<Rightarrow> string" where
  "expand_tabs s = concat (map (\<lambda>c. if c = tab then ''    '' else [c]) s)"

definition list_prefix :: "string \<Rightarrow> string \<Rightarrow> string" where
  "list_prefix indent marker = expand_tabs indent @
     (if is_digit (hd marker) then trim_right [CHR ''.'', CHR '')''] marker @ ''. '' else ''- '')"

fun list_loop :: "unicode_class \<Rightarrow> string list \<Rightarrow> string \<Rightarrow> nat \<Rightarrow> string" where
  "list_loop wide_punct [] out openLen = out"
| "list_loop wide_punct (line # rest) out openLen =
     (case listItemRe line of
        Some (indent, marker, body) \<Rightarrow>
          list_loop wide_punct rest
            (out @ (if out \<noteq> [] then [newline] else []) @ list_prefix indent marker
               @ convertInline wide_punct (trim_right blank_cut body))
            (rune_count (list_prefix indent marker))
      | None \<Rightarrow>
          list_loop wide_punct rest
            (out @ [newline] @ repeat_char (CHR '' '') openLen @ convertInline wide_punct (trim_space line)) openLen)"

definition convertList :: "unicode_class \<Rightarrow> string list \<Rightarrow> string" where
  "convertList wide_punct lines = list_loop wide_punct lines [] 0"

text \<open>Ten box-drawing characters U+2500.\<close>

definition rule_text :: string where
  "rule_text = concat (replicate 10 [CHR 0xE2, CHR 0x94, CHR 0x80])"

definition block_lines :: "string list \<Rightarrow> nat \<Rightarrow> markdownBlock \<Rightarrow> string list" where
  "block_lines lines i block = take (block_end block - i) (drop i lines)"

text \<open>Every kind but the quote, whose body is converted recursively.\<close>

definition convert_block :: "unicode_class \<Rightarrow> string list \<Rightarrow> nat \<Rightarrow> markdownBlock \<Rightarrow> string" where
  "convert_block wide_punct lines i block =
     (case block_kind block of
        markdownFence \<Rightarrow> ''<pre>'' @ escapeHTML (join_lines (block_body block)) @ ''</pre>''
      | markdownTable \<Rightarrow> renderTable (block_body block)
      | markdownHeading \<Rightarrow> (case headingRe (lines ! i) of
          Some heading \<Rightarrow> convertHeadingInline wide_punct (trim_space heading) | None \<Rightarrow> [])
      | markdownRule \<Rightarrow> rule_text
      | markdownList \<Rightarrow> convertList wide_punct (block_lines lines i block)
      | markdownParagraph \<Rightarrow> convertInline wide_punct (join_lines (block_lines lines i block))
      | _ \<Rightarrow> [])"

definition blockquote :: "string list \<Rightarrow> string" where
  "blockquote inner = ''<blockquote>'' @ join_lines inner @ ''</blockquote>''"

partial_function (option) convert_loop ::
  "unicode_class \<Rightarrow> string list \<Rightarrow> nat \<Rightarrow> string list \<Rightarrow> string list option" where
  "convert_loop wide_punct lines i out =
     (if length lines \<le> i then Some out
      else if block_kind (collectMarkdownBlock lines i) = markdownQuote
      then Option.bind (convert_loop wide_punct (split_lines (join_lines (block_body (collectMarkdownBlock lines i)))) 0 [])
             (\<lambda>inner. convert_loop wide_punct lines (block_end (collectMarkdownBlock lines i)) (out @ [blockquote inner]))
      else convert_loop wide_punct lines (block_end (collectMarkdownBlock lines i))
             (out @ [convert_block wide_punct lines i (collectMarkdownBlock lines i)]))"

definition ConvertMarkdown :: "unicode_class \<Rightarrow> string \<Rightarrow> string option" where
  "ConvertMarkdown wide_punct md = map_option join_lines (convert_loop wide_punct (split_lines md) 0 [])"

definition convertLen :: "unicode_class \<Rightarrow> string \<Rightarrow> int option" where
  "convertLen wide_punct md =
     (if plainASCIIText md then Some (int (length md))
      else map_option renderedUTF16Len (ConvertMarkdown wide_punct md))"

end
