(* ===== verification/MarkdownTextProps.thy ===== *)
theory MarkdownTextProps
  imports MarkdownText
begin

text \<open>
  Properties of the text measures and of literal splitting: cutting respects rune boundaries and the limit and
  loses nothing, a literal fence carries exactly its text, and escaping does not change the rendered length.
\<close>

section \<open>Segments of a rune sequence\<close>

abbreviation rune_text :: "(rune \<times> string) list \<Rightarrow> string" where
  "rune_text rs \<equiv> concat (map snd rs)"

lemma decode_bytes_take:
  assumes "bs \<noteq> []" and "snd (decode_bytes bs) \<le> m"
  shows "decode_bytes (take m bs) = decode_bytes bs"
proof -
  obtain b0 r where bs: "bs = b0 # r" using assms(1) by (cases bs) auto
  have "0 < m" using assms decode_bytes_size [of bs] by simp
  then obtain k where m: "m = Suc k" by (cases m) auto
  consider "r = []" | b1 where "r = [b1]" | b1 b2 where "r = [b1, b2]" | b1 b2 b3 t where "r = b1 # b2 # b3 # t"
    by (cases r rule: remdups_adj.cases; cases "tl (tl r)") auto
  then show ?thesis
    using assms(2) unfolding bs m
    by cases (auto split: if_splits simp: take_Cons split: nat.splits)
qed

lemma decode_rune_take:
  assumes "s \<noteq> []" and "snd (decode_rune s) \<le> m"
  shows "decode_rune (take m s) = decode_rune s"
proof -
  have "take 4 (take m s) = take m (take 4 s)" by (simp add: min.commute)
  then have "decode_rune (take m s) = decode_bytes (take m (map of_char (take 4 s)))"
    by (simp add: decode_rune_def take_map)
  also have "\<dots> = decode_bytes (map of_char (take 4 s))"
    using assms by (intro decode_bytes_take) (auto simp: decode_rune_def)
  finally show ?thesis by (simp add: decode_rune_def)
qed

lemma runes_suffix: "runes s = xs @ ys \<Longrightarrow> runes (rune_text ys) = ys"
proof (induction xs arbitrary: s)
  case Nil
  then show ?case using concat_runes [of s] by simp
next
  case (Cons x xs)
  then have "s \<noteq> []" by auto
  with Cons.prems have "runes (drop (snd (decode_rune s)) s) = xs @ ys" by (simp add: runes_nonempty)
  then show ?case by (rule Cons.IH)
qed

lemma runes_prefix: "runes s = xs @ ys \<Longrightarrow> runes (rune_text xs) = xs"
proof (induction xs arbitrary: s)
  case (Cons x xs)
  let ?n = "snd (decode_rune s)"
  from Cons.prems have s: "s \<noteq> []" by auto
  with Cons.prems have x: "x = (fst (decode_rune s), take ?n s)" and rest: "runes (drop ?n s) = xs @ ys"
    by (simp_all add: runes_nonempty)
  have IH: "runes (rune_text xs) = xs" using rest by (rule Cons.IH)
  have "s = rune_text (runes s)" by (simp add: concat_runes)
  then have s_eq: "s = snd x @ rune_text xs @ rune_text ys" using Cons.prems by simp
  have len: "length (snd x) = ?n" using x decode_rune_size [OF s] by simp
  have t: "snd x @ rune_text xs = take (?n + length (rune_text xs)) s" using s_eq len by simp
  have "decode_rune (snd x @ rune_text xs) = decode_rune s" unfolding t using s by (intro decode_rune_take) simp_all
  moreover have "snd x @ rune_text xs \<noteq> []" using len decode_rune_size(1) [OF s] by auto
  ultimately show ?case using IH len x by (simp add: runes_nonempty)
qed simp

lemma runes_segment: "runes s = xs @ ys @ zs \<Longrightarrow> runes (rune_text ys) = ys"
  using runes_suffix [of s xs "ys @ zs"] runes_prefix [of "rune_text (ys @ zs)" ys zs] by simp

text \<open>A cut before an ASCII byte is a rune boundary.\<close>

lemma decode_bytes_append:
  assumes "bs \<noteq> []" and "b < 128"
  shows "decode_bytes (bs @ b # cs) = decode_bytes bs"
proof -
  obtain b0 r where bs: "bs = b0 # r" using assms(1) by (cases bs) auto
  have b: "\<not> continuation b" "\<not> second_ok x b" for x using assms(2) by (auto simp: continuation_def second_ok_def)
  consider "r = []" | b1 where "r = [b1]" | b1 b2 where "r = [b1, b2]" | b1 b2 b3 t where "r = b1 # b2 # b3 # t"
    by (cases r rule: remdups_adj.cases; cases "tl (tl r)") auto
  then show ?thesis unfolding bs by cases (auto simp: b split: list.splits)
qed

lemma decode_rune_append:
  assumes "s \<noteq> []" and "of_char c < (128 :: nat)"
  shows "decode_rune (s @ c # t) = decode_rune s"
proof (cases "length s < 4")
  case True
  have cut: "map of_char (take 4 (s @ c # t)) = map of_char s @ of_char c # map of_char (take (3 - length s) t)"
    using True by (simp add: take_Cons' numeral_eq_Suc)
  have whole: "take 4 s = s" using True by simp
  show ?thesis
    unfolding decode_rune_def cut whole using assms by (simp add: decode_bytes_append)
qed (simp add: decode_rune_def)

lemma runes_append: "of_char c < (128 :: nat) \<Longrightarrow> runes (s @ c # t) = runes s @ runes (c # t)"
proof (induction s rule: runes.induct)
  case (1 s)
  show ?case
  proof (cases "s = []")
    case False
    let ?n = "snd (decode_rune s)"
    have "runes (drop ?n s @ c # t) = runes (drop ?n s) @ runes (c # t)"
      using 1 False by (metis prod.collapse)
    moreover have "decode_rune (s @ c # t) = decode_rune s" using False 1(2) by (rule decode_rune_append)
    ultimately show ?thesis
      using False decode_rune_size(2) [OF False] by (simp add: runes_nonempty [of "s @ c # t"] runes_nonempty [of s])
  qed simp
qed

lemma text_units_append: "of_char c < (128 :: nat) \<Longrightarrow> text_units (s @ c # t) = text_units s + text_units (c # t)"
  by (simp add: text_units_def runes_append)

lemma text_units_ascii: "of_char c < (128 :: nat) \<Longrightarrow> text_units (c # s) = Suc (text_units s)"
  by (simp add: text_units_def runes_ascii rune_units_def)

lemma literalUTF16Len_eq: "literalUTF16Len s = int (text_units s)"
proof -
  have "(\<Sum>p\<leftarrow>rs. if 65535 < fst p then 2 else 1) = int (sum_list (map (rune_units \<circ> fst) rs))" for rs :: "(rune \<times> string) list"
    by (induction rs) (auto simp: rune_units_def)
  then show ?thesis by (simp add: literalUTF16Len_def text_units_def)
qed


section \<open>Escaping\<close>

lemma skip_plain: "c \<notin> {CHR ''<'', CHR ''&''} \<Longrightarrow> renderedUTF16Len (c # s) =
    int (rune_units (fst (decode_rune (c # s)))) + renderedUTF16Len (drop (snd (decode_rune (c # s))) (c # s))"
  by (subst renderedUTF16Len.simps) simp

lemma renderedUTF16Len_entity:
  "renderedUTF16Len (escape_char c @ s) = 1 + renderedUTF16Len s" if "c \<in> {CHR ''<'', CHR ''>'', CHR ''&''}"
  using that by (auto simp: escape_char_def renderedUTF16Len.simps [of "CHR ''&'' # _"] entity_length_def has_prefix_def)

lemma high_byte_plain: "128 \<le> (of_char c :: nat) \<Longrightarrow> escape_char c = [c]"
  by (auto simp: escape_char_def)

lemma continuation_high: "continuation b \<Longrightarrow> 128 \<le> b" "second_ok x b \<Longrightarrow> 128 \<le> b"
  by (auto simp: continuation_def second_ok_def split: if_splits)

text \<open>The bytes of a multi-byte rune are all above the ASCII range.\<close>

lemma decode_bytes_high: "1 < snd (decode_bytes bs) \<Longrightarrow> b \<in> set (take (snd (decode_bytes bs)) bs) \<Longrightarrow> 128 \<le> b"
proof (cases bs)
  case (Cons b0 r)
  assume wide: "1 < snd (decode_bytes bs)" and b: "b \<in> set (take (snd (decode_bytes bs)) bs)"
  consider "r = []" | b1 where "r = [b1]" | b1 b2 where "r = [b1, b2]" | b1 b2 b3 t where "r = b1 # b2 # b3 # t"
    by (cases r rule: remdups_adj.cases; cases "tl (tl r)") auto
  then show ?thesis
    using wide b unfolding Cons
    by cases (auto simp: take_Cons' continuation_def second_ok_def split: if_split_asm)
qed simp

lemma decode_rune_high:
  assumes "1 < snd (decode_rune s)" and "c \<in> set (take (snd (decode_rune s)) s)"
  shows "128 \<le> (of_char c :: nat)"
proof -
  let ?bs = "map of_char (take 4 s) :: nat list"
  have "s \<noteq> []" using assms(2) by auto
  then have "snd (decode_bytes ?bs) \<le> length ?bs" by (intro decode_bytes_size [THEN conjunct2]) simp
  then have "snd (decode_rune s) \<le> 4" by (simp add: decode_rune_def)
  then have "take (snd (decode_rune s)) s = take (snd (decode_rune s)) (take 4 s)" by (simp add: min_def)
  then have "of_char c \<in> set (take (snd (decode_bytes ?bs)) ?bs)"
    using assms(2) by (simp add: decode_rune_def take_map)
  with assms(1) show ?thesis using decode_bytes_high [of ?bs] by (simp add: decode_rune_def)
qed

lemma escapeHTML_append [simp]: "escapeHTML (s @ t) = escapeHTML s @ escapeHTML t" "escapeHTML [] = []"
  by (simp_all add: escapeHTML_def)

lemma escapeHTML_high: "(\<And>c. c \<in> set s \<Longrightarrow> 128 \<le> (of_char c :: nat)) \<Longrightarrow> escapeHTML s = s"
  by (induction s) (simp_all add: escapeHTML_def high_byte_plain)


definition ascii_head :: "string \<Rightarrow> bool" where
  "ascii_head t \<longleftrightarrow> (case t of [] \<Rightarrow> True | c # _ \<Rightarrow> of_char c < (128 :: nat))"

lemma ascii_head_simps [simp]: "ascii_head []" "ascii_head (c # t) \<longleftrightarrow> of_char c < (128 :: nat)"
  by (simp_all add: ascii_head_def)

lemma decode_rune_ascii_head: "s \<noteq> [] \<Longrightarrow> ascii_head t \<Longrightarrow> decode_rune (s @ t) = decode_rune s"
  by (cases t) (simp_all add: decode_rune_append)

lemma runes_ascii_head: "ascii_head t \<Longrightarrow> runes (s @ t) = runes s @ runes t"
  by (cases t) (simp_all add: runes_append)

lemma ascii_head_escape: "ascii_head v \<Longrightarrow> ascii_head t \<Longrightarrow> ascii_head (escapeHTML v @ t)"
  by (cases v) (auto simp: escapeHTML_def escape_char_def)

lemma decode_rune_escape:
  assumes "128 \<le> (of_char c :: nat)" and "ascii_head t"
  shows "decode_rune (escapeHTML (c # s) @ t) = decode_rune (c # s)"
proof -
  let ?high = "\<lambda>c. 128 \<le> (of_char c :: nat)"
  define u v where "u = takeWhile ?high (c # s)" and "v = dropWhile ?high (c # s)"
  have u: "u \<noteq> []" using assms(1) by (simp add: u_def)
  have v: "ascii_head v" using hd_dropWhile [of ?high "c # s"] by (cases v) (auto simp: v_def)
  have eq: "c # s = u @ v" by (simp add: u_def v_def)
  have "escapeHTML u = u" by (rule escapeHTML_high) (auto simp: u_def dest: set_takeWhileD)
  then have "decode_rune (escapeHTML (u @ v) @ t) = decode_rune u"
    using decode_rune_ascii_head [OF u ascii_head_escape [OF v assms(2)]] by simp
  also have "\<dots> = decode_rune (u @ v)" using decode_rune_ascii_head [OF u v] by simp
  finally show ?thesis unfolding eq .
qed

lemma renderedUTF16Len_ascii: "of_char c < (128 :: nat) \<Longrightarrow> c \<notin> {CHR ''<'', CHR ''&''} \<Longrightarrow>
    renderedUTF16Len (c # s) = 1 + renderedUTF16Len s"
  by (subst skip_plain) (simp_all add: decode_rune_def rune_units_def)

lemma renderedUTF16Len_escape: "ascii_head t \<Longrightarrow> renderedUTF16Len (escapeHTML s @ t) = int (text_units s) + renderedUTF16Len t"
proof (induction s rule: runes.induct)
  case (1 s)
  show ?case
  proof (cases s)
    case (Cons c s')
    let ?n = "snd (decode_rune s)"
    have units: "text_units s = rune_units (fst (decode_rune s)) + text_units (drop ?n s)"
      using Cons by (simp add: text_units_def runes_nonempty)
    have IH: "renderedUTF16Len (escapeHTML (drop ?n s) @ t) = int (text_units (drop ?n s)) + renderedUTF16Len t"
      using 1 Cons by (metis list.distinct(1) prod.collapse)
    show ?thesis
    proof (cases "of_char c < (128 :: nat)")
      case True
      then have d: "decode_rune s = (of_char c, 1)" using Cons by (simp add: decode_rune_def)
      have "renderedUTF16Len (escapeHTML s @ t) = 1 + renderedUTF16Len (escapeHTML s' @ t)"
      proof (cases "c \<in> {CHR ''<'', CHR ''>'', CHR ''&''}")
        case True
        then show ?thesis using renderedUTF16Len_entity [of c "escapeHTML s' @ t"] Cons by (simp add: escapeHTML_def)
      next
        case False
        then have "escape_char c = [c]" by (simp add: escape_char_def)
        then show ?thesis
          using renderedUTF16Len_ascii [OF True, of "escapeHTML s' @ t"] False Cons by (simp add: escapeHTML_def)
      qed
      then show ?thesis using IH units d Cons True by (simp add: rune_units_def)
    next
      case False
      then have high: "128 \<le> (of_char c :: nat)" by simp
      have "escapeHTML (take ?n s) = take ?n s"
      proof (cases "1 < ?n")
        case True
        then show ?thesis by (intro escapeHTML_high) (rule decode_rune_high)
      next
        case False
        then have "?n = 1" using decode_rune_size(1) [of s] Cons by simp
        then show ?thesis using Cons high by (simp add: escapeHTML_def high_byte_plain)
      qed
      then have "escapeHTML s = take ?n s @ escapeHTML (drop ?n s)"
        by (metis append_take_drop_id escapeHTML_append(1))
      moreover have "renderedUTF16Len (escapeHTML s @ t) = int (rune_units (fst (decode_rune s)))
          + renderedUTF16Len (drop ?n (escapeHTML s @ t))"
      proof -
        have hd: "escapeHTML s @ t = c # escapeHTML s' @ t" using Cons high by (simp add: escapeHTML_def high_byte_plain)
        have "c \<notin> {CHR ''<'', CHR ''&''}" using high by auto
        then have "renderedUTF16Len (c # escapeHTML s' @ t) = int (rune_units (fst (decode_rune (c # escapeHTML s' @ t))))
            + renderedUTF16Len (drop (snd (decode_rune (c # escapeHTML s' @ t))) (c # escapeHTML s' @ t))"
          by (rule skip_plain)
        then show ?thesis using decode_rune_escape [OF high "1.prems", of s'] unfolding hd [symmetric] Cons [symmetric] by simp
      qed
      moreover have "length (take ?n s) = ?n" using decode_rune_size(2) [of s] Cons by simp
      ultimately show ?thesis using IH units by simp
    qed
  qed simp
qed

lemma renderedUTF16Len_tag: "CHR ''>'' \<notin> set tag \<Longrightarrow> renderedUTF16Len (CHR ''<'' # tag @ CHR ''>'' # t) = renderedUTF16Len t"
proof -
  assume "CHR ''>'' \<notin> set tag"
  then have "dropWhile (\<lambda>c. c \<noteq> CHR ''>'') (CHR ''<'' # tag @ CHR ''>'' # t) = CHR ''>'' # t"
    by (induction tag) auto
  then show ?thesis by (subst renderedUTF16Len.simps) (simp add: skip_tag_def)
qed

lemma renderedUTF16Len_Nil [simp]: "renderedUTF16Len [] = 0"
  by (simp add: renderedUTF16Len.simps)


section \<open>Cutting\<close>

definition rune_len :: "(rune \<times> string) list \<Rightarrow> int" where
  "rune_len rs = int (sum_list (map (rune_units \<circ> fst) rs))"

lemma rune_len_simps [simp]:
  "rune_len [] = 0" "rune_len (p # rs) = int (rune_units (fst p)) + rune_len rs"
  "rune_len (rs @ qs) = rune_len rs + rune_len qs" "0 \<le> rune_len rs"
  by (simp_all add: rune_len_def)

lemma text_units_rune_len: "int (text_units s) = rune_len (runes s)"
  by (simp add: text_units_def rune_len_def)

lemma rune_text_Nil: "rs \<noteq> [] \<Longrightarrow> \<forall>p \<in> set rs. snd p \<noteq> [] \<Longrightarrow> rune_text rs \<noteq> []"
  by (cases rs) auto

text \<open>A group of runes fits when it is within the limit or a single rune.\<close>

definition fits :: "int \<Rightarrow> (rune \<times> string) list \<Rightarrow> bool" where
  "fits limit rs \<longleftrightarrow> rune_len rs \<le> limit \<or> length rs = 1"

lemma hard_split_groups:
  assumes "\<forall>p \<in> set rest. snd p \<noteq> []" and "\<forall>p \<in> set cur. snd p \<noteq> []" and "fits limit cur \<or> cur = []"
    and "cur = [] \<longrightarrow> groups = []" and "\<forall>g \<in> set groups. fits limit g \<or> g = []"
  shows "\<exists>gs. hard_split rest limit (map rune_text groups) (rune_text cur) (rune_len cur) = map rune_text gs
      \<and> concat gs = concat groups @ cur @ rest \<and> gs \<noteq> [] \<and> (\<forall>g \<in> set gs. fits limit g \<or> g = [])"
  using assms
proof (induction rest arbitrary: groups cur)
  case Nil
  then have "hard_split [] limit (map rune_text groups) (rune_text cur) (rune_len cur) = map rune_text (groups @ [cur])"
    using rune_text_Nil [of cur] by (cases "cur = []") (auto simp del: concat_eq_Nil_conv)
  then show ?case using Nil by (intro exI [of _ "groups @ [cur]"]) auto
next
  case (Cons p rest)
  obtain r piece where p: "p = (r, piece)" by (cases p)
  show ?case
  proof (cases "limit < rune_len cur + int (rune_units r)")
    case True
    have "\<exists>gs. hard_split rest limit (map rune_text (groups @ [cur])) (rune_text [p]) (rune_len [p]) = map rune_text gs
        \<and> concat gs = concat (groups @ [cur]) @ [p] @ rest \<and> gs \<noteq> [] \<and> (\<forall>g \<in> set gs. fits limit g \<or> g = [])"
      by (rule Cons.IH) (use Cons.prems in \<open>auto simp: fits_def\<close>)
    then show ?thesis using True by (simp add: p Let_def)
  next
    case False
    have "\<exists>gs. hard_split rest limit (map rune_text groups) (rune_text (cur @ [p])) (rune_len (cur @ [p])) = map rune_text gs
        \<and> concat gs = concat groups @ (cur @ [p]) @ rest \<and> gs \<noteq> [] \<and> (\<forall>g \<in> set gs. fits limit g \<or> g = [])"
      by (rule Cons.IH) (use Cons.prems False in \<open>auto simp: fits_def p\<close>)
    then show ?thesis using False by (simp add: p Let_def)
  qed
qed

lemma hardSplitUnits_groups:
  obtains gs where "hardSplitUnits s limit = map rune_text gs" and "concat gs = runes s" and "gs \<noteq> []"
    and "\<forall>g \<in> set gs. fits limit g \<or> g = []"
proof -
  have "\<forall>p \<in> set (runes s). snd p \<noteq> []" using runes_pieces by blast
  then show ?thesis
    using hard_split_groups [of "runes s" "[]" limit "[]"] that by (auto simp: hardSplitUnits_def)
qed

lemma clip_loop_prefix:
  "\<exists>n. clip_loop rs units used = rune_text (take n rs) \<and> (n \<noteq> 0 \<longrightarrow> used + rune_len (take n rs) \<le> units)
     \<and> (n < length rs \<longrightarrow> units < used + rune_len (take (Suc n) rs))"
proof (induction rs arbitrary: used)
  case (Cons p rs)
  obtain r piece where p: "p = (r, piece)" by (cases p)
  show ?case
  proof (cases "units < used + int (rune_units r)")
    case True
    then show ?thesis by (intro exI [of _ 0]) (simp add: p)
  next
    case False
    from Cons [of "used + int (rune_units r)"] obtain n where
      "clip_loop rs units (used + int (rune_units r)) = rune_text (take n rs)"
      "n \<noteq> 0 \<longrightarrow> used + int (rune_units r) + rune_len (take n rs) \<le> units"
      "n < length rs \<longrightarrow> units < used + int (rune_units r) + rune_len (take (Suc n) rs)" by blast
    with False show ?thesis
      by (intro exI [of _ "Suc n"]) (cases n, auto simp: p algebra_simps)
  qed
next
  case Nil
  show ?case by (intro exI [of _ 0]) simp
qed


lemma group_runes: "runes s = concat gs \<Longrightarrow> g \<in> set gs \<Longrightarrow> runes (rune_text g) = g"
proof -
  assume s: "runes s = concat gs" and "g \<in> set gs"
  then obtain xs ys where "gs = xs @ g # ys" by (meson split_list)
  with s have "runes s = concat xs @ g @ concat ys" by simp
  then show ?thesis by (rule runes_segment)
qed

lemma rune_text_concat: "concat (map rune_text gs) = rune_text (concat gs)"
  by (induction gs) auto

section \<open>Literal blocks\<close>

definition literal_inv :: "string \<Rightarrow> int \<Rightarrow> (rune \<times> string) list \<Rightarrow> literal_state \<Rightarrow> bool" where
  "literal_inv marker limit rs st \<longleftrightarrow> (\<exists>groups cur.
     ls_parts st = map (\<lambda>g. literalFence (rune_text g) marker) groups \<and> ls_chunk st = rune_text cur
     \<and> ls_units st = rune_len cur \<and> concat groups @ cur = rs
     \<and> (\<forall>p \<in> set rs. snd p \<noteq> []) \<and> (\<forall>g \<in> set groups. fits limit g) \<and> (fits limit cur \<or> cur = []))"

lemma literal_inv_start: "literal_inv marker limit [] \<lparr>ls_parts = [], ls_chunk = [], ls_units = 0\<rparr>"
  unfolding literal_inv_def by (intro exI [of _ "[]"]) simp

lemma literal_flush_inv:
  assumes "literal_inv marker limit rs st"
  shows "literal_inv marker limit rs (literal_flush marker st) \<and> ls_chunk (literal_flush marker st) = []
    \<and> ls_units (literal_flush marker st) = 0"
proof -
  from assms obtain groups cur where inv:
    "ls_parts st = map (\<lambda>g. literalFence (rune_text g) marker) groups" "ls_chunk st = rune_text cur"
    "ls_units st = rune_len cur" "concat groups @ cur = rs"
    "\<forall>p \<in> set rs. snd p \<noteq> []" "\<forall>g \<in> set groups. fits limit g" "fits limit cur \<or> cur = []"
    by (auto simp: literal_inv_def)
  have ne: "rune_text cur \<noteq> []" if "cur \<noteq> []" using rune_text_Nil [OF that] inv(4,5) by auto
  show ?thesis
  proof (cases "cur = []")
    case True
    then have "literal_flush marker st = st" using inv(2) by (simp add: literal_flush_def)
    then show ?thesis using assms inv(2,3) True by simp
  next
    case False
    have eq: "literal_flush marker st = \<lparr>ls_parts = ls_parts st @ [literalFence (rune_text cur) marker], ls_chunk = [], ls_units = 0\<rparr>"
      using ne [OF False] inv(2) by (simp add: literal_flush_def del: concat_eq_Nil_conv)
    have "literal_inv marker limit rs (literal_flush marker st)"
      unfolding literal_inv_def eq
      by (intro exI [of _ "groups @ [cur]"] exI [of _ "[]"]) (use inv False in auto)
    then show ?thesis by (simp add: eq)
  qed
qed

lemma appendPiece_inv:
  assumes inv: "literal_inv marker limit rs st" and qs: "\<forall>p \<in> set qs. snd p \<noteq> []" "fits limit qs \<or> qs = []"
  shows "literal_inv marker limit (rs @ qs) (appendPiece marker limit (rune_text qs) (rune_len qs) st)"
proof -
  define st' where "st' = (if limit < ls_units st + rune_len qs then literal_flush marker st else st)"
  have inv': "literal_inv marker limit rs st'" and room: "ls_chunk st' = [] \<and> ls_units st' = 0 \<or> ls_units st' + rune_len qs \<le> limit"
    using inv literal_flush_inv [OF inv] by (auto simp: st'_def)
  from inv' obtain groups cur where i:
    "ls_parts st' = map (\<lambda>g. literalFence (rune_text g) marker) groups" "ls_chunk st' = rune_text cur"
    "ls_units st' = rune_len cur" "concat groups @ cur = rs"
    "\<forall>p \<in> set rs. snd p \<noteq> []" "\<forall>g \<in> set groups. fits limit g" "fits limit cur \<or> cur = []"
    by (auto simp: literal_inv_def)
  have "fits limit (cur @ qs) \<or> cur @ qs = []"
  proof (cases "ls_chunk st' = []")
    case True
    then have "rune_text cur = []" using i(2) by simp
    then have "cur = []" using rune_text_Nil [of cur] i(4,5) by (metis Un_iff set_append)
    then show ?thesis using qs(2) by simp
  next
    case False
    then show ?thesis using room i(3) by (simp add: fits_def)
  qed
  moreover have "appendPiece marker limit (rune_text qs) (rune_len qs) st =
      st'\<lparr>ls_chunk := ls_chunk st' @ rune_text qs, ls_units := ls_units st' + rune_len qs\<rparr>"
    by (simp add: appendPiece_def st'_def Let_def)
  ultimately show ?thesis
    using i qs(1) unfolding literal_inv_def
    by (intro exI [of _ groups] exI [of _ "cur @ qs"]) auto
qed

lemma runes_nonempty_pieces: "\<forall>p \<in> set (runes s). snd p \<noteq> []"
  using runes_pieces by blast

lemma literal_pieces_inv:
  assumes "literal_inv marker limit rs st" and "\<forall>g \<in> set gs. (fits limit g \<or> g = []) \<and> runes (rune_text g) = g"
  shows "literal_inv marker limit (rs @ concat gs)
    (fold (\<lambda>piece. appendPiece marker limit piece (literalUTF16Len piece)) (map rune_text gs) st)"
  using assms
proof (induction gs arbitrary: rs st)
  case (Cons g gs)
  have "literalUTF16Len (rune_text g) = rune_len g"
    using Cons.prems(2) by (simp add: literalUTF16Len_eq text_units_rune_len)
  moreover have "\<forall>p \<in> set g. snd p \<noteq> []" using Cons.prems(2) runes_nonempty_pieces [of "rune_text g"] by simp
  ultimately have "literal_inv marker limit (rs @ g) (appendPiece marker limit (rune_text g) (literalUTF16Len (rune_text g)) st)"
    using Cons.prems appendPiece_inv by simp
  from Cons.IH [OF this] Cons.prems(2) show ?case by simp
qed simp

lemma literal_line_inv:
  assumes "literal_inv marker limit rs st"
  shows "literal_inv marker limit (rs @ runes line) (literal_line marker limit line st)"
proof (cases "literalUTF16Len line \<le> limit")
  case True
  then have "fits limit (runes line)" by (simp add: fits_def literalUTF16Len_eq text_units_rune_len)
  then show ?thesis
    using appendPiece_inv [OF assms runes_nonempty_pieces] True
    by (simp add: literal_line_def literalUTF16Len_eq text_units_rune_len concat_runes)
next
  case False
  obtain gs where gs: "hardSplitUnits line limit = map rune_text gs" "concat gs = runes line"
    "\<forall>g \<in> set gs. fits limit g \<or> g = []" by (rule hardSplitUnits_groups)
  then have "\<forall>g \<in> set gs. (fits limit g \<or> g = []) \<and> runes (rune_text g) = g"
    using group_runes [of line gs] by auto
  from literal_pieces_inv [OF _ this] literal_flush_inv [OF assms] show ?thesis
    using False gs(1,2) by (simp add: literal_line_def)
qed

lemma literal_loop_inv:
  assumes "literal_inv marker limit rs st" and "lines \<noteq> []"
  shows "literal_inv marker limit (rs @ runes (join_lines lines)) (literal_loop marker limit lines st)"
  using assms
proof (induction marker limit lines st arbitrary: rs rule: literal_loop.induct)
  case (3 marker limit line l rest st)
  have "fits limit [(10, [newline])]" by (simp add: fits_def)
  moreover have "literal_inv marker limit (rs @ runes line) (literal_line marker limit line st)"
    using "3.prems"(1) by (rule literal_line_inv)
  ultimately have "literal_inv marker limit ((rs @ runes line) @ [(10, [newline])])
      (appendPiece marker limit [newline] 1 (literal_line marker limit line st))"
    using appendPiece_inv [of marker limit "rs @ runes line" _ "[(10, [newline])]"] by (simp add: rune_units_def)
  from "3.IH" [OF this] show ?case by (simp add: runes_append runes_ascii)
qed (auto intro: literal_line_inv)

lemma splitLiteralBlock_chunks:
  assumes "0 \<le> limit"
  obtains chunks where "splitLiteralBlock str marker limit = map (\<lambda>c. literalFence c marker) chunks"
    and "concat chunks = str" and "chunks \<noteq> []"
    and "\<forall>c \<in> set chunks. int (text_units c) \<le> limit \<or> length (runes c) = 1"
proof -
  define st where "st = literal_flush marker (literal_loop marker limit (split_lines str)
      \<lparr>ls_parts = [], ls_chunk = [], ls_units = 0\<rparr>)"
  have "literal_inv marker limit (runes str) st" "ls_chunk st = []"
    using literal_flush_inv [OF literal_loop_inv [OF literal_inv_start, of "split_lines str" marker limit]]
    by (simp_all add: st_def)
  then obtain groups cur where parts: "ls_parts st = map (\<lambda>g. literalFence (rune_text g) marker) groups"
    and cur: "rune_text cur = []" and rs: "concat groups @ cur = runes str" and f: "\<forall>g \<in> set groups. fits limit g"
    unfolding literal_inv_def by metis
  have "cur = []" using rune_text_Nil [of cur] cur runes_nonempty_pieces [of str] unfolding rs [symmetric] by auto
  with rs have rs: "runes str = concat groups" by simp
  have str: "concat (map rune_text groups) = str" using concat_runes [of str] by (simp add: rune_text_concat rs)
  have fit: "int (text_units (rune_text g)) \<le> limit \<or> length (runes (rune_text g)) = 1" if "g \<in> set groups" for g
    using f that group_runes [OF rs that] by (simp add: fits_def text_units_rune_len)
  show ?thesis
  proof (cases "groups = []")
    case True
    then show ?thesis
      using that [of "[[]]"] assms str parts by (simp add: splitLiteralBlock_def st_def [symmetric])
  next
    case False
    then show ?thesis
      using that [of "map rune_text groups"] str parts fit by (simp add: splitLiteralBlock_def st_def [symmetric])
  qed
qed


section \<open>Literal fences\<close>

lemma split_on_join: "split_on c (s @ c # t) = split_on c s @ split_on c t"
proof (induction s)
  case (Cons x s)
  obtain l ls where "split_on c s = l # ls" by (cases "split_on c s") auto
  with Cons show ?case by auto
qed simp

definition marker_char :: "char \<Rightarrow> bool" where
  "marker_char c \<longleftrightarrow> c = CHR 0x60 \<or> c = CHR ''~''"

lemma trim_space_solid: "ascii s \<Longrightarrow> \<forall>c \<in> set s. \<not> is_space (of_char c) \<Longrightarrow> trim_space s = s"
proof -
  assume s: "ascii s" "\<forall>c \<in> set s. \<not> is_space (of_char c)"
  then have "dropWhile (\<lambda>c. is_space (of_char c)) s = s" by (cases s) simp_all
  moreover have "dropWhile (\<lambda>c. is_space (of_char c)) (rev s) = rev s" using s(2) by (cases s rule: rev_cases) simp_all
  ultimately show ?thesis using s(1) by (simp add: trim_space_def ascii_trim_left ascii_trim_right)
qed

lemma trim_space_marker: "marker_char c \<Longrightarrow> trim_space (replicate n c) = replicate n c"
  by (intro trim_space_solid) (auto simp: marker_char_def ascii_def is_space_def)

lemma fenceMarker_replicate: "0 < n \<Longrightarrow> fenceMarker (replicate n c) = replicate n c"
  by (simp add: fenceMarker_def repeat_char_def takeWhile_replicate hd_replicate)

lemma longest_marker_Cons: "longest_marker marker (l # lines) longest = longest_marker marker lines
    (if length marker \<le> length (trim_space l) \<and> (\<forall>c \<in> set (trim_space l). c = hd marker)
     then max longest (int (length (trim_space l))) else longest)"
  by (simp add: longest_marker_def Let_def)

lemma longest_marker_ge:
  "longest \<le> longest_marker marker lines longest"
  "line \<in> set lines \<Longrightarrow> length marker \<le> length (trim_space line) \<Longrightarrow> \<forall>c \<in> set (trim_space line). c = hd marker
     \<Longrightarrow> int (length (trim_space line)) \<le> longest_marker marker lines longest"
proof (induction lines arbitrary: longest)
  case (Cons l lines)
  { case 1 show ?case unfolding longest_marker_Cons by (rule order_trans [OF _ Cons.IH(1)]) simp }
  { case 2 show ?case
    proof (cases "line = l")
      case True
      then show ?thesis unfolding longest_marker_Cons by (intro order_trans [OF _ Cons.IH(1)]) (use 2 in simp)
    next
      case False
      then show ?thesis unfolding longest_marker_Cons using 2 by (intro Cons.IH(2)) simp_all
    qed }
qed (simp_all add: longest_marker_def)

lemma fence_loop_body:
  "\<forall>l \<in> set ls. trim_space l \<noteq> marker \<Longrightarrow> trim_space m = marker \<Longrightarrow>
   fence_loop marker (ls @ m # rest) i body = (body @ ls, i + length ls + 1)"
  by (induction ls arbitrary: i body) simp_all

text \<open>The marker of a literal fence is longer than every marker line of the text.\<close>

lemma literalFence_shape:
  assumes "marker = replicate k c" and "0 < k" and "marker_char c"
  obtains n where "k \<le> n" and "literalFence str marker = replicate n c @ newline # str @ newline # replicate n c"
    and "\<forall>l \<in> set (split_lines str). trim_space l \<noteq> replicate n c"
proof -
  let ?longest = "longest_marker marker (split_lines str) (int (length marker) - 1)"
  define n where "n = (if int k \<le> ?longest then nat (?longest + 1) else k)"
  have hd: "hd marker = c" using assms by (simp add: hd_replicate)
  have ge: "k \<le> n" by (auto simp: n_def)
  have "literalFence str marker = replicate n c @ newline # str @ newline # replicate n c"
    using assms by (simp add: literalFence_def hd n_def Let_def repeat_char_def)
  moreover have "trim_space l \<noteq> replicate n c" if "l \<in> set (split_lines str)" for l
  proof
    assume eq: "trim_space l = replicate n c"
    then have "int (length (trim_space l)) \<le> ?longest"
      using longest_marker_ge(2) [OF that] ge assms hd by simp
    then show False using eq by (auto simp: n_def split: if_splits)
  qed
  ultimately show ?thesis using that ge by blast
qed

lemma split_literalFence:
  assumes "marker_char c"
  shows "split_lines (replicate n c @ newline # str @ newline # replicate n c)
    = replicate n c # split_lines str @ [replicate n c]"
proof -
  have "newline \<notin> set (replicate n c)" using assms by (auto simp: marker_char_def newline_def)
  then show ?thesis by (simp add: split_on_sep split_on_join)
qed

lemma collectFence_literal:
  assumes "marker_char c" and "0 < n" and "\<forall>l \<in> set ls. trim_space l \<noteq> replicate n c"
  shows "collectFence (replicate n c # ls @ [replicate n c]) 0 = (ls, length ls + 2)"
  using assms fence_loop_body [of ls "replicate n c" "replicate n c" "[]" 1 "[]"]
  by (simp add: collectFence_def trim_space_marker fenceMarker_replicate)

section \<open>The contract\<close>

text \<open>Cutting a text by units loses nothing: the pieces concatenate to the text, and every piece is within the limit
  or is at most one rune, which is never cut.\<close>

theorem hardSplitUnits_pieces:
  "concat (hardSplitUnits s limit) = s
   \<and> list_all (\<lambda>p. int (text_units p) \<le> limit \<or> length (runes p) \<le> 1) (hardSplitUnits s limit)"
proof -
  obtain gs where gs: "hardSplitUnits s limit = map rune_text gs" "concat gs = runes s"
    "\<forall>g \<in> set gs. fits limit g \<or> g = []" by (rule hardSplitUnits_groups)
  then show ?thesis
    using group_runes [of s gs] concat_runes [of s]
    by (auto simp: list_all_iff rune_text_concat fits_def text_units_rune_len)
qed

text \<open>Clipping keeps the longest prefix that ends at a rune boundary and is within the limit: the kept runes do not
  exceed it, and one rune more would.\<close>

theorem clipUnits_longest:
  "\<exists>n \<le> length (runes s). clipUnits s units = concat (map snd (take n (runes s)))
     \<and> int (text_units (clipUnits s units)) \<le> max 0 units
     \<and> (n = length (runes s) \<or> units < int (text_units (concat (map snd (take (n + 1) (runes s))))))"
proof -
  have prefix: "int (text_units (rune_text (take m (runes s)))) = rune_len (take m (runes s))" for m
    using runes_prefix [of s "take m (runes s)" "drop m (runes s)"] by (simp add: text_units_rune_len)
  have pos: "0 < rune_len (take (Suc 0) (runes s))" if "runes s \<noteq> []"
    using that rune_units_bounds by (cases "runes s") auto
  show ?thesis
  proof (cases "units \<le> 0")
    case True
    then have "units < rune_len (take 1 (runes s))" if "runes s \<noteq> []" using pos [OF that] by simp
    then show ?thesis
      using True prefix [of 1] by (intro exI [of _ 0]) (cases "runes s = []"; simp add: clipUnits_def)
  next
    case False
    obtain n where n: "clip_loop (runes s) units 0 = rune_text (take n (runes s))"
      "n \<noteq> 0 \<longrightarrow> rune_len (take n (runes s)) \<le> units"
      "n < length (runes s) \<longrightarrow> units < rune_len (take (Suc n) (runes s))"
      using clip_loop_prefix [of "runes s" units 0] by auto
    let ?n = "min n (length (runes s))"
    have take: "take n (runes s) = take ?n (runes s)" by (simp add: min_def)
    show ?thesis
      using n False prefix [of ?n] prefix [of "?n + 1"] unfolding take
      by (intro exI [of _ ?n]) (auto simp: clipUnits_def min_def split: if_splits)
  qed
qed

text \<open>Text that is carried as fenced blocks is carried completely and verbatim: the parts are literal fences of
  consecutive pieces of the text, and every piece is within the limit or a single rune.\<close>

theorem splitLiteralBlock_verbatim:
  assumes "0 \<le> limit"
  shows "\<exists>chunks. splitLiteralBlock str marker limit = map (\<lambda>c. literalFence c marker) chunks
    \<and> concat chunks = str \<and> chunks \<noteq> []
    \<and> list_all (\<lambda>c. int (text_units c) \<le> limit \<or> length (runes c) = 1) chunks"
proof -
  obtain chunks where "splitLiteralBlock str marker limit = map (\<lambda>c. literalFence c marker) chunks"
    "concat chunks = str" "chunks \<noteq> []"
    "\<forall>c \<in> set chunks. int (text_units c) \<le> limit \<or> length (runes c) = 1"
    by (rule splitLiteralBlock_chunks [OF assms])
  then show ?thesis unfolding list_all_iff by blast
qed

theorem splitLiteralBlock_verbatim_witness:
  "\<exists>chunks. splitLiteralBlock ''abcdef'' ''```'' 4 = map (\<lambda>c. literalFence c ''```'') chunks \<and> concat chunks = ''abcdef''"
proof -
  have "(0 :: int) \<le> 4" by simp
  from splitLiteralBlock_verbatim [OF this] show ?thesis by blast
qed

text \<open>C35: A literal fence round trips: its lines parse as one fence whose body is exactly the text, whatever
  marker-like lines the text contains; the fence never closes early.\<close>

theorem literalFence_roundtrip:
  assumes "marker = replicate k c" and "3 \<le> k" and "c = CHR 0x60 \<or> c = CHR ''~''"
  shows "isFence (trim_space (hd (split_lines (literalFence str marker))))
    \<and> collectFence (split_lines (literalFence str marker)) 0
        = (split_lines str, length (split_lines (literalFence str marker)))"
proof -
  have c: "marker_char c" using assms(3) by (simp add: marker_char_def)
  obtain n where n: "k \<le> n" "literalFence str marker = replicate n c @ newline # str @ newline # replicate n c"
    "\<forall>l \<in> set (split_lines str). trim_space l \<noteq> replicate n c"
    using literalFence_shape [OF assms(1) _ c] assms(2) by (metis less_le_trans zero_less_numeral)
  have "replicate n c = c # c # c # replicate (n - 3) c"
    using n(1) assms(2) by (simp add: numeral_eq_Suc Suc_le_eq flip: replicate_Suc)
  then have "isFence (replicate n c)" using assms(3) by (auto simp: isFence_def has_prefix_def)
  then show ?thesis
    using n assms(2) split_literalFence [OF c] collectFence_literal [OF c _ n(3)] by (simp add: trim_space_marker c)
qed

theorem literalFence_roundtrip_witness:
  "collectFence (split_lines (literalFence ''a'' ''```'')) 0
     = (split_lines ''a'', length (split_lines (literalFence ''a'' ''```'')))"
  using literalFence_roundtrip [of "''```''" 3 "CHR 0x60" "''a''"] by (simp add: numeral_eq_Suc)

text \<open>Escaping text for HTML changes neither what Telegram renders nor its length: the rendered length of the escaped
  text is the length of the text itself, and the escaped text contains no markup.\<close>

theorem renderedUTF16Len_escapeHTML:
  "renderedUTF16Len (escapeHTML s) = literalUTF16Len s
   \<and> CHR ''<'' \<notin> set (escapeHTML s) \<and> CHR ''>'' \<notin> set (escapeHTML s)"
  using renderedUTF16Len_escape [of "[]" s]
  by (auto simp: literalUTF16Len_eq escapeHTML_def escape_char_def split: if_splits)

end
