(* ===== verification/MarkdownConvertProps.thy ===== *)
theory MarkdownConvertProps
  imports MarkdownConvert MarkdownTextProps
begin

text \<open>
  Properties of the block converter: the byte-length shortcut for plain text is exact, literal blocks come out
  verbatim and within the limit, and the converter returns on every text whose quote markers are preceded by blanks
  only, while a quote marker behind any other white space makes it loop forever.
\<close>

section \<open>Progress of the block loop\<close>

text \<open>A block that is no quote ends after it starts; a quote may end where it starts.\<close>

lemma collectMarkdownBlock_end:
  assumes "block_kind (collectMarkdownBlock lines i) \<noteq> markdownQuote"
  shows "i < block_end (collectMarkdownBlock lines i)"
proof -
  have "i < paragraph_loop lines (i + 1)" using paragraph_loop_bounds [of "i + 1" lines] by simp
  then show ?thesis
    using assms collectFence_end [of i lines] collectTable_end [of lines i]
    by (auto simp: collectMarkdownBlock_def Let_def paragraphEnd_def split: prod.splits if_splits)
qed

section \<open>Plain text\<close>

definition alnum :: "char \<Rightarrow> bool" where
  "alnum c = (let b = of_char c :: nat in (97 \<le> b \<and> b \<le> 122) \<or> (65 \<le> b \<and> b \<le> 90) \<or> (48 \<le> b \<and> b \<le> 57))"

definition plain_line :: "string \<Rightarrow> bool" where
  "plain_line l \<longleftrightarrow> (\<forall>c \<in> set l. alnum c \<or> c = CHR '' '') \<and> (l \<noteq> [] \<longrightarrow> (\<exists>c \<in> set l. alnum c))"

lemma plain_loop_Cons: "plain_loop (c # s) seen spaces = (if alnum c then plain_loop s True spaces
     else if c = CHR '' '' then plain_loop s seen True
     else if c = newline then (if spaces \<and> \<not> seen then False else plain_loop s False False) else False)"
  by (simp only: plain_loop.simps alnum_def Let_def)

lemma alnum_other [simp]: "\<not> alnum newline" "\<not> alnum (CHR '' '')" "newline \<noteq> CHR '' ''" "CHR '' '' \<noteq> newline"
  by (simp_all add: alnum_def newline_def)

lemma plain_loop_lines:
  "plain_loop s seen spaces \<Longrightarrow> split_lines s = l # ls \<Longrightarrow> (\<forall>c \<in> set l. alnum c \<or> c = CHR '' '')
     \<and> (spaces \<or> CHR '' '' \<in> set l \<longrightarrow> seen \<or> (\<exists>c \<in> set l. alnum c)) \<and> (\<forall>l \<in> set ls. plain_line l)"
proof (induction s arbitrary: seen spaces l ls)
  case (Cons c s)
  obtain l' ls' where split: "split_lines s = l' # ls'" by (cases "split_lines s") auto
  consider "alnum c" | "\<not> alnum c" "c = CHR '' ''" | "\<not> alnum c" "c \<noteq> CHR '' ''" "c = newline" "\<not> (spaces \<and> \<not> seen)"
    using Cons.prems(1) unfolding plain_loop_Cons by (auto split: if_splits)
  then show ?case
  proof cases
    case 1
    then have "plain_loop s True spaces" "l = c # l'" "ls = ls'"
      using Cons.prems split by (auto simp: plain_loop_Cons simp del: plain_loop.simps split: if_splits)
    then show ?thesis using Cons.IH [OF _ split, of True spaces] 1 by auto
  next
    case 2
    then have "plain_loop s seen True" "l = c # l'" "ls = ls'"
      using Cons.prems split by (auto simp: plain_loop_Cons simp del: plain_loop.simps split: if_splits)
    then show ?thesis using Cons.IH [OF _ split, of seen True] 2 by auto
  next
    case 3
    then have "plain_loop s False False" "l = []" "ls = l' # ls'"
      using Cons.prems split by (auto simp: plain_loop_Cons simp del: plain_loop.simps split: if_splits)
    moreover have IH: "\<forall>c \<in> set l'. alnum c \<or> c = CHR '' ''" "CHR '' '' \<in> set l' \<longrightarrow> (\<exists>c \<in> set l'. alnum c)"
      "\<forall>l \<in> set ls'. plain_line l"
      using Cons.IH [OF \<open>plain_loop s False False\<close> split] by simp_all
    moreover have "plain_line l'" unfolding plain_line_def using IH(1,2) by (metis list.set_intros(1) neq_Nil_conv)
    ultimately show ?thesis using 3(4) by simp
  qed
qed simp

lemma plainASCIIText_lines: "plainASCIIText md \<Longrightarrow> x \<in> set (split_lines md) \<Longrightarrow> plain_line x"
proof -
  assume plain: "plainASCIIText md" and x: "x \<in> set (split_lines md)"
  obtain l ls where split: "split_lines md = l # ls" by (cases "split_lines md") auto
  have all: "\<forall>c \<in> set l. alnum c \<or> c = CHR '' ''" "CHR '' '' \<in> set l \<longrightarrow> (\<exists>c \<in> set l. alnum c)" "\<forall>l \<in> set ls. plain_line l"
    using plain_loop_lines [OF _ split, of False False] plain by (simp_all add: plainASCIIText_def)
  have "plain_line l" unfolding plain_line_def using all(1,2) by (metis list.set_intros(1) neq_Nil_conv)
  then show ?thesis using all(3) x unfolding split by auto
qed

text \<open>No line of plain text starts any block but a paragraph.\<close>

lemma plain_ascii: "alnum c \<or> c = CHR '' '' \<Longrightarrow> of_char c < (128 :: nat)"
  by (auto simp: alnum_def Let_def)

lemma plain_chars:
  assumes "\<forall>c \<in> set l. alnum c \<or> c = CHR '' ''"
  shows "CHR ''|'' \<notin> set l" "CHR ''#'' \<notin> set l" "CHR ''>'' \<notin> set l" "CHR ''<'' \<notin> set l" "CHR ''&'' \<notin> set l"
    "CHR ''-'' \<notin> set l" "CHR ''*'' \<notin> set l" "CHR ''_'' \<notin> set l" "CHR ''+'' \<notin> set l" "CHR ''.'' \<notin> set l" "CHR '')'' \<notin> set l"
    "CHR ''~'' \<notin> set l" "CHR 0x60 \<notin> set l" "CHR 0x5C \<notin> set l" "CHR ''['' \<notin> set l" "newline \<notin> set l"
  using assms by (auto simp: alnum_def Let_def newline_def)


lemma trim_space_hd_in: "trim_space l \<noteq> [] \<Longrightarrow> hd (trim_space l) \<in> set l"
  using set_trim_space [of l] hd_in_set by blast

lemma has_prefix_hd: "has_prefix s (c # p) \<Longrightarrow> s \<noteq> [] \<and> hd s = c"
  by (cases s) (auto simp: has_prefix_def)

lemma alnum_not_space: "alnum c \<Longrightarrow> \<not> is_space (of_char c)"
  by (auto simp: alnum_def is_space_def Let_def)

lemma set_dropWhile_subset: "set (dropWhile p xs) \<subseteq> set xs"
  by (auto dest: set_dropWhileD)

lemma plain_block:
  assumes lines: "\<forall>l \<in> set lines. plain_line l" and i: "i < length lines"
  shows "block_kind (collectMarkdownBlock lines i) = (if lines ! i = [] then markdownBlank else markdownParagraph)"
    and "lines ! i = [] \<Longrightarrow> block_end (collectMarkdownBlock lines i) = i + 1"
proof -
  let ?l = "lines ! i"
  have chars: "\<forall>c \<in> set ?l. alnum c \<or> c = CHR '' ''" and ne: "?l \<noteq> [] \<longrightarrow> (\<exists>c \<in> set ?l. alnum c)"
    using lines i by (auto simp: plain_line_def)
  note no = plain_chars [OF chars]
  have "ascii ?l" using chars plain_ascii by (auto simp: ascii_def)
  then have empty: "trim_space ?l = [] \<longleftrightarrow> ?l = []"
    using ascii_trim_space_empty [of ?l] ne alnum_not_space by auto
  have first: "\<not> has_prefix (trim_space ?l) (c # p)" if "c \<notin> set ?l" for c p
    using that trim_space_hd_in has_prefix_hd by blast
  have fence: "\<not> isFence (trim_space ?l)" using first no by (simp add: isFence_def)
  have table: "\<not> isTableStart lines i"
    using no(1) set_trim_space [of ?l] by (auto simp: isTableStart_def)
  have "takeWhile (\<lambda>c. c = CHR ''#'') (dropWhile inlineLinkSpace ?l) = []"
    unfolding takeWhile_eq_Nil_iff
    using no(2) set_dropWhileD [of _ inlineLinkSpace ?l] hd_in_set [of "dropWhile inlineLinkSpace ?l"] by metis
  then have heading: "headingRe ?l = None" by (simp add: headingRe_def)
  have core: "set (rev (dropWhile inlineLinkSpace (rev (dropWhile inlineLinkSpace ?l)))) \<subseteq> set ?l"
    by (metis set_rev order_trans set_dropWhile_subset)
  have rule: "\<not> ruleRe ?l"
  proof
    assume r: "ruleRe ?l"
    define core' where "core' = rev (dropWhile inlineLinkSpace (rev (dropWhile inlineLinkSpace ?l)))"
    have long: "3 \<le> length core'" and mark: "hd core' \<in> {CHR ''-'', CHR ''*'', CHR ''_''}"
      using r by (simp_all add: ruleRe_def core'_def Let_def)
    from long have "hd core' \<in> set core'" by (intro hd_in_set) auto
    then have "hd core' \<in> set ?l" using core unfolding core'_def [symmetric] by (rule subsetD [rotated])
    with mark no(6-8) show False by (elim insertE emptyE) simp_all
  qed
  have item: "listItemRe ?l = None"
  proof -
    let ?rest = "dropWhile inlineLinkSpace ?l"
    have sub: "set ?rest \<subseteq> set ?l" "set (dropWhile is_digit ?rest) \<subseteq> set ?l"
      by (meson order_trans set_dropWhile_subset)+
    have "item_marker ?rest = None"
    proof (cases ?rest)
      case (Cons c t)
      then have c: "c \<in> set ?l" using sub(1) by (simp add: subset_iff)
      have mark: "c \<notin> {CHR ''-'', CHR ''*'', CHR ''+''}"
      proof
        assume "c \<in> {CHR ''-'', CHR ''*'', CHR ''+''}"
        with c no(6,7,9) show False by (elim insertE emptyE) simp_all
      qed
      have "hd (dropWhile is_digit ?rest) \<notin> {CHR ''.'', CHR '')''}" if "dropWhile is_digit ?rest \<noteq> []"
      proof
        assume "hd (dropWhile is_digit ?rest) \<in> {CHR ''.'', CHR '')''}"
        moreover have "hd (dropWhile is_digit ?rest) \<in> set ?l" using sub(2) hd_in_set [OF that] by (rule subsetD)
        ultimately show False using no(10,11) by (elim insertE emptyE) simp_all
      qed
      then show ?thesis using Cons mark by (auto simp: item_marker_def Let_def) blast+
    next
      case Nil
      show ?thesis unfolding Nil by (simp add: item_marker_def)
    qed
    then show ?thesis by (simp add: listItemRe_def)
  qed
  note block = collectMarkdownBlock_def Let_def empty fence table heading rule item first [OF no(3)]
  show "block_kind (collectMarkdownBlock lines i) = (if ?l = [] then markdownBlank else markdownParagraph)"
    by (simp add: block)
  show "block_end (collectMarkdownBlock lines i) = i + 1" if "?l = []"
    unfolding collectMarkdownBlock_def Let_def using that empty by simp
qed

lemma plain_paragraph_end:
  assumes "block_kind (collectMarkdownBlock lines i) = markdownParagraph" and "i < length lines"
  shows "block_end (collectMarkdownBlock lines i) \<le> length lines"
  using assms paragraph_loop_bounds [of "i + 1" lines]
  by (auto simp: collectMarkdownBlock_def Let_def paragraphEnd_def split: prod.splits if_splits)

lemma convertInline_plain: "\<forall>c \<in> set s. c \<notin> set inline_marks \<Longrightarrow> convertInline wide_punct s = escapeHTML s"
  by (auto simp: convertInline_def)

lemma escapeHTML_id: "\<forall>c \<in> set s. c \<notin> {CHR ''&'', CHR ''<'', CHR ''>''} \<Longrightarrow> escapeHTML s = s"
  by (induction s) (auto simp: escapeHTML_def escape_char_def)

lemma join_nested: "xs \<noteq> [] \<Longrightarrow> join sep (out @ join sep xs # ys) = join sep (out @ xs @ ys)"
proof (induction out)
  case Nil
  then show ?case by (cases ys) (simp_all add: join_append join_Cons)
qed (simp add: join_Cons)

lemma set_join_lines: "c \<in> set (join_lines xs) \<Longrightarrow> c = newline \<or> (\<exists>l \<in> set xs. c \<in> set l)"
  by (induction "[newline]" xs rule: join.induct) auto

lemma convert_plain_lines:
  assumes "\<forall>l \<in> set lines. plain_line l"
  shows "\<exists>parts. convert_loop wide_punct lines i out = Some (out @ parts) \<and> (i < length lines \<longrightarrow> parts \<noteq> [])
     \<and> (i < length lines \<longrightarrow> join_lines parts = join_lines (drop i lines)) \<and> (length lines \<le> i \<longrightarrow> parts = [])"
proof (induction "length lines - i" arbitrary: i out rule: less_induct)
  case less
  show ?case
  proof (cases "i < length lines")
    case False
    then show ?thesis by (subst convert_loop.simps) simp
  next
    case True
    let ?b = "collectMarkdownBlock lines i"
    let ?e = "block_end ?b"
    have kind: "block_kind ?b = (if lines ! i = [] then markdownBlank else markdownParagraph)"
      by (rule plain_block(1) [OF assms True])
    then have "block_kind ?b \<noteq> markdownQuote" by simp
    then have e: "i < ?e" by (rule collectMarkdownBlock_end)
    have bound: "?e \<le> length lines"
      using plain_block(2) [OF assms True] plain_paragraph_end [OF _ True] kind True by (cases "lines ! i = []") auto
    have conv: "convert_block wide_punct lines i ?b = join_lines (take (?e - i) (drop i lines))"
    proof (cases "lines ! i = []")
      case True
      then have "take (?e - i) (drop i lines) = [[]]"
        using plain_block(2) [OF assms \<open>i < length lines\<close>] \<open>i < length lines\<close> by (simp add: take_Suc_conv_app_nth Cons_nth_drop_Suc [symmetric])
      then show ?thesis using kind True by (simp add: convert_block_def)
    next
      case False
      let ?s = "join_lines (take (?e - i) (drop i lines))"
      have "c = newline \<or> alnum c \<or> c = CHR '' ''" if "c \<in> set ?s" for c
        using set_join_lines [OF that] assms by (auto simp: plain_line_def dest!: in_set_takeD in_set_dropD)
      then have "\<forall>c \<in> set ?s. c \<notin> set inline_marks \<and> c \<notin> {CHR ''&'', CHR ''<'', CHR ''>''}"
        by (fastforce simp: inline_marks_def alnum_def Let_def newline_def)
      then show ?thesis
        using kind False by (simp add: convert_block_def block_lines_def convertInline_plain escapeHTML_id)
    qed
    obtain parts where parts: "convert_loop wide_punct lines ?e (out @ [convert_block wide_punct lines i ?b])
        = Some ((out @ [convert_block wide_punct lines i ?b]) @ parts)"
      "?e < length lines \<longrightarrow> parts \<noteq> [] \<and> join_lines parts = join_lines (drop ?e lines)" "length lines \<le> ?e \<longrightarrow> parts = []"
      using less [of ?e "out @ [convert_block wide_punct lines i ?b]"] e True by (metis diff_less_mono2 not_le)
    let ?xs = "take (?e - i) (drop i lines)"
    have ne: "?xs \<noteq> []" using e True by simp
    have drop: "drop i lines = ?xs @ drop ?e lines"
      using e by (metis append_take_drop_id drop_drop le_add_diff_inverse2 less_imp_le_nat)
    have "join_lines (convert_block wide_punct lines i ?b # parts) = join_lines (drop i lines)"
    proof (cases "?e < length lines")
      case True
      then have "join_lines (join_lines ?xs # parts) = join_lines ?xs @ [newline] @ join_lines (drop ?e lines)"
        using parts(2) by (simp add: join_Cons)
      also have "\<dots> = join_lines (?xs @ drop ?e lines)" using ne True by (simp add: join_append)
      finally show ?thesis unfolding conv drop [symmetric] .
    next
      case False
      then show ?thesis using parts(3) drop by (simp add: conv)
    qed
    moreover have "convert_loop wide_punct lines i out = Some (out @ convert_block wide_punct lines i ?b # parts)"
      using parts(1) True \<open>block_kind ?b \<noteq> markdownQuote\<close> by (subst convert_loop.simps) simp
    ultimately show ?thesis using True by (intro exI [of _ "convert_block wide_punct lines i ?b # parts"]) simp
  qed
qed

lemma ConvertMarkdown_plain:
  assumes "plainASCIIText md"
  shows "ConvertMarkdown wide_punct md = Some md"
proof -
  have "\<forall>l \<in> set (split_lines md). plain_line l" using plainASCIIText_lines [OF assms] by blast
  from convert_plain_lines [OF this, of wide_punct 0 "[]"] show ?thesis
    by (auto simp: ConvertMarkdown_def)
qed


section \<open>Literal fences\<close>

lemma convert_fence:
  assumes c: "marker_char c" and n: "3 \<le> n" and ls: "\<forall>l \<in> set ls. trim_space l \<noteq> replicate n c"
  shows "convert_loop wide_punct (replicate n c # ls @ [replicate n c]) 0 []
    = Some [''<pre>'' @ escapeHTML (join_lines ls) @ ''</pre>'']"
proof -
  let ?lines = "replicate n c # ls @ [replicate n c]"
  have "replicate n c = c # c # c # replicate (n - 3) c"
    using n by (simp add: numeral_eq_Suc Suc_le_eq flip: replicate_Suc)
  then have fence: "isFence (replicate n c)" using c by (auto simp: isFence_def has_prefix_def marker_char_def)
  have "0 < n" using n by simp
  then have "collectFence ?lines 0 = (ls, length ls + 2)" using collectFence_literal [OF c _ ls] by blast
  then have block: "collectMarkdownBlock ?lines 0 = \<lparr>block_kind = markdownFence, block_end = length ls + 2, block_body = ls\<rparr>"
    using trim_space_marker [OF c, of n] fence \<open>0 < n\<close> by (simp add: collectMarkdownBlock_def Let_def)
  have "convert_loop wide_punct ?lines 0 [] = convert_loop wide_punct ?lines (length ls + 2)
      [''<pre>'' @ escapeHTML (join_lines ls) @ ''</pre>'']"
    by (subst convert_loop.simps) (simp add: block convert_block_def)
  also have "\<dots> = Some [''<pre>'' @ escapeHTML (join_lines ls) @ ''</pre>'']"
    by (subst convert_loop.simps) simp
  finally show ?thesis .
qed

lemma convert_literalFence:
  assumes "marker = replicate k c" and "3 \<le> k" and "marker_char c"
  shows "ConvertMarkdown wide_punct (literalFence str marker) = Some (''<pre>'' @ escapeHTML str @ ''</pre>'')"
proof -
  obtain n where n: "k \<le> n" "literalFence str marker = replicate n c @ newline # str @ newline # replicate n c"
    "\<forall>l \<in> set (split_lines str). trim_space l \<noteq> replicate n c"
    using literalFence_shape [OF assms(1) _ assms(3)] assms(2) by (metis less_le_trans zero_less_numeral)
  have "convert_loop wide_punct (split_lines (literalFence str marker)) 0 []
      = Some [''<pre>'' @ escapeHTML (join_lines (split_lines str)) @ ''</pre>'']"
    unfolding n(2) split_literalFence [OF assms(3)]
    by (rule convert_fence [OF assms(3) _ n(3)]) (use n(1) assms(2) in simp)
  then show ?thesis by (simp add: ConvertMarkdown_def)
qed

lemma rendered_pre: "renderedUTF16Len (''<pre>'' @ escapeHTML str @ ''</pre>'') = literalUTF16Len str"
proof -
  have "renderedUTF16Len (''<pre>'' @ escapeHTML str @ ''</pre>'') = renderedUTF16Len (escapeHTML str @ ''</pre>'')"
    using renderedUTF16Len_tag [of "''pre''" "escapeHTML str @ ''</pre>''"] by simp
  also have "\<dots> = int (text_units str) + renderedUTF16Len ''</pre>''" by (rule renderedUTF16Len_escape) simp
  also have "renderedUTF16Len ''</pre>'' = 0" using renderedUTF16Len_tag [of "''/pre''" "[]"] by simp
  finally show ?thesis by (simp add: literalUTF16Len_eq)
qed

lemma not_plain: "c \<in> set s \<Longrightarrow> marker_char c \<Longrightarrow> \<not> plainASCIIText s"
proof
  assume c: "c \<in> set s" "marker_char c" and plain: "plainASCIIText s"
  have "c \<in> set (join_lines (split_lines s))" using c(1) by simp
  then have "c = newline \<or> (\<exists>l \<in> set (split_lines s). c \<in> set l)" by (rule set_join_lines)
  then have "c = newline \<or> alnum c \<or> c = CHR '' ''"
    using plainASCIIText_lines [OF plain] unfolding plain_line_def by blast
  then show False using c(2) by (auto simp: marker_char_def alnum_def Let_def newline_def)
qed

lemma convertLen_literalFence:
  assumes "marker = replicate k c" and "3 \<le> k" and "marker_char c"
  shows "convertLen wide_punct (literalFence str marker) = Some (literalUTF16Len str)"
proof -
  obtain n where "k \<le> n" "literalFence str marker = replicate n c @ newline # str @ newline # replicate n c"
    using literalFence_shape [OF assms(1) _ assms(3)] assms(2) by (metis less_le_trans zero_less_numeral)
  then have "c \<in> set (literalFence str marker)" using assms(2) by simp
  then show ?thesis
    using not_plain [OF _ assms(3)] convert_literalFence [OF assms] rendered_pre by (simp add: convertLen_def)
qed

section \<open>Quotes\<close>

definition quote_mark :: "char \<Rightarrow> bool" where
  "quote_mark c \<longleftrightarrow> c = CHR '' '' \<or> c = tab \<or> c = CHR ''>''"

text \<open>After its leading blanks and quote markers the line has other white space and then a quote marker.\<close>

definition stray_quote :: "string \<Rightarrow> bool" where
  "stray_quote line \<longleftrightarrow> has_prefix (trim_space (dropWhile quote_mark line)) ''>''"

lemma trim_space_blank: "trim_space (trim_left blank_cut l) = trim_space l"
proof -
  have "trim_left_func is_space (trim_left blank_cut l) = trim_left_func is_space l"
    by (induction l) (auto simp: trim_left_def blank_cut_def trim_left_func_def runes_ascii is_space_def tab_def)
  then show ?thesis by (simp add: trim_space_def)
qed

lemma quote_collected:
  assumes "has_prefix (trim_space l) ''>''" and "\<not> stray_quote l"
  shows "has_prefix (trim_left blank_cut l) ''>''"
proof (rule ccontr)
  let ?l = "trim_left blank_cut l"
  assume no: "\<not> has_prefix ?l ''>''"
  have "dropWhile quote_mark l = ?l"
  proof (cases ?l)
    case Nil
    then have "\<forall>c \<in> set l. c \<in> set blank_cut" by (simp add: trim_left_def dropWhile_eq_Nil_conv)
    then have "\<forall>c \<in> set l. quote_mark c" by (auto simp: blank_cut_def quote_mark_def)
    then show ?thesis using Nil by (simp add: dropWhile_eq_Nil_conv)
  next
    case (Cons c t)
    then have "c \<notin> set blank_cut" using hd_dropWhile [of "\<lambda>c. c \<in> set blank_cut" l] by (simp add: trim_left_def)
    then have stop: "\<not> quote_mark c" using no Cons by (auto simp: blank_cut_def quote_mark_def has_prefix_def)
    have "l = takeWhile (\<lambda>c. c \<in> set blank_cut) l @ c # t"
      unfolding Cons [symmetric] trim_left_def by simp
    moreover have "\<forall>x \<in> set (takeWhile (\<lambda>c. c \<in> set blank_cut) l). quote_mark x"
      by (auto simp: blank_cut_def quote_mark_def dest!: set_takeWhileD)
    ultimately have "dropWhile quote_mark l = dropWhile quote_mark (c # t)" by (metis dropWhile_append2)
    then show ?thesis using stop Cons by simp
  qed
  then show False using assms trim_space_blank [of l] by (simp add: stray_quote_def)
qed

lemma quote_body_line:
  assumes "has_prefix (trim_left blank_cut l) ''>''"
  defines "b \<equiv> trim_left blank_cut (trim_prefix (trim_left blank_cut l) ''>'')"
  shows "stray_quote b = stray_quote l" and "length b < length l" and "set b \<subseteq> set l"
proof -
  obtain t where t: "trim_left blank_cut l = CHR ''>'' # t" using assms(1) by (auto simp: has_prefix_def prefix_def)
  then have b: "b = dropWhile (\<lambda>c. c \<in> set blank_cut) t"
    by (simp add: b_def trim_prefix_def has_prefix_def) (simp add: trim_left_def)
  let ?p = "takeWhile (\<lambda>c. c \<in> set blank_cut) l @ CHR ''>'' # takeWhile (\<lambda>c. c \<in> set blank_cut) t"
  have "l = takeWhile (\<lambda>c. c \<in> set blank_cut) l @ CHR ''>'' # t"
    unfolding t [symmetric] trim_left_def by simp
  then have l: "l = ?p @ b" unfolding b by simp
  have "\<forall>c \<in> set ?p. quote_mark c" by (auto simp: blank_cut_def quote_mark_def dest!: set_takeWhileD)
  then have "dropWhile quote_mark (?p @ b) = dropWhile quote_mark b"
    by (intro dropWhile_append2) blast
  then show "stray_quote b = stray_quote l" using l by (simp add: stray_quote_def)
  have "length l = length ?p + length b" using l by (metis length_append)
  then show "length b < length l" by simp
  show "set b \<subseteq> set l" using l by (metis set_append sup_ge2)
qed

definition work :: "string list \<Rightarrow> nat \<Rightarrow> nat" where
  "work lines i = sum_list (map (\<lambda>l. length l + 1) (drop i lines))"

lemma work_less: "i < j \<Longrightarrow> i < length lines \<Longrightarrow> work lines j < work lines i"
proof -
  assume ij: "i < j" and i: "i < length lines"
  have "drop i lines = lines ! i # drop (i + 1) lines" using i by (simp add: Cons_nth_drop_Suc)
  moreover have "drop (i + 1) lines = take (j - (i + 1)) (drop (i + 1) lines) @ drop j lines"
    using ij by (metis Suc_eq_plus1 Suc_leI append_take_drop_id drop_drop le_add_diff_inverse2)
  ultimately have "drop i lines = lines ! i # take (j - (i + 1)) (drop (i + 1) lines) @ drop j lines" by simp
  then show ?thesis by (simp add: work_def)
qed


lemma quote_block:
  assumes kind: "block_kind (collectMarkdownBlock lines i) = markdownQuote" and i: "i < length lines"
    and ok: "\<forall>l \<in> set lines. \<not> stray_quote l \<and> newline \<notin> set l"
  defines "body \<equiv> block_body (collectMarkdownBlock lines i)"
  shows "i < block_end (collectMarkdownBlock lines i)" and "body \<noteq> []"
    and "\<forall>l \<in> set body. \<not> stray_quote l \<and> newline \<notin> set l" and "work body 0 < work lines i"
proof -
  let ?q = "\<lambda>l. has_prefix (trim_left blank_cut l) ''>''"
  let ?b = "\<lambda>l. trim_left blank_cut (trim_prefix (trim_left blank_cut l) ''>'')"
  let ?quoted = "takeWhile ?q (drop i lines)"
  have block: "collectMarkdownBlock lines i = \<lparr>block_kind = markdownQuote, block_end = i + length ?quoted, block_body = map ?b ?quoted\<rparr>"
    and prefix: "has_prefix (trim_space (lines ! i)) ''>''"
    using kind by (auto simp: collectMarkdownBlock_def Let_def collectQuote_def split: if_splits prod.splits)
  have "drop i lines = lines ! i # drop (i + 1) lines" using i by (simp add: Cons_nth_drop_Suc)
  moreover have "?q (lines ! i)" using quote_collected [OF prefix] ok i by simp
  ultimately have ne: "?quoted \<noteq> []" by simp
  have sub: "l \<in> set lines \<and> ?q l" if "l \<in> set ?quoted" for l
    using set_takeWhileD [OF that] by (auto dest: in_set_dropD)
  show "i < block_end (collectMarkdownBlock lines i)" "body \<noteq> []"
    using ne unfolding body_def block by (simp_all del: takeWhile_eq_Nil_iff)
  show "\<forall>l \<in> set body. \<not> stray_quote l \<and> newline \<notin> set l"
  proof
    fix b assume "b \<in> set body"
    then obtain l where l: "l \<in> set ?quoted" and b: "b = ?b l" by (auto simp: body_def block simp del: set_takeWhileD)
    have "\<not> stray_quote l \<and> newline \<notin> set l" using ok sub [OF l] by blast
    then show "\<not> stray_quote b \<and> newline \<notin> set b"
      using quote_body_line [of l] sub [OF l] unfolding b by blast
  qed
  have shorter: "sum_list (map (\<lambda>l. length l + 1) (map ?b xs)) < sum_list (map (\<lambda>l. length l + 1) xs)"
    if "xs \<noteq> []" "\<forall>l \<in> set xs. ?q l" for xs
    using that by (induction xs rule: list_nonempty_induct) (fastforce dest: quote_body_line(2))+
  have "work body 0 < sum_list (map (\<lambda>l. length l + 1) ?quoted)"
    unfolding work_def body_def block using shorter [OF ne] sub by simp
  also have "\<dots> \<le> work lines i"
    unfolding work_def using takeWhile_dropWhile_id [of ?q "drop i lines"]
    by (metis (no_types, lifting) le_add1 map_append sum_list_append)
  finally show "work body 0 < work lines i" .
qed

lemma convert_loop_returns:
  assumes "\<forall>l \<in> set lines. \<not> stray_quote l \<and> newline \<notin> set l"
  shows "\<exists>parts. convert_loop wide_punct lines i out = Some parts"
  using assms
proof (induction "work lines i" arbitrary: lines i out rule: less_induct)
  case less
  show ?case
  proof (cases "i < length lines")
    case False
    then show ?thesis by (subst convert_loop.simps) simp
  next
    case i: True
    let ?b = "collectMarkdownBlock lines i"
    show ?thesis
    proof (cases "block_kind ?b = markdownQuote")
      case True
      note q = quote_block [OF True i less.prems]
      have "split_lines (join_lines (block_body ?b)) = block_body ?b" using q(2,3) by (intro split_join) auto
      then obtain inner where "convert_loop wide_punct (split_lines (join_lines (block_body ?b))) 0 [] = Some inner"
        using less.hyps [OF q(4) q(3)] by metis
      moreover obtain parts where "convert_loop wide_punct lines (block_end ?b) (out @ [blockquote inner]) = Some parts"
        using less.hyps [OF work_less [OF q(1) i] less.prems] by blast
      ultimately show ?thesis using i True by (subst convert_loop.simps) simp
    next
      case False
      then obtain parts where "convert_loop wide_punct lines (block_end ?b) (out @ [convert_block wide_punct lines i ?b]) = Some parts"
        using less.hyps [OF work_less [OF collectMarkdownBlock_end i] less.prems] by blast
      then show ?thesis using i False by (subst convert_loop.simps) simp
    qed
  qed
qed

definition stuck :: "string list \<Rightarrow> nat \<Rightarrow> bool" where
  "stuck lines i \<longleftrightarrow> i < length lines \<and> block_kind (collectMarkdownBlock lines i) = markdownQuote
     \<and> block_end (collectMarkdownBlock lines i) = i"

lemma convert_loop_stuck:
  "convert_loop wide_punct lines i out = Some parts \<Longrightarrow> \<not> stuck lines i"
proof (induction wide_punct lines i out parts rule: convert_loop.raw_induct [rotated, consumes 1, case_names step])
  case (step convert wide_punct lines i out parts)
  show ?case
  proof
    assume "stuck lines i"
    then obtain inner where "convert wide_punct lines i (out @ [blockquote inner]) = Some parts"
      using step(2) by (auto simp: stuck_def bind_eq_Some_conv)
    then show False using step(1) \<open>stuck lines i\<close> by blast
  qed
qed

lemma plain_char: "c = newline \<or> alnum c \<or> c = CHR '' '' \<Longrightarrow> of_char c < (128 :: nat) \<and> c \<notin> {CHR ''<'', CHR ''&''}"
  by (auto simp: alnum_def Let_def newline_def)

text \<open>A line that is one white-space rune outside the blanks, followed by a quote.\<close>

lemma stuck_line:
  assumes ws: "decode_rune (ws @ ''> x'') = (r, length ws)" "is_space r" "newline \<notin> set ws"
    and first: "ws = c # ws'" "c \<noteq> CHR '' ''" "c \<noteq> tab" "c \<noteq> CHR ''>''"
    and no: "headingRe (ws @ ''> x'') = None"
  shows "stuck (split_lines (ws @ ''> x'')) 0"
proof -
  have "runes (ws @ ''> x'') = (r, ws) # runes ''> x''" using ws(1) first(1) by (simp add: runes_nonempty)
  then have "trim_left_func is_space (ws @ ''> x'') = rune_text (dropWhile (is_space \<circ> fst) (runes ''> x''))"
    using ws(2) by (simp add: trim_left_func_def)
  also have "\<dots> = ''> x''" by (simp add: ascii_runes is_space_def)
  finally have trim: "trim_space (ws @ ''> x'') = ''> x''" by (simp add: trim_space_def ascii_trim_right is_space_def)
  have lines: "split_lines (ws @ ''> x'') = [ws @ ''> x'']" using ws(3) by (intro split_on_line) (simp add: newline_def)
  have "\<not> has_prefix (trim_left blank_cut (ws @ ''> x'')) ''>''"
    using first by (simp add: trim_left_def blank_cut_def has_prefix_def)
  then show ?thesis
    unfolding lines stuck_def
    by (simp add: collectMarkdownBlock_def Let_def trim isFence_def isTableStart_def no collectQuote_def has_prefix_def)
qed

lemma rendered_plain:
  assumes "plainASCIIText md"
  shows "renderedUTF16Len md = int (length md)"
proof -
  have line: "renderedUTF16Len s = int (length s)" if "\<forall>c \<in> set s. c = newline \<or> alnum c \<or> c = CHR '' ''" for s
    using that
  proof (induction s)
    case (Cons c s)
    then have "of_char c < (128 :: nat) \<and> c \<notin> {CHR ''<'', CHR ''&''}" by (intro plain_char) simp
    then show ?case using Cons renderedUTF16Len_ascii by simp
  qed simp
  have "c = newline \<or> alnum c \<or> c = CHR '' ''" if "c \<in> set md" for c
  proof -
    have "c \<in> set (join_lines (split_lines md))" using that by simp
    from set_join_lines [OF this] show ?thesis
      using plainASCIIText_lines [OF assms] unfolding plain_line_def by blast
  qed
  then show ?thesis by (intro line) blast
qed

lemma convertLen_rendered: "convertLen wide_punct md = map_option renderedUTF16Len (ConvertMarkdown wide_punct md)"
  using rendered_plain [of md] ConvertMarkdown_plain [of md] by (simp add: convertLen_def)

section \<open>The contract\<close>

text \<open>C34: The byte-length shortcut is exact: text that plainASCIIText accepts is converted to itself, and its
  rendered length is its length in bytes, so convertLen returns what full conversion would measure.\<close>

theorem convertLen_plain:
  assumes "plainASCIIText md"
  shows "ConvertMarkdown wide_punct md = Some md
    \<and> convertLen wide_punct md = map_option renderedUTF16Len (ConvertMarkdown wide_punct md)"
  using ConvertMarkdown_plain [OF assms] convertLen_rendered by blast

theorem convertLen_plain_witness: "ConvertMarkdown (\<lambda>_. False) ''two words'' = Some ''two words''"
  using convertLen_plain [of "''two words''" "\<lambda>_. False"] by (simp add: plainASCIIText_def)

text \<open>C36: Every part of a literal block converts to one preformatted block with the piece it carries, and its measured
  length is that of the piece, so that every part that is not a single rune renders within the limit.\<close>

theorem splitLiteralBlock_fits:
  assumes "0 \<le> limit" and "marker = replicate k c" and "3 \<le> k" and "c = CHR 0x60 \<or> c = CHR ''~''"
  shows "\<exists>chunks. concat chunks = str \<and> length chunks = length (splitLiteralBlock str marker limit)
    \<and> list_all2 (\<lambda>part chunk.
        ConvertMarkdown wide_punct part = Some (''<pre>'' @ escapeHTML chunk @ ''</pre>'')
        \<and> convertLen wide_punct part = Some (literalUTF16Len chunk)
        \<and> (literalUTF16Len chunk \<le> limit \<or> length (runes chunk) = 1)) (splitLiteralBlock str marker limit) chunks"
proof -
  have c: "marker_char c" using assms(4) by (simp add: marker_char_def)
  obtain chunks where chunks: "splitLiteralBlock str marker limit = map (\<lambda>c. literalFence c marker) chunks"
    "concat chunks = str" "\<forall>c \<in> set chunks. int (text_units c) \<le> limit \<or> length (runes c) = 1"
    by (rule splitLiteralBlock_chunks [OF assms(1)])
  then show ?thesis
    using convert_literalFence [OF assms(2,3) c, of wide_punct] convertLen_literalFence [OF assms(2,3) c, of wide_punct]
    by (intro exI [of _ chunks]) (auto simp: list_all2_map1 list_all2_same literalUTF16Len_eq)
qed

theorem splitLiteralBlock_fits_witness:
  "\<exists>chunks. concat chunks = ''abcdef'' \<and> length chunks = length (splitLiteralBlock ''abcdef'' ''```'' 4)"
proof -
  have "(0 :: int) \<le> 4" "''```'' = replicate 3 (CHR 0x60)" "3 \<le> (3 :: nat)" by (simp_all add: numeral_eq_Suc)
  from splitLiteralBlock_fits [OF this disjI1 [OF refl]] show ?thesis by blast
qed

text \<open>Conversion returns for every text in which no line has other white space than blanks between its
  leading quote markers: the block loop always moves on.\<close>

theorem ConvertMarkdown_returns:
  assumes "list_all (\<lambda>line. \<not> stray_quote line) (split_lines md)"
  shows "\<exists>html. ConvertMarkdown wide_punct md = Some html"
proof -
  have "\<forall>l \<in> set (split_lines md). \<not> stray_quote l \<and> newline \<notin> set l"
    using assms split_on_parts [of _ newline md] by (auto simp: list_all_iff)
  from convert_loop_returns [OF this] show ?thesis by (auto simp: ConvertMarkdown_def)
qed

theorem ConvertMarkdown_returns_witness:
  "\<exists>html. ConvertMarkdown (\<lambda>_. False) (''> a'' @ [newline] @ ''b'') = Some html"
proof -
  have lines: "split_lines (''> a'' @ [newline] @ ''b'') = [''> a'', ''b'']" by (simp add: newline_def)
  have "list_all (\<lambda>line. \<not> stray_quote line) (split_lines (''> a'' @ [newline] @ ''b''))"
    unfolding lines by (simp add: stray_quote_def quote_mark_def tab_def trim_space_solid is_space_def has_prefix_def)
  then show ?thesis by (rule ConvertMarkdown_returns)
qed

text \<open>C37: A quote marker behind a vertical tab, a form feed, a no-break space or an ideographic space makes conversion
  loop forever: the block is taken for a quote, none of its lines is collected, and the loop
  returns to the same line.\<close>

theorem ConvertMarkdown_diverges:
  "ConvertMarkdown wide_punct (CHR 0x0B # ''> x'') = None
   \<and> ConvertMarkdown wide_punct (CHR 0x0C # ''> x'') = None
   \<and> ConvertMarkdown wide_punct (CHR 0xC2 # CHR 0xA0 # ''> x'') = None
   \<and> ConvertMarkdown wide_punct (CHR 0xE3 # CHR 0x80 # CHR 0x80 # ''> x'') = None"
proof (intro conjI)
  have loop: "ConvertMarkdown wide_punct md = None" if "stuck (split_lines md) 0" for md
    using convert_loop_stuck [of wide_punct "split_lines md" 0 "[]"] that
    by (cases "convert_loop wide_punct (split_lines md) 0 []") (auto simp: ConvertMarkdown_def)
  note simps = decode_rune_def continuation_def second_ok_def is_space_def newline_def tab_def headingRe_def
    inlineLinkSpace_def heading_text_def
  show "ConvertMarkdown wide_punct (CHR 0x0B # ''> x'') = None"
    using loop [OF stuck_line [of "[CHR 0x0B]" 11 "CHR 0x0B" "[]"]] by (simp add: simps)
  show "ConvertMarkdown wide_punct (CHR 0x0C # ''> x'') = None"
    using loop [OF stuck_line [of "[CHR 0x0C]" 12 "CHR 0x0C" "[]"]] by (simp add: simps)
  show "ConvertMarkdown wide_punct (CHR 0xC2 # CHR 0xA0 # ''> x'') = None"
    using loop [OF stuck_line [of "[CHR 0xC2, CHR 0xA0]" 160 "CHR 0xC2" "[CHR 0xA0]"]] by (simp add: simps)
  show "ConvertMarkdown wide_punct (CHR 0xE3 # CHR 0x80 # CHR 0x80 # ''> x'') = None"
    using loop [OF stuck_line [of "[CHR 0xE3, CHR 0x80, CHR 0x80]" 12288 "CHR 0xE3" "[CHR 0x80, CHR 0x80]"]] by (simp add: simps)
qed

end
