(* ===== verification/MarkdownInlineProps.thy ===== *)
theory MarkdownInlineProps
  imports MarkdownConvert MarkdownTextProps
begin

text \<open>
  Properties of the inline parser: tokens partition the source, delimiter matching is balanced and properly
  nested so that the renderer never closes a style that is not open, and the backward table of link destinations
  agrees with the forward grammar.
\<close>

section \<open>Tokens partition the source\<close>

abbreviation raws :: "inlineToken list \<Rightarrow> string" where
  "raws tokens \<equiv> concat (map token_raw tokens)"

lemma substr_append: "a \<le> b \<Longrightarrow> b \<le> c \<Longrightarrow> substr s a b @ substr s b c = substr s a c"
proof -
  assume "a \<le> b" "b \<le> c"
  then have "drop b s = drop (b - a) (drop a s)" "c - a = (b - a) + (c - b)" by simp_all
  then show ?thesis by (simp only: substr_def take_add)
qed

lemma substr_all: "substr s 0 (length s) = s" "substr s i i = []" "substr s i (length s) = drop i s"
  by (simp_all add: substr_def)

lemma take_substr: "i \<le> j \<Longrightarrow> take i s @ substr s i j = take j s"
  by (simp add: substr_def flip: take_add)

lemma inlineRun_le: "i < length s \<Longrightarrow> i + inlineRun s i \<le> length s"
  using length_takeWhile_le [of "\<lambda>c. c = s ! i" "drop i s"] by (simp add: inlineRun_def)

lemma inlineCodeEnd_bounds: "inlineCodeEnd s start width = Some e \<Longrightarrow> start \<le> e \<and> e < length s \<and> inlineRun s e = width"
proof (induction s start width rule: inlineCodeEnd.induct)
  case (1 s start width)
  show ?case
  proof (cases "length s \<le> start \<or> index_byte (CHR 0x60) (drop start s) = None")
    case True
    then show ?thesis using "1.prems" by (subst (asm) inlineCodeEnd.simps) (auto split: if_split_asm)
  next
    case False
    then obtain off where off: "index_byte (CHR 0x60) (drop start s) = Some off" and start: "\<not> length s \<le> start" by auto
    have "off < length (drop start s)" using off by (rule index_byte_less)
    then have b: "start + off < length s" by simp
    show ?thesis
    proof (cases "inlineRun s (start + off) = width")
      case True
      then show ?thesis using "1.prems" off start b by (subst (asm) inlineCodeEnd.simps) auto
    next
      case False
      then have "inlineCodeEnd s (start + off + inlineRun s (start + off)) width = Some e"
        using "1.prems" off start by (subst (asm) inlineCodeEnd.simps) auto
      from "1.IH" [OF start off False this] show ?thesis by simp
    qed
  qed
qed

lemma code_token_raw:
  assumes "i < length s"
  shows "token_raw (fst (code_token s i)) = substr s i (snd (code_token s i)) \<and> i \<le> snd (code_token s i)
    \<and> snd (code_token s i) \<le> length s"
proof (cases "inlineCodeEnd s (i + inlineRun s i) (inlineRun s i)")
  case None
  then show ?thesis using assms by (simp add: code_token_def Let_def substr_all)
next
  case (Some e)
  note b = inlineCodeEnd_bounds [OF Some]
  then have "e + inlineRun s i \<le> length s" using inlineRun_le [of e s] by simp
  then show ?thesis using Some b by (simp add: code_token_def Let_def)
qed

definition matches_within :: "string \<Rightarrow> linkMatch list \<Rightarrow> bool" where
  "matches_within s matches \<longleftrightarrow> (\<forall>m \<in> set matches. lm_end m \<le> length s)"

lemma raws_flush: "plain \<le> e \<Longrightarrow> raws (flush_text s plain e tokens) = raws tokens @ substr s plain e"
  by (auto simp: flush_text_def substr_def)

text \<open>One round of the parser either emits a token that ends at \<open>j\<close> or skips to \<open>j\<close>.\<close>

definition emits :: "unicode_class \<Rightarrow> (string \<Rightarrow> inlineToken list) \<Rightarrow> linkMatch set \<Rightarrow> string \<Rightarrow> nat
    \<Rightarrow> inlineToken list \<Rightarrow> inlineToken \<Rightarrow> nat \<Rightarrow> bool" where
  "emits wide_punct pl links s i flushed t j \<longleftrightarrow>
     (t = inlineEscape (substr s i (i + 2)) (substr s (i + 1) (i + 2)) \<and> j = i + 2 \<and> i + 1 < length s)
     \<or> (t = fst (code_token s i) \<and> j = snd (code_token s i))
     \<or> (\<exists>m \<in> links. t = link_token pl s m \<and> lm_start m = i \<and> i < lm_end m \<and> j = lm_end m)
     \<or> (t = delimiter_token wide_punct s i flushed \<and> j = i + inlineRun s i)"

lemma parse_loop_invariant:
  assumes emit: "\<And>plain i tokens t j. Q plain i tokens \<Longrightarrow> i < length s
      \<Longrightarrow> emits wide_punct pl links s i (flush_text s plain i tokens) t j \<Longrightarrow> Q j j (flush_text s plain i tokens @ [t])"
    and skip: "\<And>plain i tokens j. Q plain i tokens \<Longrightarrow> i < j \<Longrightarrow> j \<le> length s \<Longrightarrow> Q plain j tokens"
    and stop: "\<And>plain i tokens. Q plain i tokens \<Longrightarrow> length s \<le> i \<Longrightarrow> R (flush_text s plain (length s) tokens)"
    and sub: "set matches \<subseteq> links" and start: "Q plain i tokens"
  shows "R (parse_loop wide_punct pl s matches i plain tokens)"
  using sub start
proof (induction "length s - i" arbitrary: matches i plain tokens rule: less_induct)
  case less
  let ?m = "dropWhile (\<lambda>m. lm_start m < i) matches" and ?f = "flush_text s plain i tokens"
  have sub: "set ?m \<subseteq> links" using less.prems(1) by (auto dest: set_dropWhileD)
  show ?case
  proof (cases "length s \<le> i")
    case True
    then show ?thesis using stop [OF less.prems(2)] by (subst parse_loop.simps) simp
  next
    case i: False
    then have lt: "i < length s" by simp
    have go: "R (parse_loop wide_punct pl s ?m j j (?f @ [t]))" if "emits wide_punct pl links s i ?f t j" "i < j" for t j
      using less.hyps [OF _ sub emit [OF less.prems(2) lt that(1)]] that(2) lt by simp
    have on: "R (parse_loop wide_punct pl s ?m j plain tokens)" if "i < j" "j \<le> length s" for j
      using less.hyps [OF _ sub skip [OF less.prems(2) that]] that(1) lt by simp
    let ?esc = "s ! i = CHR 0x5C \<and> i + 1 < length s \<and> inlinePunctuation (s ! (i + 1))"
    let ?link = "?m \<noteq> [] \<and> lm_start (hd ?m) = i \<and> i < lm_end (hd ?m)"
    let ?delim = "s ! i = CHR ''*'' \<or> s ! i = CHR ''_'' \<or> s ! i = CHR ''~''"
    have esc: "R (parse_loop wide_punct pl s ?m (i + 2) (i + 2) (?f @ [inlineEscape (substr s i (i + 2)) (substr s (i + 1) (i + 2))]))"
      if ?esc using that by (intro go) (auto simp: emits_def)
    have code: "R (parse_loop wide_punct pl s ?m (snd (code_token s i)) (snd (code_token s i)) (?f @ [fst (code_token s i)]))"
      using code_token_end [OF lt] by (intro go) (simp_all add: emits_def)
    have link: "R (parse_loop wide_punct pl s ?m (lm_end (hd ?m)) (lm_end (hd ?m)) (?f @ [link_token pl s (hd ?m)]))" if ?link
    proof -
      have "hd ?m \<in> links" using that sub by (meson hd_in_set subsetD)
      then show ?thesis using that by (intro go) (auto simp: emits_def)
    qed
    have delim: "R (parse_loop wide_punct pl s ?m (i + inlineRun s i) (i + inlineRun s i) (?f @ [delimiter_token wide_punct s i ?f]))"
      using inlineRun_pos [OF lt] by (intro go) (simp_all add: emits_def)
    have run: "R (parse_loop wide_punct pl s ?m (i + inlineRun s i) plain tokens)"
      using inlineRun_pos [OF lt] inlineRun_le [OF lt] by (intro on) simp_all
    have step: "R (parse_loop wide_punct pl s ?m (i + 1) plain tokens)" using lt by (intro on) simp_all
    show ?thesis
    proof (cases ?esc)
      case True
      then show ?thesis using i esc [OF True] by (subst parse_loop.simps) (simp add: Let_def)
    next
      case no: False
      show ?thesis
        using code link delim run step
        by (subst parse_loop.simps) (simp only: Let_def i no if_False split: if_split, blast)
    qed
  qed
qed

lemma parse_loop_raws:
  assumes "matches_within s matches"
  shows "raws (parse_loop wide_punct pl s matches 0 0 []) = s"
proof (rule parse_loop_invariant [where Q = "\<lambda>plain i tokens. plain \<le> i \<and> i \<le> length s \<and> raws tokens = take plain s"])
  fix plain i tokens t j
  assume q: "plain \<le> i \<and> i \<le> length s \<and> raws tokens = take plain s" and i: "i < length s"
    and e: "emits wide_punct pl (set matches) s i (flush_text s plain i tokens) t j"
  have "token_raw t = substr s i j \<and> i \<le> j \<and> j \<le> length s"
    using e assms inlineRun_le [OF i] code_token_raw [OF i]
    by (auto simp: emits_def link_token_def delimiter_token_def Let_def matches_within_def split: prod.splits)
  then show "j \<le> j \<and> j \<le> length s \<and> raws (flush_text s plain i tokens @ [t]) = take j s"
    using q by (simp add: raws_flush take_substr)
qed (auto simp: raws_flush take_substr)

section \<open>Link destinations\<close>

text \<open>The end of a destination: the text after optional spaces and a parenthesis, or a title and a parenthesis.\<close>

definition tail_parse :: "string \<Rightarrow> string option" where
  "tail_parse t = (case dropWhile inlineLinkSpace t of [] \<Rightarrow> None
     | c # r \<Rightarrow> if c = CHR '')'' then Some r
         else if (c = CHR 0x22 \<or> c = CHR 0x27) \<and> c \<in> set r then link_close (tl (dropWhile (\<lambda>x. x \<noteq> c) r)) else None)"

definition at :: "nat \<Rightarrow> string option \<Rightarrow> nat" where
  "at n r = (case r of Some after \<Rightarrow> n - length after | None \<Rightarrow> 0)"

definition url_from :: "string \<Rightarrow> string" where
  "url_from t = dropWhile href_char (dropWhile inlineLinkSpace t)"

definition has_url :: "string \<Rightarrow> bool" where
  "has_url t \<longleftrightarrow> dropWhile inlineLinkSpace t \<noteq> [] \<and> hd (dropWhile inlineLinkSpace t) \<noteq> CHR '')''"

definition end_parse :: "string \<Rightarrow> string option" where
  "end_parse t = (if has_url t then tail_parse (url_from t) else None)"

lemma paren_kinds [simp]:
  "\<not> inlineLinkSpace (CHR '')'')" "\<not> inlineLinkSpace (CHR 0x22)" "\<not> inlineLinkSpace (CHR 0x27)"
  "\<not> href_char (CHR '')'')" "href_char (CHR 0x22)" "href_char (CHR 0x27)" "\<not> inlineLinkSpace (CHR ''('')"
  by (simp_all add: inlineLinkSpace_def href_char_def)

lemma has_url_iff: "takeWhile href_char (dropWhile inlineLinkSpace t) = [] \<longleftrightarrow> \<not> has_url t"
proof (cases "dropWhile inlineLinkSpace t")
  case (Cons c r)
  then have "\<not> inlineLinkSpace c" using hd_dropWhile [of inlineLinkSpace t] by simp
  then show ?thesis unfolding has_url_def Cons by (simp add: href_char_def)
next
  case Nil
  show ?thesis unfolding has_url_def Nil by simp
qed

text \<open>The forward grammar of a destination, as the walk decomposes it.\<close>

lemma link_dest_parse:
  "link_dest t = map_option (\<lambda>after. (takeWhile href_char (dropWhile inlineLinkSpace t), after)) (end_parse t)"
proof (cases "has_url t")
  case False
  then show ?thesis using has_url_iff [of t] by (simp add: link_dest_def end_parse_def)
next
  case True
  let ?rest = "url_from t"
  have hd: "\<not> href_char (hd ?rest)" if "?rest \<noteq> []"
    using that hd_dropWhile unfolding url_from_def by blast
  have parse: "tail_parse ?rest = (case link_close ?rest of Some after \<Rightarrow> Some after
      | None \<Rightarrow> if ?rest \<noteq> [] \<and> inlineLinkSpace (hd ?rest)
          then (case link_title (dropWhile inlineLinkSpace ?rest) of Some after_title \<Rightarrow> link_close after_title | None \<Rightarrow> None)
          else None)"
  proof (cases "dropWhile inlineLinkSpace ?rest")
    case Nil
    show ?thesis unfolding tail_parse_def link_close_def [of ?rest] Nil by (simp add: link_title_def)
  next
    case (Cons c r)
    have ne: "?rest \<noteq> []" using Cons by auto
    have space: "inlineLinkSpace (hd ?rest)" if "c \<noteq> CHR '')''"
    proof (rule ccontr)
      assume no: "\<not> inlineLinkSpace (hd ?rest)"
      then have "hd ?rest = CHR '')''" using hd [OF ne] by (simp add: href_char_def)
      moreover have "dropWhile inlineLinkSpace ?rest = ?rest" using no ne by (cases ?rest) simp_all
      ultimately show False using Cons that by (metis list.sel(1))
    qed
    show ?thesis
      unfolding tail_parse_def link_close_def [of ?rest] Cons
      using space ne by (auto simp: link_title_def)
  qed
  have "link_dest t = map_option (\<lambda>after. (takeWhile href_char (dropWhile inlineLinkSpace t), after)) (tail_parse ?rest)"
    using True has_url_iff [of t] unfolding parse
    by (auto simp: link_dest_def Let_def url_from_def split: option.splits)
  then show ?thesis using True by (simp add: end_parse_def)
qed

definition dest_spec :: "string \<Rightarrow> nat \<rightharpoonup> nat \<times> nat \<times> nat" where
  "dest_spec s k =
     (if k + 1 < length s \<and> s ! k = CHR '']'' \<and> s ! (k + 1) = CHR ''(''
      then (let t = drop (k + 2) s; start = length s - length (dropWhile inlineLinkSpace t)
            in case link_dest t of
                 Some (href, after) \<Rightarrow> Some (length s - length after, start, start + length href)
               | None \<Rightarrow> None)
      else None)"

text \<open>What each variable of the backward walk holds when the text \<open>t = drop i s\<close> has been read.\<close>

definition quote_parse :: "char \<Rightarrow> string \<Rightarrow> string option" where
  "quote_parse q t = (if q \<in> set t then link_close (tl (dropWhile (\<lambda>x. x \<noteq> q) t)) else None)"

definition walk_inv :: "string \<Rightarrow> nat \<Rightarrow> dest_state \<Rightarrow> bool" where
  "walk_inv s i st \<longleftrightarrow> (let n = length s; t = drop i s in
     ds_closeEnd st = at n (link_close t) \<and> ds_spaceTail st = at n (tail_parse t)
     \<and> ds_doubleCloseEnd st = at n (quote_parse (CHR 0x22) t) \<and> ds_singleCloseEnd st = at n (quote_parse (CHR 0x27) t)
     \<and> ds_urlEnd st = n - length (dropWhile href_char t) \<and> ds_urlFinish st = at n (tail_parse (dropWhile href_char t))
     \<and> ds_end st = at n (end_parse t)
     \<and> (has_url t \<longrightarrow> ds_hrefStart st = n - length (dropWhile inlineLinkSpace t) \<and> ds_hrefEnd st = n - length (url_from t))
     \<and> ds_dests st = (\<lambda>k. if i \<le> k + 1 then dest_spec s k else None))"

lemma walk_start: "walk_inv s (length s) (dest_start s)"
  by (auto simp: walk_inv_def dest_start_def at_def link_close_def tail_parse_def quote_parse_def end_parse_def
      has_url_def dest_spec_def Let_def fun_eq_iff)

lemma parse_Cons:
  "link_close (c # t) = (if inlineLinkSpace c then link_close t else if c = CHR '')'' then Some t else None)"
  "tail_parse (c # t) = (if inlineLinkSpace c then tail_parse t else if c = CHR '')'' then Some t
     else if c = CHR 0x22 \<or> c = CHR 0x27 then quote_parse c t else None)"
  "quote_parse q (c # t) = (if c = q then link_close t else quote_parse q t)"
  "has_url (c # t) = (if inlineLinkSpace c then has_url t else c \<noteq> CHR '')'')"
  "url_from (c # t) = (if inlineLinkSpace c then url_from t else dropWhile href_char (c # t))"
  by (auto simp: link_close_def tail_parse_def quote_parse_def has_url_def url_from_def)


lemma at_pos: "end_parse t = Some after \<Longrightarrow> length t \<le> n \<Longrightarrow> 0 < n - length after"
proof -
  assume e: "end_parse t = Some after" and n: "length t \<le> n"
  have "link_dest t = Some (takeWhile href_char (dropWhile inlineLinkSpace t), after)"
    using e by (simp add: link_dest_parse)
  then show ?thesis using link_dest_rest n by fastforce
qed

text \<open>The key recorded at an left parenthesis.\<close>

lemma dest_record_spec:
  assumes inv: "walk_inv s (i + 1) st" and i: "i < length s"
  shows "ds_dests (dest_record s i st) = (\<lambda>k. if i \<le> k + 1 then dest_spec s k else None)"
proof
  fix k
  let ?t = "drop (i + 1) s"
  have dests: "ds_dests st = (\<lambda>k. if i + 1 \<le> k + 1 then dest_spec s k else None)"
    and e: "ds_end st = at (length s) (end_parse ?t)"
    and h: "has_url ?t \<longrightarrow> ds_hrefStart st = length s - length (dropWhile inlineLinkSpace ?t) \<and> ds_hrefEnd st = length s - length (url_from ?t)"
    using inv by (simp_all add: walk_inv_def Let_def)
  show "ds_dests (dest_record s i st) k = (if i \<le> k + 1 then dest_spec s k else None)"
  proof (cases "k + 1 = i")
    case False
    then show ?thesis by (auto simp: dest_record_def dests)
  next
    case True
    then have k: "k = i - 1" "0 < i" by simp_all
    have spec: "dest_spec s k = (if s ! i = CHR ''('' \<and> s ! (i - 1) = CHR '']'' \<and> 0 < ds_end st
        then Some (ds_end st, ds_hrefStart st, ds_hrefEnd st) else None)"
    proof (cases "end_parse ?t")
      case None
      then show ?thesis using i k e by (simp add: dest_spec_def link_dest_parse at_def)
    next
      case (Some after)
      then have url: "has_url ?t" by (auto simp: end_parse_def split: if_splits)
      have "dropWhile inlineLinkSpace ?t = takeWhile href_char (dropWhile inlineLinkSpace ?t) @ url_from ?t"
        by (simp add: url_from_def)
      then have "length (dropWhile inlineLinkSpace ?t) = length (takeWhile href_char (dropWhile inlineLinkSpace ?t)) + length (url_from ?t)"
        by (metis length_append)
      moreover have "length (dropWhile inlineLinkSpace ?t) \<le> length s"
        using length_dropWhile_le [of inlineLinkSpace ?t] by simp
      moreover have "0 < length s - length after" using at_pos [OF Some, of "length s"] by simp
      ultimately show ?thesis
        using i k e h url Some by (simp add: dest_spec_def link_dest_parse at_def Let_def)
    qed
    show ?thesis using True k spec by (auto simp: dest_record_def dests)
  qed
qed

lemma walk_step:
  assumes inv: "walk_inv s (i + 1) st" and i: "i < length s"
  shows "walk_inv s i (dest_step s i st)"
proof -
  let ?c = "s ! i" and ?t = "drop (i + 1) s" and ?n = "length s"
  have t: "drop i s = ?c # ?t" using i by (simp add: Cons_nth_drop_Suc)
  have len: "?n - length ?t = i + 1" "?n - length (?c # ?t) = i" using i by simp_all
  have d: "ds_dests (dest_record s i st) = (\<lambda>k. if i \<le> k + 1 then dest_spec s k else None)"
    by (rule dest_record_spec [OF assms])
  define st1 where "st1 = dest_record s i st"
  have same: "ds_closeEnd st1 = at ?n (link_close ?t)" "ds_spaceTail st1 = at ?n (tail_parse ?t)"
    "ds_doubleCloseEnd st1 = at ?n (quote_parse (CHR 0x22) ?t)" "ds_singleCloseEnd st1 = at ?n (quote_parse (CHR 0x27) ?t)"
    "ds_urlEnd st1 = ?n - length (dropWhile href_char ?t)" "ds_urlFinish st1 = at ?n (tail_parse (dropWhile href_char ?t))"
    "ds_end st1 = at ?n (end_parse ?t)"
    "has_url ?t \<longrightarrow> ds_hrefStart st1 = ?n - length (dropWhile inlineLinkSpace ?t) \<and> ds_hrefEnd st1 = ?n - length (url_from ?t)"
    using inv by (simp_all add: walk_inv_def st1_def dest_record_def Let_def)
  have d1: "ds_dests st1 = (\<lambda>k. if i \<le> k + 1 then dest_spec s k else None)" using d by (simp add: st1_def)
  have step: "dest_step s i st = (case dest_title ?c st1 of (titleEnd, st) \<Rightarrow> dest_url ?c i (dest_tail ?c i titleEnd st))"
    by (simp add: dest_step_def st1_def)
  consider (space) "inlineLinkSpace ?c" | (paren) "?c = CHR '')''" | (double) "?c = CHR 0x22" | (single) "?c = CHR 0x27"
    | (other) "\<not> inlineLinkSpace ?c" "?c \<noteq> CHR '')''" "?c \<noteq> CHR 0x22" "?c \<noteq> CHR 0x27" by blast
  then show ?thesis
  proof cases
    case space
    then have "\<not> href_char ?c" "?c \<noteq> CHR 0x22" "?c \<noteq> CHR 0x27" "?c \<noteq> CHR '')''"
      by (auto simp: href_char_def inlineLinkSpace_def)
    then show ?thesis
      using space same d1 len
      by (simp add: walk_inv_def Let_def step t parse_Cons dest_title_def dest_tail_def dest_url_def end_parse_def)
  next
    case paren
    then show ?thesis
      using same d1 len
      by (simp add: walk_inv_def Let_def step t parse_Cons dest_title_def dest_tail_def dest_url_def end_parse_def at_def)
  next
    case double
    then show ?thesis
      using same d1 len
      by (simp add: walk_inv_def Let_def step t parse_Cons dest_title_def dest_tail_def dest_url_def end_parse_def at_def)
  next
    case single
    then show ?thesis
      using same d1 len
      by (simp add: walk_inv_def Let_def step t parse_Cons dest_title_def dest_tail_def dest_url_def end_parse_def at_def)
  next
    case other
    then have "href_char ?c" by (simp add: href_char_def)
    then show ?thesis
      using other same d1 len
      by (simp add: walk_inv_def Let_def step t parse_Cons dest_title_def dest_tail_def dest_url_def end_parse_def at_def)
  qed
qed

lemma inlineLinkDestinations_spec: "inlineLinkDestinations s = dest_spec s"
proof -
  have "walk_inv s (length s - m) (fold (dest_step s) (rev [length s - m..<length s]) (dest_start s))" if "m \<le> length s" for m
    using that
  proof (induction m)
    case 0
    show ?case by (simp add: walk_start)
  next
    case (Suc m)
    let ?i = "length s - Suc m"
    have "[?i..<length s] = ?i # [?i + 1..<length s]" using Suc.prems by (simp add: upt_conv_Cons)
    moreover have "?i + 1 = length s - m" using Suc.prems by simp
    ultimately show ?case
      using walk_step [of s ?i "fold (dest_step s) (rev [?i + 1..<length s]) (dest_start s)"] Suc by simp
  qed
  from this [of "length s"] show ?thesis by (simp add: inlineLinkDestinations_def walk_inv_def Let_def)
qed


section \<open>Link candidates\<close>

definition link_ok :: "string \<Rightarrow> linkMatch \<Rightarrow> bool" where
  "link_ok s m \<longleftrightarrow> lm_start m < lm_label_start m \<and> lm_label_start m \<le> lm_label_end m
     \<and> lm_label_end m + 1 < lm_end m \<and> lm_end m \<le> length s
     \<and> link_dest (drop (lm_label_end m + 2) s) = Some (substr s (lm_href_start m) (lm_href_end m), drop (lm_end m) s)"

lemma drop_suffix: "suffix r s \<Longrightarrow> drop (length s - length r) s = r"
  by (auto simp: suffix_def)

lemma link_close_suffix: "link_close t = Some r \<Longrightarrow> suffix r t"
proof -
  assume "link_close t = Some r"
  then have "dropWhile inlineLinkSpace t = CHR '')'' # r" by (auto simp: link_close_def split: list.splits if_splits)
  then show ?thesis using suffix_dropWhile [of inlineLinkSpace t] by (auto dest: suffix_ConsD)
qed

lemma tail_parse_suffix:
  assumes "tail_parse t = Some r"
  shows "suffix r t"
proof (cases "dropWhile inlineLinkSpace t")
  case Nil
  have "tail_parse t = None" unfolding tail_parse_def Nil by simp
  then show ?thesis using assms by simp
next
  case (Cons c u)
  then have u: "suffix u t" using suffix_dropWhile [of inlineLinkSpace t] by (auto dest: suffix_ConsD)
  have "suffix r u"
  proof (cases "c = CHR '')''")
    case True
    then show ?thesis using assms unfolding tail_parse_def Cons by simp
  next
    case False
    then have "link_close (tl (dropWhile (\<lambda>x. x \<noteq> c) u)) = Some r"
      using assms unfolding tail_parse_def Cons by (simp split: if_splits)
    then have "suffix r (tl (dropWhile (\<lambda>x. x \<noteq> c) u))" by (rule link_close_suffix)
    then show ?thesis by (meson suffix_dropWhile suffix_order.trans suffix_tl)
  qed
  then show ?thesis using u by (rule suffix_order.trans)
qed

lemma dest_spec_bounds:
  assumes "dest_spec s k = Some dest"
  shows "k + 1 < fst dest \<and> fst dest \<le> length s
    \<and> link_dest (drop (k + 2) s) = Some (substr s (fst (snd dest)) (snd (snd dest)), drop (fst dest) s)"
proof -
  let ?t = "drop (k + 2) s" and ?n = "length s"
  let ?start = "dropWhile inlineLinkSpace ?t"
  from assms obtain href after where k: "k + 1 < ?n" and link: "link_dest ?t = Some (href, after)"
    and dest: "dest = (?n - length after, ?n - length ?start, ?n - length ?start + length href)"
    by (auto simp: dest_spec_def Let_def split: if_splits option.splits)
  have short: "length after < length ?t" by (rule link_dest_rest [OF link])
  have parse: "end_parse ?t = Some after" and href: "href = takeWhile href_char ?start"
    using link by (auto simp: link_dest_parse)
  have t: "suffix ?t s" by (rule Sublist.suffix_drop)
  have "suffix ?start s" using suffix_dropWhile t by (rule suffix_order.trans)
  then have start: "drop (?n - length ?start) s = ?start" by (rule drop_suffix)
  have "tail_parse (url_from ?t) = Some after" using parse by (simp add: end_parse_def split: if_splits)
  then have "suffix after (url_from ?t)" by (rule tail_parse_suffix)
  moreover have "suffix (url_from ?t) s"
    unfolding url_from_def using suffix_dropWhile \<open>suffix ?start s\<close> by (rule suffix_order.trans)
  ultimately have "suffix after s" by (rule suffix_order.trans)
  then have after: "drop (?n - length after) s = after" by (rule drop_suffix)
  have "take (length href) ?start = href" unfolding href by (rule takeWhile_eq_take [symmetric])
  then have "substr s (?n - length ?start) (?n - length ?start + length href) = href"
    unfolding substr_def start by simp
  then show ?thesis using k short link after unfolding dest by simp
qed


lemma links_loop_ok:
  assumes "\<forall>m \<in> set found. link_ok s m" and "\<forall>p \<in> set pending. p < i"
  shows "\<forall>m \<in> set (links_loop s (dest_spec s) i pending found). link_ok s m"
  using assms
proof (induction s "dest_spec s" i pending found rule: links_loop.induct)
  case (1 s i pending found)
  have found: "link_ok s m" if "dest_spec s i = Some dest" "m \<in> set (link_matches s i dest pending)" for dest m
    using dest_spec_bounds [OF that(1)] that(2) "1.prems"(2) by (auto simp: link_ok_def link_matches_def Suc_le_eq)
  show ?case
  proof (cases "length s \<le> i")
    case True
    then show ?thesis using "1.prems"(1) by (subst links_loop.simps) simp
  next
    case i: False
    consider (esc) "s ! i = CHR 0x5C \<and> i + 1 < length s" | (left) "\<not> (s ! i = CHR 0x5C \<and> i + 1 < length s)" "s ! i = CHR ''[''"
      | (right) "\<not> (s ! i = CHR 0x5C \<and> i + 1 < length s)" "s ! i \<noteq> CHR ''[''" "s ! i = CHR '']''"
      | (plain) "\<not> (s ! i = CHR 0x5C \<and> i + 1 < length s)" "s ! i \<noteq> CHR ''[''" "s ! i \<noteq> CHR '']''" by blast
    then show ?thesis
    proof cases
      case esc
      have less: "\<forall>p \<in> set pending. p < i + 2" "\<forall>p \<in> set pending. p < i + 3" using "1.prems"(2) by auto
      consider (lf) "s ! (i + 1) = newline"
        | (bang) "s ! (i + 1) \<noteq> newline" "s ! (i + 1) = CHR ''!'' \<and> i + 2 < length s \<and> s ! (i + 2) = CHR ''[''"
        | (rest) "s ! (i + 1) \<noteq> newline" "\<not> (s ! (i + 1) = CHR ''!'' \<and> i + 2 < length s \<and> s ! (i + 2) = CHR ''['')" by blast
      then show ?thesis
      proof cases
        case lf
        then show ?thesis using "1.hyps"(1) [OF i esc lf "1.prems"(1)] i esc by (subst links_loop.simps) simp
      next
        case bang
        then show ?thesis using "1.hyps"(2) [OF i esc bang "1.prems"(1) less(2)] i esc
          by (subst links_loop.simps) (simp only: if_True if_False simp_thms)
      next
        case rest
        then show ?thesis using "1.hyps"(3) [OF i esc rest "1.prems"(1) less(1)] i esc
          by (subst links_loop.simps) (simp only: if_True if_False simp_thms)
      qed
    next
      case left
      have "\<forall>p \<in> set (pending @ [i]). p < i + 1" using "1.prems"(2) by auto
      from "1.hyps"(4) [OF i left "1.prems"(1) this] show ?thesis
        using i left by (subst links_loop.simps) simp
    next
      case right
      have "\<forall>m \<in> set (case dest_spec s i of Some dest \<Rightarrow> found @ link_matches s i dest pending | None \<Rightarrow> found). link_ok s m"
        using "1.prems"(1) found by (auto split: option.splits)
      from "1.hyps"(5) [OF i right this] show ?thesis
        using i right by (subst links_loop.simps) simp
    next
      case plain
      have "\<forall>p \<in> set pending. p < i + 1" using "1.prems"(2) by auto
      from "1.hyps"(6) [OF i plain "1.prems"(1) this] show ?thesis
        by (subst links_loop.simps) (simp only: i plain if_True if_False simp_thms)
    qed
  qed
qed

lemma inlineLinks_extent: "m \<in> set (inlineLinks s) \<Longrightarrow> link_ok s m"
  using links_loop_ok [of "[]" s "[]" 0] by (auto simp: inlineLinks_def inlineLinkDestinations_spec split: if_splits)

lemma inlineLinks_within: "matches_within s (inlineLinks s)"
  using inlineLinks_extent by (auto simp: matches_within_def link_ok_def)

section \<open>The contract\<close>

text \<open>The one backward pass that tables all link destinations is exact: a position of the text has an entry iff a
  closing bracket stands there, a left parenthesis behind it, and the grammar of link tails reads a destination
  from there; the entry holds the end of the link and the bounds of the destination.\<close>

theorem inlineLinkDestinations_exact:
  "inlineLinkDestinations s k =
     (if k + 1 < length s \<and> s ! k = CHR '']'' \<and> s ! (k + 1) = CHR ''(''
      then map_option (\<lambda>(href, after). (length s - length after,
             length s - length (dropWhile inlineLinkSpace (drop (k + 2) s)),
             length s - length (dropWhile inlineLinkSpace (drop (k + 2) s)) + length href)) (link_dest (drop (k + 2) s))
      else None)"
  by (simp add: inlineLinkDestinations_spec dest_spec_def Let_def split: option.splits)

end
