(* ===== verification/MarkdownMatchProps.thy ===== *)
theory MarkdownMatchProps
  imports MarkdownInlineProps
begin

text \<open>
  Delimiter matching is properly nested: read as opening and closing events, the matches of a token list form a
  balanced word, so the renderer's stack of styles never underflows and is empty at the end.
\<close>

section \<open>Balanced words\<close>

datatype event = Open nat nat | Close nat nat

fun run :: "event list \<Rightarrow> (nat \<times> nat) list \<Rightarrow> (nat \<times> nat) list option" where
  "run [] st = Some st"
| "run (Open j w # es) st = run es ((j, w) # st)"
| "run (Close j w # es) st = (case st of [] \<Rightarrow> None | x # st' \<Rightarrow> if x = (j, w) then run es st' else None)"

definition balanced :: "event list \<Rightarrow> bool" where
  "balanced es \<longleftrightarrow> run es [] = Some []"

lemma run_append: "run (es @ fs) st = Option.bind (run es st) (run fs)"
  by (induction es st rule: run.induct) (auto split: list.splits)

lemma run_frame: "run es st = Some st' \<Longrightarrow> run es (st @ base) = Some (st' @ base)"
  by (induction es st rule: run.induct) (auto split: list.splits if_splits)

lemma balanced_run: "balanced es \<Longrightarrow> run es st = Some st"
  using run_frame [of es "[]" "[]" st] by (simp add: balanced_def)

lemma balanced_Nil [simp]: "balanced []"
  by (simp add: balanced_def)

lemma balanced_prefix: "balanced (es @ fs) \<Longrightarrow> balanced fs \<Longrightarrow> balanced es"
  using balanced_run [of fs] by (auto simp: balanced_def run_append bind_eq_Some_conv)

lemma balanced_wrap: "balanced es \<Longrightarrow> balanced (Open j w # es @ [Close j w])"
  using balanced_run [of es] by (simp add: balanced_def run_append)

lemma balanced_insert:
  assumes "balanced (es @ fs)" and "balanced fs"
  shows "balanced (es @ Open j w # fs @ [Close j w])"
  using balanced_prefix [OF assms] balanced_wrap [OF assms(2)] by (simp add: balanced_def run_append)

section \<open>The events of a token list\<close>

definition closes_of :: "delimiter \<Rightarrow> event list" where
  "closes_of d = map (\<lambda>m. Close (im_open m) (im_width m)) (dl_closes d)"

definition opens_of :: "nat \<Rightarrow> delimiter \<Rightarrow> event list" where
  "opens_of j d = rev (map (Open j) (dl_opens d))"

definition events_of :: "nat \<Rightarrow> inlineToken \<Rightarrow> event list" where
  "events_of j t = (case t of inlineDelimiter d \<Rightarrow> closes_of d @ opens_of j d | _ \<Rightarrow> [])"

definition word :: "inlineToken list \<Rightarrow> nat \<Rightarrow> nat \<Rightarrow> event list" where
  "word tokens a b = concat (map (\<lambda>j. events_of j (tokens ! j)) [a..<b])"

abbreviation token_events :: "inlineToken list \<Rightarrow> event list" where
  "token_events tokens \<equiv> word tokens 0 (length tokens)"

lemma word_append: "a \<le> b \<Longrightarrow> b \<le> c \<Longrightarrow> word tokens a c = word tokens a b @ word tokens b c"
proof -
  assume "a \<le> b" "b \<le> c"
  then have "[a..<c] = [a..<b] @ [b..<c]" using upt_add_eq_append [of a b "c - b"] by simp
  then show ?thesis by (simp add: word_def)
qed

lemma word_Cons: "a < b \<Longrightarrow> word tokens a b = events_of a (tokens ! a) @ word tokens (a + 1) b"
  by (simp add: word_def upt_conv_Cons)

lemma word_update: "k < a \<or> b \<le> k \<Longrightarrow> word (tokens[k := t]) a b = word tokens a b"
  unfolding word_def by (intro arg_cong [of _ _ concat] map_cong) (auto simp: nth_list_update)

text \<open>The part of the word between an opener on the stack and the current closer.\<close>

definition inner :: "inlineToken list \<Rightarrow> nat \<Rightarrow> nat \<Rightarrow> delimiter \<Rightarrow> event list" where
  "inner tokens j i current = opens_of j (the_delimiter (tokens ! j)) @ word tokens (j + 1) i @ closes_of current"

definition is_delimiter :: "inlineToken \<Rightarrow> bool" where
  "is_delimiter t \<longleftrightarrow> (\<exists>d. t = inlineDelimiter d)"

lemma is_delimiter_the: "is_delimiter t \<Longrightarrow> t = inlineDelimiter (the_delimiter t)"
  by (auto simp: is_delimiter_def the_delimiter_def)

lemma events_of_delimiter: "is_delimiter t \<Longrightarrow> events_of j t = closes_of (the_delimiter t) @ opens_of j (the_delimiter t)"
  by (auto simp: is_delimiter_def events_of_def the_delimiter_def)

definition stack_ok :: "inlineToken list \<Rightarrow> nat \<Rightarrow> delimiter \<Rightarrow> nat list \<Rightarrow> bool" where
  "stack_ok tokens i current stack \<longleftrightarrow> sorted_wrt (>) stack
     \<and> (\<forall>j \<in> set stack. j < i \<and> is_delimiter (tokens ! j) \<and> balanced (inner tokens j i current))
     \<and> balanced (word tokens 0 i @ closes_of current) \<and> i \<le> length tokens"

lemma word_split:
  assumes "j < i" and "is_delimiter (tokens ! j)" and "a \<le> j"
  shows "word tokens a i @ closes_of current
    = (word tokens a j @ closes_of (the_delimiter (tokens ! j))) @ inner tokens j i current"
  using assms word_append [of a j i tokens] word_Cons [of j i tokens]
  by (simp add: inner_def events_of_delimiter)

lemma inner_split:
  assumes "k < j" and "j < i" and "is_delimiter (tokens ! j)"
  shows "inner tokens k i current = (opens_of k (the_delimiter (tokens ! k)) @ word tokens (k + 1) j
      @ closes_of (the_delimiter (tokens ! j))) @ inner tokens j i current"
  using word_split [OF assms(2,3), of "k + 1" current] assms(1) by (simp add: inner_def)

text \<open>One match keeps the stack in order.\<close>

lemma match_step:
  assumes ok: "stack_ok tokens i current (j # stack)"
  defines "w \<equiv> match_width (the_delimiter (tokens ! j)) current"
  defines "tokens' \<equiv> tokens[j := inlineDelimiter (open_match w (the_delimiter (tokens ! j)))]"
  defines "current' \<equiv> close_match j w current"
  shows "stack_ok tokens' i current' (j # stack)"
proof -
  let ?d = "the_delimiter (tokens ! j)"
  have j: "j < i" "is_delimiter (tokens ! j)" "balanced (inner tokens j i current)" "j < length tokens"
    using ok by (auto simp: stack_ok_def)
  have lower: "k < j \<and> k < i \<and> is_delimiter (tokens ! k) \<and> balanced (inner tokens k i current)" if "k \<in> set stack" for k
    using ok that by (auto simp: stack_ok_def)
  have closes: "closes_of current' = closes_of current @ [Close j w]"
    by (simp add: current'_def close_match_def closes_of_def)
  have tok: "tokens' ! k = tokens ! k" if "k \<noteq> j" for k using that by (simp add: tokens'_def)
  have tj: "tokens' ! j = inlineDelimiter (open_match w ?d)" using j(4) by (simp add: tokens'_def)
  have dj: "the_delimiter (tokens' ! j) = open_match w ?d" by (simp add: tj the_delimiter_def)
  have opens: "opens_of j (open_match w ?d) = Open j w # opens_of j ?d" "closes_of (open_match w ?d) = closes_of ?d"
    by (simp_all add: open_match_def opens_of_def closes_of_def)
  have same: "word tokens' a b = word tokens a b" if "j < a \<or> b \<le> j" for a b
    using word_update [of j a b tokens] that by (simp add: tokens'_def)
  have inner_j: "inner tokens' j i current' = Open j w # inner tokens j i current @ [Close j w]"
    by (simp add: inner_def closes dj opens same)
  have jd: "is_delimiter (tokens' ! j)" by (simp add: tj is_delimiter_def)
  have all: "balanced (word tokens' 0 i @ closes_of current')"
  proof -
    have eq: "word tokens' 0 i @ closes_of current' = (word tokens 0 j @ closes_of ?d) @ inner tokens' j i current'"
      using word_split [OF j(1) jd, of 0 current'] by (simp add: dj opens same)
    have bal: "balanced ((word tokens 0 j @ closes_of ?d) @ inner tokens j i current)"
      using ok word_split [OF j(1,2), of 0 current] by (simp add: stack_ok_def)
    show ?thesis unfolding eq inner_j by (rule balanced_insert [OF bal j(3)])
  qed
  have "balanced (inner tokens' k i current')" if k: "k \<in> set stack" for k
  proof -
    have kj: "k < j" using lower [OF k] by simp
    have eq: "inner tokens' k i current' = (opens_of k (the_delimiter (tokens ! k)) @ word tokens (k + 1) j
        @ closes_of ?d) @ inner tokens' j i current'"
      using inner_split [OF kj j(1) jd, of current'] tok [of k] kj by (simp add: dj opens same)
    have bal: "balanced ((opens_of k (the_delimiter (tokens ! k)) @ word tokens (k + 1) j
        @ closes_of ?d) @ inner tokens j i current)"
      using lower [OF k] inner_split [OF kj j(1,2), of current] by simp
    show ?thesis unfolding eq inner_j by (rule balanced_insert [OF bal j(3)])
  qed
  moreover have "is_delimiter (tokens' ! k)" if "k \<in> set stack" for k
    using lower [OF that] tok [of k] by simp
  moreover have "balanced (inner tokens' j i current')" using balanced_wrap [OF j(3)] by (simp add: inner_j)
  ultimately show ?thesis
    using ok all jd by (auto simp: stack_ok_def tokens'_def)
qed

lemma stack_ok_sub: "stack_ok tokens i current (j # stack) \<Longrightarrow> stack_ok tokens i current stack"
  by (simp add: stack_ok_def)

lemma find_opener_ok: "stack_ok tokens i current stack \<Longrightarrow> stack_ok tokens i current (find_opener tokens floor c stack)"
  by (induction tokens floor c stack rule: find_opener.induct) (auto simp: stack_ok_def)

lemma find_opener_eligible: "find_opener tokens floor c stack = j # rest \<Longrightarrow> eligible (the_delimiter (tokens ! j)) c"
  by (induction tokens floor c stack rule: find_opener.induct) (auto split: if_splits)


section \<open>What matching keeps\<close>

text \<open>Every character of a delimiter run stays literal or is spent on one match.\<close>

definition delimiter_ok :: "delimiter \<Rightarrow> bool" where
  "delimiter_ok d \<longleftrightarrow> dl_remaining d + sum_list (dl_opens d) + sum_list (map im_width (dl_closes d)) = length (dl_raw d)
     \<and> (\<forall>w \<in> set (dl_opens d) \<union> im_width ` set (dl_closes d). w = 1 \<or> w = 2)"

definition token_ok :: "inlineToken \<Rightarrow> bool" where
  "token_ok t \<longleftrightarrow> (is_delimiter t \<longrightarrow> delimiter_ok (the_delimiter t))"

definition same_token :: "inlineToken \<Rightarrow> inlineToken \<Rightarrow> bool" where
  "same_token t t' \<longleftrightarrow> token_raw t' = token_raw t \<and> is_delimiter t' = is_delimiter t \<and> (is_delimiter t \<or> t' = t)
     \<and> (is_delimiter t \<longrightarrow> dl_marker (the_delimiter t') = dl_marker (the_delimiter t))"

lemma same_token_refl [simp]: "same_token t t"
  by (simp add: same_token_def)

lemma same_token_trans: "same_token t t' \<Longrightarrow> same_token t' t'' \<Longrightarrow> same_token t t''"
  by (auto simp: same_token_def)

abbreviation same_tokens :: "inlineToken list \<Rightarrow> inlineToken list \<Rightarrow> bool" where
  "same_tokens \<equiv> list_all2 same_token"

lemma same_tokens_refl [simp]: "same_tokens ts ts"
  by (simp add: list_all2_same)

lemma same_tokens_trans: "same_tokens ts ts' \<Longrightarrow> same_tokens ts' ts'' \<Longrightarrow> same_tokens ts ts''"
  by (rule list_all2_trans [of same_token same_token same_token]) (rule same_token_trans)

lemma same_tokens_raws: "same_tokens ts ts' \<Longrightarrow> raws ts' = raws ts"
  by (induction rule: list_all2_induct) (simp_all add: same_token_def)

lemma same_tokens_update: "same_tokens ts ts' \<Longrightarrow> j < length ts \<Longrightarrow> same_token (ts ! j) t \<Longrightarrow> same_tokens ts (ts'[j := t])"
  by (auto simp: list_all2_conv_all_nth nth_list_update)

lemma open_match_ok:
  assumes "delimiter_ok d" and "w \<le> dl_remaining d" and "w = 1 \<or> w = 2"
  shows "delimiter_ok (open_match w d)" and "delimiter_ok (close_match j w d)"
  using assms by (auto simp: delimiter_ok_def open_match_def close_match_def)

lemma match_width_cases:
  "\<not> spent d \<Longrightarrow> eligible d' d \<Longrightarrow> match_width d' d \<le> dl_remaining d \<and> match_width d' d \<le> dl_remaining d'
     \<and> (match_width d' d = 1 \<or> match_width d' d = 2)"
  by (auto simp: match_width_def spent_def eligible_def)

definition matched :: "inlineToken list \<Rightarrow> nat \<Rightarrow> delimiter \<Rightarrow> nat list \<Rightarrow> bool" where
  "matched tokens i current stack \<longleftrightarrow> stack_ok tokens i current stack \<and> delimiter_ok current
     \<and> (\<forall>t \<in> set tokens. token_ok t)"

lemma close_loop_keeps:
  assumes "matched tokens i current stack" and "close_loop i current tokens stack floors = (current', tokens', stack', floors')"
  shows "matched tokens' i current' stack' \<and> same_tokens tokens tokens' \<and> dl_raw current' = dl_raw current
    \<and> dl_marker current' = dl_marker current \<and> dl_opens current' = dl_opens current \<and> dl_canOpen current' = dl_canOpen current
    \<and> (\<forall>k \<ge> i. tokens' ! k = tokens ! k)"
  using assms
proof (induction i current tokens stack floors rule: close_loop.induct)
  case (1 i current tokens stack floors)
  let ?found = "find_opener tokens (floors (floor_key current)) current stack"
  show ?case
  proof (cases "spent current \<or> ?found = []")
    case True
    then have "current' = current \<and> tokens' = tokens \<and> (stack' = stack)"
      using "1.prems"(2) by (subst (asm) close_loop.simps) (auto split: if_splits)
    then show ?thesis using "1.prems"(1) by simp
  next
    case False
    then obtain j rest where live: "\<not> spent current" and found: "?found = j # rest" by (cases ?found) auto
    let ?d = "the_delimiter (tokens ! j)"
    let ?w = "match_width ?d current"
    let ?tokens = "tokens[j := inlineDelimiter (open_match ?w ?d)]" and ?current = "close_match j ?w current"
    let ?stack = "if spent (open_match ?w ?d) then rest else j # rest"
    have ok: "stack_ok tokens i current (j # rest)"
      using find_opener_ok "1.prems"(1) found by (metis matched_def)
    then have j: "j < i" "j < length tokens" "is_delimiter (tokens ! j)" by (auto simp: stack_ok_def)
    have w: "?w \<le> dl_remaining current" "?w \<le> dl_remaining ?d" "?w = 1 \<or> ?w = 2"
      using match_width_cases [OF live find_opener_eligible [OF found]] by auto
    have d: "delimiter_ok ?d" "delimiter_ok current" using "1.prems"(1) j by (auto simp: matched_def token_ok_def)
    have "stack_ok ?tokens i ?current (j # rest)" using match_step [OF ok] .
    then have "stack_ok ?tokens i ?current ?stack" using stack_ok_sub by simp
    moreover have "\<forall>t \<in> set ?tokens. token_ok t"
      using "1.prems"(1) open_match_ok(1) [OF d(1) w(2,3)] set_update_subset_insert [of tokens j "inlineDelimiter (open_match ?w ?d)"]
      by (auto simp: matched_def token_ok_def the_delimiter_def)
    ultimately have matched: "matched ?tokens i ?current ?stack"
      using open_match_ok(2) [OF d(2) w(1,3)] by (simp add: matched_def)
    have "close_loop i ?current ?tokens ?stack floors = (current', tokens', stack', floors')"
      using "1.prems"(2) live found by (subst (asm) close_loop.simps) (simp add: Let_def)
    with "1.IH" [OF live found refl refl refl] matched have IH:
      "matched tokens' i current' stack' \<and> same_tokens ?tokens tokens' \<and> dl_raw current' = dl_raw ?current
        \<and> dl_marker current' = dl_marker ?current \<and> dl_opens current' = dl_opens ?current
        \<and> dl_canOpen current' = dl_canOpen ?current \<and> (\<forall>k \<ge> i. tokens' ! k = ?tokens ! k)" by blast
    obtain d where "tokens ! j = inlineDelimiter d" using j(3) by (auto simp: is_delimiter_def)
    then have "same_token (tokens ! j) (inlineDelimiter (open_match ?w ?d))"
      by (simp add: same_token_def is_delimiter_def open_match_def the_delimiter_def)
    then have "same_tokens tokens ?tokens" using j(2) by (intro same_tokens_update) simp_all
    then show ?thesis using IH same_tokens_trans j(1) by (auto simp: close_match_def)
  qed
qed

text \<open>Before token \<open>i\<close> is looked at, the tokens from \<open>i\<close> on have no matches.\<close>

definition fresh :: "inlineToken \<Rightarrow> bool" where
  "fresh t \<longleftrightarrow> (is_delimiter t \<longrightarrow> dl_opens (the_delimiter t) = [] \<and> dl_closes (the_delimiter t) = [])"

definition no_delimiter :: delimiter where
  "no_delimiter = \<lparr>dl_raw = [], dl_marker = CHR ''*'', dl_remaining = 0, dl_canOpen = False, dl_canClose = False,
     dl_previewOpen = False, dl_opens = [], dl_closes = []\<rparr>"

definition loop_ok :: "inlineToken list \<Rightarrow> nat \<Rightarrow> inlineToken list \<Rightarrow> nat list \<Rightarrow> bool" where
  "loop_ok original i tokens stack \<longleftrightarrow> stack_ok tokens i no_delimiter stack \<and> same_tokens original tokens
     \<and> (\<forall>t \<in> set tokens. token_ok t) \<and> (\<forall>k. i \<le> k \<and> k < length tokens \<longrightarrow> fresh (tokens ! k))"

lemma stack_ok_closes: "closes_of d = closes_of d' \<Longrightarrow> stack_ok tokens i d stack = stack_ok tokens i d' stack"
  by (simp add: stack_ok_def inner_def)

lemma loop_ok_next:
  assumes m: "matched tokens i d stack" and i: "i < length tokens" and d: "dl_opens d = []"
    and tokens': "tokens' = tokens[i := inlineDelimiter d]"
    and stack': "stack' = stack \<or> stack' = i # stack"
  shows "stack_ok tokens' (i + 1) no_delimiter stack'"
proof -
  have ok: "stack_ok tokens i d stack" using m by (simp add: matched_def)
  have none: "closes_of no_delimiter = []" by (simp add: no_delimiter_def closes_of_def)
  have here: "events_of i (tokens' ! i) = closes_of d" "the_delimiter (tokens' ! i) = d" "is_delimiter (tokens' ! i)"
    using i d by (simp_all add: tokens' events_of_def opens_of_def the_delimiter_def is_delimiter_def)
  have same: "word tokens' a b = word tokens a b" if "i < a \<or> b \<le> i" for a b
    using word_update [of i a b tokens] that by (simp add: tokens')
  have word: "word tokens' a (i + 1) = word tokens a i @ closes_of d" if "a \<le> i" for a
    using that word_append [of a i "i + 1" tokens'] word_Cons [of i "i + 1" tokens'] here same
    by (simp add: word_def [of tokens' "Suc i" "Suc i"])
  have all: "balanced (word tokens' 0 (i + 1))" using ok word [of 0] by (simp add: stack_ok_def)
  have old: "j < i \<and> is_delimiter (tokens' ! j) \<and> balanced (inner tokens' j (i + 1) no_delimiter)" if "j \<in> set stack" for j
  proof -
    have j: "j < i" "is_delimiter (tokens ! j)" "balanced (inner tokens j i d)" using ok that by (auto simp: stack_ok_def)
    then have "tokens' ! j = tokens ! j" by (simp add: tokens')
    then show ?thesis using j word [of "j + 1"] by (simp add: inner_def none)
  qed
  have new: "balanced (inner tokens' i (i + 1) no_delimiter)"
    using here d by (simp add: inner_def none opens_of_def word_def)
  have "sorted_wrt (>) stack'" using ok old stack' by (auto simp: stack_ok_def)
  moreover have "\<forall>j \<in> set stack'. j < i + 1 \<and> is_delimiter (tokens' ! j) \<and> balanced (inner tokens' j (i + 1) no_delimiter)"
    using old new here stack' by fastforce
  ultimately show ?thesis using all i by (simp add: stack_ok_def none tokens')
qed

lemma match_token_ok:
  assumes ok: "loop_ok original i tokens stack" and i: "i < length tokens"
    and step: "match_token i (tokens, stack, floors) = (tokens', stack', floors')"
  shows "loop_ok original (i + 1) tokens' stack'"
proof (cases "is_delimiter (tokens ! i)")
  case False
  then have "match_token i (tokens, stack, floors) = (tokens, stack, floors)" and ev: "events_of i (tokens ! i) = []"
    by (auto simp: match_token_def events_of_def is_delimiter_def split: inlineToken.splits)
  then have eq: "tokens' = tokens" "stack' = stack" using step by auto
  have word: "word tokens a (i + 1) = word tokens a i" if "a \<le> i" for a
    using that word_append [of a i "i + 1" tokens] word_Cons [of i "i + 1" tokens] ev by (simp add: word_def)
  then have "stack_ok tokens (i + 1) no_delimiter stack"
    using ok i unfolding loop_ok_def stack_ok_def inner_def by (auto simp: Suc_le_eq)
  then show ?thesis using ok by (simp add: loop_ok_def eq)
next
  case True
  then obtain d where d: "tokens ! i = inlineDelimiter d" by (auto simp: is_delimiter_def)
  then have fresh: "dl_opens d = []" "dl_closes d = []"
    using ok i by (auto simp: loop_ok_def fresh_def is_delimiter_def the_delimiter_def)
  have "token_ok (tokens ! i)" using ok i by (simp add: loop_ok_def)
  then have "delimiter_ok d" by (simp add: token_ok_def d is_delimiter_def the_delimiter_def)
  moreover have "stack_ok tokens i d stack"
    using ok stack_ok_closes [of no_delimiter d] fresh by (simp add: loop_ok_def no_delimiter_def closes_of_def)
  ultimately have m: "matched tokens i d stack" using ok by (simp add: loop_ok_def matched_def)
  obtain d' ts st fl where run: "(if dl_canClose d then close_loop i d tokens stack floors else (d, tokens, stack, floors)) = (d', ts, st, fl)"
    by (metis prod_cases4)
  have keep: "matched ts i d' st \<and> same_tokens tokens ts \<and> dl_raw d' = dl_raw d \<and> dl_marker d' = dl_marker d
      \<and> dl_opens d' = [] \<and> (\<forall>k \<ge> i. ts ! k = tokens ! k)"
    using run m close_loop_keeps [OF m] fresh by (cases "dl_canClose d") auto
  have eq: "tokens' = ts[i := inlineDelimiter d']" "stack' = st \<or> stack' = i # st"
    using step run d by (auto simp: match_token_def split: if_splits)
  have len: "length ts = length tokens" using keep by (auto dest: list_all2_lengthD)
  have "stack_ok tokens' (i + 1) no_delimiter stack'"
    using keep i len by (intro loop_ok_next [OF _ _ _ eq]) auto
  moreover have "same_tokens original tokens'"
  proof -
    have "same_tokens original ts" using ok keep same_tokens_trans by (auto simp: loop_ok_def)
    moreover have "same_token (original ! i) (tokens ! i)" and "i < length original"
      using ok i by (auto simp: loop_ok_def list_all2_conv_all_nth)
    moreover have "same_token (tokens ! i) (inlineDelimiter d')"
      using keep by (simp add: same_token_def d is_delimiter_def the_delimiter_def)
    ultimately show ?thesis unfolding eq by (blast intro: same_tokens_update same_token_trans)
  qed
  moreover have "\<forall>t \<in> set tokens'. token_ok t"
  proof -
    have "token_ok (inlineDelimiter d')" using keep by (simp add: token_ok_def matched_def the_delimiter_def)
    then show ?thesis
      using keep set_update_subset_insert [of ts i "inlineDelimiter d'"] by (auto simp: eq matched_def)
  qed
  moreover have "\<forall>k. i + 1 \<le> k \<and> k < length tokens' \<longrightarrow> fresh (tokens' ! k)"
    using ok keep len by (auto simp: loop_ok_def eq nth_list_update)
  ultimately show ?thesis by (simp add: loop_ok_def)
qed

lemma match_loop_ok:
  assumes "\<forall>t \<in> set tokens. token_ok t \<and> fresh t" and "n \<le> length tokens"
  shows "\<exists>ts st fl. fold match_token [0..<n] (tokens, [], \<lambda>_. 0) = (ts, st, fl) \<and> loop_ok tokens n ts st"
  using assms(2)
proof (induction n)
  case 0
  show ?case
    using assms(1) by (simp add: loop_ok_def stack_ok_def word_def no_delimiter_def closes_of_def)
next
  case (Suc n)
  then obtain ts st fl where f: "fold match_token [0..<n] (tokens, [], \<lambda>_. 0) = (ts, st, fl)" and ok: "loop_ok tokens n ts st"
    by auto
  obtain ts' st' fl' where s: "match_token n (ts, st, fl) = (ts', st', fl')" by (metis prod_cases3)
  have "length ts = length tokens" using ok by (auto simp: loop_ok_def dest: list_all2_lengthD)
  then have "loop_ok tokens (n + 1) ts' st'" using match_token_ok [OF ok _ s] Suc.prems by simp
  then show ?case using f s by simp
qed

lemma matchInlineDelimiters_keeps:
  assumes "\<forall>t \<in> set tokens. token_ok t \<and> fresh t"
  shows "same_tokens tokens (matchInlineDelimiters tokens) \<and> balanced (token_events (matchInlineDelimiters tokens))
    \<and> (\<forall>t \<in> set (matchInlineDelimiters tokens). token_ok t)"
proof -
  obtain ts st fl where f: "fold match_token [0..<length tokens] (tokens, [], \<lambda>_. 0) = (ts, st, fl)"
    and ok: "loop_ok tokens (length tokens) ts st"
    using match_loop_ok [OF assms order_refl] by auto
  have "length ts = length tokens" using ok by (auto simp: loop_ok_def dest: list_all2_lengthD)
  then show ?thesis using ok f by (simp add: matchInlineDelimiters_def loop_ok_def stack_ok_def no_delimiter_def closes_of_def)
qed


section \<open>Parsed text\<close>

lemma delimiter_token_ok:
  assumes "i < length s"
  shows "token_ok (delimiter_token wide_punct s i flushed) \<and> fresh (delimiter_token wide_punct s i flushed)"
proof -
  have "i + inlineRun s i \<le> length s" using assms by (rule inlineRun_le)
  then have "length (substr s i (i + inlineRun s i)) = inlineRun s i" by (simp add: substr_def)
  then show ?thesis
    by (simp add: delimiter_token_def Let_def token_ok_def fresh_def delimiter_ok_def the_delimiter_def split: prod.splits)
qed

lemma code_token_kind: "\<not> is_delimiter (fst (code_token s i)) \<and> (\<forall>raw href label img. fst (code_token s i) \<noteq> inlineLink raw href label img)"
  by (simp add: code_token_def Let_def is_delimiter_def split: option.splits)

definition label_by :: "(string \<Rightarrow> inlineToken list) \<Rightarrow> inlineToken \<Rightarrow> bool" where
  "label_by pl t = (case t of inlineLink raw href label img \<Rightarrow> \<exists>str. label = pl str | _ \<Rightarrow> True)"

lemma label_by_delimiter: "is_delimiter t \<Longrightarrow> label_by pl t"
  by (auto simp: label_by_def is_delimiter_def)

lemma parsed_tokens:
  "\<forall>t \<in> set (parse_loop wide_punct pl s matches 0 0 []). token_ok t \<and> fresh t \<and> label_by pl t
     \<and> (matches = [] \<longrightarrow> (\<forall>raw href label img. t \<noteq> inlineLink raw href label img))"
proof (rule parse_loop_invariant [where links = "set matches" and Q = "\<lambda>plain i tokens. \<forall>t \<in> set tokens. token_ok t \<and> fresh t \<and> label_by pl t
     \<and> (matches = [] \<longrightarrow> (\<forall>raw href label img. t \<noteq> inlineLink raw href label img))"])
  have plain: "\<not> is_delimiter t \<Longrightarrow> token_ok t \<and> fresh t" for t by (simp add: token_ok_def fresh_def)
  have flush: "\<forall>t \<in> set (flush_text s plain e tokens). P t" if "\<forall>t \<in> set tokens. P t" "\<And>raw. P (inlineText raw)"
    for P plain e tokens using that by (auto simp: flush_text_def)
  let ?P = "\<lambda>t. token_ok t \<and> fresh t \<and> label_by pl t \<and> (matches = [] \<longrightarrow> (\<forall>raw href label img. t \<noteq> inlineLink raw href label img))"
  have txtok: "?P (inlineText raw)" for raw using plain [of "inlineText raw"] by (simp add: is_delimiter_def label_by_def)
  fix plain i tokens t j
  assume q: "\<forall>t \<in> set tokens. ?P t" and i: "i < length s"
    and e: "emits wide_punct pl (set matches) s i (flush_text s plain i tokens) t j"
  have "?P t"
    using e plain code_token_kind [of s i] delimiter_token_ok [OF i, of wide_punct "flush_text s plain i tokens"]
    unfolding emits_def
    by (elim disjE) (auto simp: label_by_def is_delimiter_def link_token_def Let_def delimiter_token_def
        split: inlineToken.splits prod.splits)
  then show "\<forall>t \<in> set (flush_text s plain i tokens @ [t]). ?P t" using flush [OF q txtok] by simp
next
  fix plain i tokens
  assume "\<forall>t \<in> set tokens. token_ok t \<and> fresh t \<and> label_by pl t
     \<and> (matches = [] \<longrightarrow> (\<forall>raw href label img. t \<noteq> inlineLink raw href label img))"
  then show "\<forall>t \<in> set (flush_text s plain (length s) tokens). token_ok t \<and> fresh t \<and> label_by pl t
     \<and> (matches = [] \<longrightarrow> (\<forall>raw href label img. t \<noteq> inlineLink raw href label img))"
    by (auto simp: flush_text_def token_ok_def fresh_def label_by_def is_delimiter_def)
qed auto

lemma same_tokens_others: "same_tokens ts ts' \<Longrightarrow> t' \<in> set ts' \<Longrightarrow> \<not> is_delimiter t' \<Longrightarrow> t' \<in> set ts"
  by (induction rule: list_all2_induct) (auto simp: same_token_def)

lemma parse_label_ok:
  "balanced (token_events (parse_label wide_punct s)) \<and> raws (parse_label wide_punct s) = s
    \<and> (\<forall>t \<in> set (parse_label wide_punct s). token_ok t \<and> (\<forall>raw href label img. t \<noteq> inlineLink raw href label img))"
proof -
  let ?ts = "parse_loop wide_punct (\<lambda>_. []) s [] 0 0 []"
  have ts: "\<forall>t \<in> set ?ts. token_ok t \<and> fresh t" "\<forall>t \<in> set ?ts. \<forall>raw href label img. t \<noteq> inlineLink raw href label img"
    using parsed_tokens [of wide_punct "\<lambda>_. []" s "[]"] by auto
  note keeps = matchInlineDelimiters_keeps [OF ts(1), folded parse_label_def]
  have "t \<noteq> inlineLink raw href label img" if "t \<in> set (parse_label wide_punct s)" for t raw href label img
  proof
    assume link: "t = inlineLink raw href label img"
    then have "t \<in> set ?ts" using same_tokens_others [OF keeps [THEN conjunct1] that] by (simp add: is_delimiter_def)
    then show False using ts(2) link by blast
  qed
  moreover have "raws (parse_label wide_punct s) = s"
    using same_tokens_raws [OF keeps [THEN conjunct1]] parse_loop_raws [of s "[]" wide_punct "\<lambda>_. []"]
    by (simp add: matches_within_def)
  ultimately show ?thesis using keeps by blast
qed

lemma parseInline_links:
  "balanced (token_events (parseInline wide_punct s True)) \<and> raws (parseInline wide_punct s True) = s
    \<and> (\<forall>t \<in> set (parseInline wide_punct s True). token_ok t \<and> label_by (parse_label wide_punct) t)"
proof -
  let ?ts = "parse_loop wide_punct (parse_label wide_punct) s (inlineLinks s) 0 0 []"
  have ts: "\<forall>t \<in> set ?ts. token_ok t \<and> fresh t" "\<forall>t \<in> set ?ts. label_by (parse_label wide_punct) t"
    using parsed_tokens by blast+
  have eq: "parseInline wide_punct s True = matchInlineDelimiters ?ts" by (simp add: parseInline_def)
  note keeps = matchInlineDelimiters_keeps [OF ts(1), folded eq]
  have "label_by (parse_label wide_punct) t" if "t \<in> set (parseInline wide_punct s True)" for t
    using same_tokens_others [OF keeps [THEN conjunct1] that] ts(2) label_by_delimiter by blast
  moreover have "raws (parseInline wide_punct s True) = s"
    using same_tokens_raws [OF keeps [THEN conjunct1]] parse_loop_raws [OF inlineLinks_within] by simp
  ultimately show ?thesis using keeps by blast
qed

section \<open>The renderer's stack of styles\<close>

definition neutral :: "(inlineRenderer \<Rightarrow> inlineRenderer) \<Rightarrow> bool" where
  "neutral f \<longleftrightarrow> (\<forall>r. rn_active (f r) = rn_active r \<and> rn_underflow (f r) = rn_underflow r)"

lemma neutral_text: "neutral (render_text s)"
  by (auto simp: neutral_def render_text_def sync_tags_def Let_def split: option.splits)

lemma neutral_code: "neutral (render_code s)"
  by (auto simp: neutral_def render_code_def sync_tags_def Let_def split: option.splits)

lemma pop_active: "rn_active (pop_tag r) = butlast (rn_active r)"
  and pop_underflow: "rn_active r \<noteq> [] \<Longrightarrow> rn_underflow (pop_tag r) = rn_underflow r"
  by (simp_all add: pop_tag_def)

lemma push_active: "rn_active (push_tag t r) = rn_active r @ [t]"
  and push_underflow: "rn_underflow (push_tag t r) = rn_underflow r"
  by (simp_all add: push_tag_def)

lemma pops:
  "rn_active r = base @ xs \<Longrightarrow> n \<le> length xs \<Longrightarrow>
   rn_active ((pop_tag ^^ n) r) = base @ take (length xs - n) xs \<and> rn_underflow ((pop_tag ^^ n) r) = rn_underflow r"
proof (induction n)
  case (Suc n)
  then have IH: "rn_active ((pop_tag ^^ n) r) = base @ take (length xs - n) xs"
    "rn_underflow ((pop_tag ^^ n) r) = rn_underflow r" by simp_all
  have "take (length xs - n) xs \<noteq> []" using Suc.prems(2) by auto
  then have "butlast (base @ take (length xs - n) xs) = base @ butlast (take (length xs - n) xs)" "base @ take (length xs - n) xs \<noteq> []"
    by (auto simp: butlast_append)
  then show ?case using IH Suc.prems(2) by (simp add: pop_active pop_underflow butlast_take)
qed simp

lemma pushes: "rn_active (fold (\<lambda>w. push_tag (f w)) ws r) = rn_active r @ map f ws
    \<and> rn_underflow (fold (\<lambda>w. push_tag (f w)) ws r) = rn_underflow r"
  by (induction ws arbitrary: r) (simp_all add: push_tag_def)

lemma run_closes: "run (map (\<lambda>m. Close (im_open m) (im_width m)) ms) st = Some st' \<Longrightarrow> length ms \<le> length st \<and> st' = drop (length ms) st"
  by (induction ms arbitrary: st) (auto split: list.splits if_splits)

lemma run_opens: "run (map (Open i) ws) st = Some (rev (map (Pair i) ws) @ st)"
  by (induction ws arbitrary: st) simp_all

definition tag_of :: "inlineToken list \<Rightarrow> nat \<times> nat \<Rightarrow> inlineTag" where
  "tag_of tokens p = style_tag (dl_marker (the_delimiter (tokens ! fst p))) (snd p)"

lemma render_delimiter_run:
  assumes run: "run (events_of i (inlineDelimiter d)) st = Some st'" and d: "tokens ! i = inlineDelimiter d"
    and active: "rn_active r = base @ map (tag_of tokens) (rev st)"
  shows "rn_active (render_delimiter d r) = base @ map (tag_of tokens) (rev st')
    \<and> rn_underflow (render_delimiter d r) = rn_underflow r"
proof -
  obtain st1 where st1: "run (closes_of d) st = Some st1" and st': "run (opens_of i d) st1 = Some st'"
    using run by (auto simp: events_of_def run_append bind_eq_Some_conv)
  have c: "length (dl_closes d) \<le> length st" "st1 = drop (length (dl_closes d)) st"
    using run_closes st1 unfolding closes_of_def by blast+
  have o: "st' = map (Pair i) (dl_opens d) @ st1"
    using st' run_opens [of i "rev (dl_opens d)" st1] by (simp add: opens_of_def rev_map)
  let ?r1 = "(pop_tag ^^ length (dl_closes d)) r"
  have "rn_active ?r1 = base @ take (length st - length (dl_closes d)) (map (tag_of tokens) (rev st)) \<and> rn_underflow ?r1 = rn_underflow r"
    using pops [OF active, of "length (dl_closes d)"] c(1) by simp
  then have r1: "rn_active ?r1 = base @ map (tag_of tokens) (rev st1) \<and> rn_underflow ?r1 = rn_underflow r"
    using c by (simp add: take_map rev_drop)
  let ?r2 = "render_text (take (dl_remaining d) (dl_raw d)) ?r1"
  have r2: "rn_active ?r2 = base @ map (tag_of tokens) (rev st1) \<and> rn_underflow ?r2 = rn_underflow r"
    using r1 neutral_text unfolding neutral_def by metis
  have "map (style_tag (dl_marker d)) (rev (dl_opens d)) = map (tag_of tokens) (map (Pair i) (rev (dl_opens d)))"
    using d by (simp add: tag_of_def the_delimiter_def)
  then show ?thesis
    using pushes [of "style_tag (dl_marker d)" "rev (dl_opens d)" ?r2] r2
    by (simp add: render_delimiter_def o rev_map)
qed

lemma render_tokens_append: "render_tokens (ts @ us) r = render_tokens us (render_tokens ts r)"
  by (induction ts arbitrary: r) simp_all

lemma render_balanced:
  assumes bal: "balanced (token_events tokens)"
    and others: "\<And>t. t \<in> set tokens \<Longrightarrow> \<not> is_delimiter t \<Longrightarrow> neutral (render_token t)"
  shows "neutral (render_tokens tokens)"
proof -
  have main: "\<exists>st. run (word tokens 0 i) [] = Some st
      \<and> rn_active (render_tokens (take i tokens) r) = rn_active r @ map (tag_of tokens) (rev st)
      \<and> rn_underflow (render_tokens (take i tokens) r) = rn_underflow r" if "i \<le> length tokens" for i r
    using that
  proof (induction i)
    case 0
    show ?case by (simp add: word_def)
  next
    case (Suc i)
    then obtain st where st: "run (word tokens 0 i) [] = Some st"
      "rn_active (render_tokens (take i tokens) r) = rn_active r @ map (tag_of tokens) (rev st)"
      "rn_underflow (render_tokens (take i tokens) r) = rn_underflow r" by auto
    let ?r = "render_tokens (take i tokens) r"
    have i: "i < length tokens" using Suc.prems by simp
    have render: "render_tokens (take (Suc i) tokens) r = render_token (tokens ! i) ?r"
      using i by (simp add: take_Suc_conv_app_nth render_tokens_append)
    have words: "word tokens 0 (Suc i) = word tokens 0 i @ events_of i (tokens ! i)"
      using word_append [of 0 i "Suc i" tokens] word_Cons [of i "Suc i" tokens] by (simp add: word_def)
    have "token_events tokens = word tokens 0 (Suc i) @ word tokens (Suc i) (length tokens)"
      using i by (intro word_append) simp_all
    then obtain st' where st': "run (events_of i (tokens ! i)) st = Some st'"
      using bal st(1) by (auto simp: balanced_def words run_append bind_eq_Some_conv)
    then have "run (word tokens 0 (Suc i)) [] = Some st'" using st(1) by (simp add: words run_append)
    moreover have "rn_active (render_token (tokens ! i) ?r) = rn_active r @ map (tag_of tokens) (rev st')
        \<and> rn_underflow (render_token (tokens ! i) ?r) = rn_underflow ?r"
    proof (cases "is_delimiter (tokens ! i)")
      case True
      then obtain d where d: "tokens ! i = inlineDelimiter d" by (auto simp: is_delimiter_def)
      show ?thesis
        using render_delimiter_run [OF st' [unfolded d] d st(2)] by (simp add: d)
    next
      case False
      then have "events_of i (tokens ! i) = []" by (auto simp: events_of_def is_delimiter_def split: inlineToken.splits)
      then have "st' = st" using st' by simp
      moreover have "neutral (render_token (tokens ! i))" using others i False by simp
      ultimately show ?thesis using st(2) by (simp add: neutral_def)
    qed
    ultimately show ?case using st(3) by (simp add: render)
  qed
  show ?thesis
    unfolding neutral_def
  proof
    fix r
    from main [OF order_refl, of r] bal show "rn_active (render_tokens tokens r) = rn_active r
        \<and> rn_underflow (render_tokens tokens r) = rn_underflow r"
      by (auto simp: balanced_def)
  qed
qed

lemma neutral_others: "\<not> is_delimiter t \<Longrightarrow> (\<And>raw href label img. t = inlineLink raw href label img \<Longrightarrow> neutral (render_tokens label))
    \<Longrightarrow> neutral (render_token t)"
proof (cases t)
  case (inlineLink raw href label img)
  assume label: "\<And>raw href label img. t = inlineLink raw href label img \<Longrightarrow> neutral (render_tokens label)"
  have l: "neutral (render_tokens label)" using label inlineLink by blast
  show ?thesis
    unfolding neutral_def
  proof
    fix r
    define r1 where "r1 = push_tag \<lparr>tag_name = ''a'', tag_href = href\<rparr> r"
    define r2 where "r2 = (if img then let r = render_text picture r1 in if label \<noteq> [] then render_text '' '' r else r else r1)"
    have "rn_active r2 = rn_active r1 \<and> rn_underflow r2 = rn_underflow r1"
      using neutral_text by (simp add: neutral_def Let_def r2_def)
    then have l2: "rn_active (render_tokens label r2) = rn_active r1 \<and> rn_underflow (render_tokens label r2) = rn_underflow r1"
      using l unfolding neutral_def by metis
    have "render_token t r = pop_tag (render_tokens label r2)"
      by (simp only: inlineLink render_token.simps r1_def r2_def Let_def)
    then show "rn_active (render_token t r) = rn_active r \<and> rn_underflow (render_token t r) = rn_underflow r"
      using l2 by (simp add: pop_active pop_underflow r1_def push_active push_underflow)
  qed
next
  case (inlineCode raw body closed previewOpen)
  then show ?thesis using neutral_text neutral_code by (simp add: neutral_def)
qed (use neutral_text in \<open>simp_all add: neutral_def is_delimiter_def\<close>)

lemma render_label: "neutral (render_tokens (parse_label wide_punct s))"
proof (rule render_balanced)
  show "balanced (token_events (parse_label wide_punct s))" using parse_label_ok by blast
  fix t assume t: "t \<in> set (parse_label wide_punct s)" "\<not> is_delimiter t"
  show "neutral (render_token t)"
  proof (rule neutral_others [OF t(2)])
    fix raw href label img assume "t = inlineLink raw href label img"
    then show "neutral (render_tokens label)" using parse_label_ok [of wide_punct s] t(1) by blast
  qed
qed

lemma render_parseInline: "neutral (render_tokens (parseInline wide_punct s links))"
proof (cases links)
  case True
  have "neutral (render_tokens (parseInline wide_punct s True))"
  proof (rule render_balanced)
    show "balanced (token_events (parseInline wide_punct s True))" using parseInline_links by blast
    fix t assume t: "t \<in> set (parseInline wide_punct s True)" "\<not> is_delimiter t"
    show "neutral (render_token t)"
    proof (rule neutral_others [OF t(2)])
      fix raw href label img assume link: "t = inlineLink raw href label img"
      have "label_by (parse_label wide_punct) t" using parseInline_links [of wide_punct s] t(1) by blast
      then show "neutral (render_tokens label)" using render_label by (auto simp: link label_by_def)
    qed
  qed
  then show ?thesis using True by simp
next
  case False
  then show ?thesis using render_label by (simp add: parseInline_def)
qed

section \<open>The contract\<close>

text \<open>C32: The tokens of a text are a partition of it: in order, their source texts concatenate to the text. This
  holds with and without links, and for the labels of links.\<close>

theorem parseInline_partition: "concat (map token_raw (parseInline wide_punct s links)) = s"
  using parseInline_links [of wide_punct s] parse_label_ok [of wide_punct s]
  by (cases links) (auto simp: parseInline_def)

text \<open>C31: Delimiter matching is balanced: read left to right, every closing match closes the most recent match still
  open, at the token and with the width that opened it, and none is left open. Every delimiter character is
  spent on one match of width one or two, or stays literal.\<close>

theorem parseInline_nested:
  "run (token_events (parseInline wide_punct s links)) [] = Some []
   \<and> list_all token_ok (parseInline wide_punct s links)"
  using parseInline_links [of wide_punct s] parse_label_ok [of wide_punct s]
  by (cases links) (auto simp: parseInline_def balanced_def list_all_iff)

text \<open>C33: Rendering a text never closes a style that is not open, so the renderer cannot panic, and when it has
  rendered all tokens exactly the styles it began with are active.\<close>

theorem render_never_underflows:
  "\<not> rn_underflow (render_tokens (parseInline wide_punct s links) (new_renderer active spans))
   \<and> rn_active (render_tokens (parseInline wide_punct s links) (new_renderer active spans)) = active"
  using render_parseInline [of wide_punct s links] by (simp add: neutral_def new_renderer_def)

end
