(* ===== verification/MarkdownHtmlProps.thy ===== *)
theory MarkdownHtmlProps
  imports MarkdownConvertProps
begin

text \<open>
  The converter's output is well-formed markup. A reader of markup, independent of the converter, scans a text
  with a stack of open elements; every part the converter emits leaves the stack as it found it.
\<close>

section \<open>Reading markup\<close>

definition telegram_tags :: "string list" where
  "telegram_tags = [''a'', ''b'', ''i'', ''s'', ''code'', ''pre'', ''blockquote'']"

text \<open>A tag closes the innermost open element, or opens one that Telegram knows; attributes follow a space.\<close>

definition read_tag :: "string \<Rightarrow> string list \<Rightarrow> string list option" where
  "read_tag tag els =
     (if tag \<noteq> [] \<and> hd tag = CHR ''/'' then (if els \<noteq> [] \<and> tl tag = hd els then Some (tl els) else None)
      else if takeWhile (\<lambda>x. x \<noteq> CHR '' '') tag \<in> set telegram_tags then Some (takeWhile (\<lambda>x. x \<noteq> CHR '' '') tag # els)
      else None)"

abbreviation tag_end :: "char \<Rightarrow> bool" where
  "tag_end x \<equiv> x \<noteq> CHR ''>''"

function read_markup :: "string \<Rightarrow> string list \<Rightarrow> string list option" where
  "read_markup [] els = Some els"
| "read_markup (c # s) els =
     (if c = CHR ''<''
      then (if CHR ''>'' \<in> set s
            then (case read_tag (takeWhile tag_end s) els of
                    Some els' \<Rightarrow> read_markup (tl (dropWhile tag_end s)) els' | None \<Rightarrow> None)
            else None)
      else if c = CHR ''>'' then None
      else read_markup s els)"
  by pat_completeness auto
termination
proof (relation "measure (length \<circ> fst)", goal_cases)
  case (2 c s els els')
  have "length (dropWhile tag_end s) \<le> length s" by (rule length_dropWhile_le)
  then show ?case by simp
qed simp_all

definition neutral_markup :: "string \<Rightarrow> bool" where
  "neutral_markup s \<longleftrightarrow> read_markup s [] = Some []"

lemma read_markup_append: "read_markup s els = Some st \<Longrightarrow> read_markup (s @ t) els = read_markup t st"
proof (induction s els rule: read_markup.induct)
  case (2 c s els)
  show ?case
  proof (cases "c = CHR ''<''")
    case True
    then have gt: "CHR ''>'' \<in> set s" using 2(3) by (auto split: if_splits)
    then have eq: "takeWhile tag_end (s @ t) = takeWhile tag_end s" "tl (dropWhile tag_end (s @ t)) = tl (dropWhile tag_end s) @ t"
      by (auto simp: takeWhile_append1 dropWhile_append1)
    then show ?thesis using 2(1) [OF True gt] 2(3) True gt
      by (simp del: takeWhile_append dropWhile_append split: option.splits)
  next
    case False
    then show ?thesis using 2(2,3) by (auto split: if_splits)
  qed
qed simp

lemma read_tag_frame: "read_tag tag els = Some st \<Longrightarrow> read_tag tag (els @ base) = Some (st @ base)"
  by (auto simp: read_tag_def split: if_splits)

lemma read_markup_frame: "read_markup s els = Some st \<Longrightarrow> read_markup s (els @ base) = Some (st @ base)"
  by (induction s els rule: read_markup.induct) (auto split: if_splits option.splits dest: read_tag_frame [of _ _ _ base])

lemma neutral_read: "neutral_markup s \<Longrightarrow> read_markup (s @ t) els = read_markup t els"
  using read_markup_frame [of s "[]" "[]" els] by (simp add: neutral_markup_def read_markup_append)

lemma neutral_markup_append: "neutral_markup s \<Longrightarrow> neutral_markup t \<Longrightarrow> neutral_markup (s @ t)"
  by (simp add: neutral_markup_def read_markup_append)

lemma neutral_plain: "\<forall>c \<in> set s. c \<notin> {CHR ''<'', CHR ''>''} \<Longrightarrow> neutral_markup s"
  unfolding neutral_markup_def by (induction s) auto

lemma neutral_escapeHTML: "neutral_markup (escapeHTML s)"
proof (rule neutral_plain)
  show "\<forall>c \<in> set (escapeHTML s). c \<notin> {CHR ''<'', CHR ''>''}"
    by (auto simp: escapeHTML_def escape_char_def split: if_splits)
qed

lemma neutral_join: "neutral_markup sep \<Longrightarrow> \<forall>x \<in> set xs. neutral_markup x \<Longrightarrow> neutral_markup (join sep xs)"
  by (induction sep xs rule: join.induct) (auto intro: neutral_markup_append simp: neutral_markup_def [of "[]"])

lemma neutral_join_lines: "\<forall>x \<in> set xs. neutral_markup x \<Longrightarrow> neutral_markup (join_lines xs)"
  by (rule neutral_join) (simp_all add: neutral_markup_def newline_def)

lemma tag_split: "CHR ''>'' \<notin> set tag \<Longrightarrow> takeWhile tag_end (tag @ CHR ''>'' # t) = tag"
  "CHR ''>'' \<notin> set tag \<Longrightarrow> dropWhile tag_end (tag @ CHR ''>'' # t) = CHR ''>'' # t"
  by (induction tag) auto

lemma read_open: "CHR ''>'' \<notin> set tag \<Longrightarrow> read_tag tag els = Some els' \<Longrightarrow>
    read_markup (CHR ''<'' # tag @ CHR ''>'' # t) els = read_markup t els'"
  using tag_split [of tag t] by (simp del: takeWhile_append dropWhile_append)

lemma telegram_tag:
  "name \<in> set telegram_tags \<Longrightarrow>
   read_tag name els = Some (name # els) \<and> read_tag (CHR ''/'' # name) (name # els) = Some els \<and> CHR ''>'' \<notin> set name"
  unfolding telegram_tags_def list.set by (elim insertE emptyE) (simp_all add: read_tag_def telegram_tags_def)

lemma neutral_element:
  assumes "neutral_markup s" and "name \<in> set telegram_tags"
  shows "neutral_markup (CHR ''<'' # name @ CHR ''>'' # s @ CHR ''<'' # CHR ''/'' # name @ CHR ''>'' # [])"
  using read_open [of name "[]" "[name]"] read_open [of "CHR ''/'' # name" "[name]" "[]" "[]"]
    telegram_tag [OF assms(2), of "[]"] neutral_read [OF assms(1)]
  unfolding neutral_markup_def by simp

section \<open>The renderer\<close>

definition styles :: "string set" where
  "styles = {''a'', ''b'', ''i'', ''s''}"

definition markup_inv :: "inlineRenderer \<Rightarrow> bool" where
  "markup_inv r \<longleftrightarrow> read_markup (rn_out r) [] = Some (rev (map tag_name (rn_emitted r)))
     \<and> (\<forall>t \<in> set (rn_emitted r) \<union> set (rn_active r). tag_name t \<in> styles)"

lemma styles_telegram: "name \<in> styles \<Longrightarrow> name \<in> set telegram_tags"
  by (auto simp: styles_def telegram_tags_def)

lemma quote_attr_escape: "CHR ''>'' \<notin> set (quote_attr (escapeHTML href))"
  by (auto simp: quote_attr_def escapeHTML_def escape_char_def split: if_splits)

lemma read_open_tag:
  assumes "tag_name t \<in> styles"
  shows "read_markup (open_tag t @ u) els = read_markup u (tag_name t # els)"
proof (cases "tag_name t = ''a''")
  case True
  let ?tag = "''a href='' @ [CHR 0x22] @ quote_attr (escapeHTML (tag_href t)) @ [CHR 0x22]"
  have "read_tag ?tag els = Some (''a'' # els)" by (simp add: read_tag_def telegram_tags_def)
  then show ?thesis
    using read_open [of ?tag els "''a'' # els" u] quote_attr_escape [of "tag_href t"] True by (simp add: open_tag_def)
next
  case False
  then show ?thesis
    using read_open [of "tag_name t" els _ u] telegram_tag [OF styles_telegram [OF assms], of els] by (simp add: open_tag_def)
qed

lemma read_close_tag: "tag_name t \<in> styles \<Longrightarrow> read_markup (close_tag t @ u) (tag_name t # els) = read_markup u els"
  using read_open [of "CHR ''/'' # tag_name t" "tag_name t # els" els u] telegram_tag [OF styles_telegram, of "tag_name t" els]
  by (simp add: close_tag_def)

lemma read_opens: "\<forall>t \<in> set ts. tag_name t \<in> styles \<Longrightarrow>
    read_markup (concat (map open_tag ts) @ u) els = read_markup u (rev (map tag_name ts) @ els)"
  by (induction ts arbitrary: els) (simp_all add: read_open_tag)

lemma read_closes: "\<forall>t \<in> set ts. tag_name t \<in> styles \<Longrightarrow>
    read_markup (concat (map close_tag ts) @ u) (map tag_name ts @ els) = read_markup u els"
  by (induction ts) (simp_all add: read_close_tag)

lemma common_tags_take: "take (common_tags ts us) us = take (common_tags ts us) ts"
  by (induction ts us rule: common_tags.induct) auto

lemma sync_inv:
  assumes inv: "markup_inv r" and want: "\<forall>t \<in> set want. tag_name t \<in> styles"
  shows "markup_inv (sync_tags want r) \<and> rn_emitted (sync_tags want r) = want"
proof -
  let ?n = "common_tags want (rn_emitted r)"
  let ?closing = "rev (drop ?n (rn_emitted r))"
  have "rev (map tag_name (rn_emitted r)) = map tag_name ?closing @ rev (map tag_name (take ?n want))"
    by (metis append_take_drop_id common_tags_take map_append rev_append rev_map)
  moreover have "\<forall>t \<in> set ?closing. tag_name t \<in> styles" using inv by (auto simp: markup_inv_def dest: in_set_dropD)
  ultimately have "read_markup (rn_out (sync_tags want r)) []
      = read_markup (concat (map open_tag (drop ?n want))) (rev (map tag_name (take ?n want)))"
    using inv read_closes [of ?closing "concat (map open_tag (drop ?n want))"]
    by (simp add: sync_tags_def Let_def markup_inv_def read_markup_append)
  also have "\<dots> = Some (rev (map tag_name (drop ?n want)) @ rev (map tag_name (take ?n want)))"
    using read_opens [of "drop ?n want" "[]"] want by (auto dest: in_set_dropD)
  also have "\<dots> = Some (rev (map tag_name want))" by (metis append_take_drop_id map_append rev_append)
  finally show ?thesis using inv want by (auto simp: markup_inv_def sync_tags_def Let_def)
qed

lemma emit_inv: "markup_inv r \<Longrightarrow> neutral_markup s \<Longrightarrow> markup_inv (r\<lparr>rn_out := rn_out r @ s\<rparr>)"
  using neutral_read [of s "[]"] by (simp add: markup_inv_def read_markup_append)

lemma spans_inv: "markup_inv (r\<lparr>rn_spans := x\<rparr>) = markup_inv r"
  by (simp add: markup_inv_def)

lemma neutral_code_element: "neutral_markup (''<code>'' @ escapeHTML s @ ''</code>'')"
  using neutral_element [OF neutral_escapeHTML, of "''code''" s] by (simp add: telegram_tags_def)

lemma text_inv: "markup_inv r \<Longrightarrow> markup_inv (render_text s r)"
  using sync_inv [of r "rn_active r"] emit_inv [OF _ neutral_escapeHTML, of "sync_tags (rn_active r) r" s]
  by (auto simp: render_text_def Let_def spans_inv markup_inv_def [of r] split: option.splits)

lemma code_inv: "markup_inv r \<Longrightarrow> markup_inv (render_code s r)"
  using sync_inv [of r "[]"] emit_inv [OF _ neutral_code_element, of "sync_tags [] r" s]
  by (simp add: render_code_def Let_def spans_inv split: option.splits)

lemma push_inv: "markup_inv r \<Longrightarrow> tag_name t \<in> styles \<Longrightarrow> markup_inv (push_tag t r)"
  by (auto simp: markup_inv_def push_tag_def)

lemma pop_inv: "markup_inv r \<Longrightarrow> markup_inv (pop_tag r)"
  by (auto simp: markup_inv_def pop_tag_def dest: in_set_butlastD)

lemma style_name: "tag_name (style_tag marker width) \<in> styles"
  by (simp add: style_tag_def styles_def)

lemma delimiter_inv:
  assumes "markup_inv r"
  shows "markup_inv (render_delimiter d r)"
proof -
  have "markup_inv ((pop_tag ^^ n) r)" for n using assms by (induction n) (simp_all add: pop_inv)
  then have "markup_inv (render_text (take (dl_remaining d) (dl_raw d)) ((pop_tag ^^ length (dl_closes d)) r))" by (simp add: text_inv)
  moreover have "markup_inv q \<Longrightarrow> markup_inv (fold (\<lambda>width. push_tag (style_tag (dl_marker d) width)) ws q)" for ws q
    by (induction ws arbitrary: q) (simp_all add: push_inv style_name)
  ultimately show ?thesis by (simp add: render_delimiter_def)
qed

lemma render_inv:
  "markup_inv r \<Longrightarrow> markup_inv (render_tokens ts r)"
  "markup_inv r \<Longrightarrow> markup_inv (render_token t r)"
  by (induction ts r and t r rule: render_tokens_render_token.induct)
     (simp_all add: text_inv code_inv delimiter_inv push_inv pop_inv Let_def styles_def)

lemma renderer_neutral: "\<forall>t \<in> set active. tag_name t \<in> styles \<Longrightarrow>
    neutral_markup (rn_out (sync_tags [] (render_tokens ts (new_renderer active None))))"
  using sync_inv [OF render_inv(1), of "new_renderer active None" "[]" ts]
  by (simp add: markup_inv_def neutral_markup_def new_renderer_def)

lemma neutral_convertInline: "neutral_markup (convertInline wide_punct s)"
  using renderer_neutral [of "[]"] by (simp add: convertInline_def neutral_escapeHTML)

lemma neutral_convertHeading: "neutral_markup (convertHeadingInline wide_punct s)"
  using renderer_neutral [of "[bold_tag]"] by (simp add: convertHeadingInline_def bold_tag_def styles_def)

section \<open>Blocks\<close>

lemma neutral_pre: "neutral_markup (''<pre>'' @ escapeHTML s @ ''</pre>'')"
  using neutral_element [OF neutral_escapeHTML, of "''pre''" s] by (simp add: telegram_tags_def)

lemma neutral_blockquote: "\<forall>x \<in> set inner. neutral_markup x \<Longrightarrow> neutral_markup (blockquote inner)"
  using neutral_element [OF neutral_join_lines, of inner "''blockquote''"] by (simp add: telegram_tags_def blockquote_def)

lemma neutral_compactTable: "neutral_markup (compactTable rows header columns)"
proof -
  have colon: "neutral_markup '': ''" "neutral_markup middle_dot" by (simp_all add: neutral_plain middle_dot_def)
  show ?thesis
    unfolding compactTable_def
    by (rule neutral_join_lines)
       (auto intro!: neutral_join neutral_markup_append neutral_escapeHTML colon simp del: append.simps)
qed

lemma neutral_renderTable: "neutral_markup (renderTable lines)"
  using neutral_pre neutral_compactTable by (simp add: renderTable_def Let_def neutral_markup_def [of "[]"])

lemma space_char_plain: "inlineLinkSpace c \<Longrightarrow> c \<notin> {CHR ''<'', CHR ''>''}"
  by (auto simp: inlineLinkSpace_def)

lemma item_marker_digits:
  assumes "item_marker rest = Some marker" "is_digit (hd marker)"
  shows "\<exists>digits e. marker = digits @ [e] \<and> (\<forall>c \<in> set digits. is_digit c) \<and> (e = CHR ''.'' \<or> e = CHR '')'')"
proof (cases rest)
  case (Cons c cs)
  have "c \<notin> {CHR ''-'', CHR ''*'', CHR ''+''}" using assms by (auto simp: Cons item_marker_def is_digit_def)
  then have "marker = takeWhile is_digit rest @ [hd (dropWhile is_digit rest)]
      \<and> hd (dropWhile is_digit rest) \<in> {CHR ''.'', CHR '')''}"
    using assms(1) unfolding Cons item_marker_def list.case Let_def by (metis option.distinct(1) option.inject)
  then show ?thesis by (metis empty_iff insert_iff set_takeWhileD)
qed (use assms in \<open>simp add: item_marker_def\<close>)

lemma neutral_list_prefix:
  assumes "listItemRe line = Some (indent, marker, body)"
  shows "neutral_markup (list_prefix indent marker)"
proof -
  have indent: "indent = takeWhile inlineLinkSpace line" and marker: "item_marker (dropWhile inlineLinkSpace line) = Some marker"
    using assms by (auto simp: listItemRe_def Let_def split: option.splits if_splits)
  have plain: "\<forall>c \<in> set indent. c \<notin> {CHR ''<'', CHR ''>''}"
    unfolding indent using space_char_plain by (meson set_takeWhileD)
  have "\<forall>c \<in> set (expand_tabs indent). c \<notin> {CHR ''<'', CHR ''>''}"
    using plain by (auto simp: expand_tabs_def split: if_splits)
  then have tabs: "neutral_markup (expand_tabs indent)" by (rule neutral_plain)
  have digits: "\<forall>c \<in> set marker. c \<notin> {CHR ''<'', CHR ''>''}" if "is_digit (hd marker)"
  proof -
    obtain digits e where m: "marker = digits @ [e]" "\<forall>c \<in> set digits. is_digit c" "e = CHR ''.'' \<or> e = CHR '')''"
      using item_marker_digits [OF marker \<open>is_digit (hd marker)\<close>] by blast
    have "c \<notin> {CHR ''<'', CHR ''>''}" if "is_digit c \<or> c = CHR ''.'' \<or> c = CHR '')''" for c
      using that by (auto simp: is_digit_def)
    then show ?thesis using m(2,3) unfolding m(1) set_append list.set by blast
  qed
  have sub: "set (trim_right cut s) \<subseteq> set s" for cut s
    using set_dropWhile_subset [of "\<lambda>c. c \<in> set cut" "rev s"] by (simp add: trim_right_def)
  have dot: "neutral_markup ''. ''" "neutral_markup ''- ''" by (simp_all add: neutral_markup_def)
  have "neutral_markup (trim_right [CHR ''.'', CHR '')''] marker)" if "is_digit (hd marker)"
  proof (intro neutral_plain ballI)
    fix c assume "c \<in> set (trim_right [CHR ''.'', CHR '')''] marker)"
    then have "c \<in> set marker" by (rule subsetD [OF sub])
    then show "c \<notin> {CHR ''<'', CHR ''>''}" by (rule bspec [OF digits [OF that]])
  qed
  then have "neutral_markup (if is_digit (hd marker) then trim_right [CHR ''.'', CHR '')''] marker @ ''. '' else ''- '')"
    using dot neutral_markup_append by (cases "is_digit (hd marker)") (simp_all only: if_True if_False)
  then show ?thesis unfolding list_prefix_def by (rule neutral_markup_append [OF tabs])
qed

lemma neutral_list_loop: "neutral_markup out \<Longrightarrow> neutral_markup (list_loop wide_punct lines out openLen)"
proof (induction lines arbitrary: out openLen)
  case (Cons line rest)
  have nl: "neutral_markup [newline]" "neutral_markup []" by (simp_all add: neutral_markup_def newline_def)
  show ?case
  proof (cases "listItemRe line")
    case None
    have "neutral_markup (repeat_char (CHR '' '') openLen)" by (rule neutral_plain) (simp add: repeat_char_def)
    then have "neutral_markup (out @ [newline] @ repeat_char (CHR '' '') openLen @ convertInline wide_punct (trim_space line))"
      by (intro neutral_markup_append Cons.prems nl neutral_convertInline)
    then show ?thesis using Cons.IH None by simp
  next
    case (Some item)
    then obtain indent marker body where item: "listItemRe line = Some (indent, marker, body)" by (cases item) simp
    have "neutral_markup (if out \<noteq> [] then [newline] else [])" using nl by simp
    then have "neutral_markup (out @ (if out \<noteq> [] then [newline] else []) @ list_prefix indent marker
        @ convertInline wide_punct (trim_right blank_cut body))"
      by (intro neutral_markup_append Cons.prems neutral_convertInline neutral_list_prefix [OF item])
    then show ?thesis using Cons.IH item by simp
  qed
qed simp

lemma neutral_convert_block: "neutral_markup (convert_block wide_punct lines i block)"
proof -
  have nil: "neutral_markup []" by (simp add: neutral_markup_def)
  have rule: "neutral_markup rule_text" by (rule neutral_plain) (simp add: rule_text_def numeral_eq_Suc)
  show ?thesis
    using neutral_pre neutral_renderTable neutral_convertHeading neutral_convertInline neutral_list_loop [OF nil] nil rule
    by (simp add: convert_block_def convertList_def split: markdownBlockKind.splits option.splits)
qed

lemma convert_loop_neutral:
  "convert_loop wide_punct lines i out = Some parts \<Longrightarrow> \<forall>x \<in> set out. neutral_markup x \<Longrightarrow> \<forall>x \<in> set parts. neutral_markup x"
proof (induction wide_punct lines i out parts rule: convert_loop.raw_induct [rotated, consumes 1, case_names step])
  case (step convert wide_punct lines i out parts)
  let ?b = "collectMarkdownBlock lines i"
  show ?case
  proof (cases "length lines \<le> i")
    case True
    then have "parts = out" using step(2) by simp
    then show ?thesis using step(3) by blast
  next
    case more: False
    show ?thesis
    proof (cases "block_kind ?b = markdownQuote")
      case True
      then obtain inner where inner: "convert wide_punct (split_lines (join_lines (block_body ?b))) 0 [] = Some inner"
        and rest: "convert wide_punct lines (block_end ?b) (out @ [blockquote inner]) = Some parts"
        using step(2) more by (auto simp: bind_eq_Some_conv)
      have "\<forall>x \<in> set inner. neutral_markup x" using step(1) [OF inner] unfolding list.set by blast
      then have "\<forall>x \<in> set (out @ [blockquote inner]). neutral_markup x" using step(3) neutral_blockquote by simp
      then show ?thesis by (rule step(1) [OF rest])
    next
      case False
      then have "convert wide_punct lines (block_end ?b) (out @ [convert_block wide_punct lines i ?b]) = Some parts"
        using step(2) more by simp
      moreover have "\<forall>x \<in> set (out @ [convert_block wide_punct lines i ?b]). neutral_markup x"
        using step(3) neutral_convert_block by simp
      ultimately show ?thesis by (rule step(1))
    qed
  qed
qed

section \<open>The contract\<close>

text \<open>C30: Whatever text is converted, what conversion returns is well-formed markup for Telegram: read from the
  left, every closing tag closes the innermost open element, every opened element is one that Telegram knows, no
  angle bracket stands outside a tag and all elements are closed at the end. It fails to return only for a
  text in which some line has white space other than blanks between leading quote markers.\<close>

theorem ConvertMarkdown_wellformed:
  "case ConvertMarkdown wide_punct md of
     Some html \<Rightarrow> read_markup html [] = Some []
   | None \<Rightarrow> list_ex stray_quote (split_lines md)"
proof (cases "convert_loop wide_punct (split_lines md) 0 []")
  case (Some parts)
  then have "neutral_markup (join_lines parts)" using convert_loop_neutral neutral_join_lines by fastforce
  then show ?thesis using Some by (simp add: ConvertMarkdown_def neutral_markup_def)
next
  case None
  have "list_ex stray_quote (split_lines md)"
  proof (rule ccontr)
    assume "\<not> list_ex stray_quote (split_lines md)"
    then have "\<forall>l \<in> set (split_lines md). \<not> stray_quote l \<and> newline \<notin> set l"
      using split_on_parts [of _ newline md] by (auto simp: list_ex_iff)
    from convert_loop_returns [OF this, of wide_punct 0 "[]"] None show False by simp
  qed
  then show ?thesis using None by (simp add: ConvertMarkdown_def)
qed

theorem ConvertMarkdown_wellformed_witness:
  "\<exists>html. ConvertMarkdown (\<lambda>_. False) (''> a<b>'' @ [newline] @ ''b'') = Some html \<and> read_markup html [] = Some []"
proof -
  have lines: "split_lines (''> a<b>'' @ [newline] @ ''b'') = [''> a<b>'', ''b'']" by (simp add: newline_def)
  have "\<not> list_ex stray_quote (split_lines (''> a<b>'' @ [newline] @ ''b''))"
    unfolding lines by (simp add: stray_quote_def quote_mark_def tab_def trim_space_solid is_space_def has_prefix_def)
  then show ?thesis
    using ConvertMarkdown_wellformed [of "''> a<b>'' @ [newline] @ ''b''" "\<lambda>_. False"] by (auto split: option.splits)
qed

end
