(* ===== verification/MarkdownSpans.thy ===== *)
theory MarkdownSpans
  imports MarkdownConvert "HOL-Library.Monad_Syntax"
begin

text \<open>
  Splitting of oversized paragraphs (\<open>markdown_inline.go\<close>, from \<open>splitInlineParagraph\<close> on): the rendered payload is cut
  into runs of styled text, and every run is written back as Markdown that reopens its styles. Programs that
  convert Markdown do not return where the converter does not; not returning is \<^term>\<open>None\<close>.
\<close>

section \<open>Markers\<close>

record inlineMarkerEvent =
  ev_offset :: nat
  ev_width :: nat
  ev_boundary :: nat
  ev_closing :: bool

definition inlineTagMarker :: "inlineTag \<Rightarrow> string \<Rightarrow> string \<Rightarrow> string" where
  "inlineTagMarker t bold italic =
     (if tag_name t = ''b'' then bold
      else if tag_name t = ''i'' then italic
      else if tag_name t = ''s'' then ''~~''
      else if tag_name t = ''a'' then ''[''
      else [])"

abbreviation backtick :: char where
  "backtick \<equiv> CHR 0x60"

text \<open>The widths of the runs of backticks, from left to right.\<close>

function backtick_runs :: "string \<Rightarrow> nat list" where
  "backtick_runs [] = []"
| "backtick_runs (c # s) =
     (if c = backtick then inlineRun (c # s) 0 # backtick_runs (drop (inlineRun (c # s) 0) (c # s))
      else backtick_runs s)"
  by pat_completeness auto
termination
  using inlineRun_pos [of 0] by (relation "measure length") auto

text \<open>The width that no run has; \<^term>\<open>None\<close> would be an index past the end of \<open>used\<close>.\<close>

definition free_width :: "nat list \<Rightarrow> nat option" where
  "free_width used = find (\<lambda>width. width \<notin> set used) [1..<length used + 2]"

definition inlineCodeMarker :: "string \<Rightarrow> string" where
  "inlineCodeMarker body =
     (if backtick_runs body = [] then [backtick]
      else (case free_width (backtick_runs body) of Some width \<Rightarrow> repeat_char backtick width | None \<Rightarrow> []))"

section \<open>Writing spans\<close>

record encoder =
  en_out :: string
  en_active :: "inlineTag list"
  en_prefix_space :: bool
  en_events :: "inlineMarkerEvent list"

definition write_raw :: "string \<Rightarrow> encoder \<Rightarrow> encoder" where
  "write_raw s e = e\<lparr>en_out := en_out e @ s, en_prefix_space := False\<rparr>"

definition write_marker :: "string \<Rightarrow> bool \<Rightarrow> nat \<Rightarrow> encoder \<Rightarrow> encoder" where
  "write_marker marker closing position e =
     e\<lparr>en_events := en_events e @ [\<lparr>ev_offset = length (en_out e), ev_width = length marker,
                                    ev_boundary = position, ev_closing = closing\<rparr>],
       en_out := en_out e @ marker, en_prefix_space := False\<rparr>"

definition sync_markers :: "string \<Rightarrow> string \<Rightarrow> nat \<Rightarrow> inlineTag list \<Rightarrow> encoder \<Rightarrow> encoder" where
  "sync_markers bold italic boundary want e =
     (let common = common_tags (en_active e) want;
          e = fold (\<lambda>t. if tag_name t = ''a'' then write_raw ('']('' @ tag_href t @ '')'')
                        else write_marker (inlineTagMarker t bold italic) True boundary)
                (rev (drop common (en_active e))) e;
          e = fold (\<lambda>t. if tag_name t = ''a'' then write_raw ''[''
                        else write_marker (inlineTagMarker t bold italic) False boundary)
                (drop common want) e
      in e\<lparr>en_active := want\<rparr>)"

definition escape_text :: "string \<Rightarrow> string" where
  "escape_text s = concat (map (\<lambda>c. if inlinePunctuation c then [CHR 0x5C, c] else [c]) s)"

definition write_text :: "string \<Rightarrow> string \<Rightarrow> nat \<Rightarrow> string \<Rightarrow> inlineTag list \<Rightarrow> encoder \<Rightarrow> encoder" where
  "write_text bold italic boundary str tags e =
     (if str = [] then e
      else (let e = sync_markers bold italic boundary tags e
            in e\<lparr>en_out := en_out e @ escape_text str,
                 en_prefix_space :=
                   (if newline \<in> set str then trim_space (last (split_lines str)) = []
                    else en_prefix_space e \<and> trim_space str = [])\<rparr>))"

definition code_padding :: "string \<Rightarrow> string" where
  "code_padding body =
     (if has_prefix body [backtick] \<or> has_suffix body [backtick]
         \<or> (has_prefix body '' '' \<and> has_suffix body '' '' \<and> (\<exists>c \<in> set body. c \<noteq> CHR '' ''))
      then '' '' @ body @ '' '' else body)"

text \<open>A long code delimiter at the start of a line gets a style around it, whose marker differs from the next one.\<close>

definition code_shell :: "string \<Rightarrow> string \<Rightarrow> string \<Rightarrow> inlineSpan list \<Rightarrow> bool \<Rightarrow> string" where
  "code_shell bold italic marker rest prefix_space =
     (if 3 \<le> length marker \<and> prefix_space
      then (let after = (if rest \<noteq> [] \<and> sp_tags (hd rest) \<noteq> []
                         then Some (hd (inlineTagMarker (hd (sp_tags (hd rest))) bold italic)) else None)
            in case find (\<lambda>candidate. Some (hd candidate) \<noteq> after) [''**'', ''__'', ''~~''] of
                 Some shell \<Rightarrow> shell | None \<Rightarrow> [])
      else [])"

text \<open>\<open>body\<close> is the text of the code spans from index \<open>index\<close> up to \<open>next\<close>, \<open>rest\<close> the spans after them.\<close>

definition write_code :: "string \<Rightarrow> string \<Rightarrow> nat \<Rightarrow> nat \<Rightarrow> string \<Rightarrow> inlineSpan list \<Rightarrow> encoder \<Rightarrow> encoder" where
  "write_code bold italic index next_index body rest e =
     (let e = sync_markers bold italic index [] e;
          marker = inlineCodeMarker body;
          shell = code_shell bold italic marker rest (en_prefix_space e);
          e = (if shell \<noteq> [] then write_marker shell False index e else e);
          e = write_raw (marker @ code_padding body @ marker) e
      in if shell \<noteq> [] then write_marker shell True next_index e else e)"

definition write_span :: "string \<Rightarrow> string \<Rightarrow> nat \<Rightarrow> inlineSpan \<Rightarrow> encoder \<Rightarrow> encoder" where
  "write_span bold italic index span e =
     (let edge = (if sp_tags span \<noteq> [] \<and> tag_name (hd (sp_tags span)) = ''a'' then take 1 (sp_tags span) else []);
          left = trim_left_func is_space (sp_body span);
          middle = trim_right_func is_space left
      in write_text bold italic index (drop (length middle) left) edge
           (write_text bold italic index middle (sp_tags span)
             (write_text bold italic index (take (length (sp_body span) - length left) (sp_body span)) edge e)))"

function encode_loop :: "string \<Rightarrow> string \<Rightarrow> nat \<Rightarrow> inlineSpan list \<Rightarrow> encoder \<Rightarrow> nat \<times> encoder" where
  "encode_loop bold italic index [] e = (index, e)"
| "encode_loop bold italic index (span # rest) e =
     (if sp_code span
      then (let codes = takeWhile sp_code rest; rest' = dropWhile sp_code rest;
                next_index = index + 1 + length codes
            in encode_loop bold italic next_index rest'
                 (write_code bold italic index next_index (concat (map sp_body (span # codes))) rest' e))
      else encode_loop bold italic (index + 1) rest (write_span bold italic index span e))"
  by pat_completeness auto
termination
  by (relation "measure (\<lambda>(bold, italic, index, spans, e). length spans)")
     (auto simp: less_Suc_eq_le length_dropWhile_le)

definition encodeInlineSpans :: "inlineSpan list \<Rightarrow> string \<Rightarrow> string \<Rightarrow> string \<times> inlineMarkerEvent list" where
  "encodeInlineSpans spans bold italic =
     (case encode_loop bold italic 0 spans \<lparr>en_out = [], en_active = [], en_prefix_space = True, en_events = []\<rparr> of
        (boundary, e) \<Rightarrow> (let e = sync_markers bold italic boundary [] e in (en_out e, en_events e)))"

definition protectInlineWhitespace :: "string \<Rightarrow> string" where
  "protectInlineWhitespace str =
     (let str = join_lines (map (\<lambda>line. if line \<noteq> [] \<and> trim_space line = [] then [backtick] @ line @ [backtick] else line)
                  (split_lines str))
      in if trim_space str = [] then literalFence str (replicate 3 backtick) else str)"

section \<open>Comparing payloads\<close>

text \<open>\<open>inlineSpansMismatch\<close>: \<open>wi\<close> is the index of the first span of \<open>ws\<close>; of the first spans the texts \<open>wb\<close> and \<open>gb\<close>
  are still to compare.\<close>

fun first_body :: "inlineSpan list \<Rightarrow> string" where
  "first_body [] = []"
| "first_body (span # spans) = sp_body span"

definition spans_left :: "inlineSpan list \<Rightarrow> string \<Rightarrow> nat" where
  "spans_left spans body = length body + length spans + sum_list (map (\<lambda>s. length (sp_body s)) (tl spans))"

definition next_spans :: "inlineSpan list \<Rightarrow> string \<Rightarrow> inlineSpan list" where
  "next_spans spans rest = (if rest = [] then tl spans else spans)"

definition next_body :: "inlineSpan list \<Rightarrow> string \<Rightarrow> string" where
  "next_body spans rest = (if rest = [] then first_body (tl spans) else rest)"

lemma first_body_left: "length (first_body spans) + sum_list (map (\<lambda>s. length (sp_body s)) (tl spans))
    = sum_list (map (\<lambda>s. length (sp_body s)) spans)"
  by (cases spans) auto

lemma spans_left_next:
  assumes "spans \<noteq> []"
  shows "spans_left (next_spans spans (drop (snd (decode_rune body)) body)) (next_body spans (drop (snd (decode_rune body)) body))
    < spans_left spans body"
proof (cases "drop (snd (decode_rune body)) body = []")
  case True
  then show ?thesis
    using assms first_body_left [of "tl spans"] by (cases spans) (auto simp: next_spans_def next_body_def spans_left_def)
next
  case False
  then have "body \<noteq> []" by auto
  then show ?thesis
    using False decode_rune_size(1) [of body] by (simp add: next_spans_def next_body_def spans_left_def)
qed

function mismatch_loop :: "int \<Rightarrow> nat \<Rightarrow> inlineSpan list \<Rightarrow> string \<Rightarrow> inlineSpan list \<Rightarrow> string \<Rightarrow> int" where
  "mismatch_loop wants wi ws wb gs gb =
     (if ws \<noteq> [] \<and> gs \<noteq> []
      then (let wr = decode_rune wb; gr = decode_rune gb;
                wrest = drop (snd wr) wb; grest = drop (snd gr) gb
            in if fst wr \<noteq> fst gr then int wi
               else if \<not> is_space (fst wr) \<and> (sp_code (hd ws) \<noteq> sp_code (hd gs) \<or> sp_tags (hd ws) \<noteq> sp_tags (hd gs))
               then int wi
               else mismatch_loop wants (if wrest = [] then wi + 1 else wi)
                      (next_spans ws wrest) (next_body ws wrest) (next_spans gs grest) (next_body gs grest))
      else if ws \<noteq> [] \<or> gs \<noteq> [] then min (int wi) (wants - 1)
      else - 1)"
  by pat_completeness auto
termination
  using spans_left_next by (relation "measure (\<lambda>(wants, wi, ws, wb, gs, gb). spans_left ws wb)") auto

declare mismatch_loop.simps [simp del]

definition inlineSpansMismatch :: "inlineSpan list \<Rightarrow> inlineSpan list \<Rightarrow> int" where
  "inlineSpansMismatch want got = mismatch_loop (int (length want)) 0 want (first_body want) got (first_body got)"

section \<open>Failed markers\<close>

text \<open>The events not yet seen and the boundaries marked so far.\<close>

definition mark_boundary :: "nat \<Rightarrow> inlineMarkerEvent \<Rightarrow> bool list \<Rightarrow> bool list" where
  "mark_boundary count e cuts = (if 0 < ev_boundary e \<and> ev_boundary e < count then cuts[ev_boundary e := True] else cuts)"

text \<open>How often each marker width opens or closes.\<close>

definition width_counts :: "nat list \<Rightarrow> nat list" where
  "width_counts widths = map (count_list widths) [0, 1, 2]"

definition markers_agree :: "delimiter \<Rightarrow> inlineMarkerEvent list \<Rightarrow> bool" where
  "markers_agree d events \<longleftrightarrow> dl_remaining d = 0
     \<and> width_counts (map ev_width (filter (\<lambda>e. \<not> ev_closing e) events)) = width_counts (dl_opens d)
     \<and> width_counts (map ev_width (filter ev_closing events)) = width_counts (map im_width (dl_closes d))"

definition mark_before :: "nat \<Rightarrow> nat \<Rightarrow> inlineMarkerEvent list \<times> bool list \<Rightarrow> inlineMarkerEvent list \<times> bool list" where
  "mark_before count finish st =
     (dropWhile (\<lambda>e. ev_offset e < finish) (fst st),
      fold (mark_boundary count) (takeWhile (\<lambda>e. ev_offset e < finish) (fst st)) (snd st))"

definition visit_delimiter :: "nat \<Rightarrow> nat \<Rightarrow> delimiter \<Rightarrow> inlineMarkerEvent list \<times> bool list
    \<Rightarrow> inlineMarkerEvent list \<times> bool list" where
  "visit_delimiter count offset d st =
     (if fst st \<noteq> [] \<and> ev_offset (hd (fst st)) = offset
      then (let finish = offset + length (dl_raw d); own = takeWhile (\<lambda>e. ev_offset e < finish) (fst st)
            in (dropWhile (\<lambda>e. ev_offset e < finish) (fst st),
                if markers_agree d own then snd st else fold (mark_boundary count) own (snd st)))
      else st)"

fun visit_tokens :: "nat \<Rightarrow> inlineToken list \<Rightarrow> nat \<Rightarrow> inlineMarkerEvent list \<times> bool list \<Rightarrow> inlineMarkerEvent list \<times> bool list"
  and visit_token :: "nat \<Rightarrow> inlineToken \<Rightarrow> nat \<Rightarrow> inlineMarkerEvent list \<times> bool list \<Rightarrow> inlineMarkerEvent list \<times> bool list" where
  "visit_tokens count [] offset st = st"
| "visit_tokens count (t # ts) offset st =
     visit_tokens count ts (offset + length (token_raw t))
       (mark_before count (offset + length (token_raw t)) (visit_token count t offset st))"
| "visit_token count (inlineLink raw href label img) offset st =
     visit_tokens count label (offset + (case index_byte (CHR ''['') raw of Some n \<Rightarrow> n + 1 | None \<Rightarrow> 0)) st"
| "visit_token count (inlineDelimiter d) offset st = visit_delimiter count offset d st"
| "visit_token count (inlineText raw) offset st = st"
| "visit_token count (inlineEscape raw body) offset st = st"
| "visit_token count (inlineCode raw body closed previewOpen) offset st = st"

definition inlineMarkerBoundaries :: "inlineToken list \<Rightarrow> inlineMarkerEvent list \<Rightarrow> nat \<Rightarrow> bool list" where
  "inlineMarkerBoundaries tokens events count = snd (visit_tokens count tokens 0 (events, replicate (count + 1) False))"

section \<open>Choosing a spelling\<close>

definition rendered_spans :: "inlineToken list \<Rightarrow> inlineSpan list" where
  "rendered_spans tokens = (case rn_spans (render_tokens tokens (new_renderer [] (Some []))) of Some spans \<Rightarrow> spans | None \<Rightarrow> [])"

definition marker_spellings :: "(string \<times> string) list" where
  "marker_spellings = [(''**'', ''*''), (''__'', ''_''), (''**'', ''_''), (''__'', ''*'')]"

text \<open>Whether block parsing leaves the source the inline text it is meant to be.\<close>

definition stays_inline :: "unicode_class \<Rightarrow> string \<Rightarrow> string \<Rightarrow> string \<Rightarrow> bool" where
  "stays_inline wide_punct raw source html \<longleftrightarrow>
     html = convertInline wide_punct source
     \<or> (trim_space raw = [] \<and> has_prefix html ''<pre>'' \<and> has_suffix html ''</pre>''
        \<and> substr html 5 (length html - 6) = escapeHTML raw)"

definition spelling_cuts :: "inlineSpan list \<Rightarrow> inlineToken list \<Rightarrow> inlineMarkerEvent list \<Rightarrow> int \<Rightarrow> bool list" where
  "spelling_cuts spans tokens events mismatch =
     (let cuts = inlineMarkerBoundaries tokens events (length spans)
      in if True \<notin> set cuts \<and> 1 < length spans then cuts[nat (max 1 mismatch) := True] else cuts)"

fun choose_loop :: "unicode_class \<Rightarrow> inlineSpan list \<Rightarrow> int \<Rightarrow> (string \<times> string) list \<Rightarrow> bool list \<Rightarrow> nat
    \<Rightarrow> (string \<times> bool list) option" where
  "choose_loop wide_punct spans limit [] best bestCount = Some ([], best)"
| "choose_loop wide_punct spans limit ((bold, italic) # spellings) best bestCount =
     (let (raw, events) = encodeInlineSpans spans bold italic;
          tokens = parseInline wide_punct raw True;
          mismatch = inlineSpansMismatch spans (rendered_spans tokens);
          source = protectInlineWhitespace raw;
          cuts = spelling_cuts spans tokens events mismatch;
          cutCount = count_list cuts True;
          continue = (if cutCount < bestCount then choose_loop wide_punct spans limit spellings cuts cutCount
                      else choose_loop wide_punct spans limit spellings best bestCount)
      in if mismatch < 0
         then do {
           html \<leftarrow> ConvertMarkdown wide_punct source;
           if renderedUTF16Len html \<le> limit \<and> stays_inline wide_punct raw source html then Some (source, [])
           else continue }
         else continue)"

definition chooseInlineSerialization :: "unicode_class \<Rightarrow> inlineSpan list \<Rightarrow> int \<Rightarrow> (string \<times> bool list) option" where
  "chooseInlineSerialization wide_punct spans limit =
     choose_loop wide_punct spans limit marker_spellings [] (length spans + 1)"

text \<open>One rune.\<close>

definition serializeInlineGlyph :: "inlineSpan \<Rightarrow> string" where
  "serializeInlineGlyph span =
     (let char = fst (decode_rune (sp_body span))
      in if char = 10 then literalFence (sp_body span) (replicate 3 backtick)
         else if sp_code span \<or> is_space char
         then (if char = 96 then [backtick, backtick] @ '' '' @ [backtick] @ '' '' @ [backtick, backtick]
               else [backtick] @ sp_body span @ [backtick])
         else concat (map (\<lambda>t. inlineTagMarker t ''**'' ''*'') (sp_tags span)) @ escape_text (sp_body span)
              @ concat (map (\<lambda>t. if tag_name t = ''a'' then '']('' @ tag_href t @ '')'' else inlineTagMarker t ''**'' ''*'')
                  (rev (sp_tags span))))"

section \<open>Runs of spans\<close>

text \<open>A part without source is still to be written.\<close>

record part =
  pt_spans :: "inlineSpan list"
  pt_source :: string

definition written :: "string \<Rightarrow> part" where
  "written source = \<lparr>pt_spans = [], pt_source = source\<rparr>"

definition glyphs :: "inlineSpan \<Rightarrow> part list" where
  "glyphs span = map (\<lambda>p. written (serializeInlineGlyph (span\<lparr>sp_body := snd p\<rparr>))) (runes (sp_body span))"

text \<open>The spans from \<open>start\<close> on, cut before every index that is marked.\<close>

fun cut_spans :: "(nat \<Rightarrow> bool) \<Rightarrow> nat \<Rightarrow> inlineSpan list \<Rightarrow> inlineSpan list \<Rightarrow> inlineSpan list list" where
  "cut_spans is_cut i open_run [] = [open_run]"
| "cut_spans is_cut i open_run (span # spans) =
     (if 1 \<le> i \<and> is_cut i then open_run # cut_spans is_cut (i + 1) [span] spans
      else cut_spans is_cut (i + 1) (open_run @ [span]) spans)"

fun serialize_pass :: "unicode_class \<Rightarrow> int \<Rightarrow> nat \<Rightarrow> part list \<Rightarrow> (part list \<times> bool) option" where
  "serialize_pass wide_punct limit pass [] = Some ([], False)"
| "serialize_pass wide_punct limit pass (p # parts) =
     (if pt_source p \<noteq> []
      then map_option (\<lambda>(later, pending). (p # later, pending)) (serialize_pass wide_punct limit pass parts)
      else do {
        (source, cuts) \<leftarrow> chooseInlineSerialization wide_punct (pt_spans p) limit;
        (later, pending) \<leftarrow> serialize_pass wide_punct limit pass parts;
        Some (if source \<noteq> [] then (written source # later, pending)
              else if length (pt_spans p) = 1 then (glyphs (hd (pt_spans p)) @ later, pending)
              else (map (\<lambda>run. \<lparr>pt_spans = run, pt_source = []\<rparr>)
                      (cut_spans (\<lambda>i. cuts ! i \<or> 2 \<le> pass) 0 [] (pt_spans p)) @ later, True)) })"

fun serialize_passes :: "unicode_class \<Rightarrow> int \<Rightarrow> nat list \<Rightarrow> part list \<Rightarrow> part list option" where
  "serialize_passes wide_punct limit [] parts = Some parts"
| "serialize_passes wide_punct limit (pass # passes) parts = do {
     (parts', pending) \<leftarrow> serialize_pass wide_punct limit pass parts;
     if \<not> pending then Some parts' else serialize_passes wide_punct limit passes parts' }"

definition serializeInlineSpans :: "unicode_class \<Rightarrow> inlineSpan list \<Rightarrow> int \<Rightarrow> string list option" where
  "serializeInlineSpans wide_punct spans limit =
     map_option (map pt_source) (serialize_passes wide_punct limit [0..<4] [\<lparr>pt_spans = spans, pt_source = []\<rparr>])"

section \<open>Cutting a paragraph\<close>

text \<open>The runs cut so far, the open run and its length.\<close>

record chunker =
  ch_runs :: "inlineSpan list list"
  ch_chunk :: "inlineSpan list"
  ch_units :: int

definition flush_chunk :: "chunker \<Rightarrow> chunker" where
  "flush_chunk st = (if ch_chunk st \<noteq> [] then \<lparr>ch_runs = ch_runs st @ [ch_chunk st], ch_chunk = [], ch_units = 0\<rparr> else st)"

definition flush_full :: "int \<Rightarrow> chunker \<Rightarrow> chunker" where
  "flush_full limit st = (if limit \<le> ch_units st then flush_chunk st else st)"

definition put_piece :: "int \<Rightarrow> inlineSpan \<Rightarrow> string \<Rightarrow> chunker \<Rightarrow> chunker" where
  "put_piece limit span piece st = flush_full limit
     (st\<lparr>ch_chunk := ch_chunk st @ [span\<lparr>sp_body := piece\<rparr>], ch_units := ch_units st + literalUTF16Len piece\<rparr>)"

text \<open>\<open>appendSpan\<close>: where nothing fits, the run is closed and the loop tries again; with one unit a whole
  rune is taken.\<close>

partial_function (option) append_span :: "int \<Rightarrow> inlineSpan \<Rightarrow> string \<Rightarrow> chunker \<Rightarrow> chunker option" where
  "append_span limit span body st =
     (if body = [] then Some st
      else if clipUnits body (limit - ch_units st) \<noteq> []
      then append_span limit span (drop (length (clipUnits body (limit - ch_units st))) body)
             (put_piece limit span (clipUnits body (limit - ch_units st)) st)
      else if limit = 1
      then append_span limit span (drop (snd (decode_rune body)) body)
             (put_piece limit span (take (snd (decode_rune body)) body) (flush_chunk st))
      else append_span limit span body (flush_chunk st))"

fun append_spans :: "int \<Rightarrow> inlineSpan list \<Rightarrow> chunker \<Rightarrow> chunker option" where
  "append_spans limit [] st = Some st"
| "append_spans limit (span # spans) st = do {
     st \<leftarrow> append_span limit span (sp_body span) st;
     append_spans limit spans st }"

text \<open>A line that fits a message is never cut.\<close>

definition append_line :: "int \<Rightarrow> inlineSpan list \<Rightarrow> int \<Rightarrow> chunker \<Rightarrow> chunker option" where
  "append_line limit line units st =
     (if limit < units then append_spans limit line (flush_chunk st)
      else (let st = (if limit < ch_units st + units then flush_chunk st else st)
            in Some (flush_full limit (st\<lparr>ch_chunk := ch_chunk st @ line, ch_units := ch_units st + units\<rparr>))))"

text \<open>The lines of one span, the open line and its length.\<close>

fun span_lines :: "int \<Rightarrow> inlineSpan \<Rightarrow> string list \<Rightarrow> inlineSpan list \<times> int \<times> chunker \<Rightarrow> (inlineSpan list \<times> int \<times> chunker) option" where
  "span_lines limit span [] (line, units, st) = Some (line, units, st)"
| "span_lines limit span (body # bodies) (line, units, st) =
     (let (line, units) = (if body \<noteq> [] then (line @ [span\<lparr>sp_body := body\<rparr>], units + literalUTF16Len body) else (line, units))
      in if bodies = [] then Some (line, units, st)
         else do {
           st \<leftarrow> append_line limit line units st;
           st \<leftarrow> append_span limit span [newline] st;
           span_lines limit span bodies ([], 0, st) })"

fun paragraph_lines :: "int \<Rightarrow> inlineSpan list \<Rightarrow> inlineSpan list \<times> int \<times> chunker \<Rightarrow> (inlineSpan list \<times> int \<times> chunker) option" where
  "paragraph_lines limit [] st = Some st"
| "paragraph_lines limit (span # spans) st = do {
     st \<leftarrow> span_lines limit span (split_lines (sp_body span)) st;
     paragraph_lines limit spans st }"

definition paragraph_runs :: "int \<Rightarrow> inlineSpan list \<Rightarrow> inlineSpan list list option" where
  "paragraph_runs limit spans = do {
     (line, units, st) \<leftarrow> paragraph_lines limit spans ([], 0, \<lparr>ch_runs = [], ch_chunk = [], ch_units = 0\<rparr>);
     st \<leftarrow> append_line limit line units st;
     Some (ch_runs (flush_chunk st)) }"

text \<open>The source writes a run as soon as it is cut; writing reads and changes nothing else.\<close>

fun serialize_runs :: "unicode_class \<Rightarrow> int \<Rightarrow> inlineSpan list list \<Rightarrow> string list option" where
  "serialize_runs wide_punct limit [] = Some []"
| "serialize_runs wide_punct limit (run # runs) = do {
     pieces \<leftarrow> serializeInlineSpans wide_punct run limit;
     later \<leftarrow> serialize_runs wide_punct limit runs;
     Some (pieces @ later) }"

definition splitInlineParagraph :: "unicode_class \<Rightarrow> string \<Rightarrow> int \<Rightarrow> string list option" where
  "splitInlineParagraph wide_punct str limit = do {
     runs \<leftarrow> paragraph_runs limit (rendered_spans (parseInline wide_punct str True));
     serialize_runs wide_punct limit runs }"

end
