(* ===== verification/MarkdownSplit.thy ===== *)
theory MarkdownSplit
  imports MarkdownSpans
begin

text \<open>
  Splitting a Markdown document into messages (\<open>markdown.go\<close>: \<open>SplitForTelegram\<close> and the routines that break one
  oversized block). Every routine asks the converter for rendered lengths, so where conversion does not
  return, splitting does not either: \<^term>\<open>None\<close>.
\<close>

definition converts_within :: "unicode_class \<Rightarrow> int \<Rightarrow> string \<Rightarrow> bool option" where
  "converts_within wide_punct limit md = map_option (\<lambda>n. n \<le> limit) (convertLen wide_punct md)"

section \<open>Tables\<close>

text \<open>\<^term>\<open>None\<close> inside: a row does not fit with its header.\<close>

fun table_loop :: "unicode_class \<Rightarrow> int \<Rightarrow> string \<Rightarrow> string list \<Rightarrow> string \<Rightarrow> bool \<Rightarrow> string list \<Rightarrow> string list option option" where
  "table_loop wide_punct limit head [] chunk hasRows out = Some (Some (out @ [chunk]))"
| "table_loop wide_punct limit head (row # rows) chunk hasRows out = do {
     single_fits \<leftarrow> converts_within wide_punct limit (head @ [newline] @ row);
     if \<not> single_fits then Some None
     else if \<not> hasRows then table_loop wide_punct limit head rows (head @ [newline] @ row) True out
     else do {
       candidate_fits \<leftarrow> converts_within wide_punct limit (chunk @ [newline] @ row);
       if \<not> candidate_fits then table_loop wide_punct limit head rows (head @ [newline] @ row) True (out @ [chunk])
       else table_loop wide_punct limit head rows (chunk @ [newline] @ row) True out } }"

definition splitTableBlock :: "unicode_class \<Rightarrow> string list \<Rightarrow> int \<Rightarrow> string list option" where
  "splitTableBlock wide_punct lines limit = do {
     head_fits \<leftarrow> converts_within wide_punct limit (join_lines (take 2 lines));
     if \<not> head_fits then Some (splitLiteralBlock (literalTableText lines) (replicate 3 backtick) limit)
     else do {
       pieces \<leftarrow> table_loop wide_punct limit (join_lines (take 2 lines)) (drop 2 lines) (join_lines (take 2 lines)) False [];
       case pieces of
         Some out \<Rightarrow> Some out
       | None \<Rightarrow> Some (splitLiteralBlock (literalTableText lines) (replicate 3 backtick) limit) } }"

section \<open>Structured lines and paragraphs\<close>

fun all_within :: "unicode_class \<Rightarrow> int \<Rightarrow> string list \<Rightarrow> bool option" where
  "all_within wide_punct limit [] = Some True"
| "all_within wide_punct limit (piece # pieces) = do {
     ok \<leftarrow> converts_within wide_punct limit piece;
     if ok then all_within wide_punct limit pieces else Some False }"

text \<open>The cut is halved until every piece fits.\<close>

function structured_loop :: "unicode_class \<Rightarrow> int \<Rightarrow> string \<Rightarrow> int \<Rightarrow> string list option" where
  "structured_loop wide_punct limit s at_units = do {
     ok \<leftarrow> all_within wide_punct limit (hardSplitUnits s at_units);
     if ok \<or> at_units \<le> 1 then Some (hardSplitUnits s at_units)
     else structured_loop wide_punct limit s (max 1 (at_units div 2)) }"
  by pat_completeness auto
termination by (relation "measure (\<lambda>(wide_punct, limit, s, at_units). nat at_units)") auto

declare structured_loop.simps [simp del]

definition splitStructuredLine :: "unicode_class \<Rightarrow> string \<Rightarrow> int \<Rightarrow> string list option" where
  "splitStructuredLine wide_punct s limit = structured_loop wide_punct limit s (utf16Len s div 2)"

definition flush_lines :: "string list \<Rightarrow> string \<Rightarrow> string list" where
  "flush_lines out current = (if current \<noteq> [] then out @ [current] else out)"

text \<open>The end of the paragraph, or of the one structured line, at index \<open>i\<close>.\<close>

definition unit_end :: "string list \<Rightarrow> nat \<Rightarrow> nat" where
  "unit_end lines i = (if paragraphBoundary lines i then i + 1 else paragraphEnd lines i)"

definition unit_text :: "string list \<Rightarrow> nat \<Rightarrow> string" where
  "unit_text lines i = join_lines (take (unit_end lines i - i) (drop i lines))"

definition split_unit :: "unicode_class \<Rightarrow> int \<Rightarrow> string list \<Rightarrow> nat \<Rightarrow> string list option" where
  "split_unit wide_punct limit lines i =
     (if paragraphBoundary lines i then splitStructuredLine wide_punct (unit_text lines i) limit
      else splitInlineParagraph wide_punct (unit_text lines i) limit)"

lemma unit_end_less: "i < unit_end lines i"
  using paragraph_loop_bounds [of "i + 1" lines] by (simp add: unit_end_def paragraphEnd_def)

function pack_loop :: "unicode_class \<Rightarrow> int \<Rightarrow> string list \<Rightarrow> nat \<Rightarrow> string list \<Rightarrow> string \<Rightarrow> string list option" where
  "pack_loop wide_punct limit lines i out current =
     (if length lines \<le> i then Some (flush_lines out current)
      else do {
        text_fits \<leftarrow> converts_within wide_punct limit (unit_text lines i);
        if \<not> text_fits
        then do {
          pieces \<leftarrow> split_unit wide_punct limit lines i;
          pack_loop wide_punct limit lines (unit_end lines i) (flush_lines out current @ pieces) [] }
        else if current = [] then pack_loop wide_punct limit lines (unit_end lines i) out (unit_text lines i)
        else do {
          candidate_fits \<leftarrow> converts_within wide_punct limit (current @ [newline] @ unit_text lines i);
          if \<not> candidate_fits
          then pack_loop wide_punct limit lines (unit_end lines i) (flush_lines out current) (unit_text lines i)
          else pack_loop wide_punct limit lines (unit_end lines i) out (current @ [newline] @ unit_text lines i) } })"
  by pat_completeness auto
termination
  using unit_end_less
  by (relation "measure (\<lambda>(wide_punct, limit, lines, i, out, current). length lines - i)") (auto intro: diff_less_mono2)

declare pack_loop.simps [simp del]

definition packLines :: "unicode_class \<Rightarrow> string list \<Rightarrow> int \<Rightarrow> string list option" where
  "packLines wide_punct lines limit = pack_loop wide_punct limit lines 0 [] []"

section \<open>Documents\<close>

definition oversizeBlock :: "unicode_class \<Rightarrow> string \<Rightarrow> int \<Rightarrow> string list option" where
  "oversizeBlock wide_punct block limit = do {
     block_fits \<leftarrow> converts_within wide_punct limit block;
     let lines = split_lines block; trimmed = trim_space (lines ! 0)
     in if block_fits then Some [block]
        else if 1 < length lines \<and> isTableStart lines 0 then splitTableBlock wide_punct lines limit
        else if isFence trimmed then Some (splitFenceBlock (fst (collectFence lines 0)) (fenceMarker trimmed) limit)
        else packLines wide_punct lines limit }"

text \<open>The finished parts and the open one; \<open>first\<close> marks the first piece of a block.\<close>

fun pack_pieces :: "unicode_class \<Rightarrow> int \<Rightarrow> bool \<Rightarrow> string list \<Rightarrow> string list \<times> string \<Rightarrow> (string list \<times> string) option" where
  "pack_pieces wide_punct limit first [] st = Some st"
| "pack_pieces wide_punct limit first (piece # pieces) (parts, current) =
     (if current = [] then pack_pieces wide_punct limit False pieces (parts, piece)
      else if \<not> first then pack_pieces wide_punct limit False pieces (parts @ [current], piece)
      else do {
        candidate_fits \<leftarrow> converts_within wide_punct limit (current @ [newline, newline] @ piece);
        pack_pieces wide_punct limit False pieces
          (if candidate_fits then (parts, current @ [newline, newline] @ piece) else (parts @ [current], piece)) })"

fun pack_blocks :: "unicode_class \<Rightarrow> int \<Rightarrow> string list \<Rightarrow> string list \<times> string \<Rightarrow> (string list \<times> string) option" where
  "pack_blocks wide_punct limit [] st = Some st"
| "pack_blocks wide_punct limit (block # blocks) st = do {
     pieces \<leftarrow> oversizeBlock wide_punct block limit;
     st \<leftarrow> pack_pieces wide_punct limit True pieces st;
     pack_blocks wide_punct limit blocks st }"

definition message_limit :: "int \<Rightarrow> int" where
  "message_limit limit = (if limit \<le> 0 then MaxMessageUTF16 else limit)"

definition SplitForTelegram :: "unicode_class \<Rightarrow> string \<Rightarrow> int \<Rightarrow> string list option" where
  "SplitForTelegram wide_punct md limit =
     (if trim_space md = [] then Some []
      else do {
        (parts, current) \<leftarrow> pack_blocks wide_punct (message_limit limit) (markdownBlocks md) ([], []);
        Some (flush_lines parts current) })"

text \<open>\<open>ClipConvertible\<close> looks for the longest prefix that fits with the mark by bisection.\<close>

definition clip_mark :: string where
  "clip_mark = [newline, CHR 0xE2, CHR 0x80, CHR 0xA6]"

function bisect_clip :: "unicode_class \<Rightarrow> int \<Rightarrow> string \<Rightarrow> int \<Rightarrow> int \<Rightarrow> int option" where
  "bisect_clip wide_punct limit s lo hi =
     (if lo < hi
      then do {
        ok \<leftarrow> converts_within wide_punct limit (clipUnits s ((lo + hi + 1) div 2) @ clip_mark);
        if ok then bisect_clip wide_punct limit s ((lo + hi + 1) div 2) hi
        else bisect_clip wide_punct limit s lo ((lo + hi + 1) div 2 - 1) }
      else Some lo)"
  by pat_completeness auto
termination by (relation "measure (\<lambda>(wide_punct, limit, s, lo, hi). nat (hi - lo))") auto

declare bisect_clip.simps [simp del]

definition ClipConvertible :: "unicode_class \<Rightarrow> string \<Rightarrow> int \<Rightarrow> string option" where
  "ClipConvertible wide_punct s limit = do {
     ok \<leftarrow> converts_within wide_punct (message_limit limit) s;
     if ok then Some s
     else do {
       lo \<leftarrow> bisect_clip wide_punct (message_limit limit) s 0 (utf16Len s);
       Some (clipUnits s lo @ clip_mark) } }"

end
