(* ===== verification/SpansProps.thy ===== *)
theory SpansProps
  imports MarkdownSplit MarkdownInlineProps MarkdownConvertProps
begin

text \<open>
  Properties of paragraph splitting: code spans are written so that they read back, runs partition the payload and
  keep to the limit, payloads are compared exactly, and no run stays unwritten.
\<close>

section \<open>Code spans\<close>

lemma free_width_some: "\<exists>width. free_width used = Some width \<and> 0 < width \<and> width \<le> length used + 1 \<and> width \<notin> set used"
proof -
  have "\<not> set [1..<length used + 2] \<subseteq> set used"
  proof
    assume "set [1..<length used + 2] \<subseteq> set used"
    then have "card (set [1..<length used + 2]) \<le> card (set used)" by (intro card_mono) simp_all
    then show False using card_length [of used] by (simp del: upt_Suc)
  qed
  then have "free_width used \<noteq> None" unfolding free_width_def find_None_iff by blast
  then obtain width where w: "free_width used = Some width" by blast
  then have "width \<in> set [1..<length used + 2]" "width \<notin> set used"
    unfolding free_width_def find_Some_iff by (metis nth_mem)+
  then show ?thesis using w by auto
qed

lemma code_end_skip:
  assumes "start < length s" and "s ! start \<noteq> backtick"
  shows "inlineCodeEnd s start width = inlineCodeEnd s (start + 1) width"
proof -
  have d: "drop start s = s ! start # drop (start + 1) s" using assms(1) by (simp add: Cons_nth_drop_Suc)
  have i: "index_byte backtick (drop start s) = map_option Suc (index_byte backtick (drop (start + 1) s))"
    unfolding d using assms(2) by (auto simp: index_byte_def)
  show ?thesis
  proof (cases "index_byte backtick (drop (start + 1) s)")
    case None
    then show ?thesis using i by (subst (1 2) inlineCodeEnd.simps) simp
  next
    case (Some off)
    then have "start + 1 < length s" using index_byte_less by fastforce
    then show ?thesis using Some i assms(1) by (subst (1 2) inlineCodeEnd.simps) simp
  qed
qed

lemma code_end_run:
  assumes "start < length s" and "s ! start = backtick"
  shows "inlineCodeEnd s start width
    = (if inlineRun s start = width then Some start else inlineCodeEnd s (start + inlineRun s start) width)"
proof -
  have d: "drop start s = s ! start # drop (start + 1) s" using assms(1) by (simp add: Cons_nth_drop_Suc)
  have "index_byte backtick (drop start s) = Some 0" unfolding d using assms(2) by (simp add: index_byte_def)
  then show ?thesis using assms(1) by (subst inlineCodeEnd.simps) simp
qed

lemma inlineRun_drop: "start < length s \<Longrightarrow> inlineRun s start = inlineRun (drop start s) 0"
  by (simp add: inlineRun_def hd_drop_conv_nth)

lemma takeWhile_replicate: "xs = [] \<or> hd xs \<noteq> x \<Longrightarrow> takeWhile (\<lambda>c. c = x) (replicate n x @ xs) = replicate n x"
  by (induction n) (cases xs; auto)+

lemma inlineCodeEnd_found:
  assumes "drop start s = inner @ replicate width backtick @ after" and "start \<le> length s"
    and "0 < width" and "after = [] \<or> hd after \<noteq> backtick"
    and "inner \<noteq> [] \<longrightarrow> last inner \<noteq> backtick" and "width \<notin> set (backtick_runs inner)"
  shows "inlineCodeEnd s start width = Some (start + length inner)"
  using assms
proof (induction inner arbitrary: start rule: backtick_runs.induct)
  case 1
  have len: "start < length s"
    using "1.prems"(1,3) by (metis append_Nil append_is_Nil_conv drop_all le_less_linear length_0_conv length_replicate less_irrefl)
  have "s ! start = backtick" using "1.prems"(1,3) len by (simp add: hd_drop_conv_nth [symmetric] hd_append)
  moreover have "inlineRun s start = width"
    using "1.prems"(1,3,4) len takeWhile_replicate [of after backtick width]
    by (simp add: inlineRun_def \<open>s ! start = backtick\<close>)
  ultimately show ?case using len by (simp add: code_end_run)
next
  case (2 c inner)
  have len: "start < length s" using "2.prems"(1) by (metis append_Cons drop_all le_less_linear list.distinct(1))
  have c: "s ! start = c" using "2.prems"(1) len by (metis append_Cons hd_drop_conv_nth list.sel(1))
  show ?case
  proof (cases "c = backtick")
    case False
    have "drop (start + 1) s = inner @ replicate width backtick @ after"
      using "2.prems"(1) by (metis append_Cons drop_Suc list.sel(3) Suc_eq_plus1 tl_drop)
    then have "inlineCodeEnd s (start + 1) width = Some (start + 1 + length inner)"
      using "2.prems" False len by (intro "2.IH"(2)) auto
    then show ?thesis using code_end_skip [OF len] c False by simp
  next
    case True
    let ?n = "inlineRun (c # inner) 0"
    have "\<exists>x \<in> set (c # inner). x \<noteq> backtick" using "2.prems"(5) last_in_set [of "c # inner"] by blast
    then have "takeWhile (\<lambda>x. x = backtick) (drop start s) = takeWhile (\<lambda>x. x = backtick) (c # inner)"
      unfolding "2.prems"(1) by (metis (mono_tags, lifting) takeWhile_append1)
    then have n: "inlineRun s start = ?n" using c True by (simp add: inlineRun_def)
    have short: "?n < length (c # inner)"
    proof -
      have "takeWhile (\<lambda>x. x = backtick) (c # inner) \<noteq> c # inner"
        unfolding takeWhile_eq_all_conv using \<open>\<exists>x \<in> set (c # inner). x \<noteq> backtick\<close> by blast
      moreover have "c # inner = takeWhile (\<lambda>x. x = backtick) (c # inner) @ dropWhile (\<lambda>x. x = backtick) (c # inner)" by simp
      ultimately have "dropWhile (\<lambda>x. x = backtick) (c # inner) \<noteq> []" by (metis append_Nil2)
      moreover have "length (c # inner) = length (takeWhile (\<lambda>x. x = backtick) (c # inner)) + length (dropWhile (\<lambda>x. x = backtick) (c # inner))"
        by (metis length_append takeWhile_dropWhile_id)
      ultimately show ?thesis using True by (simp only: inlineRun_def drop0 nth_Cons_0) simp
    qed
    have "width \<noteq> ?n" "width \<notin> set (backtick_runs (drop ?n (c # inner)))" using "2.prems"(6) True by auto
    moreover have "drop (start + ?n) s = drop ?n (c # inner) @ replicate width backtick @ after"
    proof -
      have "drop (start + ?n) s = drop ?n (drop start s)" by (simp only: drop_drop add.commute)
      also have "\<dots> = drop ?n ((c # inner) @ replicate width backtick @ after)" by (simp only: "2.prems"(1))
      finally show ?thesis using short unfolding drop_append by simp
    qed
    moreover have "last (drop ?n (c # inner)) = last (c # inner)" using short by (simp add: last_drop)
    moreover have "start + ?n \<le> length s" using len n inlineRun_le [OF len] by simp
    ultimately have "inlineCodeEnd s (start + ?n) width = Some (start + ?n + length (drop ?n (c # inner)))"
      using "2.prems" True by (intro "2.IH"(1)) auto
    then show ?thesis using code_end_run [OF len] c True n \<open>width \<noteq> ?n\<close> short by simp
  qed
qed

lemma has_prefix_char: "has_prefix s [c] \<longleftrightarrow> s \<noteq> [] \<and> hd s = c"
  by (cases s) (auto simp: has_prefix_def)

lemma has_suffix_char: "has_suffix s [c] \<longleftrightarrow> s \<noteq> [] \<and> last s = c"
  by (cases s rule: rev_cases) (auto simp: has_suffix_def)

lemma code_padding_shape:
  assumes "body \<noteq> []"
  shows "code_padding body \<noteq> [] \<and> hd (code_padding body) \<noteq> backtick \<and> last (code_padding body) \<noteq> backtick
    \<and> code_body (code_padding body) = body"
proof -
  define padded where "padded \<longleftrightarrow> hd body = backtick \<or> last body = backtick
    \<or> (hd body = CHR '' '' \<and> last body = CHR '' '' \<and> (\<exists>c \<in> set body. c \<noteq> CHR '' ''))"
  have eq: "code_padding body = (if padded then '' '' @ body @ '' '' else body)"
    using assms by (simp only: code_padding_def padded_def has_prefix_char has_suffix_char simp_thms)
  show ?thesis
  proof (cases padded)
    case False
    have "code_body body = body"
      unfolding code_body_def by (rule if_not_P) (use False in \<open>unfold padded_def, blast\<close>)
    moreover have "hd body \<noteq> backtick" "last body \<noteq> backtick" using False unfolding padded_def by blast+
    ultimately show ?thesis using assms False eq by (simp only: if_False simp_thms)
  next
    case True
    have "\<exists>c \<in> set body. c \<noteq> CHR '' ''"
    proof -
      have "hd body \<in> set body" "last body \<in> set body" using assms by simp_all
      moreover have "backtick \<noteq> CHR '' ''" by simp
      ultimately show ?thesis using True unfolding padded_def by metis
    qed
    then show ?thesis using True assms unfolding eq by (simp add: code_body_def butlast_append)
  qed
qed

lemma backtick_runs_snoc: "c \<noteq> backtick \<Longrightarrow> backtick_runs (s @ [c]) = backtick_runs s"
proof (induction s rule: backtick_runs.induct)
  case (2 x s)
  show ?case
  proof (cases "x = backtick")
    case True
    have run: "inlineRun (x # s @ [c]) 0 = inlineRun (x # s) 0"
      using 2(3) True by (simp add: inlineRun_def takeWhile_tail)
    have "inlineRun (x # s) 0 \<le> length (x # s)" using inlineRun_le [of 0 "x # s"] by simp
    then have "drop (inlineRun (x # s) 0) (x # s @ [c]) = drop (inlineRun (x # s) 0) (x # s) @ [c]" by (simp add: drop_Cons')
    then show ?thesis using 2(1) [OF True 2(3)] True run by simp
  qed (use 2 in simp)
qed simp

lemma backtick_runs_padding: "backtick_runs (code_padding body) = backtick_runs body"
  using backtick_runs_snoc [of "CHR '' ''" "CHR '' '' # body"] by (simp add: code_padding_def)

lemma inlineCodeMarker_shape:
  "\<exists>width. inlineCodeMarker body = replicate width backtick \<and> 0 < width \<and> width \<le> length (backtick_runs body) + 1
    \<and> width \<notin> set (backtick_runs body)"
proof (cases "backtick_runs body = []")
  case True
  then show ?thesis by (intro exI [of _ 1]) (simp add: inlineCodeMarker_def)
next
  case False
  then show ?thesis using free_width_some [of "backtick_runs body"] by (auto simp: inlineCodeMarker_def repeat_char_def)
qed

text \<open>C29: A code span is written so that it reads back, whatever backticks its body contains: behind the text a reader
  finds exactly one closed code token with the body, and the marker is a run of backticks that the body does not
  contain, at most one longer than the body has runs.\<close>

theorem code_span_roundtrip:
  assumes "body \<noteq> []" and "after = [] \<or> hd after \<noteq> backtick"
  shows "code_token (inlineCodeMarker body @ code_padding body @ inlineCodeMarker body @ after) 0
      = (inlineCode (inlineCodeMarker body @ code_padding body @ inlineCodeMarker body) body True False,
         length (inlineCodeMarker body @ code_padding body @ inlineCodeMarker body))
    \<and> length (inlineCodeMarker body) \<notin> set (backtick_runs body)
    \<and> length (inlineCodeMarker body) \<le> length (backtick_runs body) + 1"
proof -
  obtain width where w: "inlineCodeMarker body = replicate width backtick" "0 < width"
    "width \<le> length (backtick_runs body) + 1" "width \<notin> set (backtick_runs body)"
    using inlineCodeMarker_shape by blast
  note p = code_padding_shape [OF assms(1)]
  let ?s = "replicate width backtick @ code_padding body @ replicate width backtick @ after"
  have "takeWhile (\<lambda>c. c = backtick) ?s = replicate width backtick"
    using p by (intro takeWhile_replicate) (auto simp: hd_append)
  moreover have "?s ! 0 = backtick" using w(2) by (cases width) auto
  ultimately have run: "inlineRun ?s 0 = width" by (simp add: inlineRun_def)
  have "inlineCodeEnd ?s width width = Some (width + length (code_padding body))"
    by (rule inlineCodeEnd_found [where after = after]) (use w p assms(2) in \<open>auto simp: backtick_runs_padding\<close>)
  then show ?thesis
    using w p by (simp add: code_token_def run substr_def)
qed

theorem code_span_roundtrip_witness:
  "code_token (inlineCodeMarker (''a'' @ [backtick] @ ''b'') @ code_padding (''a'' @ [backtick] @ ''b'')
      @ inlineCodeMarker (''a'' @ [backtick] @ ''b'') @ '' c'') 0
    = (inlineCode (replicate 2 backtick @ ''a'' @ [backtick] @ ''b'' @ replicate 2 backtick) (''a'' @ [backtick] @ ''b'') True False, 7)"
proof -
  have "''a'' @ [backtick] @ ''b'' \<noteq> []" "'' c'' = [] \<or> hd '' c'' \<noteq> backtick" by simp_all
  from code_span_roundtrip [OF this] show ?thesis
    by (simp add: inlineCodeMarker_def code_padding_def inlineRun_def free_width_def has_prefix_char has_suffix_char repeat_char_def
        numeral_eq_Suc)
qed

section \<open>Comparing payloads\<close>

text \<open>The visible runes with their style; white space has none.\<close>

definition styled :: "inlineSpan \<Rightarrow> string \<Rightarrow> (rune \<times> (bool \<times> inlineTag list) option) list" where
  "styled span s = map (\<lambda>p. (fst p, if is_space (fst p) then None else Some (sp_code span, sp_tags span))) (runes s)"

definition payload :: "inlineSpan list \<Rightarrow> (rune \<times> (bool \<times> inlineTag list) option) list" where
  "payload spans = concat (map (\<lambda>span. styled span (sp_body span)) spans)"

definition rest_payload :: "inlineSpan list \<Rightarrow> string \<Rightarrow> (rune \<times> (bool \<times> inlineTag list) option) list" where
  "rest_payload spans body = (if spans = [] then [] else styled (hd spans) body @ payload (tl spans))"

definition rest_ok :: "inlineSpan list \<Rightarrow> string \<Rightarrow> bool" where
  "rest_ok spans body \<longleftrightarrow> (spans \<noteq> [] \<longrightarrow> body \<noteq> []) \<and> (\<forall>span \<in> set (tl spans). sp_body span \<noteq> [])"

lemma rest_payload_whole: "rest_payload spans (first_body spans) = payload spans"
  by (cases spans) (simp_all add: rest_payload_def payload_def)

lemma rest_payload_step:
  assumes "spans \<noteq> []" and "rest_ok spans body"
  shows "rest_payload spans body = (fst (decode_rune body),
      if is_space (fst (decode_rune body)) then None else Some (sp_code (hd spans), sp_tags (hd spans)))
    # rest_payload (next_spans spans (drop (snd (decode_rune body)) body)) (next_body spans (drop (snd (decode_rune body)) body))"
    and "rest_ok (next_spans spans (drop (snd (decode_rune body)) body)) (next_body spans (drop (snd (decode_rune body)) body))"
proof -
  let ?rest = "drop (snd (decode_rune body)) body"
  have body: "body \<noteq> []" using assms by (simp add: rest_ok_def)
  have st: "styled (hd spans) body = (fst (decode_rune body),
      if is_space (fst (decode_rune body)) then None else Some (sp_code (hd spans), sp_tags (hd spans))) # styled (hd spans) ?rest"
    by (simp add: styled_def runes_nonempty [OF body])
  show "rest_payload spans body = (fst (decode_rune body),
      if is_space (fst (decode_rune body)) then None else Some (sp_code (hd spans), sp_tags (hd spans)))
    # rest_payload (next_spans spans ?rest) (next_body spans ?rest)"
  proof (cases "?rest = []")
    case True
    then have "rest_payload (next_spans spans ?rest) (next_body spans ?rest) = payload (tl spans)"
      using rest_payload_whole [of "tl spans"] by (simp add: next_spans_def next_body_def)
    then show ?thesis using assms(1) st True by (simp add: rest_payload_def [of spans] styled_def)
  next
    case False
    then show ?thesis using assms(1) st by (simp add: rest_payload_def next_spans_def next_body_def)
  qed
  show "rest_ok (next_spans spans ?rest) (next_body spans ?rest)"
    using assms(2) by (cases "tl spans") (auto simp: rest_ok_def next_spans_def next_body_def)
qed

lemma mismatch_loop_exact:
  assumes "rest_ok ws wb" and "rest_ok gs gb" and "int wi + int (length ws) = wants" and "0 < wants"
  shows "mismatch_loop wants wi ws wb gs gb = - 1 \<longleftrightarrow> rest_payload ws wb = rest_payload gs gb"
  using assms
proof (induction wants wi ws wb gs gb rule: mismatch_loop.induct)
  case (1 wants wi ws wb gs gb)
  let ?wrest = "drop (snd (decode_rune wb)) wb" and ?grest = "drop (snd (decode_rune gb)) gb"
  have pos: "styled span body \<noteq> []" if "body \<noteq> []" for span body
    using that runes_nonempty [OF that] by (simp add: styled_def)
  show ?case
  proof (cases "ws \<noteq> [] \<and> gs \<noteq> []")
    case False
    then show ?thesis
      using "1.prems" pos by (subst mismatch_loop.simps) (auto simp: rest_payload_def rest_ok_def)
  next
    case both: True
    note w = rest_payload_step [OF _ "1.prems"(1)] and g = rest_payload_step [OF _ "1.prems"(2)]
    have eq: "rest_payload ws wb = rest_payload gs gb \<longleftrightarrow> fst (decode_rune wb) = fst (decode_rune gb)
        \<and> (is_space (fst (decode_rune wb)) \<or> (sp_code (hd ws) = sp_code (hd gs) \<and> sp_tags (hd ws) = sp_tags (hd gs)))
        \<and> rest_payload (next_spans ws ?wrest) (next_body ws ?wrest) = rest_payload (next_spans gs ?grest) (next_body gs ?grest)"
      unfolding w(1) [OF both [THEN conjunct1]] g(1) [OF both [THEN conjunct2]] by auto
    show ?thesis
    proof (cases "fst (decode_rune wb) \<noteq> fst (decode_rune gb)
        \<or> \<not> is_space (fst (decode_rune wb)) \<and> (sp_code (hd ws) \<noteq> sp_code (hd gs) \<or> sp_tags (hd ws) \<noteq> sp_tags (hd gs))")
      case True
      then have "mismatch_loop wants wi ws wb gs gb = int wi" using both by (subst mismatch_loop.simps) (auto simp: Let_def)
      then show ?thesis using eq True by auto
    next
      case False
      then have step: "mismatch_loop wants wi ws wb gs gb = mismatch_loop wants (if ?wrest = [] then wi + 1 else wi)
          (next_spans ws ?wrest) (next_body ws ?wrest) (next_spans gs ?grest) (next_body gs ?grest)"
        using both by (subst mismatch_loop.simps) (auto simp: Let_def)
      have "int (if ?wrest = [] then wi + 1 else wi) + int (length (next_spans ws ?wrest)) = wants"
        using "1.prems"(3) both by (cases ws) (auto simp: next_spans_def)
      then have "mismatch_loop wants (if ?wrest = [] then wi + 1 else wi)
            (next_spans ws ?wrest) (next_body ws ?wrest) (next_spans gs ?grest) (next_body gs ?grest) = - 1
          \<longleftrightarrow> rest_payload (next_spans ws ?wrest) (next_body ws ?wrest) = rest_payload (next_spans gs ?grest) (next_body gs ?grest)"
        using "1.IH" [OF both refl refl refl refl] False w(2) g(2) both "1.prems"(4) by blast
      moreover have "rest_payload ws wb = rest_payload gs gb \<longleftrightarrow>
          rest_payload (next_spans ws ?wrest) (next_body ws ?wrest) = rest_payload (next_spans gs ?grest) (next_body gs ?grest)"
        using eq False by argo
      ultimately show ?thesis unfolding step by simp
    qed
  qed
qed

text \<open>Payloads are compared exactly: the comparison reports no mismatch iff both span lists show the same runes
  and every rune that is no white space has the same code and style state, however the spans are cut.\<close>

theorem inlineSpansMismatch_exact:
  assumes "want \<noteq> []" and "list_all (\<lambda>span. sp_body span \<noteq> []) (want @ got)"
  shows "inlineSpansMismatch want got = - 1 \<longleftrightarrow> payload want = payload got"
proof -
  have "rest_ok spans (first_body spans)" if "list_all (\<lambda>span. sp_body span \<noteq> []) spans" for spans
    using that by (cases spans) (auto simp: rest_ok_def list_all_iff)
  then have "rest_ok want (first_body want)" "rest_ok got (first_body got)" using assms(2) by simp_all
  then show ?thesis
    using mismatch_loop_exact [of want "first_body want" got "first_body got" 0 "int (length want)"] assms(1)
    by (simp add: inlineSpansMismatch_def rest_payload_whole)
qed

theorem inlineSpansMismatch_exact_witness:
  "inlineSpansMismatch [\<lparr>sp_body = ''ab'', sp_tags = [bold_tag], sp_code = False\<rparr>]
     [\<lparr>sp_body = ''a'', sp_tags = [bold_tag], sp_code = False\<rparr>, \<lparr>sp_body = ''b'', sp_tags = [bold_tag], sp_code = False\<rparr>] = - 1"
  using inlineSpansMismatch_exact [of "[\<lparr>sp_body = ''ab'', sp_tags = [bold_tag], sp_code = False\<rparr>]"
     "[\<lparr>sp_body = ''a'', sp_tags = [bold_tag], sp_code = False\<rparr>, \<lparr>sp_body = ''b'', sp_tags = [bold_tag], sp_code = False\<rparr>]"]
  by (simp add: payload_def styled_def runes_ascii)

section \<open>Cutting a paragraph\<close>

definition styled_bytes :: "inlineSpan list \<Rightarrow> (char \<times> bool \<times> inlineTag list) list" where
  "styled_bytes spans = concat (map (\<lambda>span. map (\<lambda>c. (c, sp_code span, sp_tags span)) (sp_body span)) spans)"

definition run_units :: "inlineSpan list \<Rightarrow> int" where
  "run_units spans = sum_list (map (\<lambda>span. literalUTF16Len (sp_body span)) spans)"

definition filled :: "inlineSpan list \<Rightarrow> bool" where
  "filled spans \<longleftrightarrow> list_all (\<lambda>span. sp_body span \<noteq> []) spans"

lemma styled_bytes_simps [simp]:
  "styled_bytes [] = []" "styled_bytes (spans @ spans') = styled_bytes spans @ styled_bytes spans'"
  "styled_bytes [span\<lparr>sp_body := body\<rparr>] = map (\<lambda>c. (c, sp_code span, sp_tags span)) body"
  by (simp_all add: styled_bytes_def)

lemma run_units_simps [simp]:
  "run_units [] = 0" "run_units (spans @ spans') = run_units spans + run_units spans'"
  "run_units [span] = literalUTF16Len (sp_body span)" "run_units (span # spans) = literalUTF16Len (sp_body span) + run_units spans"
  by (simp_all add: run_units_def)

lemma filled_simps [simp]:
  "filled []" "filled (spans @ spans') \<longleftrightarrow> filled spans \<and> filled spans'" "filled [span] \<longleftrightarrow> sp_body span \<noteq> []"
  "filled (span # spans) \<longleftrightarrow> sp_body span \<noteq> [] \<and> filled spans"
  by (simp_all add: filled_def)

lemma literal_units_pos: "s \<noteq> [] \<Longrightarrow> 0 < literalUTF16Len s" "0 \<le> literalUTF16Len s"
  using rune_units_bounds by (auto simp: literalUTF16Len_eq text_units_rune_len runes_nonempty add_pos_nonneg)

lemma run_units_pos: "filled spans \<Longrightarrow> spans \<noteq> [] \<Longrightarrow> 0 < run_units spans" "0 \<le> run_units spans"
proof -
  show nn: "0 \<le> run_units spans" for spans
    unfolding run_units_def by (induction spans) (simp_all add: literal_units_pos(2))
  show "filled spans \<Longrightarrow> spans \<noteq> [] \<Longrightarrow> 0 < run_units spans"
    using literal_units_pos(1) nn by (cases spans) (auto intro: add_pos_nonneg)
qed

lemma units_of_prefix: "literalUTF16Len (rune_text (take n (runes s))) = rune_len (take n (runes s))"
  using runes_prefix [of s "take n (runes s)" "drop n (runes s)"] by (simp add: literalUTF16Len_eq text_units_rune_len)

lemma rune_text_prefix: "prefix (rune_text (take n (runes s))) s"
proof -
  have "s = rune_text (take n (runes s)) @ rune_text (drop n (runes s))"
    by (metis append_take_drop_id concat_append concat_runes map_append)
  then show ?thesis unfolding prefix_def by blast
qed

lemma first_rune_units: "s \<noteq> [] \<Longrightarrow> literalUTF16Len (take (snd (decode_rune s)) s) \<le> 2"
  using units_of_prefix [of 1 s] rune_units_bounds by (simp add: runes_nonempty)

lemma clip_piece:
  "prefix (clipUnits s units) s \<and> literalUTF16Len (clipUnits s units) \<le> max 0 units
    \<and> (s \<noteq> [] \<and> clipUnits s units = [] \<longrightarrow> units < 2)"
proof (cases "units \<le> 0")
  case True
  then show ?thesis by (simp add: clipUnits_def literalUTF16Len_eq text_units_rune_len)
next
  case False
  obtain n where n: "clip_loop (runes s) units 0 = rune_text (take n (runes s))"
    "n \<noteq> 0 \<longrightarrow> rune_len (take n (runes s)) \<le> units"
    "n < length (runes s) \<longrightarrow> units < rune_len (take (Suc n) (runes s))"
    using clip_loop_prefix [of "runes s" units 0] by auto
  have eq: "clipUnits s units = rune_text (take n (runes s))" using False n(1) by (simp add: clipUnits_def)
  have "literalUTF16Len (clipUnits s units) \<le> units"
    using n(2) False units_of_prefix [of n s] by (cases "n = 0") (simp_all add: eq)
  moreover have "units < 2" if "s \<noteq> []" "clipUnits s units = []"
  proof -
    have rs: "runes s \<noteq> []" using that(1) by (simp add: runes_nonempty)
    have "n = 0"
    proof (rule ccontr)
      assume "n \<noteq> 0"
      then have "take n (runes s) \<noteq> []" "\<forall>p \<in> set (take n (runes s)). snd p \<noteq> []"
        using rs runes_pieces by (auto dest: in_set_takeD)
      then show False using that(2) rune_text_Nil unfolding eq by blast
    qed
    then have "units < rune_len (take 1 (runes s))" using n(3) rs by simp
    moreover have "rune_len (take 1 (runes s)) \<le> 2"
      using rs rune_units_bounds by (cases "runes s") auto
    ultimately show ?thesis by simp
  qed
  moreover have "prefix (clipUnits s units) s" unfolding eq by (rule rune_text_prefix)
  ultimately show ?thesis using False by auto
qed

definition chunk_ok :: "int \<Rightarrow> chunker \<Rightarrow> bool" where
  "chunk_ok limit st \<longleftrightarrow> filled (ch_chunk st) \<and> ch_units st = run_units (ch_chunk st) \<and> ch_units st < limit
     \<and> list_all (\<lambda>run. run \<noteq> [] \<and> filled run \<and> run_units run \<le> max limit 2) (ch_runs st)"

definition chunk_bytes :: "chunker \<Rightarrow> (char \<times> bool \<times> inlineTag list) list" where
  "chunk_bytes st = styled_bytes (concat (ch_runs st) @ ch_chunk st)"

lemma flush_chunk_ok:
  "chunk_ok limit st \<Longrightarrow> 1 \<le> limit \<Longrightarrow> chunk_ok limit (flush_chunk st) \<and> chunk_bytes (flush_chunk st) = chunk_bytes st
    \<and> ch_chunk (flush_chunk st) = [] \<and> ch_units (flush_chunk st) = 0"
  by (auto simp: chunk_ok_def chunk_bytes_def flush_chunk_def)

lemma put_ok:
  assumes "chunk_ok limit st" and "1 \<le> limit" and "filled added" and "ch_units st + run_units added \<le> max limit 2"
    and "st' = st\<lparr>ch_chunk := ch_chunk st @ added, ch_units := ch_units st + run_units added\<rparr>"
  shows "chunk_ok limit (flush_full limit st') \<and> chunk_bytes (flush_full limit st') = chunk_bytes st @ styled_bytes added"
  using assms run_units_pos(2) [of "ch_chunk st @ added"]
  by (auto simp: chunk_ok_def chunk_bytes_def flush_full_def flush_chunk_def)

lemma append_span_ok:
  assumes "chunk_ok limit st" and "1 \<le> limit"
  shows "\<exists>st'. append_span limit span body st = Some st' \<and> chunk_ok limit st'
    \<and> chunk_bytes st' = chunk_bytes st @ map (\<lambda>c. (c, sp_code span, sp_tags span)) body"
  using assms
proof (induction "length body" arbitrary: body st rule: less_induct)
  case less
  show ?case
  proof (cases "body = []")
    case True
    then show ?thesis using less.prems by (subst append_span.simps) simp
  next
    case body: False
    have put: "\<exists>st'. append_span limit span (drop (length piece) body) (put_piece limit span piece st0) = Some st' \<and> chunk_ok limit st'
        \<and> chunk_bytes st' = chunk_bytes st0 @ map (\<lambda>c. (c, sp_code span, sp_tags span)) body"
      if "chunk_ok limit st0" "prefix piece body" "piece \<noteq> []" "ch_units st0 + literalUTF16Len piece \<le> max limit 2" for st0 piece
    proof -
      have ok: "chunk_ok limit (put_piece limit span piece st0)
          \<and> chunk_bytes (put_piece limit span piece st0) = chunk_bytes st0 @ map (\<lambda>c. (c, sp_code span, sp_tags span)) piece"
        using put_ok [OF that(1) less.prems(2), of "[span\<lparr>sp_body := piece\<rparr>]"] that by (simp add: put_piece_def)
      have "length (drop (length piece) body) < length body" using that(2,3) body by auto
      from less.hyps [OF this, of "put_piece limit span piece st0"] ok less.prems(2) that(2)
      show ?thesis by (auto simp: prefix_def simp flip: map_append)
    qed
    have clip: "\<exists>st'. append_span limit span body st0 = Some st' \<and> chunk_ok limit st'
        \<and> chunk_bytes st' = chunk_bytes st0 @ map (\<lambda>c. (c, sp_code span, sp_tags span)) body"
      if ok: "chunk_ok limit st0" and ne: "clipUnits body (limit - ch_units st0) \<noteq> []" for st0
    proof -
      have "ch_units st0 + literalUTF16Len (clipUnits body (limit - ch_units st0)) \<le> max limit 2"
        using ok clip_piece [of body "limit - ch_units st0"] by (force simp: chunk_ok_def)
      then show ?thesis
        using put [OF ok _ ne] clip_piece [of body "limit - ch_units st0"] ne body by (subst append_span.simps) simp
    qed
    show ?thesis
    proof (cases "clipUnits body (limit - ch_units st) = []")
      case False
      then show ?thesis using clip [OF less.prems(1)] by blast
    next
      case True
      note f = flush_chunk_ok [OF less.prems]
      show ?thesis
      proof (cases "limit = 1")
        case one: True
        let ?piece = "take (snd (decode_rune body)) body"
        have "literalUTF16Len ?piece \<le> 2" using body by (rule first_rune_units)
        then show ?thesis
          using put [of "flush_chunk st" ?piece] f True one body decode_rune_size [OF body]
          by (subst append_span.simps) (simp add: take_is_prefix)
      next
        case False
        then have "2 \<le> limit" using less.prems(2) by simp
        then have "clipUnits body (limit - ch_units (flush_chunk st)) \<noteq> []"
          using clip_piece [of body limit] body f by force
        then have "\<exists>st'. append_span limit span body (flush_chunk st) = Some st' \<and> chunk_ok limit st'
            \<and> chunk_bytes st' = chunk_bytes st @ map (\<lambda>c. (c, sp_code span, sp_tags span)) body"
          using clip [of "flush_chunk st"] f by simp
        then show ?thesis using True False body by (subst append_span.simps) simp
      qed
    qed
  qed
qed

lemma append_spans_ok:
  assumes "chunk_ok limit st" and "1 \<le> limit"
  shows "\<exists>st'. append_spans limit spans st = Some st' \<and> chunk_ok limit st' \<and> chunk_bytes st' = chunk_bytes st @ styled_bytes spans"
  using assms(1)
proof (induction spans arbitrary: st)
  case (Cons span spans)
  obtain st1 where st1: "append_span limit span (sp_body span) st = Some st1" "chunk_ok limit st1"
    "chunk_bytes st1 = chunk_bytes st @ map (\<lambda>c. (c, sp_code span, sp_tags span)) (sp_body span)"
    using append_span_ok [OF Cons.prems assms(2)] by blast
  then show ?case using Cons.IH [OF st1(2)] by (auto simp: styled_bytes_def)
qed simp

lemma append_line_ok:
  assumes "chunk_ok limit st" and "1 \<le> limit" and "filled line" and "units = run_units line"
  shows "\<exists>st'. append_line limit line units st = Some st' \<and> chunk_ok limit st' \<and> chunk_bytes st' = chunk_bytes st @ styled_bytes line"
proof (cases "limit < units")
  case True
  then show ?thesis
    using append_spans_ok [of limit "flush_chunk st" line] flush_chunk_ok [OF assms(1,2)] assms(2) by (simp add: append_line_def)
next
  case False
  let ?st = "if limit < ch_units st + units then flush_chunk st else st"
  have "chunk_ok limit ?st" "chunk_bytes ?st = chunk_bytes st" "ch_units ?st + run_units line \<le> max limit 2"
    using flush_chunk_ok [OF assms(1,2)] assms False by auto
  from put_ok [OF this(1) assms(2,3) this(3) refl] this(2) show ?thesis
    using False assms(4) by (auto simp: append_line_def Let_def)
qed

definition line_ok :: "int \<Rightarrow> inlineSpan list \<times> int \<times> chunker \<Rightarrow> bool" where
  "line_ok limit s \<longleftrightarrow> (case s of (line, units, st) \<Rightarrow> filled line \<and> units = run_units line \<and> chunk_ok limit st)"

definition line_bytes :: "inlineSpan list \<times> int \<times> chunker \<Rightarrow> (char \<times> bool \<times> inlineTag list) list" where
  "line_bytes s = (case s of (line, units, st) \<Rightarrow> chunk_bytes st @ styled_bytes line)"

lemma span_lines_ok:
  assumes "line_ok limit s" and "1 \<le> limit" and "bodies \<noteq> []"
  shows "\<exists>s'. span_lines limit span bodies s = Some s' \<and> line_ok limit s'
    \<and> line_bytes s' = line_bytes s @ map (\<lambda>c. (c, sp_code span, sp_tags span)) (join_lines bodies)"
  using assms(1,3)
proof (induction bodies arbitrary: s)
  case (Cons body bodies)
  obtain line units st where s: "s = (line, units, st)" by (cases s)
  define line' where "line' = (if body \<noteq> [] then line @ [span\<lparr>sp_body := body\<rparr>] else line)"
  define units' where "units' = (if body \<noteq> [] then units + literalUTF16Len body else units)"
  have step: "span_lines limit span (body # bodies) s = (if bodies = [] then Some (line', units', st)
      else do { st \<leftarrow> append_line limit line' units' st; st \<leftarrow> append_span limit span [newline] st; span_lines limit span bodies ([], 0, st) })"
    by (simp add: s line'_def units'_def)
  have line: "filled line'" "units' = run_units line'" "chunk_ok limit st"
    "styled_bytes line' = styled_bytes line @ map (\<lambda>c. (c, sp_code span, sp_tags span)) body"
    using Cons.prems(1) by (simp_all add: s line_ok_def line'_def units'_def)
  show ?case
  proof (cases "bodies = []")
    case True
    then show ?thesis using step line by (simp add: line_ok_def line_bytes_def s)
  next
    case False
    obtain st1 where st1: "append_line limit line' units' st = Some st1" "chunk_ok limit st1"
      "chunk_bytes st1 = chunk_bytes st @ styled_bytes line'" using append_line_ok [OF line(3) assms(2) line(1,2)] by blast
    obtain st2 where st2: "append_span limit span [newline] st1 = Some st2" "chunk_ok limit st2"
      "chunk_bytes st2 = chunk_bytes st1 @ map (\<lambda>c. (c, sp_code span, sp_tags span)) [newline]"
      using append_span_ok [OF st1(2) assms(2)] by blast
    have "line_ok limit ([], 0, st2)" using st2(2) by (simp add: line_ok_def)
    from Cons.IH [OF this False] show ?thesis
      using step False st1 st2 line(4) by (auto simp: line_bytes_def s join_Cons)
  qed
qed simp

lemma paragraph_lines_ok:
  assumes "line_ok limit s" and "1 \<le> limit"
  shows "\<exists>s'. paragraph_lines limit spans s = Some s' \<and> line_ok limit s' \<and> line_bytes s' = line_bytes s @ styled_bytes spans"
  using assms(1)
proof (induction spans arbitrary: s)
  case (Cons span spans)
  obtain s1 where s1: "span_lines limit span (split_lines (sp_body span)) s = Some s1" "line_ok limit s1"
    "line_bytes s1 = line_bytes s @ map (\<lambda>c. (c, sp_code span, sp_tags span)) (sp_body span)"
    using span_lines_ok [OF Cons.prems assms(2), of "split_lines (sp_body span)" span] by auto
  then show ?case using Cons.IH [OF s1(2)] by (auto simp: styled_bytes_def)
qed simp

lemma paragraph_runs_ok:
  assumes "1 \<le> limit"
  shows "\<exists>runs. paragraph_runs limit spans = Some runs \<and> styled_bytes (concat runs) = styled_bytes spans
    \<and> list_all (\<lambda>run. run \<noteq> [] \<and> filled run \<and> run_units run \<le> max limit 2) runs"
proof -
  have start: "line_ok limit ([], 0, \<lparr>ch_runs = [], ch_chunk = [], ch_units = 0\<rparr>)"
    using assms by (simp add: line_ok_def chunk_ok_def)
  obtain line units st where s: "paragraph_lines limit spans ([], 0, \<lparr>ch_runs = [], ch_chunk = [], ch_units = 0\<rparr>) = Some (line, units, st)"
    "filled line" "units = run_units line" "chunk_ok limit st" "chunk_bytes st @ styled_bytes line = styled_bytes spans"
    using paragraph_lines_ok [OF start assms, of spans] by (auto simp: line_ok_def line_bytes_def chunk_bytes_def)
  obtain st1 where st1: "append_line limit line units st = Some st1" "chunk_ok limit st1"
    "chunk_bytes st1 = styled_bytes spans" using append_line_ok [OF s(4) assms s(2,3)] s(5) by auto
  note f = flush_chunk_ok [OF st1(2) assms]
  then have "styled_bytes (concat (ch_runs (flush_chunk st1))) = styled_bytes spans"
    using st1(3) by (metis append_Nil2 chunk_bytes_def styled_bytes_simps(1,2))
  then show ?thesis using s(1) st1(1) f by (simp add: paragraph_runs_def chunk_ok_def)
qed

text \<open>C28: Cutting a paragraph into runs always returns and loses nothing: the runs, in order, carry exactly the bytes of the
  payload, each with its style; no run is empty; and no run exceeds the limit, save that a limit of one unit admits a
  rune of two.\<close>

theorem paragraph_runs_partition:
  assumes "1 \<le> limit"
  shows "\<exists>runs. paragraph_runs limit spans = Some runs \<and> styled_bytes (concat runs) = styled_bytes spans
    \<and> list_all (\<lambda>run. run \<noteq> [] \<and> filled run \<and> run_units run \<le> max limit 2) runs"
  using assms by (rule paragraph_runs_ok)

theorem paragraph_runs_partition_witness:
  "\<exists>runs. paragraph_runs 2 [\<lparr>sp_body = ''abc'', sp_tags = [bold_tag], sp_code = False\<rparr>] = Some runs
    \<and> map fst (styled_bytes (concat runs)) = ''abc''"
proof -
  have "(1 :: int) \<le> 2" by simp
  from paragraph_runs_partition [OF this, of "[\<lparr>sp_body = ''abc'', sp_tags = [bold_tag], sp_code = False\<rparr>]"]
  show ?thesis by (auto simp: styled_bytes_def)
qed

section \<open>Writing runs\<close>

lemma filled_runes: "filled [span] \<Longrightarrow> p \<in> set (runes (sp_body span)) \<Longrightarrow> snd p \<noteq> []"
  by (rule runes_pieces)

lemma literalFence_solid: "literalFence s marker \<noteq> []"
  by (simp add: literalFence_def Let_def)

lemma escape_text_solid: "s \<noteq> [] \<Longrightarrow> escape_text s \<noteq> []"
  by (cases s) (auto simp: escape_text_def)

lemma glyph_solid: "sp_body span \<noteq> [] \<Longrightarrow> serializeInlineGlyph span \<noteq> []"
  using escape_text_solid [of "sp_body span"] literalFence_solid by (auto simp: serializeInlineGlyph_def Let_def)

lemma glyphs_solid: "p \<in> set (glyphs span) \<Longrightarrow> pt_source p \<noteq> []"
proof -
  assume "p \<in> set (glyphs span)"
  then obtain q where "q \<in> set (runes (sp_body span))" "pt_source p = serializeInlineGlyph (span\<lparr>sp_body := snd q\<rparr>)"
    by (auto simp: glyphs_def written_def)
  then show ?thesis using glyph_solid [of "span\<lparr>sp_body := snd q\<rparr>"] runes_pieces by simp
qed

lemma visit_delimiter_length: "length (snd (visit_delimiter count offset d st)) = length (snd st)"
proof -
  have "length (fold (mark_boundary count) es cuts) = length cuts" for es cuts
    by (induction es arbitrary: cuts) (simp_all add: mark_boundary_def)
  then show ?thesis by (simp add: visit_delimiter_def Let_def)
qed

lemma mark_before_length: "length (snd (mark_before count finish st)) = length (snd st)"
proof -
  have "length (fold (mark_boundary count) es cuts) = length cuts" for es cuts
    by (induction es arbitrary: cuts) (simp_all add: mark_boundary_def)
  then show ?thesis by (simp add: mark_before_def)
qed

lemma visit_length:
  "length (snd (visit_tokens count ts offset st)) = length (snd st)"
  "length (snd (visit_token count t offset st)) = length (snd st)"
  by (induction count ts offset st and count t offset st rule: visit_tokens_visit_token.induct)
     (simp_all add: visit_delimiter_length mark_before_length)

definition single :: "part \<Rightarrow> bool" where
  "single p \<longleftrightarrow> pt_source p = [] \<longrightarrow> length (pt_spans p) = 1"

definition solid_parts :: "part list \<Rightarrow> bool" where
  "solid_parts parts \<longleftrightarrow> (\<forall>p \<in> set parts. pt_source p = [] \<longrightarrow> pt_spans p \<noteq> [])"

lemma cut_all: "(\<And>i. is_cut i) \<Longrightarrow> open_run \<noteq> [] \<Longrightarrow> 0 < i \<Longrightarrow> cut_spans is_cut i open_run spans = open_run # map (\<lambda>s. [s]) spans"
  by (induction spans arbitrary: i open_run) auto

lemma cut_nonempty: "open_run \<noteq> [] \<Longrightarrow> run \<in> set (cut_spans is_cut i open_run spans) \<Longrightarrow> run \<noteq> []"
  by (induction is_cut i open_run spans arbitrary: run rule: cut_spans.induct) (auto split: if_splits)

text \<open>From the third pass on every region is cut into single spans, and a single span is written.\<close>

lemma serialize_pass_solid:
  assumes "serialize_pass wide_punct limit pass parts = Some (parts', pending)" and "solid_parts parts"
  shows "solid_parts parts' \<and> (\<not> pending \<longrightarrow> (\<forall>p \<in> set parts'. pt_source p \<noteq> []))
    \<and> (2 \<le> pass \<longrightarrow> (\<forall>p \<in> set parts'. single p)) \<and> ((\<forall>p \<in> set parts. single p) \<longrightarrow> \<not> pending)"
  using assms
proof (induction parts arbitrary: parts' pending)
  case Nil
  then show ?case by (simp add: solid_parts_def)
next
  case (Cons p parts)
  obtain later more where later: "serialize_pass wide_punct limit pass parts = Some (later, more)"
    using Cons.prems(1) by (auto split: if_splits simp: bind_eq_Some_conv)
  have solid: "solid_parts parts" using Cons.prems(2) by (simp add: solid_parts_def)
  note IH = Cons.IH [OF later solid]
  show ?case
  proof (cases "pt_source p = []")
    case False
    then have "parts' = p # later" "pending = more" using Cons.prems(1) later by auto
    then show ?thesis using IH False by (auto simp: solid_parts_def single_def)
  next
    case True
    then obtain s ss where spans: "pt_spans p = s # ss" using Cons.prems(2) by (cases "pt_spans p") (auto simp: solid_parts_def)
    obtain source cuts where c: "chooseInlineSerialization wide_punct (pt_spans p) limit = Some (source, cuts)"
      using Cons.prems(1) True by (auto simp: bind_eq_Some_conv)
    let ?runs = "cut_spans (\<lambda>i. cuts ! i \<or> 2 \<le> pass) 0 [] (pt_spans p)"
    have runs: "?runs = cut_spans (\<lambda>i. cuts ! i \<or> 2 \<le> pass) 1 [s] ss" by (simp add: spans)
    have new: "parts' = (if source \<noteq> [] then [written source] else if length (pt_spans p) = 1 then glyphs (hd (pt_spans p))
          else map (\<lambda>run. \<lparr>pt_spans = run, pt_source = []\<rparr>) ?runs) @ later"
      "pending = (if source \<noteq> [] \<or> length (pt_spans p) = 1 then more else True)"
      using Cons.prems(1) True c later by (auto split: if_splits)
    have nonempty: "[] \<notin> set ?runs" using cut_nonempty [of "[s]" "[]"] unfolding runs by blast
    have ones: "length run = 1" if "run \<in> set ?runs" "2 \<le> pass" for run
      using that cut_all [of "\<lambda>i. cuts ! i \<or> 2 \<le> pass" "[s]" 1 ss] unfolding runs by auto
    show ?thesis
    proof (cases "source \<noteq> [] \<or> length (pt_spans p) = 1")
      case True
      then have "\<forall>q \<in> set parts'. q \<in> set later \<or> pt_source q \<noteq> []" "pending = more"
        using new glyphs_solid by (auto simp: written_def split: if_splits)
      then show ?thesis using IH by (auto simp: solid_parts_def single_def)
    next
      case False
      then have "\<not> single p" using \<open>pt_source p = []\<close> by (simp add: single_def)
      then show ?thesis using new False IH nonempty ones by (auto simp: solid_parts_def single_def)
    qed
  qed
qed

lemma serialize_passes_step:
  assumes "serialize_passes wide_punct limit (pass # passes) parts = Some finished" and "solid_parts parts"
  obtains "\<forall>p \<in> set finished. pt_source p \<noteq> []"
  | later where "serialize_passes wide_punct limit passes later = Some finished" and "solid_parts later"
    and "2 \<le> pass \<longrightarrow> (\<forall>p \<in> set later. single p)" and "\<not> (\<forall>p \<in> set parts. single p)"
proof -
  obtain later pending where step: "serialize_pass wide_punct limit pass parts = Some (later, pending)"
    "if \<not> pending then finished = later else serialize_passes wide_punct limit passes later = Some finished"
    using assms(1) by (auto simp: bind_eq_Some_conv split: if_splits)
  then show ?thesis using serialize_pass_solid [OF step(1) assms(2)] that by (cases pending) auto
qed

lemma serialized_solid:
  assumes "serializeInlineSpans wide_punct spans limit = Some sources" and "spans \<noteq> []"
  shows "list_all (\<lambda>source. source \<noteq> []) sources"
proof -
  let ?start = "[\<lparr>pt_spans = spans, pt_source = []\<rparr>]"
  have start: "solid_parts ?start" using assms(2) by (simp add: solid_parts_def)
  obtain parts where parts: "serialize_passes wide_punct limit [0, 1, 2, 3] ?start = Some parts" "sources = map pt_source parts"
    using assms(1) by (auto simp: serializeInlineSpans_def upt_rec numeral_eq_Suc simp del: serialize_passes.simps)
  have "\<forall>p \<in> set parts. pt_source p \<noteq> []"
  proof (cases rule: serialize_passes_step [OF parts(1) start])
    case (2 ps1)
    show ?thesis
    proof (cases rule: serialize_passes_step [OF 2(1,2)])
      case (2 ps2)
      show ?thesis
      proof (cases rule: serialize_passes_step [OF 2(1,2)])
        case (2 ps3)
        show ?thesis by (cases rule: serialize_passes_step [OF 2(1,2)]) (use 2(3) in auto)
      qed
    qed
  qed
  then show ?thesis using parts(2) by (auto simp: list_all_iff)
qed

text \<open>A run is always written completely: when writing returns, no region of it is left without source. After two
  passes that cut at failed markers, the third cuts every unwritten region into single spans, and the fourth
  writes each of them, rune by rune if it must.\<close>

theorem serializeInlineSpans_complete:
  assumes "serializeInlineSpans wide_punct spans limit = Some sources" and "spans \<noteq> []"
  shows "list_all (\<lambda>source. source \<noteq> []) sources"
  using assms by (rule serialized_solid)

lemma sample_serialized:
  "serializeInlineSpans (\<lambda>_. False) [\<lparr>sp_body = ''a'', sp_tags = [], sp_code = False\<rparr>] 10 = Some [''a'']"
proof -
  let ?span = "\<lparr>sp_body = ''a'', sp_tags = [], sp_code = False\<rparr>"
  have enc: "encodeInlineSpans [?span] bold italic = (''a'', [])" for bold italic
    by (simp add: encodeInlineSpans_def write_span_def Let_def write_text_def sync_markers_def escape_text_def inlinePunctuation_def
        trim_left_func_def ascii_trim_right runes_ascii is_space_def)
  have loop: "parse_loop (\<lambda>_. False) pl ''a'' [] 0 0 [] = [inlineText ''a'']" for pl
    by (subst parse_loop.simps, subst parse_loop.simps) (simp add: flush_text_def substr_def)
  have parse: "parseInline (\<lambda>_. False) ''a'' True = [inlineText ''a'']"
    by (simp add: parseInline_def inlineLinks_def loop matchInlineDelimiters_def match_token_def)
  have spans: "rendered_spans [inlineText ''a''] = [?span]"
    by (simp add: rendered_spans_def new_renderer_def render_text_def appendInlineSpan_def add_span_def canonical_tags_def)
  have same: "inlineSpansMismatch [?span] [?span] = - 1"
    by (subst inlineSpansMismatch_def, subst mismatch_loop.simps, subst mismatch_loop.simps)
       (simp add: decode_rune_def next_spans_def next_body_def is_space_def)
  have conv: "ConvertMarkdown (\<lambda>_. False) ''a'' = Some ''a''"
    by (rule ConvertMarkdown_plain) (simp add: plainASCIIText_def)
  have protect: "protectInlineWhitespace ''a'' = ''a''"
    by (simp add: protectInlineWhitespace_def trim_space_solid is_space_def newline_def)
  have inline: "stays_inline (\<lambda>_. False) ''a'' ''a'' ''a''"
    by (simp add: stays_inline_def convertInline_def inline_marks_def escapeHTML_def escape_char_def)
  have len: "renderedUTF16Len ''a'' \<le> 10"
    using renderedUTF16Len_escape [of "[]" "''a''"] by (simp add: escapeHTML_def escape_char_def ascii_units)
  have "chooseInlineSerialization (\<lambda>_. False) [?span] 10 = Some (''a'', [])"
    by (simp add: chooseInlineSerialization_def marker_spellings_def enc parse spans same protect conv inline len)
  then show ?thesis by (simp add: serializeInlineSpans_def upt_rec written_def)
qed

theorem serializeInlineSpans_complete_witness: "list_all (\<lambda>source. source \<noteq> []) [''a'']"
  using serializeInlineSpans_complete [OF sample_serialized] by simp

end
