(* ===== verification/SplitProps.thy ===== *)
theory SplitProps
  imports SpansProps MarkdownSplit
begin

text \<open>
  Properties of splitting: every message of a split document converts within the limit, or stands for a single
  glyph that cannot be cut.
\<close>

section \<open>Messages within the limit\<close>

abbreviation within :: "unicode_class \<Rightarrow> int \<Rightarrow> string \<Rightarrow> bool" where
  "within wide_punct limit piece \<equiv> converts_within wide_punct limit piece = Some True"

definition one_glyph :: "string \<Rightarrow> bool" where
  "one_glyph piece \<longleftrightarrow> length (runes piece) \<le> 1
     \<or> (\<exists>span. length (runes (sp_body span)) = 1 \<and> piece = serializeInlineGlyph span)"

definition sendable :: "unicode_class \<Rightarrow> int \<Rightarrow> string \<Rightarrow> bool" where
  "sendable wide_punct limit piece \<longleftrightarrow> within wide_punct limit piece \<or> one_glyph piece"

lemma within_iff: "within wide_punct limit piece \<longleftrightarrow>
    (\<exists>html. ConvertMarkdown wide_punct piece = Some html \<and> renderedUTF16Len html \<le> limit)"
  by (auto simp: converts_within_def convertLen_rendered)

section \<open>Literal blocks and tables\<close>

lemma literal_within:
  assumes "2 \<le> limit" and "marker = replicate k c" and "3 \<le> k" and "marker_char c"
  shows "\<forall>piece \<in> set (splitLiteralBlock str marker limit). within wide_punct limit piece"
proof -
  obtain chunks where chunks: "splitLiteralBlock str marker limit = map (\<lambda>c. literalFence c marker) chunks"
    "\<forall>c \<in> set chunks. int (text_units c) \<le> limit \<or> length (runes c) = 1"
    using splitLiteralBlock_chunks [of limit str marker] assms(1) by (metis order_trans zero_le_numeral)
  have "int (text_units c) \<le> limit" if "length (runes c) = 1" for c
  proof -
    obtain p where "runes c = [p]" using \<open>length (runes c) = 1\<close> by (auto simp: length_Suc_conv)
    then show ?thesis using assms(1) rune_units_bounds(2) [of "fst p"] by (simp add: text_units_def)
  qed
  then have "literalUTF16Len c \<le> limit" if "c \<in> set chunks" for c using chunks(2) that by (auto simp: literalUTF16Len_eq)
  then show ?thesis using convertLen_literalFence [OF assms(2-4)] by (auto simp: chunks(1) converts_within_def)
qed

lemma backtick_marker: "marker_char backtick"
  by (simp add: marker_char_def)

lemma fenceMarker_shape:
  assumes "isFence trimmed"
  obtains k c where "fenceMarker trimmed = replicate k c" and "3 \<le> k" and "marker_char c"
proof -
  have "\<exists>c t. trimmed = c # c # c # t \<and> marker_char c"
    using assms by (auto simp: isFence_def has_prefix_def marker_char_def prefix_def)
  then obtain c t where t: "trimmed = c # c # c # t" "marker_char c" by blast
  have "3 \<le> length (takeWhile (\<lambda>x. x = c) trimmed)" by (simp add: t(1))
  then show ?thesis using that [of "length (takeWhile (\<lambda>x. x = c) trimmed)" c] t by (simp add: fenceMarker_def repeat_char_def)
qed

lemma table_loop_within:
  assumes "table_loop wide_punct limit head rows chunk hasRows out = Some (Some pieces)"
    and "\<forall>piece \<in> set out. within wide_punct limit piece" and "within wide_punct limit chunk"
  shows "\<forall>piece \<in> set pieces. within wide_punct limit piece"
  using assms
proof (induction rows arbitrary: chunk hasRows out)
  case (Cons row rows)
  have single: "within wide_punct limit (head @ [newline] @ row)"
    using Cons.prems(1) by (auto simp: bind_eq_Some_conv split: if_splits)
  show ?case
  proof (cases "hasRows \<and> converts_within wide_punct limit (chunk @ [newline] @ row) = Some True")
    case True
    then have "table_loop wide_punct limit head rows (chunk @ [newline] @ row) True out = Some (Some pieces)"
      using Cons.prems(1) single by simp
    then show ?thesis using Cons.IH Cons.prems(2) True by blast
  next
    case False
    then obtain out' hr where "table_loop wide_punct limit head rows (head @ [newline] @ row) hr out' = Some (Some pieces)"
      "\<forall>piece \<in> set out'. within wide_punct limit piece"
      using Cons.prems single by (cases hasRows) (auto simp: bind_eq_Some_conv split: if_splits)
    then show ?thesis using Cons.IH single by blast
  qed
qed auto

lemma splitTableBlock_within:
  assumes "splitTableBlock wide_punct lines limit = Some pieces" and "2 \<le> limit"
  shows "\<forall>piece \<in> set pieces. within wide_punct limit piece"
proof -
  note literal = literal_within [OF assms(2) refl _ backtick_marker, of 3 "literalTableText lines" wide_punct]
  obtain head_fits where head: "converts_within wide_punct limit (join_lines (take 2 lines)) = Some head_fits"
    using assms(1) by (auto simp: splitTableBlock_def bind_eq_Some_conv)
  show ?thesis
  proof (cases head_fits)
    case True
    then obtain result where r: "table_loop wide_punct limit (join_lines (take 2 lines)) (drop 2 lines) (join_lines (take 2 lines)) False []
        = Some result" using assms(1) head by (auto simp: splitTableBlock_def bind_eq_Some_conv)
    show ?thesis
    proof (cases result)
      case None
      then show ?thesis using assms(1) head True r literal by (simp add: splitTableBlock_def)
    next
      case (Some out)
      then show ?thesis
        using table_loop_within [of wide_punct limit _ _ _ _ "[]" out] assms(1) head True r by (simp add: splitTableBlock_def)
    qed
  next
    case False
    then show ?thesis using assms(1) head literal by (simp add: splitTableBlock_def)
  qed
qed

section \<open>Paragraphs and structured lines\<close>

lemma all_within_pieces: "all_within wide_punct limit pieces = Some True \<Longrightarrow> \<forall>piece \<in> set pieces. within wide_punct limit piece"
  by (induction pieces) (auto simp: bind_eq_Some_conv split: if_splits)

lemma hard_pieces_short: "limit \<le> 1 \<Longrightarrow> piece \<in> set (hardSplitUnits s limit) \<Longrightarrow> length (runes piece) \<le> 1"
proof -
  assume limit: "limit \<le> 1" and piece: "piece \<in> set (hardSplitUnits s limit)"
  obtain gs where gs: "hardSplitUnits s limit = map rune_text gs" "concat gs = runes s" "\<forall>g \<in> set gs. fits limit g \<or> g = []"
    by (rule hardSplitUnits_groups)
  then obtain g where g: "g \<in> set gs" "piece = rune_text g" using piece by auto
  have "length g \<le> 1"
  proof (cases "rune_len g \<le> limit")
    case True
    have "int (length g) \<le> rune_len g"
    proof (induction g)
      case (Cons p g)
      then show ?case using rune_units_bounds(1) [of "fst p"] by simp
    qed simp
    then show ?thesis using True limit by simp
  next
    case False
    then show ?thesis using gs(3) g(1) by (auto simp: fits_def)
  qed
  then show ?thesis using group_runes [of s gs g] gs(2) g by simp
qed

lemma structured_sendable:
  "structured_loop wide_punct limit s at_units = Some pieces \<Longrightarrow> \<forall>piece \<in> set pieces. sendable wide_punct limit piece"
proof (induction wide_punct limit s at_units rule: structured_loop.induct)
  case (1 wide_punct limit s at_units)
  obtain ok where ok: "all_within wide_punct limit (hardSplitUnits s at_units) = Some ok"
    using "1.prems" by (subst (asm) structured_loop.simps) (auto simp: bind_eq_Some_conv)
  show ?case
  proof (cases "ok \<or> at_units \<le> 1")
    case True
    then have "pieces = hardSplitUnits s at_units" using "1.prems" ok by (subst (asm) structured_loop.simps) auto
    then show ?thesis using True ok all_within_pieces hard_pieces_short by (auto simp: sendable_def one_glyph_def)
  next
    case False
    then have "structured_loop wide_punct limit s (max 1 (at_units div 2)) = Some pieces"
      using "1.prems" ok by (subst (asm) structured_loop.simps) auto
    then show ?thesis using "1.IH" [OF ok False] by blast
  qed
qed

lemma choose_within:
  assumes "choose_loop wide_punct spans limit spellings best count = Some (source, cuts)" and "source \<noteq> []"
  shows "within wide_punct limit source"
  using assms(1)
proof (induction spellings arbitrary: best count)
  case (Cons spelling spellings)
  obtain bold italic where sp: "spelling = (bold, italic)" by (cases spelling)
  obtain raw events where enc: "encodeInlineSpans spans bold italic = (raw, events)" by (cases "encodeInlineSpans spans bold italic")
  let ?mismatch = "inlineSpansMismatch spans (rendered_spans (parseInline wide_punct raw True))"
  have "(\<exists>best count. choose_loop wide_punct spans limit spellings best count = Some (source, cuts))
      \<or> (\<exists>html. ConvertMarkdown wide_punct source = Some html \<and> renderedUTF16Len html \<le> limit)"
    using Cons.prems by (auto simp: sp enc Let_def bind_eq_Some_conv split: if_splits)
  then show ?case using Cons.IH within_iff by blast
qed (use assms(2) in simp)

lemma glyph_part: "p \<in> set (glyphs span) \<Longrightarrow> one_glyph (pt_source p)"
proof -
  assume "p \<in> set (glyphs span)"
  then obtain q where q: "q \<in> set (runes (sp_body span))" "pt_source p = serializeInlineGlyph (span\<lparr>sp_body := snd q\<rparr>)"
    by (auto simp: glyphs_def written_def)
  obtain xs ys where "runes (sp_body span) = xs @ [q] @ ys" using q(1) by (metis append_Cons append_Nil split_list)
  then have "runes (snd q) = [q]" using runes_segment [of "sp_body span" xs "[q]" ys] by simp
  then show ?thesis using q(2) unfolding one_glyph_def by (intro disjI2 exI [of _ "span\<lparr>sp_body := snd q\<rparr>"]) simp
qed

definition parts_sendable :: "unicode_class \<Rightarrow> int \<Rightarrow> part list \<Rightarrow> bool" where
  "parts_sendable wide_punct limit parts \<longleftrightarrow> (\<forall>p \<in> set parts. pt_source p \<noteq> [] \<longrightarrow> sendable wide_punct limit (pt_source p))"

lemma serialize_pass_sendable:
  "serialize_pass wide_punct limit pass parts = Some (parts', pending) \<Longrightarrow> parts_sendable wide_punct limit parts
    \<Longrightarrow> parts_sendable wide_punct limit parts'"
proof (induction parts arbitrary: parts' pending)
  case (Cons p parts)
  have rest: "parts_sendable wide_punct limit parts" using Cons.prems(2) by (simp add: parts_sendable_def)
  obtain later more where later: "serialize_pass wide_punct limit pass parts = Some (later, more)"
    using Cons.prems(1) by (auto split: if_splits simp: bind_eq_Some_conv)
  note IH = Cons.IH [OF later rest]
  show ?case
  proof (cases "pt_source p = []")
    case False
    then have "parts' = p # later" using Cons.prems(1) later by auto
    then show ?thesis using IH Cons.prems(2) by (simp add: parts_sendable_def)
  next
    case True
    obtain source cuts where c: "chooseInlineSerialization wide_punct (pt_spans p) limit = Some (source, cuts)"
      using Cons.prems(1) True by (auto simp: bind_eq_Some_conv)
    have "source \<noteq> [] \<Longrightarrow> within wide_punct limit source" using choose_within c unfolding chooseInlineSerialization_def by blast
    moreover have "parts' = (if source \<noteq> [] then [written source] else if length (pt_spans p) = 1 then glyphs (hd (pt_spans p))
          else map (\<lambda>run. \<lparr>pt_spans = run, pt_source = []\<rparr>) (cut_spans (\<lambda>i. cuts ! i \<or> 2 \<le> pass) 0 [] (pt_spans p))) @ later"
      using Cons.prems(1) True c later by (auto split: if_splits)
    ultimately show ?thesis
      using IH glyph_part by (auto simp: parts_sendable_def sendable_def written_def split: if_splits)
  qed
qed (simp add: parts_sendable_def)

lemma serialize_passes_sendable:
  "serialize_passes wide_punct limit passes parts = Some parts' \<Longrightarrow> parts_sendable wide_punct limit parts
    \<Longrightarrow> parts_sendable wide_punct limit parts'"
  by (induction passes arbitrary: parts) (auto simp: bind_eq_Some_conv split: if_splits dest: serialize_pass_sendable)

lemma serialized_sendable:
  assumes "serializeInlineSpans wide_punct spans limit = Some sources" and "spans \<noteq> []"
  shows "\<forall>source \<in> set sources. source \<noteq> [] \<and> sendable wide_punct limit source"
proof -
  obtain parts where parts: "serialize_passes wide_punct limit [0..<4] [\<lparr>pt_spans = spans, pt_source = []\<rparr>] = Some parts"
    "sources = map pt_source parts" using assms(1) unfolding serializeInlineSpans_def by blast
  have "parts_sendable wide_punct limit parts"
    by (rule serialize_passes_sendable [OF parts(1)]) (simp add: parts_sendable_def)
  then show ?thesis using serialized_solid [OF assms] parts(2) by (auto simp: parts_sendable_def list_all_iff)
qed

lemma splitInlineParagraph_sendable:
  assumes "splitInlineParagraph wide_punct str limit = Some pieces" and "1 \<le> limit"
  shows "\<forall>piece \<in> set pieces. piece \<noteq> [] \<and> sendable wide_punct limit piece"
proof -
  obtain runs where runs: "paragraph_runs limit (rendered_spans (parseInline wide_punct str True)) = Some runs"
    "list_all (\<lambda>run. run \<noteq> [] \<and> filled run \<and> run_units run \<le> max limit 2) runs"
    using paragraph_runs_ok [OF assms(2), of "rendered_spans (parseInline wide_punct str True)"] by blast
  have "\<forall>piece \<in> set pieces. piece \<noteq> [] \<and> sendable wide_punct limit piece"
    if "serialize_runs wide_punct limit runs = Some pieces" "\<forall>run \<in> set runs. run \<noteq> []" for runs pieces
    using that
  proof (induction runs arbitrary: pieces)
    case (Cons run runs)
    then obtain first later where "serializeInlineSpans wide_punct run limit = Some first"
      "serialize_runs wide_punct limit runs = Some later" "pieces = first @ later" by (auto simp: bind_eq_Some_conv)
    then show ?case using Cons.IH [of later] Cons.prems(2) serialized_sendable [of wide_punct run limit first] by auto
  qed simp
  then show ?thesis using assms(1) runs by (auto simp: splitInlineParagraph_def list_all_iff)
qed

section \<open>Documents\<close>

lemma pack_loop_sendable:
  assumes "pack_loop wide_punct limit lines i out current = Some pieces" and "1 \<le> limit"
    and "\<forall>piece \<in> set out. sendable wide_punct limit piece" and "current \<noteq> [] \<longrightarrow> within wide_punct limit current"
  shows "\<forall>piece \<in> set pieces. sendable wide_punct limit piece"
  using assms
proof (induction wide_punct limit lines i out current rule: pack_loop.induct)
  case (1 wide_punct limit lines i out current)
  have flush: "\<forall>piece \<in> set (flush_lines out current). sendable wide_punct limit piece"
    using "1.prems"(3,4) by (auto simp: flush_lines_def sendable_def)
  show ?case
  proof (cases "length lines \<le> i")
    case True
    then show ?thesis using "1.prems"(1) flush by (subst (asm) pack_loop.simps) auto
  next
    case more: False
    then obtain text_fits where fit: "converts_within wide_punct limit (unit_text lines i) = Some text_fits"
      using "1.prems"(1) by (subst (asm) pack_loop.simps) (auto simp: bind_eq_Some_conv)
    note IH = "1.IH" [OF more fit]
    show ?thesis
    proof (cases text_fits)
      case False
      then obtain split where s: "split_unit wide_punct limit lines i = Some split"
        "pack_loop wide_punct limit lines (unit_end lines i) (flush_lines out current @ split) [] = Some pieces"
        using "1.prems"(1) more fit by (subst (asm) pack_loop.simps) (auto simp: bind_eq_Some_conv)
      have "\<forall>piece \<in> set split. sendable wide_punct limit piece"
        using s(1) splitInlineParagraph_sendable [of wide_punct _ limit split] "1.prems"(2) structured_sendable
        by (auto simp: split_unit_def splitStructuredLine_def split: if_splits)
      then show ?thesis using IH(1) [OF _ s(1,2)] False flush "1.prems"(2) by auto
    next
      case fits: True
      show ?thesis
      proof (cases "current = []")
        case True
        then have "pack_loop wide_punct limit lines (unit_end lines i) out (unit_text lines i) = Some pieces"
          using "1.prems"(1) more fit fits by (subst (asm) pack_loop.simps) simp
        then show ?thesis using IH(2) fits True fit "1.prems"(2,3) by auto
      next
        case False
        then obtain candidate_fits where cf: "converts_within wide_punct limit (current @ [newline] @ unit_text lines i) = Some candidate_fits"
          using "1.prems"(1) more fit fits by (subst (asm) pack_loop.simps) (auto simp: bind_eq_Some_conv)
        show ?thesis
        proof (cases candidate_fits)
          case True
          then have "pack_loop wide_punct limit lines (unit_end lines i) out (current @ [newline] @ unit_text lines i) = Some pieces"
            using "1.prems"(1) more fit fits False cf by (subst (asm) pack_loop.simps) simp
          then show ?thesis using IH(4) [OF _ False cf] fits True cf "1.prems"(2,3) by auto
        next
          case no: False
          then have "pack_loop wide_punct limit lines (unit_end lines i) (flush_lines out current) (unit_text lines i) = Some pieces"
            using "1.prems"(1) more fit fits False cf by (subst (asm) pack_loop.simps) simp
          then show ?thesis using IH(3) [OF _ False cf] fits no fit flush "1.prems"(2) by auto
        qed
      qed
    qed
  qed
qed

lemma oversizeBlock_sendable:
  assumes "oversizeBlock wide_punct block limit = Some pieces" and "2 \<le> limit"
  shows "\<forall>piece \<in> set pieces. sendable wide_punct limit piece"
proof -
  let ?lines = "split_lines block"
  obtain block_fits where fit: "converts_within wide_punct limit block = Some block_fits"
    using assms(1) by (auto simp: oversizeBlock_def bind_eq_Some_conv)
  consider "block_fits" | "\<not> block_fits" "1 < length ?lines \<and> isTableStart ?lines 0"
    | "\<not> block_fits" "\<not> (1 < length ?lines \<and> isTableStart ?lines 0)" "isFence (trim_space (?lines ! 0))"
    | "\<not> block_fits" "\<not> (1 < length ?lines \<and> isTableStart ?lines 0)" "\<not> isFence (trim_space (?lines ! 0))"
    by blast
  then show ?thesis
  proof cases
    case 1
    then show ?thesis using assms(1) fit by (auto simp: oversizeBlock_def sendable_def)
  next
    case 2
    then have "splitTableBlock wide_punct ?lines limit = Some pieces" using assms(1) fit by (simp add: oversizeBlock_def Let_def)
    then show ?thesis using splitTableBlock_within assms(2) by (auto simp: sendable_def)
  next
    case 3
    obtain k c where "fenceMarker (trim_space (?lines ! 0)) = replicate k c" "3 \<le> k" "marker_char c"
      using fenceMarker_shape [OF 3(3)] by blast
    from literal_within [OF assms(2) this] show ?thesis
      using assms(1) fit 3 by (auto simp: oversizeBlock_def Let_def splitFenceBlock_def sendable_def)
  next
    case 4
    then have "pack_loop wide_punct limit ?lines 0 [] [] = Some pieces"
      using assms(1) fit by (auto simp: oversizeBlock_def Let_def packLines_def)
    then show ?thesis using pack_loop_sendable [of wide_punct limit ?lines 0 "[]" "[]" pieces] assms(2) by simp
  qed
qed

definition parts_ok :: "unicode_class \<Rightarrow> int \<Rightarrow> string list \<times> string \<Rightarrow> bool" where
  "parts_ok wide_punct limit st \<longleftrightarrow> (\<forall>part \<in> set (fst st). part \<noteq> [] \<and> sendable wide_punct limit part) \<and> sendable wide_punct limit (snd st)"

lemma pack_pieces_ok:
  "pack_pieces wide_punct limit first pieces st = Some st' \<Longrightarrow> parts_ok wide_punct limit st
    \<Longrightarrow> \<forall>piece \<in> set pieces. sendable wide_punct limit piece \<Longrightarrow> parts_ok wide_punct limit st'"
proof (induction pieces arbitrary: first st)
  case (Cons piece pieces)
  obtain parts current where st: "st = (parts, current)" by (cases st)
  have open_piece: "parts_ok wide_punct limit (parts, piece)" using Cons.prems(2,3) by (simp add: st parts_ok_def)
  have close_part: "parts_ok wide_punct limit (parts @ [current], piece)" if "current \<noteq> []"
    using Cons.prems(2,3) that by (simp add: st parts_ok_def)
  have "\<exists>st1. pack_pieces wide_punct limit False pieces st1 = Some st' \<and> parts_ok wide_punct limit st1"
  proof (cases "current \<noteq> [] \<and> first")
    case True
    then obtain candidate_fits where c: "converts_within wide_punct limit (current @ [newline, newline] @ piece) = Some candidate_fits"
      using Cons.prems(1) by (auto simp: st bind_eq_Some_conv)
    then have "pack_pieces wide_punct limit False pieces
        (if candidate_fits then (parts, current @ [newline, newline] @ piece) else (parts @ [current], piece)) = Some st'"
      using Cons.prems(1) True by (simp add: st)
    moreover have "candidate_fits \<Longrightarrow> parts_ok wide_punct limit (parts, current @ [newline, newline] @ piece)"
      using Cons.prems(2) c by (simp add: st parts_ok_def sendable_def)
    ultimately show ?thesis using close_part True by (cases candidate_fits) auto
  next
    case False
    then show ?thesis using Cons.prems(1) open_piece close_part by (cases "current = []") (auto simp: st)
  qed
  then show ?case using Cons.IH Cons.prems(3) by auto
qed simp

lemma pack_blocks_ok:
  "pack_blocks wide_punct limit blocks st = Some st' \<Longrightarrow> parts_ok wide_punct limit st \<Longrightarrow> 2 \<le> limit \<Longrightarrow> parts_ok wide_punct limit st'"
proof (induction blocks arbitrary: st)
  case (Cons block blocks)
  then obtain pieces st1 where "oversizeBlock wide_punct block limit = Some pieces"
    "pack_pieces wide_punct limit True pieces st = Some st1" "pack_blocks wide_punct limit blocks st1 = Some st'"
    by (auto simp: bind_eq_Some_conv)
  then show ?case using Cons.IH Cons.prems(2,3) pack_pieces_ok oversizeBlock_sendable by blast
qed simp

text \<open>C26: Every message a document is split into is sendable: it is not empty and converts to at most the limit of UTF-16
  units, unless it stands for one glyph, which cannot be cut any further.\<close>

theorem SplitForTelegram_sendable:
  assumes "SplitForTelegram wide_punct md limit = Some parts" and "limit \<le> 0 \<or> 2 \<le> limit"
  shows "list_all (\<lambda>part. part \<noteq> [] \<and>
    ((\<exists>html. ConvertMarkdown wide_punct part = Some html \<and> renderedUTF16Len html \<le> message_limit limit) \<or> one_glyph part)) parts"
proof (cases "trim_space md = []")
  case True
  then show ?thesis using assms(1) by (simp add: SplitForTelegram_def)
next
  case False
  have limit: "2 \<le> message_limit limit" using assms(2) by (auto simp: message_limit_def MaxMessageUTF16_def)
  obtain done_parts current where st: "pack_blocks wide_punct (message_limit limit) (markdownBlocks md) ([], []) = Some (done_parts, current)"
    "parts = flush_lines done_parts current" using assms(1) False by (auto simp: SplitForTelegram_def bind_eq_Some_conv)
  have "parts_ok wide_punct (message_limit limit) ([], [])" by (simp add: parts_ok_def sendable_def one_glyph_def)
  from pack_blocks_ok [OF st(1) this limit] show ?thesis
    using st(2) by (auto simp: parts_ok_def flush_lines_def list_all_iff sendable_def within_iff)
qed

lemma sample_split:
  "SplitForTelegram (\<lambda>_. False) (''ab'' @ [newline, newline] @ ''cd'') 3 = Some [''ab'', ''cd'']"
proof -
  have lines: "split_lines (''ab'' @ [newline, newline] @ ''cd'') = [''ab'', [], ''cd'']" by (simp add: newline_def)
  have trims: "trim_space ''ab'' = ''ab''" "trim_space ''cd'' = ''cd''" "trim_space [] = []"
    by (simp_all add: trim_space_solid is_space_def)
  have whole: "trim_space (''ab'' @ [newline, newline] @ ''cd'') \<noteq> []"
    by (subst ascii_trim_space_empty) (auto simp: is_space_def newline_def)
  have blocks: "markdownBlocks (''ab'' @ [newline, newline] @ ''cd'') = [''ab'', ''cd'']"
    unfolding markdownBlocks_def lines
    by (subst blocks_loop.simps, subst blocks_loop.simps, subst blocks_loop.simps, subst blocks_loop.simps)
       (simp add: trims isFence_def has_prefix_def isTableStart_def tableDelim_def flush_block_def)
  have small: "converts_within (\<lambda>_. False) 3 ''ab'' = Some True" "converts_within (\<lambda>_. False) 3 ''cd'' = Some True"
    "converts_within (\<lambda>_. False) 3 (''ab'' @ [newline, newline] @ ''cd'') = Some False"
    by (simp_all add: converts_within_def convertLen_def plainASCIIText_def newline_def)
  then have over: "oversizeBlock (\<lambda>_. False) ''ab'' 3 = Some [''ab'']" "oversizeBlock (\<lambda>_. False) ''cd'' 3 = Some [''cd'']"
    by (simp_all add: oversizeBlock_def Let_def)
  show ?thesis
    using whole small(3) blocks by (simp add: SplitForTelegram_def message_limit_def over flush_lines_def)
qed

theorem SplitForTelegram_sendable_witness:
  "list_all (\<lambda>part. (\<exists>html. ConvertMarkdown (\<lambda>_. False) part = Some html \<and> renderedUTF16Len html \<le> 3) \<or> one_glyph part) [''ab'', ''cd'']"
  using SplitForTelegram_sendable [OF sample_split] by (simp add: message_limit_def)

section \<open>Clipping\<close>

lemma bisect_clip_within:
  "bisect_clip wide_punct limit s lo hi = Some r \<Longrightarrow> lo = 0 \<or> within wide_punct limit (clipUnits s lo @ clip_mark)
    \<Longrightarrow> r = 0 \<or> within wide_punct limit (clipUnits s r @ clip_mark)"
proof (induction wide_punct limit s lo hi rule: bisect_clip.induct)
  case (1 wide_punct limit s lo hi)
  show ?case
  proof (cases "lo < hi")
    case False
    then show ?thesis using "1.prems" by (subst (asm) bisect_clip.simps) auto
  next
    case True
    obtain ok where ok: "converts_within wide_punct limit (clipUnits s ((lo + hi + 1) div 2) @ clip_mark) = Some ok"
      using "1.prems"(1) True by (subst (asm) bisect_clip.simps) (auto simp: bind_eq_Some_conv)
    show ?thesis
    proof (cases ok)
      case True
      then have "bisect_clip wide_punct limit s ((lo + hi + 1) div 2) hi = Some r"
        using "1.prems"(1) \<open>lo < hi\<close> ok by (subst (asm) bisect_clip.simps) simp
      then show ?thesis using "1.IH"(1) [OF \<open>lo < hi\<close> ok] True ok by simp
    next
      case False
      then have "bisect_clip wide_punct limit s lo ((lo + hi + 1) div 2 - 1) = Some r"
        using "1.prems"(1) \<open>lo < hi\<close> ok by (subst (asm) bisect_clip.simps) simp
      then show ?thesis using "1.IH"(2) [OF \<open>lo < hi\<close> ok False _ "1.prems"(2)] by simp
    qed
  qed
qed

lemma convert_clip_mark: "ConvertMarkdown wide_punct clip_mark = Some clip_mark"
proof -
  let ?dots = "[CHR 0xE2, CHR 0x80, CHR 0xA6]"
  have lines: "split_lines clip_mark = [[], ?dots]" by (simp add: clip_mark_def newline_def)
  have rune: "decode_rune ?dots = (8230, 3)" by (simp add: decode_rune_def second_ok_def continuation_def)
  then have runes: "runes ?dots = [(8230, ?dots)]" by (simp add: runes_nonempty)
  have last: "decode_last_rune ?dots = (8230, 3)"
    using rune by (simp add: decode_last_rune_def last_start_def rune_start_def continuation_def nth_Cons')
  have trim: "trim_space ?dots = ?dots" "trim_space [] = []"
    by (simp_all add: trim_space_def trim_left_func_def runes is_space_def trim_right_func.simps last)
  have first: "collectMarkdownBlock [[], ?dots] 0 = \<lparr>block_kind = markdownBlank, block_end = 1, block_body = []\<rparr>"
    by (simp add: collectMarkdownBlock_def trim)
  have plain: "isFence ?dots = False" "isTableStart [[], ?dots] 1 = False" "headingRe ?dots = None" "ruleRe ?dots = False"
    "listItemRe ?dots = None" "has_prefix ?dots ''>'' = False"
    by (simp_all add: isFence_def isTableStart_def headingRe_def ruleRe_def listItemRe_def item_marker_def has_prefix_def
        inlineLinkSpace_def is_digit_def)
  have "paragraphEnd [[], ?dots] 1 = 2" by (simp add: paragraphEnd_def paragraph_loop.simps)
  then have second: "collectMarkdownBlock [[], ?dots] 1 = \<lparr>block_kind = markdownParagraph, block_end = 2, block_body = []\<rparr>"
    using plain by (simp add: collectMarkdownBlock_def trim Let_def)
  have "convertInline wide_punct ?dots = ?dots"
    by (simp add: convertInline_def inline_marks_def escapeHTML_def escape_char_def)
  then show ?thesis
    unfolding ConvertMarkdown_def lines
    by (subst convert_loop.simps, subst convert_loop.simps, subst convert_loop.simps)
       (simp add: first second [simplified] convert_block_def block_lines_def clip_mark_def)
qed

lemma rendered_clip_mark: "renderedUTF16Len clip_mark = 2"
proof -
  have rune: "decode_rune [CHR 0xE2, CHR 0x80, CHR 0xA6] = (8230, 3)" by (simp add: decode_rune_def second_ok_def continuation_def)
  then have "runes [CHR 0xE2, CHR 0x80, CHR 0xA6] = [(8230, [CHR 0xE2, CHR 0x80, CHR 0xA6])]" by (simp add: runes_nonempty)
  then have "runes clip_mark = [(10, [newline]), (8230, [CHR 0xE2, CHR 0x80, CHR 0xA6])]"
    using runes_ascii [of newline "[CHR 0xE2, CHR 0x80, CHR 0xA6]"] by (simp add: clip_mark_def)
  then have "text_units clip_mark = 2" by (simp add: text_units_def rune_units_def)
  moreover have "escapeHTML clip_mark = clip_mark" by (simp add: escapeHTML_def clip_mark_def escape_char_def newline_def)
  ultimately show ?thesis using renderedUTF16Len_escape [of "[]" clip_mark] by simp
qed

text \<open>A clipped preview fits: what clipping returns converts to at most the limit, and it is either the text itself or a
  prefix of it that ends at a rune boundary, with the mark of the cut.\<close>

theorem ClipConvertible_fits:
  assumes "ClipConvertible wide_punct s limit = Some r" and "limit \<le> 0 \<or> 2 \<le> limit"
  shows "(\<exists>html. ConvertMarkdown wide_punct r = Some html \<and> renderedUTF16Len html \<le> message_limit limit)
    \<and> (r = s \<or> (\<exists>units. r = clipUnits s units @ clip_mark))"
proof -
  have limit: "2 \<le> message_limit limit" using assms(2) by (auto simp: message_limit_def MaxMessageUTF16_def)
  obtain ok where ok: "converts_within wide_punct (message_limit limit) s = Some ok"
    using assms(1) by (auto simp: ClipConvertible_def bind_eq_Some_conv)
  show ?thesis
  proof (cases ok)
    case True
    then show ?thesis using assms(1) ok by (auto simp: ClipConvertible_def within_iff)
  next
    case False
    then obtain lo where lo: "bisect_clip wide_punct (message_limit limit) s 0 (utf16Len s) = Some lo" "r = clipUnits s lo @ clip_mark"
      using assms(1) ok by (auto simp: ClipConvertible_def bind_eq_Some_conv)
    have "within wide_punct (message_limit limit) clip_mark"
      using limit convert_clip_mark [of wide_punct] rendered_clip_mark by (auto simp: within_iff)
    then have "within wide_punct (message_limit limit) r"
      using bisect_clip_within [OF lo(1)] lo(2) by (auto simp: clipUnits_def)
    then show ?thesis using lo(2) within_iff by blast
  qed
qed

theorem ClipConvertible_fits_witness:
  "\<exists>html. ConvertMarkdown (\<lambda>_. False) (''ab'') = Some html \<and> renderedUTF16Len html \<le> 3"
proof -
  have "ClipConvertible (\<lambda>_. False) ''ab'' 3 = Some ''ab''"
    by (simp add: ClipConvertible_def message_limit_def converts_within_def convertLen_def plainASCIIText_def)
  from ClipConvertible_fits [OF this] show ?thesis by (simp add: message_limit_def)
qed

end
