(* ===== verification/MarkdownPreview.thy ===== *)
theory MarkdownPreview
  imports MarkdownSplit
begin

text \<open>
  Live previews (\<open>previewInline\<close> of \<open>markdown_inline.go\<close>; \<open>TailForTelegram\<close> and its helpers of \<open>markdown.go\<close>): the most
  recent part of a growing document, made convertible within a limit. The walks over blocks are partial, since a
  quote block may end where it starts.
\<close>

section \<open>Unfinished inline markup\<close>

fun pending_opener :: "inlineToken \<Rightarrow> bool" where
  "pending_opener (inlineDelimiter d) \<longleftrightarrow> 0 < dl_remaining d \<and> dl_previewOpen d"
| "pending_opener (inlineCode raw body closed previewOpen) \<longleftrightarrow> \<not> closed \<and> body \<noteq> [] \<and> previewOpen"
| "pending_opener _ \<longleftrightarrow> False"

definition preview_delimiter :: "inlineToken list \<Rightarrow> delimiter \<Rightarrow> string" where
  "preview_delimiter tokens d =
     concat (map (\<lambda>m. let opener = the_delimiter (tokens ! im_open m)
                      in if dl_remaining opener = 0 \<or> \<not> dl_previewOpen opener then take (im_width m) (dl_raw d) else [])
       (dl_closes d))
     @ (if 0 < dl_remaining d \<and> dl_previewOpen d then []
        else take (dl_remaining d) (dl_raw d) @ concat (map (\<lambda>width. take width (dl_raw d)) (rev (dl_opens d))))"

text \<open>The closer of an unfinished code span; trailing backticks of the body may be part of it already.\<close>

definition preview_code :: "string \<Rightarrow> string \<Rightarrow> string" where
  "preview_code raw body =
     (let width = inlineRun raw 0; trailing = length (takeWhile (\<lambda>c. c = backtick) (rev body))
      in if 0 < trailing \<and> trailing < width then take (width - trailing) raw
         else (if 0 < trailing then '' '' else []) @ take width raw)"

fun preview_token :: "inlineToken list \<Rightarrow> inlineToken \<Rightarrow> string" where
  "preview_token tokens (inlineDelimiter d) = preview_delimiter tokens d"
| "preview_token tokens (inlineCode raw body closed previewOpen) =
     raw @ (if \<not> closed \<and> body \<noteq> [] \<and> previewOpen then preview_code raw body else [])"
| "preview_token tokens t = token_raw t"

definition previewInline :: "unicode_class \<Rightarrow> string \<Rightarrow> string" where
  "previewInline wide_punct line =
     (let tokens = parseInline wide_punct line True
      in if \<not> (\<exists>c \<in> set line. c \<in> {backtick, CHR ''*'', CHR ''_'', CHR ''~''}) \<or> \<not> list_ex pending_opener tokens
         then line else concat (map (preview_token tokens) tokens))"

section \<open>Literal previews\<close>

definition runs_of_markers :: "string \<Rightarrow> nat \<times> nat" where
  "runs_of_markers s = marker_runs (runes s) 0 0 0 0"

definition preview_fence :: "string \<Rightarrow> string" where
  "preview_fence s =
     (let (backticks, tildes) = runs_of_markers s
      in if tildes < backticks then repeat_char (CHR ''~'') (max 3 (tildes + 1))
         else repeat_char backtick (max 3 (backticks + 1)))"

definition preview_room :: "int \<Rightarrow> string \<Rightarrow> int" where
  "preview_room limit s = limit - 2 * int (length (preview_fence s)) - 2"

partial_function (option) literal_preview_loop :: "int \<Rightarrow> string \<Rightarrow> string option" where
  "literal_preview_loop limit s =
     (if preview_room limit s < 0 then literal_preview_loop limit (drop (previewTailStart s (limit div 3)) s)
      else Some (preview_fence s @ [newline] @ drop (previewTailStart s (preview_room limit s)) s @ [newline] @ preview_fence s))"

definition literalPreview :: "string \<Rightarrow> int \<Rightarrow> string option" where
  "literalPreview s limit =
     (if limit < 8 then Some (drop (previewTailStart s (min limit 1)) s) else literal_preview_loop limit s)"

section \<open>Blocks of a growing document\<close>

text \<open>Where the last block that is not blank starts, and that block.\<close>

partial_function (option) last_block :: "string list \<Rightarrow> nat \<Rightarrow> (nat \<times> markdownBlock) option \<Rightarrow> (nat \<times> markdownBlock) option option" where
  "last_block lines i found =
     (if length lines \<le> i then Some found
      else last_block lines (block_end (collectMarkdownBlock lines i))
             (if block_kind (collectMarkdownBlock lines i) \<noteq> markdownBlank then Some (i, collectMarkdownBlock lines i) else found))"

definition newlines :: "int \<Rightarrow> string" where
  "newlines n = repeat_char newline (nat n)"

partial_function (option) previewLiteralTail :: "string list \<Rightarrow> int \<Rightarrow> string option" where
  "previewLiteralTail lines limit =
     (if limit \<le> 0 then Some []
      else Option.bind (last_block lines 0 None) (\<lambda>found.
        case found of
          None \<Rightarrow> Some (newlines (min (int (length lines) - 1) limit))
        | Some (start, block) \<Rightarrow>
            (let trailing = int (length lines) - int (block_end block)
             in if limit \<le> trailing then Some (newlines limit)
                else Option.bind
                  (if block_kind block = markdownQuote then previewLiteralTail (block_body block) (limit - trailing)
                   else if block_kind block = markdownFence \<or> block_kind block = markdownTable
                   then Some (previewSourceTail (block_body block) (limit - trailing))
                   else Some (previewSourceTail (take (block_end block - start) (drop start lines)) (limit - trailing)))
                  (\<lambda>payload. Some (payload @ newlines trailing)))))"

text \<open>The index of the next list item after a continuation line.\<close>

function next_item :: "string list \<Rightarrow> nat \<Rightarrow> nat \<Rightarrow> nat" where
  "next_item lines finish i =
     (if i < finish \<and> listItemRe (lines ! i) = None then next_item lines finish (i + 1) else i)"
  by pat_completeness auto
termination by (relation "measure (\<lambda>(lines, finish, i). finish - i)") auto

declare next_item.simps [simp del]

definition block_prefix :: "string list \<Rightarrow> nat \<Rightarrow> nat \<Rightarrow> int \<Rightarrow> markdownBlock \<Rightarrow> string \<times> nat" where
  "block_prefix lines line start limit block =
     (case block_kind block of
        markdownFence \<Rightarrow>
          (if start < line
           then (if line = start + length (block_body block) + 1 then ([], line + 1)
                 else (fenceMarker (trim_space (lines ! start)) @ [newline], 0))
           else ([], 0))
      | markdownTable \<Rightarrow>
          (if start < line \<and> previewTailStart (hd (block_body block)) (limit - 1) \<noteq> 0 then (hd (block_body block), 0)
           else if line = start + 1 then (hd (block_body block) @ [newline], 0)
           else if start + 1 < line then (hd (block_body block) @ [newline] @ block_body block ! 1 @ [newline], 0)
           else ([], 0))
      | markdownList \<Rightarrow>
          (if start < line \<and> listItemRe (lines ! line) = None then ([], next_item lines (block_end block) (line + 1))
           else ([], 0))
      | _ \<Rightarrow> ([], 0))"

text \<open>The quote marks before the line's text go in front of every line of the prefix.\<close>

definition quote_prefix :: "string \<Rightarrow> string \<Rightarrow> string \<Rightarrow> string" where
  "quote_prefix line body opener =
     (let quote = take (length line - length body) line
      in quote @ concat (map (\<lambda>c. if c = newline then newline # quote else [c]) (trim_suffix opener [newline])) @ [newline])"

partial_function (option) previewBlockPrefix :: "string list \<Rightarrow> nat \<Rightarrow> int \<Rightarrow> nat \<Rightarrow> (string \<times> nat) option" where
  "previewBlockPrefix lines line limit start =
     (if length lines \<le> start then Some ([], 0)
      else let block = collectMarkdownBlock lines start
        in if block_end block \<le> line then previewBlockPrefix lines line limit (block_end block)
           else if block_kind block = markdownQuote
           then Option.bind (previewBlockPrefix (block_body block) (line - start) limit 0) (\<lambda>result.
             case result of (opener, skip) \<Rightarrow>
               Some (if 0 < skip then ([], start + skip)
                     else if opener \<noteq> [] \<and> previewTailStart opener (limit - 1) \<noteq> 0 then (opener, 0)
                     else if opener \<noteq> [] then (quote_prefix (lines ! line) (block_body block ! (line - start)) opener, 0)
                     else (opener, 0)))
           else Some (block_prefix lines line start limit block))"

text \<open>Two versions of the same lines are cut into the same blocks, at every quote depth.\<close>

partial_function (option) scopes_match :: "string list \<Rightarrow> string list \<Rightarrow> nat \<Rightarrow> bool option" where
  "scopes_match before after i =
     (if length before \<le> i then Some True
      else let original = collectMarkdownBlock before i; projected = collectMarkdownBlock after i
        in if block_kind original \<noteq> block_kind projected \<or> block_end original \<noteq> block_end projected then Some False
           else if block_kind original = markdownQuote
           then Option.bind (if length (block_body original) \<noteq> length (block_body projected) then Some False
                             else scopes_match (block_body original) (block_body projected) 0)
                  (\<lambda>same. if same then scopes_match before after (block_end original) else Some False)
           else scopes_match before after (block_end original))"

definition previewScopesMatch :: "string list \<Rightarrow> string list \<Rightarrow> bool option" where
  "previewScopesMatch before after = (if length before \<noteq> length after then Some False else scopes_match before after 0)"

section \<open>Projection\<close>

text \<open>The block that reaches the end of the document.\<close>

partial_function (option) final_block :: "string list \<Rightarrow> nat \<Rightarrow> (nat \<times> markdownBlock) option" where
  "final_block lines start =
     (if block_end (collectMarkdownBlock lines start) < length lines
      then final_block lines (block_end (collectMarkdownBlock lines start))
      else Some (start, collectMarkdownBlock lines start))"

text \<open>\<open>copy\<close> overwrites as many elements as both slices have.\<close>

definition copy_lines :: "string list \<Rightarrow> nat \<Rightarrow> nat \<Rightarrow> string list \<Rightarrow> string list" where
  "copy_lines lines start finish src =
     (let n = min (finish - start) (length src) in take start lines @ take n src @ drop (start + n) lines)"

definition replace_quoted :: "string \<Rightarrow> string \<Rightarrow> string" where
  "replace_quoted line body =
     (let content = trim_left blank_cut (tl (trim_left blank_cut line))
      in if content \<noteq> body then take (length line - length content) line @ body else line)"

definition project_block :: "unicode_class \<Rightarrow> string list \<Rightarrow> nat \<Rightarrow> markdownBlock \<Rightarrow> string list \<times> bool" where
  "project_block wide_punct lines start block =
     (case block_kind block of
        markdownParagraph \<Rightarrow>
          (let paragraph = join_lines (take (block_end block - start) (drop start lines));
               stable = previewInline wide_punct paragraph
           in if stable \<noteq> paragraph then (copy_lines lines start (block_end block) (split_lines stable), True) else (lines, False))
      | markdownHeading \<Rightarrow>
          (let stable = previewInline wide_punct (lines ! (block_end block - 1))
           in if stable \<noteq> lines ! (block_end block - 1) then (lines[block_end block - 1 := stable], True) else (lines, False))
      | markdownList \<Rightarrow>
          (let stable = previewInline wide_punct (lines ! (block_end block - 1))
           in if stable \<noteq> lines ! (block_end block - 1) then (lines[block_end block - 1 := stable], True) else (lines, False))
      | _ \<Rightarrow> (lines, False))"

partial_function (option) projectPreviewLines :: "unicode_class \<Rightarrow> string list \<Rightarrow> (string list \<times> bool) option" where
  "projectPreviewLines wide_punct lines =
     Option.bind (final_block lines 0) (\<lambda>found. case found of (start, block) \<Rightarrow>
       if block_kind block = markdownQuote
       then Option.bind (projectPreviewLines wide_punct (block_body block)) (\<lambda>result. case result of (body, changed) \<Rightarrow>
         Some (if \<not> changed then (lines, False)
               else (take start lines @ map2 replace_quoted (take (length body) (drop start lines)) body
                       @ drop (start + length body) lines, True)))
       else Some (project_block wide_punct lines start block))"

section \<open>Tails\<close>

definition literal_tail :: "string list \<Rightarrow> int \<Rightarrow> string option" where
  "literal_tail lines limit = do {
     payload \<leftarrow> previewLiteralTail lines limit;
     literalPreview payload limit }"

definition fitting_or_literal :: "unicode_class \<Rightarrow> string list \<Rightarrow> int \<Rightarrow> string \<Rightarrow> string option" where
  "fitting_or_literal wide_punct lines limit candidate =
     (if previewTailStart candidate limit \<noteq> 0 then literal_tail lines limit
      else do {
        ok \<leftarrow> converts_within wide_punct limit candidate;
        if ok then Some candidate else literal_tail lines limit })"

definition stable_tail :: "unicode_class \<Rightarrow> string list \<Rightarrow> int \<Rightarrow> string \<Rightarrow> string option" where
  "stable_tail wide_punct lines limit candidate = do {
     (projected, changed) \<leftarrow> projectPreviewLines wide_punct (split_lines candidate);
     if \<not> changed then fitting_or_literal wide_punct lines limit candidate
     else do {
       same \<leftarrow> previewScopesMatch (split_lines candidate) projected;
       if \<not> same then literal_tail lines limit
       else fitting_or_literal wide_punct lines limit (join_lines projected) } }"

text \<open>The start of the next line, unless only blanks follow.\<close>

definition next_line :: "string \<Rightarrow> nat \<Rightarrow> nat option" where
  "next_line md start =
     (case index_byte newline (drop start md) of
        None \<Rightarrow> None
      | Some n \<Rightarrow> if trim_space (drop (start + n + 1) md) = [] then None else Some (start + n + 1))"

partial_function (option) preview_loop :: "unicode_class \<Rightarrow> string \<Rightarrow> string list \<Rightarrow> int \<Rightarrow> nat \<Rightarrow> nat \<Rightarrow> string option" where
  "preview_loop wide_punct md lines limit start line =
     Option.bind (previewBlockPrefix lines line limit 0) (\<lambda>result. case result of (opener, skip) \<Rightarrow>
       if 0 < skip
       then (if length lines \<le> skip then literal_tail lines limit
             else if trim_space (drop (start + sum_list (map (\<lambda>l. length l + 1) (take (skip - line) (drop line lines)))) md) = []
             then literal_tail lines limit
             else preview_loop wide_punct md lines limit
                    (start + sum_list (map (\<lambda>l. length l + 1) (take (skip - line) (drop line lines)))) (max line skip))
       else if opener \<noteq> [] \<and> previewTailStart opener (limit - 1) \<noteq> 0 then literal_tail lines limit
       else if previewTailStart (opener @ drop start md) limit = 0
       then stable_tail wide_punct lines limit (opener @ drop start md)
       else (case next_line md start of
               None \<Rightarrow> literal_tail lines limit
             | Some start' \<Rightarrow> preview_loop wide_punct md lines limit start' (line + 1)))"

definition TailForTelegram :: "unicode_class \<Rightarrow> string \<Rightarrow> int \<Rightarrow> string option" where
  "TailForTelegram wide_punct md limit =
     (if limit \<le> 0 then Some []
      else let lines = split_lines md; start = previewTailStart md limit; line = count_list (take start md) newline
        in if 0 < start \<and> md ! (start - 1) \<noteq> newline
           then (case next_line md start of
                   None \<Rightarrow> literal_tail lines limit
                 | Some start' \<Rightarrow> preview_loop wide_punct md lines limit start' (line + 1))
           else preview_loop wide_punct md lines limit start line)"

end
