(* ===== verification/PreviewProps.thy ===== *)
theory PreviewProps
  imports SplitProps MarkdownPreview
begin

text \<open>
  Properties of live previews: the tail of a text is measured from its end, a literal preview never closes its fence
  early and fits, and what the preview returns converts within the limit.
\<close>

section \<open>Reading from the end\<close>

lemma continuation_units: "continuation (of_char c) \<Longrightarrow> text_units (c # s) = Suc (text_units s)"
proof -
  assume "continuation (of_char c)"
  then have "decode_rune (c # s) = (rune_error, 1)" by (simp add: decode_rune_def continuation_def)
  then show ?thesis by (simp add: text_units_def runes_nonempty rune_units_def rune_error_def)
qed

lemma second_ok_continues: "second_ok b0 b1 \<Longrightarrow> continuation b1"
  by (simp add: second_ok_def continuation_def split: if_splits)

lemma decode_bytes_continues: "0 < i \<Longrightarrow> i < snd (decode_bytes bs) \<Longrightarrow> continuation (bs ! i)"
proof -
  assume i: "0 < i" "i < snd (decode_bytes bs)"
  obtain b0 r where bs: "bs = b0 # r" using i by (cases bs) auto
  consider "r = []" | b1 where "r = [b1]" | b1 b2 where "r = [b1, b2]" | b1 b2 b3 t where "r = b1 # b2 # b3 # t"
    by (cases r rule: remdups_adj.cases; cases "tl (tl r)") auto
  then show ?thesis
  proof cases
    case 2
    have "snd (decode_bytes bs) \<le> 2" and "1 < snd (decode_bytes bs) \<Longrightarrow> continuation b1" by (simp_all add: bs 2 split: if_splits)
    moreover from this(1) have "i = 1" using i by linarith
    ultimately show ?thesis using i by (simp add: bs 2 del: decode_bytes.simps)
  next
    case 3
    have "snd (decode_bytes bs) \<le> 3" and "1 < snd (decode_bytes bs) \<Longrightarrow> continuation b1"
      and "2 < snd (decode_bytes bs) \<Longrightarrow> continuation b2"
      by (simp_all add: bs 3 second_ok_continues split: if_splits)
    moreover from this(1) have "i = 1 \<or> i = 2" using i by linarith
    ultimately show ?thesis using i by (auto simp: bs 3 simp del: decode_bytes.simps)
  next
    case 4
    have "snd (decode_bytes bs) \<le> 4" and "1 < snd (decode_bytes bs) \<Longrightarrow> continuation b1"
      and "2 < snd (decode_bytes bs) \<Longrightarrow> continuation b2" and "3 < snd (decode_bytes bs) \<Longrightarrow> continuation b3"
      by (simp_all add: bs 4 second_ok_continues split: if_splits)
    moreover from this(1) have "i = 1 \<or> i = 2 \<or> i = 3" using i by linarith
    ultimately show ?thesis using i by (auto simp: bs 4 simp del: decode_bytes.simps)
  qed (use i in \<open>simp add: bs split: if_splits\<close>)
qed

lemma continuation_prefix: "\<forall>c \<in> set u. continuation (of_char c) \<Longrightarrow> text_units (u @ s) = length u + text_units s"
  by (induction u) (simp_all add: continuation_units)

lemma text_units_subadd: "text_units (s @ t) \<le> text_units s + text_units t"
proof (induction "length s" arbitrary: s rule: less_induct)
  case less
  show ?case
  proof (cases "s = []")
    case False
    let ?n = "snd (decode_rune (s @ t))"
    have step: "text_units (s @ t) = rune_units (fst (decode_rune (s @ t))) + text_units (drop ?n (s @ t))"
      using False by (simp add: text_units_def runes_nonempty [of "s @ t"])
    show ?thesis
    proof (cases "?n \<le> length s")
      case True
      have "decode_rune s = decode_rune (s @ t)" using decode_rune_take [of "s @ t" "length s"] False True by simp
      moreover have "length (drop ?n s) < length s" using False decode_rune_size(1) [of "s @ t"] by simp
      ultimately show ?thesis
        using step less [of "drop ?n s"] True False by (simp add: text_units_def runes_nonempty [of s])
    next
      case long: False
      let ?k = "?n - length s"
      have n: "?n \<le> length (s @ t)" "?n \<le> 4"
        using decode_rune_size(2) [of "s @ t"] False decode_bytes_size [of "map of_char (take 4 (s @ t))"]
        by (auto simp: decode_rune_def)
      have k: "0 < ?k" "?k \<le> length t" using long n by auto
      have "\<forall>c \<in> set (take ?k t). continuation (of_char c)"
      proof
        fix c assume "c \<in> set (take ?k t)"
        then obtain j where j: "j < ?k" "c = t ! j" using k(2) by (auto simp: in_set_conv_nth)
        then have "length s + j < ?n" by simp
        moreover have "0 < length s + j" using False by simp
        ultimately have "continuation (map of_char (take 4 (s @ t)) ! (length s + j))"
          unfolding decode_rune_def by (intro decode_bytes_continues) (auto simp: decode_rune_def)
        then show "continuation (of_char c)" using j n \<open>length s + j < ?n\<close> by (simp add: nth_append)
      qed
      then have "text_units t = ?k + text_units (drop ?k t)"
        using continuation_prefix [of "take ?k t" "drop ?k t"] k by simp
      moreover have "0 < text_units s"
        using False rune_units_bounds(1) by (simp add: text_units_def runes_nonempty)
      moreover have "rune_units (fst (decode_rune (s @ t))) \<le> 2" by (rule rune_units_bounds)
      ultimately show ?thesis using step long k by simp
    qed
  qed simp
qed

lemma last_rune_units: "s \<noteq> [] \<Longrightarrow>
    text_units (drop (length s - snd (decode_last_rune s)) s) \<le> rune_units (fst (decode_last_rune s))"
proof -
  assume s: "s \<noteq> []"
  have one: "text_units [c] = 1" for c
  proof -
    have "decode_rune [c] = (if of_char c < (128 :: nat) then of_char c else rune_error, 1)" by (simp add: decode_rune_def)
    then show ?thesis by (simp add: text_units_def runes_nonempty rune_units_def rune_error_def)
  qed
  have last: "drop (length s - 1) s = [last s]" using s by (cases s rule: rev_cases) auto
  consider "of_char (last s) < (128 :: nat)"
    | "\<not> of_char (last s) < (128 :: nat)" "last_start s + snd (decode_rune (drop (last_start s) s)) \<noteq> length s"
    | "\<not> of_char (last s) < (128 :: nat)" "last_start s + snd (decode_rune (drop (last_start s) s)) = length s" by blast
  then show ?thesis
  proof cases
    case 1
    then show ?thesis using s last one rune_units_bounds(1) [of "of_char (last s)"] by (simp add: decode_last_rune_def)
  next
    case 2
    then show ?thesis using s last one by (simp add: decode_last_rune_def case_prod_unfold rune_units_def rune_error_def)
  next
    case 3
    let ?d = "drop (last_start s) s"
    have "decode_last_rune s = decode_rune ?d" using 3 s by (simp add: decode_last_rune_def case_prod_unfold)
    moreover have "length s - snd (decode_rune ?d) = last_start s" using 3 by simp
    moreover have "?d \<noteq> []"
    proof
      assume d: "?d = []"
      then have "snd (decode_rune ?d) = 0" by (simp add: decode_rune_def)
      moreover have "0 < snd (decode_last_rune s)" using decode_last_rune_size [OF s] by simp
      ultimately show False using \<open>decode_last_rune s = decode_rune ?d\<close> by simp
    qed
    moreover have "drop (snd (decode_rune ?d)) ?d = []" using 3(2) by simp
    ultimately show ?thesis by (simp add: text_units_def runes_nonempty)
  qed
qed

lemma drop_take_drop: "k \<le> length (take m s) \<Longrightarrow> drop k s = drop k (take m s) @ drop m s"
  using drop_append [of k "take m s" "drop m s"] by simp

lemma tail_loop_units:
  "tail_loop s limit units \<le> length s
   \<and> int (text_units (drop (tail_loop s limit units) s)) + units \<le> max units limit"
proof (induction s limit units rule: tail_loop.induct)
  case (1 s limit units)
  let ?r = "fst (decode_last_rune s)" and ?s = "take (length s - snd (decode_last_rune s)) s"
  show ?case
  proof (cases "s = [] \<or> limit < units + int (rune_units ?r)")
    case True
    then show ?thesis by (subst (1 2) tail_loop.simps) auto
  next
    case False
    let ?k = "tail_loop ?s limit (units + int (rune_units ?r))"
    have step: "tail_loop s limit units = ?k" using False by (subst tail_loop.simps) simp
    have IH: "?k \<le> length ?s" "int (text_units (drop ?k ?s)) + (units + int (rune_units ?r)) \<le> max (units + int (rune_units ?r)) limit"
      using "1.IH" False by auto
    have split: "drop ?k s = drop ?k ?s @ drop (length s - snd (decode_last_rune s)) s"
      using IH(1) by (rule drop_take_drop)
    have "text_units (drop ?k s) \<le> text_units (drop ?k ?s) + text_units (drop (length s - snd (decode_last_rune s)) s)"
      unfolding split by (rule text_units_subadd)
    also have "\<dots> \<le> text_units (drop ?k ?s) + rune_units ?r" using last_rune_units [of s] False by simp
    finally have "text_units (drop ?k s) \<le> text_units (drop ?k ?s) + rune_units ?r" .
    moreover have "?k \<le> length s" using IH(1) by (rule order_trans) simp
    ultimately show ?thesis using IH(2) False unfolding step by linarith
  qed
qed

lemma preview_tail_units: "literalUTF16Len (drop (previewTailStart s limit) s) \<le> max 0 limit"
  using tail_loop_units [of s limit 0] by (simp add: previewTailStart_def literalUTF16Len_eq)

section \<open>Texts of one rune\<close>

lemma one_rune_bytes:
  assumes "length (runes s) = 1" and "c \<in> set s" and "of_char c < (128 :: nat)"
  shows "s = [c]"
proof -
  obtain x y where s: "s = x @ c # y" using assms(2) by (auto simp: in_set_conv_decomp)
  have "runes s = runes x @ (of_char c, [c]) # runes y"
    using runes_ascii_head [of "c # y" x] runes_ascii [OF assms(3), of y] assms(3) by (simp add: s)
  then have "runes x = []" "runes y = []" using assms(1) by auto
  then show ?thesis using runes_nonempty [of x] runes_nonempty [of y] by (cases "x = []"; cases "y = []") (auto simp: s)
qed

lemma convert_one_line:
  assumes "newline \<notin> set s" "trim_space s \<noteq> []" "\<not> isFence (trim_space s)" "headingRe s = None"
    "\<not> has_prefix (trim_space s) ''>''" "\<not> ruleRe s" "listItemRe s = None"
  shows "ConvertMarkdown wide_punct s = Some (convertInline wide_punct s)"
proof -
  have lines: "split_lines s = [s]" using assms(1) by (induction s) auto
  have "paragraphEnd [s] 0 = 1" by (simp add: paragraphEnd_def paragraph_loop.simps)
  then have block: "collectMarkdownBlock [s] 0 = \<lparr>block_kind = markdownParagraph, block_end = 1, block_body = []\<rparr>"
    using assms by (simp add: collectMarkdownBlock_def isTableStart_def Let_def)
  show ?thesis
    unfolding ConvertMarkdown_def lines
    by (subst convert_loop.simps, subst convert_loop.simps) (simp add: block convert_block_def block_lines_def)
qed

lemma convert_blank_line:
  assumes "newline \<notin> set s" "trim_space s = []"
  shows "ConvertMarkdown wide_punct s = Some []"
proof -
  have lines: "split_lines s = [s]" using assms(1) by (induction s) auto
  have block: "collectMarkdownBlock [s] 0 = \<lparr>block_kind = markdownBlank, block_end = 1, block_body = []\<rparr>"
    using assms by (simp add: collectMarkdownBlock_def Let_def)
  show ?thesis
    unfolding ConvertMarkdown_def lines
    by (subst convert_loop.simps, subst convert_loop.simps) (simp add: block convert_block_def)
qed

lemma convert_newline: "ConvertMarkdown wide_punct [newline] = Some [newline]"
proof -
  have lines: "split_lines [newline] = [[], []]" by simp
  have trim: "trim_space [] = []" by (simp add: trim_space_def trim_left_func_def trim_right_func.simps)
  have block: "collectMarkdownBlock [[], []] 0 = \<lparr>block_kind = markdownBlank, block_end = 1, block_body = []\<rparr>"
     "collectMarkdownBlock [[], []] 1 = \<lparr>block_kind = markdownBlank, block_end = 2, block_body = []\<rparr>"
    by (simp_all add: collectMarkdownBlock_def Let_def trim)
  show ?thesis
    unfolding ConvertMarkdown_def lines
    by (subst convert_loop.simps, subst convert_loop.simps, subst convert_loop.simps)
      (simp add: block [simplified] convert_block_def)
qed

lemma convert_bracket: "ConvertMarkdown wide_punct ''>'' = Some ''<blockquote></blockquote>''"
proof -
  have lines: "split_lines ''>'' = [''>'']" by (simp add: newline_def)
  have trim: "trim_space ''>'' = ''>''" by (simp add: trim_space_solid is_space_def)
  have "collectMarkdownBlock [''>''] 0 = \<lparr>block_kind = markdownQuote, block_end = 1, block_body = [[]]\<rparr>"
    by (simp add: collectMarkdownBlock_def Let_def trim isFence_def isTableStart_def headingRe_def collectQuote_def
      trim_left_def has_prefix_def trim_prefix_def blank_cut_def inlineLinkSpace_def tab_def)
  note block = this
  have inner: "convert_loop wide_punct [[]] 0 [] = Some [[]]"
  proof -
    have "trim_space [] = []" by (simp add: trim_space_def trim_left_func_def trim_right_func.simps)
    then have b: "collectMarkdownBlock [[]] 0 = \<lparr>block_kind = markdownBlank, block_end = 1, block_body = []\<rparr>"
      by (simp add: collectMarkdownBlock_def Let_def)
    show ?thesis by (subst convert_loop.simps, subst convert_loop.simps) (simp add: b convert_block_def)
  qed
  have "convert_loop wide_punct [''>''] 1 out = Some out" for out by (subst convert_loop.simps) simp
  then have "convert_loop wide_punct [''>''] 0 [] = Some [blockquote [[]]]"
    by (subst convert_loop.simps) (simp add: block inner)
  then show ?thesis unfolding ConvertMarkdown_def lines by (simp add: blockquote_def)
qed

lemma inline_mark:
  assumes "c \<in> set inline_marks"
  shows "convertInline wide_punct [c] = [c]"
proof -
  have links: "inlineLinks [c] = []"
  proof (cases "c = CHR ''[''")
    case True
    have "links_loop ''['' dests 0 [] [] = []" for dests
      by (subst links_loop.simps, simp, subst links_loop.simps, simp)
    then show ?thesis using True by (simp add: inlineLinks_def)
  qed (simp add: inlineLinks_def)
  define t where "t = (if c = backtick then inlineCode [c] [] False True
     else if c \<in> {CHR ''*'', CHR ''_''} then inlineDelimiter \<lparr>dl_raw = [c], dl_marker = c, dl_remaining = 1, dl_canOpen = False,
        dl_canClose = False, dl_previewOpen = False, dl_opens = [], dl_closes = []\<rparr>
     else inlineText [c])"
  have run: "inlineRun [c] 0 = 1" for c by (simp add: inlineRun_def)
  have flank: "inlineFlanking wide_punct [c] 0 1 = (False, False, False)" for c by (simp add: inlineFlanking_def Let_def)
  have code: "code_token [c] 0 = (inlineCode [c] [] False True, 1)" for c
  proof -
    have "inlineCodeEnd [c] 1 1 = None" by (subst inlineCodeEnd.simps) simp
    then show ?thesis by (simp add: code_token_def run inlineEscaped_def)
  qed
  have rest: "parse_loop wide_punct f [c] [] 1 plain tokens = flush_text [c] plain 1 tokens" for c f plain tokens
    by (subst parse_loop.simps) simp
  have delimiter: "delimiter_token wide_punct [c] 0 [] = inlineDelimiter \<lparr>dl_raw = [c], dl_marker = c, dl_remaining = 1,
      dl_canOpen = False, dl_canClose = False, dl_previewOpen = False, dl_opens = [], dl_closes = []\<rparr>" for c
    by (simp add: delimiter_token_def run [simplified] flank [simplified] substr_def)
  have cases: "c = CHR 0x5C \<or> c = CHR 0x60 \<or> c = CHR ''['' \<or> c = CHR ''*'' \<or> c = CHR ''_'' \<or> c = CHR ''~''"
    using assms by (simp add: inline_marks_def)
  have loop: "parse_loop wide_punct f [c] [] 0 0 [] = [t]" for f
    using cases by (subst parse_loop.simps; elim disjE)
      (simp_all add: Let_def run [simplified] code [simplified] delimiter [simplified] rest [simplified] flush_text_def substr_def t_def)
  have "parseInline wide_punct [c] True = [t]"
    by (auto simp: parseInline_def links loop matchInlineDelimiters_def match_token_def t_def)
  then show ?thesis
    using assms by (auto simp: convertInline_def t_def render_text_def new_renderer_def sync_tags_def render_delimiter_def
      escapeHTML_def escape_char_def inline_marks_def)
qed

lemma one_rune: "literalUTF16Len s \<le> 1 \<Longrightarrow> s \<noteq> [] \<Longrightarrow> length (runes s) = 1"
proof -
  assume u: "literalUTF16Len s \<le> 1" and s: "s \<noteq> []"
  let ?rest = "drop (snd (decode_rune s)) s"
  have "text_units s = rune_units (fst (decode_rune s)) + text_units ?rest"
    using s by (simp add: text_units_def runes_nonempty [OF s])
  then have "text_units ?rest = 0" using u rune_units_bounds(1) [of "fst (decode_rune s)"] by (simp add: literalUTF16Len_eq)
  then have "?rest = []"
    using rune_units_bounds(1) [of "fst (decode_rune ?rest)"] by (cases "?rest = []") (auto simp: text_units_def runes_nonempty [of ?rest])
  then show ?thesis by (simp add: runes_nonempty [OF s])
qed

text \<open>What one rune converts to is at most as long as the rune.\<close>

lemma convert_short:
  assumes "literalUTF16Len s \<le> 1"
  shows "\<exists>html. ConvertMarkdown wide_punct s = Some html \<and> renderedUTF16Len html \<le> 1"
proof (cases "newline \<in> set s \<or> trim_space s = []")
  case short: True
  have "s = [newline]" if "newline \<in> set s"
  proof -
    have "length (runes s) = 1" using that by (intro one_rune [OF assms]) auto
    from one_rune_bytes [OF this that] show ?thesis by (simp add: newline_def)
  qed
  moreover have "renderedUTF16Len [newline] = 1"
    using renderedUTF16Len_escape [of "[]" "[newline]"] by (simp add: escapeHTML_def escape_char_def newline_def ascii_units)
  moreover have "renderedUTF16Len [] = 0" using renderedUTF16Len_escape [of "[]" "[]"] by (simp add: escapeHTML_def)
  ultimately show ?thesis
    using short convert_newline [of wide_punct] convert_blank_line [of s wide_punct] by (cases "newline \<in> set s") auto
next
  case False
  have "trim_space [] = []" by (simp add: trim_space_def trim_left_func_def trim_right_func.simps)
  with False have s: "s \<noteq> []" by metis
  then have len: "length (runes s) = 1" using one_rune [OF assms] by blast
  have low: "s = [c]" if "c \<in> set s" "of_char c < (128 :: nat)" for c
    using one_rune_bytes [OF len that] .
  have pre: "s = [c] \<and> p = []"
    if p: "has_prefix (trim_space s) (c # p)" and c: "of_char c < (128 :: nat)" "\<not> is_space (of_char c)" for c p
  proof -
    have "c \<in> set (trim_space s)" using p by (auto simp: has_prefix_def prefix_def)
    then have s: "s = [c]" using low c(1) set_trim_space by blast
    then have "trim_space s = [c]" using c by (simp add: trim_space_solid)
    with p s show ?thesis by (simp add: has_prefix_def)
  qed
  show ?thesis
  proof (cases "s = ''>''")
    case True
    have "renderedUTF16Len ''<blockquote></blockquote>'' = 0"
      using renderedUTF16Len_tag [of "''blockquote''" "''</blockquote>''"] renderedUTF16Len_tag [of "''/blockquote''" "[]"] by simp
    then show ?thesis using convert_bracket [of wide_punct] True by simp
  next
    case bracket: False
    have "ConvertMarkdown wide_punct s = Some (convertInline wide_punct s)"
    proof (rule convert_one_line)
      show "\<not> isFence (trim_space s)"
        using pre [of backtick "''``''"] pre [of "CHR ''~''" "''~~''"] by (auto simp: isFence_def is_space_def)
      show "headingRe s = None"
      proof (cases "CHR ''#'' \<in> set s")
        case True
        then have "s = ''#''" using low by simp
        then show ?thesis by (simp add: headingRe_def heading_text_def inlineLinkSpace_def)
      next
        case no: False
        then have "CHR ''#'' \<notin> set (dropWhile inlineLinkSpace s)" using set_dropWhileD by metis
        then have "takeWhile (\<lambda>c. c = CHR ''#'') (dropWhile inlineLinkSpace s) = []"
          unfolding takeWhile_eq_Nil_iff by (metis hd_in_set)
        then show ?thesis by (simp add: headingRe_def)
      qed
      show "\<not> ruleRe s"
      proof
        assume r: "ruleRe s"
        define core where "core = rev (dropWhile inlineLinkSpace (rev (dropWhile inlineLinkSpace s)))"
        have long: "3 \<le> length core" and mark: "hd core \<in> {CHR ''-'', CHR ''*'', CHR ''_''}"
          using r by (simp_all add: ruleRe_def core_def Let_def)
        have "length core \<le> length (dropWhile inlineLinkSpace s)"
          using length_dropWhile_le [of inlineLinkSpace "rev (dropWhile inlineLinkSpace s)"] by (simp add: core_def)
        also have "\<dots> \<le> length s" by (rule length_dropWhile_le)
        finally have more: "3 \<le> length s" using long by simp
        have "core \<noteq> []" using long by auto
        then have "hd core \<in> set core" by simp
        then have "hd core \<in> set s" unfolding core_def by (metis set_dropWhileD set_rev)
        moreover have "of_char (hd core) < (128 :: nat)" using mark by auto
        ultimately have "s = [hd core]" by (rule low)
        then have "length s = 1" by (metis length_Cons list.size(3) One_nat_def)
        with more show False by simp
      qed
      show "listItemRe s = None"
      proof (cases "length s = 1")
        case True
        then obtain c where "s = [c]" by (auto simp: length_Suc_conv)
        then show ?thesis by (simp add: listItemRe_def item_marker_def Let_def)
      next
        case no: False
        let ?rest = "dropWhile inlineLinkSpace s"
        have high: "(128 :: nat) \<le> of_char c" if "c \<in> set s" for c
          using low [OF that] no by force
        have "item_marker ?rest = None"
        proof (cases ?rest)
          case (Cons c t)
          have "c \<in> set ?rest" unfolding Cons by simp
          then have "(128 :: nat) \<le> of_char c" using high set_dropWhileD by metis
          then show ?thesis unfolding Cons by (auto simp: item_marker_def is_digit_def)
        next
          case Nil
          show ?thesis unfolding Nil by (simp add: item_marker_def)
        qed
        then show ?thesis by (simp add: listItemRe_def)
      qed
      show "\<not> has_prefix (trim_space s) ''>''" using pre [of "CHR ''>''" "[]"] bracket by (auto simp: is_space_def)
    qed (use False in auto)
    moreover have "renderedUTF16Len (convertInline wide_punct s) \<le> 1"
    proof (cases "\<exists>c \<in> set s. c \<in> set inline_marks")
      case True
      then obtain c where c: "c \<in> set s" "c \<in> set inline_marks" by blast
      then have "of_char c < (128 :: nat)" and plain: "escapeHTML [c] = [c]"
        by (auto simp: inline_marks_def escapeHTML_def escape_char_def)
      then have "s = [c]" using low c(1) by blast
      then show ?thesis using inline_mark [OF c(2)] renderedUTF16Len_escape [of "[]" "[c]"] plain assms
        by (simp add: literalUTF16Len_eq)
    next
      case False
      then have "convertInline wide_punct s = escapeHTML s" by (simp add: convertInline_def)
      then show ?thesis using renderedUTF16Len_escape [of "[]" s] assms by (simp add: literalUTF16Len_eq)
    qed
    ultimately show ?thesis by simp
  qed
qed

section \<open>Runs of markers\<close>

text \<open>What the loop has counted: the run it is in is not longer than the longest of its kind.\<close>

definition run_ok :: "rune \<Rightarrow> nat \<Rightarrow> nat \<Rightarrow> nat \<Rightarrow> bool" where
  "run_ok previous run backticks tildes \<longleftrightarrow> (previous = 96 \<longrightarrow> run \<le> backticks) \<and> (previous = 126 \<longrightarrow> run \<le> tildes)"

lemma marker_runs_grow:
  "backticks \<le> fst (marker_runs rs previous run backticks tildes) \<and> tildes \<le> snd (marker_runs rs previous run backticks tildes)"
proof (induction rs previous run backticks tildes rule: marker_runs.induct)
  case (2 r piece rest previous run backticks tildes)
  let ?run = "(if r \<noteq> previous then 0 else run) + 1"
  have "backticks \<le> (if r = 96 then max backticks ?run else backticks)" "tildes \<le> (if r = 126 then max tildes ?run else tildes)"
    by simp_all
  with 2 [OF refl] show ?case unfolding marker_runs.simps Let_def by (meson order_trans)
qed simp

definition longest_of :: "rune \<Rightarrow> nat \<times> nat \<Rightarrow> nat" where
  "longest_of m runs = (if m = 96 then fst runs else snd runs)"

lemma marker_runs_replicate:
  assumes "m = 96 \<or> m = 126" and "run_ok previous run backticks tildes"
  shows "(if previous = m then run else 0) + k \<le> longest_of m (marker_runs (replicate k (m, piece) @ rest) previous run backticks tildes)"
  using assms(2)
proof (induction k arbitrary: previous run backticks tildes)
  case 0
  then show ?case
    using marker_runs_grow [of backticks rest previous run tildes] assms(1) by (auto simp: run_ok_def longest_of_def)
next
  case (Suc k)
  let ?run = "(if m \<noteq> previous then 0 else run) + 1"
  have "run_ok m ?run (if m = 96 then max backticks ?run else backticks) (if m = 126 then max tildes ?run else tildes)"
    using assms(1) by (auto simp: run_ok_def)
  from Suc.IH [OF this] show ?case by (auto simp: Let_def split: if_splits)
qed

lemma marker_runs_infix:
  assumes "m = 96 \<or> m = 126" and "run_ok previous run backticks tildes"
  shows "k \<le> longest_of m (marker_runs (before @ replicate k (m, piece) @ rest) previous run backticks tildes)"
  using assms(2)
proof (induction before arbitrary: previous run backticks tildes)
  case Nil
  then show ?case using marker_runs_replicate [OF assms(1) Nil, of k piece rest] by simp
next
  case (Cons p before)
  obtain r q where p: "p = (r, q)" by (cases p)
  let ?run = "(if r \<noteq> previous then 0 else run) + 1"
  have "run_ok r ?run (if r = 96 then max backticks ?run else backticks) (if r = 126 then max tildes ?run else tildes)"
    by (simp add: run_ok_def)
  from Cons.IH [OF this] show ?case by (simp only: p append.simps marker_runs.simps Let_def)
qed

text \<open>Both counts together do not exceed the number of runes.\<close>

lemma marker_runs_count:
  assumes "b \<le> cb" and "t \<le> ct" and "previous = 96 \<longrightarrow> run \<le> cb" and "previous = 126 \<longrightarrow> run \<le> ct"
  shows "fst (marker_runs rs previous run b t) + snd (marker_runs rs previous run b t) \<le> cb + ct + length rs"
  using assms
proof (induction rs arbitrary: previous run b t cb ct)
  case (Cons p rs)
  obtain r q where p: "p = (r, q)" by (cases p)
  let ?run = "(if r \<noteq> previous then 0 else run) + 1"
  let ?b = "if r = 96 then max b ?run else b" and ?t = "if r = 126 then max t ?run else t"
  let ?cb = "if r = 96 then cb + 1 else cb" and ?ct = "if r = 126 then ct + 1 else ct"
  have "fst (marker_runs rs r ?run ?b ?t) + snd (marker_runs rs r ?run ?b ?t) \<le> ?cb + ?ct + length rs"
    by (rule Cons.IH) (use Cons.prems in auto)
  moreover have "?cb + ?ct + length rs \<le> cb + ct + length (p # rs)" by simp
  ultimately show ?case unfolding p marker_runs.simps Let_def by (rule order_trans)
qed simp

lemma runs_replicate: "of_char c < (128 :: nat) \<Longrightarrow> runes (replicate n c @ t) = replicate n (of_char c, [c]) @ runes t"
  by (induction n) (simp_all add: runes_ascii)

lemma run_length_bound:
  assumes "marker_char c" and "s = before @ replicate n c @ rest"
  shows "n \<le> (if c = backtick then fst (runs_of_markers s) else snd (runs_of_markers s))"
proof (cases n)
  case (Suc k)
  have c: "c = backtick \<or> c = CHR ''~''" using assms(1) by (simp add: marker_char_def)
  then have ascii: "of_char c < (128 :: nat)" by auto
  have "runes s = runes before @ replicate n (of_char c, [c]) @ runes rest"
    using runes_append [OF ascii, of before "replicate k c @ rest"] runs_replicate [OF ascii, of n rest]
    by (simp add: assms(2) Suc)
  moreover have "of_char c = (96 :: nat) \<or> of_char c = (126 :: nat)" using c by auto
  ultimately have "n \<le> longest_of (of_char c) (runs_of_markers s)"
    using marker_runs_infix [of "of_char c" 0 0 0 0 n "runes before" "[c]" "runes rest"]
    by (simp add: runs_of_markers_def run_ok_def)
  then show ?thesis using c by (auto simp: longest_of_def)
qed simp

lemma runs_short: "fst (runs_of_markers s) + snd (runs_of_markers s) \<le> text_units s"
proof -
  have "length rs \<le> sum_list (map (rune_units \<circ> fst) rs)" for rs :: "(rune \<times> string) list"
  proof (induction rs)
    case (Cons p rs)
    then show ?case using rune_units_bounds(1) [of "fst p"] by simp
  qed simp
  then show ?thesis
    using marker_runs_count [of 0 0 0 0 0 0 "runes s"] by (simp add: runs_of_markers_def text_units_def) (meson order_trans)
qed

section \<open>Literal previews\<close>

lemma preview_fence_shape:
  "\<exists>n c. preview_fence s = replicate n c \<and> 3 \<le> n \<and> marker_char c
     \<and> (if c = backtick then fst (runs_of_markers s) else snd (runs_of_markers s)) < n"
proof (cases "snd (runs_of_markers s) < fst (runs_of_markers s)")
  case True
  then show ?thesis
    by (intro exI [of _ "max 3 (snd (runs_of_markers s) + 1)"] exI [of _ "CHR ''~''"])
       (auto simp: preview_fence_def repeat_char_def marker_char_def split: prod.splits)
next
  case False
  then show ?thesis
    by (intro exI [of _ "max 3 (fst (runs_of_markers s) + 1)"] exI [of _ backtick])
       (auto simp: preview_fence_def repeat_char_def marker_char_def split: prod.splits)
qed

lemma split_on_infix: "l \<in> set (split_on c s) \<Longrightarrow> \<exists>before rest. s = before @ l @ rest"
proof (induction s arbitrary: l)
  case (Cons x s)
  show ?case
  proof (cases "l \<in> set (split_on c s)")
    case True
    then show ?thesis using Cons.IH by (metis append_Cons)
  next
    case False
    obtain first others where parts: "split_on c s = first # others" by (cases "split_on c s") auto
    show ?thesis
    proof (cases "x = c")
      case True
      then show ?thesis using Cons.prems False by auto
    next
      case x: False
      then have l: "l = x # first" using Cons.prems False parts by auto
      have "s = join [c] (split_on c s)" by simp
      then have "prefix first s" unfolding parts by (cases others) (auto simp: prefix_def)
      then show ?thesis using l by (metis append_Cons append_Nil prefixE)
    qed
  qed
qed simp

lemma trim_space_infix: "\<exists>before rest. s = before @ trim_space s @ rest"
proof -
  obtain zs where a: "trim_left_func is_space s = trim_space s @ zs"
    using trim_right_func_prefix [of is_space "trim_left_func is_space s"] by (auto simp: trim_space_def prefix_def)
  have "s = rune_text (takeWhile (is_space \<circ> fst) (runes s)) @ trim_left_func is_space s"
    unfolding trim_left_func_def by (metis concat_append concat_runes map_append takeWhile_dropWhile_id)
  then show ?thesis using a by metis
qed

lemma preview_fence_solid:
  assumes "preview_fence s = replicate n c" and "marker_char c"
    and "(if c = backtick then fst (runs_of_markers s) else snd (runs_of_markers s)) < n"
    and "l \<in> set (split_lines (drop k s))"
  shows "trim_space l \<noteq> replicate n c"
proof
  assume eq: "trim_space l = replicate n c"
  obtain a b where "drop k s = a @ l @ b" using split_on_infix [OF assms(4)] by blast
  moreover obtain a' b' where "l = a' @ replicate n c @ b'" using trim_space_infix [of l] unfolding eq by blast
  ultimately have "s = (take k s @ a @ a') @ replicate n c @ (b' @ b)" by (metis append.assoc append_take_drop_id)
  from run_length_bound [OF assms(2) this] assms(3) show False by simp
qed

lemma literal_preview_once:
  assumes "0 \<le> preview_room limit s"
  shows "\<exists>r. literal_preview_loop limit s = Some r \<and> (\<exists>k. ConvertMarkdown wide_punct r = Some (''<pre>'' @ escapeHTML (drop k s) @ ''</pre>'')
    \<and> literalUTF16Len (drop k s) \<le> limit)"
proof -
  let ?k = "previewTailStart s (preview_room limit s)"
  obtain n c where f: "preview_fence s = replicate n c" "3 \<le> n" "marker_char c"
    "(if c = backtick then fst (runs_of_markers s) else snd (runs_of_markers s)) < n"
    using preview_fence_shape by blast
  let ?r = "replicate n c @ newline # drop ?k s @ newline # replicate n c"
  have "literal_preview_loop limit s = Some ?r" using assms f(1) by (subst literal_preview_loop.simps) simp
  moreover have "ConvertMarkdown wide_punct ?r = Some (''<pre>'' @ escapeHTML (drop ?k s) @ ''</pre>'')"
    using convert_fence [OF f(3,2), of "split_lines (drop ?k s)" wide_punct] preview_fence_solid [OF f(1,3,4)]
    by (simp add: ConvertMarkdown_def split_literalFence [OF f(3)])
  moreover have "literalUTF16Len (drop ?k s) \<le> limit"
    using preview_tail_units [of s "preview_room limit s"] assms by (simp add: preview_room_def)
  ultimately show ?thesis by blast
qed

lemma preview_room_short:
  assumes "8 \<le> limit" and "literalUTF16Len s \<le> limit div 3"
  shows "0 \<le> preview_room limit s"
proof -
  have "int (length (preview_fence s)) \<le> max 3 (int (min (fst (runs_of_markers s)) (snd (runs_of_markers s))) + 1)"
    by (cases "runs_of_markers s") (simp add: preview_fence_def repeat_char_def, linarith)
  moreover have "2 * int (min (fst (runs_of_markers s)) (snd (runs_of_markers s))) \<le> limit div 3"
    using runs_short [of s] assms(2) by (simp add: literalUTF16Len_eq)
  ultimately show ?thesis using assms(1) unfolding preview_room_def by linarith
qed

lemma literalPreview_ok:
  assumes "8 \<le> limit"
  shows "\<exists>r k. literalPreview s limit = Some r \<and> ConvertMarkdown wide_punct r = Some (''<pre>'' @ escapeHTML (drop k s) @ ''</pre>'')
    \<and> literalUTF16Len (drop k s) \<le> limit"
proof (cases "preview_room limit s < 0")
  case False
  then show ?thesis using literal_preview_once [of limit s wide_punct] assms by (auto simp: literalPreview_def)
next
  case True
  let ?s = "drop (previewTailStart s (limit div 3)) s"
  have "0 \<le> preview_room limit ?s"
    using preview_tail_units [of s "limit div 3"] assms by (intro preview_room_short) auto
  from literal_preview_once [OF this, of wide_punct] obtain r k where "literal_preview_loop limit ?s = Some r"
    "ConvertMarkdown wide_punct r = Some (''<pre>'' @ escapeHTML (drop k ?s) @ ''</pre>'')" "literalUTF16Len (drop k ?s) \<le> limit"
    by blast
  moreover have "literal_preview_loop limit s = literal_preview_loop limit ?s" using True by (subst literal_preview_loop.simps) simp
  ultimately show ?thesis using assms by (auto simp: literalPreview_def)
qed

lemma literalPreview_small:
  assumes "limit < 8"
  shows "\<exists>k. literalPreview s limit = Some (drop k s) \<and> literalUTF16Len (drop k s) \<le> max 0 (min limit 1)"
  using preview_tail_units [of s "min limit 1"] assms by (auto simp: literalPreview_def)

lemma literalPreview_within: "literalPreview s limit = Some r \<Longrightarrow> 0 < limit \<Longrightarrow> within wide_punct limit r"
proof (cases "limit < 8")
  case True
  assume r: "literalPreview s limit = Some r" and "0 < limit"
  then have "literalUTF16Len r \<le> 1" using literalPreview_small [OF True, of s] by auto
  then show ?thesis using convert_short [of r wide_punct] \<open>0 < limit\<close> by (force simp: within_iff)
next
  case False
  assume "literalPreview s limit = Some r"
  then show ?thesis using literalPreview_ok [of limit s wide_punct] False rendered_pre by (auto simp: within_iff)
qed

text \<open>C38: A literal preview always returns, for every text and every limit. From a limit of eight units it is a
  fence that its content cannot close, however many marker characters the text has, so it converts to one
  preformatted block with the end of the text, within the limit. Below eight units there is no room for a
  fence: the preview is then the end of the text itself, at most one unit of it (nothing at all when the limit
  is not positive), and it converts within any positive limit.\<close>

theorem literalPreview_fits:
  "if limit < 8
   then \<exists>k. literalPreview s limit = Some (drop k s) \<and> literalUTF16Len (drop k s) \<le> max 0 (min limit 1)
     \<and> (limit \<le> 0 \<or> (\<exists>html. ConvertMarkdown wide_punct (drop k s) = Some html \<and> renderedUTF16Len html \<le> limit))
   else \<exists>r k. literalPreview s limit = Some r \<and> ConvertMarkdown wide_punct r = Some (''<pre>'' @ escapeHTML (drop k s) @ ''</pre>'')
     \<and> renderedUTF16Len (''<pre>'' @ escapeHTML (drop k s) @ ''</pre>'') \<le> limit"
proof (cases "limit < 8")
  case True
  then obtain k where k: "literalPreview s limit = Some (drop k s)" "literalUTF16Len (drop k s) \<le> max 0 (min limit 1)"
    using literalPreview_small by blast
  moreover have "limit \<le> 0 \<or> (\<exists>html. ConvertMarkdown wide_punct (drop k s) = Some html \<and> renderedUTF16Len html \<le> limit)"
    using literalPreview_within [OF k(1), of wide_punct] by (cases "0 < limit") (auto simp: within_iff)
  ultimately show ?thesis using True by auto
next
  case False
  then show ?thesis using literalPreview_ok [of limit s wide_punct] unfolding rendered_pre by auto
qed

theorem literalPreview_fits_witness:
  "(\<exists>r k. literalPreview (replicate 20 backtick) 12 = Some r
     \<and> ConvertMarkdown (\<lambda>_. False) r = Some (''<pre>'' @ escapeHTML (drop k (replicate 20 backtick)) @ ''</pre>''))
   \<and> (\<exists>k. literalPreview ''ab'' 5 = Some (drop k ''ab'') \<and> literalUTF16Len (drop k ''ab'') \<le> 1)"
  using literalPreview_fits [of 12 "replicate 20 backtick" "\<lambda>_. False"]
    literalPreview_fits [of 5 "''ab''" "\<lambda>_. False"] by auto

section \<open>Tails of documents\<close>

lemma literal_tail_within: "literal_tail lines limit = Some r \<Longrightarrow> 0 < limit \<Longrightarrow> within wide_punct limit r"
  using literalPreview_within by (auto simp: literal_tail_def bind_eq_Some_conv)

lemma fitting_or_literal_within:
  "fitting_or_literal wide_punct lines limit candidate = Some r \<Longrightarrow> 0 < limit \<Longrightarrow> within wide_punct limit r"
  using literal_tail_within [of lines limit r wide_punct]
  by (auto simp: fitting_or_literal_def bind_eq_Some_conv split: if_splits)

lemma stable_tail_within:
  "stable_tail wide_punct lines limit candidate = Some r \<Longrightarrow> 0 < limit \<Longrightarrow> within wide_punct limit r"
  using literal_tail_within [of lines limit r wide_punct] fitting_or_literal_within [of wide_punct lines limit _ r]
  by (auto simp: stable_tail_def bind_eq_Some_conv split: if_splits)

lemma preview_loop_within:
  "preview_loop wide_punct md lines limit start line = Some r \<Longrightarrow> 0 < limit \<Longrightarrow> within wide_punct limit r"
proof (induction wide_punct md lines limit start line r rule: preview_loop.raw_induct [rotated, consumes 1, case_names step])
  case (step loop wide_punct md lines limit start line r)
  note literal = literal_tail_within [OF _ step(3), of lines r wide_punct]
  obtain opener skip where prefix: "previewBlockPrefix lines line limit 0 = Some (opener, skip)"
    using step(2) by (auto simp: bind_eq_Some_conv)
  show ?case
  proof (cases "0 < skip")
    case True
    then show ?thesis using step prefix literal by (auto simp: Let_def split: if_splits)
  next
    case False
    then show ?thesis
      using step(2) prefix literal step(1) [OF _ step(3)] stable_tail_within [OF _ step(3)]
      by (auto split: if_splits option.splits)
  qed
qed

text \<open>C27: What a preview of a growing document returns converts within the limit, whichever way it was found: as a tail
  with its block context restored, as a projection of it, or as literal text, down to a limit of one unit; for a limit that is not
  positive it returns the empty text.\<close>

theorem TailForTelegram_fits:
  assumes "TailForTelegram wide_punct md limit = Some r"
  shows "if limit \<le> 0 then r = []
    else \<exists>html. ConvertMarkdown wide_punct r = Some html \<and> renderedUTF16Len html \<le> limit"
proof (cases "limit \<le> 0")
  case True
  then show ?thesis using assms by (simp add: TailForTelegram_def)
next
  case False
  then have "within wide_punct limit r"
    using assms literal_tail_within [of "split_lines md" limit r wide_punct]
      preview_loop_within [of wide_punct md "split_lines md" limit _ _ r]
    by (auto simp: TailForTelegram_def Let_def split: if_splits option.splits)
  with False show ?thesis by (simp add: within_iff)
qed

lemma sample_tail: "TailForTelegram (\<lambda>_. False) ''ab'' 8 = Some ''ab''"
proof -
  have trim: "trim_space ''ab'' = ''ab''" by (simp add: trim_space_solid is_space_def)
  have plain: "isFence ''ab'' = False" "isTableStart [''ab''] 0 = False" "headingRe ''ab'' = None" "ruleRe ''ab'' = False"
    "listItemRe ''ab'' = None" "has_prefix ''ab'' ''>'' = False"
    by (simp_all add: isFence_def isTableStart_def headingRe_def ruleRe_def listItemRe_def item_marker_def has_prefix_def
        inlineLinkSpace_def is_digit_def)
  have "paragraphEnd [''ab''] 0 = 1" by (simp add: paragraphEnd_def paragraph_loop.simps)
  then have block: "collectMarkdownBlock [''ab''] 0 = \<lparr>block_kind = markdownParagraph, block_end = 1, block_body = []\<rparr>"
    using plain by (simp add: collectMarkdownBlock_def trim Let_def)
  have start: "previewTailStart ''ab'' 8 = 0"
    by (simp add: previewTailStart_def tail_loop.simps decode_last_rune_def rune_units_def)
  have prefix: "previewBlockPrefix [''ab''] 0 8 0 = Some ([], 0)"
    by (subst previewBlockPrefix.simps) (simp add: block block_prefix_def)
  have final: "final_block [''ab''] 0 = Some (0, collectMarkdownBlock [''ab''] 0)" by (subst final_block.simps) (simp add: block)
  have inline: "previewInline (\<lambda>_. False) ''ab'' = ''ab''" by (simp add: previewInline_def)
  have project: "projectPreviewLines (\<lambda>_. False) [''ab''] = Some ([''ab''], False)"
    by (subst projectPreviewLines.simps) (simp add: final block project_block_def inline)
  have fit: "converts_within (\<lambda>_. False) 8 ''ab'' = Some True"
    by (simp add: converts_within_def convertLen_def plainASCIIText_def)
  have lines: "split_lines ''ab'' = [''ab'']" by (simp add: newline_def)
  have "preview_loop (\<lambda>_. False) ''ab'' [''ab''] 8 0 0 = Some ''ab''"
    by (subst preview_loop.simps) (simp add: prefix start stable_tail_def lines project fitting_or_literal_def fit newline_def)
  then show ?thesis unfolding TailForTelegram_def Let_def lines by (simp add: start)
qed

theorem TailForTelegram_fits_witness:
  "\<exists>html. ConvertMarkdown (\<lambda>_. False) ''ab'' = Some html \<and> renderedUTF16Len html \<le> 8"
  using TailForTelegram_fits [OF sample_tail] by simp

end
