(* ===== verification/GoStd.thy ===== *)
theory GoStd
  imports GoStrings Prelude
begin

text \<open>
  The parts of Go's \<open>strconv\<close>, \<open>time\<close>, \<open>unicode\<close>, \<open>encoding/hex\<close>, \<open>encoding/binary\<close> and
  \<open>path/filepath\<close> packages that the configuration, process and bridge code uses, over byte strings.
\<close>

section \<open>Characters\<close>

definition is_digit_char :: "char \<Rightarrow> bool" where
  "is_digit_char c \<longleftrightarrow> 48 \<le> (of_char c :: nat) \<and> of_char c \<le> (57 :: nat)"

definition is_upper_char :: "char \<Rightarrow> bool" where
  "is_upper_char c \<longleftrightarrow> 65 \<le> (of_char c :: nat) \<and> of_char c \<le> (90 :: nat)"

definition is_lower_char :: "char \<Rightarrow> bool" where
  "is_lower_char c \<longleftrightarrow> 97 \<le> (of_char c :: nat) \<and> of_char c \<le> (122 :: nat)"

text \<open>\<open>unicode.IsControl\<close>: category Cc, the C0 and C1 controls and DEL.\<close>

definition is_control :: "rune \<Rightarrow> bool" where
  "is_control r \<longleftrightarrow> r < 32 \<or> (127 \<le> r \<and> r < 160)"

text \<open>\<open>utf8.ValidString\<close>: no byte decodes as the error rune of width one.\<close>

definition valid_utf8 :: "string \<Rightarrow> bool" where
  "valid_utf8 s \<longleftrightarrow> list_all (\<lambda>(r, bytes). \<not> (r = rune_error \<and> length bytes = 1)) (runes s)"

text \<open>\<open>strings.Cut\<close> at a one-byte separator, the part before it.\<close>

definition before_char :: "char \<Rightarrow> string \<Rightarrow> string" where
  "before_char c s = takeWhile (\<lambda>x. x \<noteq> c) s"

text \<open>\<open>strings.EqualFold\<close> with an ASCII text: simple folding also takes the long s and the Kelvin
  sign to their ASCII letters.\<close>

definition fold_rune :: "rune \<Rightarrow> rune" where
  "fold_rune r = (if 65 \<le> r \<and> r \<le> 90 then r + 32 else if r = 383 then 115 else if r = 8490 then 107 else r)"

definition equal_fold_ascii :: "string \<Rightarrow> string \<Rightarrow> bool" where
  "equal_fold_ascii s t \<longleftrightarrow> map (fold_rune \<circ> fst) (runes s) = map (fold_rune \<circ> fst) (runes t)"

section \<open>strconv.ParseInt(s, 10, 64)\<close>

definition parse_digits :: "string \<Rightarrow> nat option" where
  "parse_digits s = (if s \<noteq> [] \<and> list_all is_digit_char s then Some (decimal_value s) else None)"

definition parse_int :: "string \<Rightarrow> int64 option" where
  "parse_int s =
     (let negative = has_prefix s ''-'';
          digits = (if negative \<or> has_prefix s ''+'' then tl s else s)
      in case parse_digits digits of
           None \<Rightarrow> None
         | Some n \<Rightarrow>
             (let i = (if negative then - int n else int n)
              in if in_int64 i then Some i else None))"

lemma is_digit_nat_decimal: "list_all is_digit_char (nat_decimal n)"
  using nat_decimal_digits by (auto simp: list_all_iff is_digit_char_def)

lemma parse_digits_decimal [simp]: "parse_digits (nat_decimal n) = Some n"
  by (simp add: parse_digits_def is_digit_nat_decimal)

lemma nat_decimal_no_sign: "\<not> has_prefix (nat_decimal n) ''-''" "\<not> has_prefix (nat_decimal n) ''+''"
proof -
  have head: "is_digit_char (hd (nat_decimal n))"
    using is_digit_nat_decimal [of n] by (cases "nat_decimal n") auto
  show "\<not> has_prefix (nat_decimal n) ''-''"
    using head by (cases "nat_decimal n") (auto simp: has_prefix_def is_digit_char_def)
  show "\<not> has_prefix (nat_decimal n) ''+''"
    using head by (cases "nat_decimal n") (auto simp: has_prefix_def is_digit_char_def)
qed

lemma parse_int_range: "parse_int s = Some n \<Longrightarrow> in_int64 n"
  by (auto simp: parse_int_def Let_def split: option.splits if_splits)

lemma parse_int_decimal: "in_int64 n \<Longrightarrow> parse_int (int_decimal n) = Some n"
  using nat_decimal_no_sign [of "nat n"]
  by (auto simp: parse_int_def int_decimal_def Let_def has_prefix_def)

section \<open>time.ParseDuration\<close>

text \<open>
  Nanoseconds. Only the rounding of a fractional part is a parameter: \<open>fraction f k unit\<close> is
  \<open>uint64(float64(f) * (float64(unit) / scale))\<close> with \<open>scale\<close> the product of \<open>k\<close> factors ten in
  \<open>float64\<close> arithmetic.
\<close>

definition two63 :: nat where
  "two63 = 9223372036854775808"

text \<open>The loop of \<open>leadingInt\<close>: it stops with an error when the value passes \<open>2^63\<close>.\<close>

fun leading_int :: "nat \<Rightarrow> string \<Rightarrow> (nat \<times> string) option" where
  "leading_int x [] = Some (x, [])"
| "leading_int x (c # s) =
     (if \<not> is_digit_char c then Some (x, c # s)
      else if x > two63 div 10 then None
      else (let y = x * 10 + digit_value c in if y > two63 then None else leading_int y s))"

fun leading_fraction :: "bool \<Rightarrow> nat \<Rightarrow> nat \<Rightarrow> string \<Rightarrow> nat \<times> nat \<times> string" where
  "leading_fraction overflow x k [] = (x, k, [])"
| "leading_fraction overflow x k (c # s) =
     (if \<not> is_digit_char c then (x, k, c # s)
      else if overflow then leading_fraction True x k s
      else if x > (two63 - 1) div 10 then leading_fraction True x k s
      else (let y = x * 10 + digit_value c
            in if y > two63 then leading_fraction True x k s else leading_fraction False y (Suc k) s))"

definition duration_unit :: "string \<Rightarrow> nat option" where
  "duration_unit u =
     (if u = ''ns'' then Some 1
      else if u = ''us'' \<or> u = [CHR 0xC2, CHR 0xB5, CHR ''s''] \<or> u = [CHR 0xCE, CHR 0xBC, CHR ''s''] then Some 1000
      else if u = ''ms'' then Some 1000000
      else if u = ''s'' then Some 1000000000
      else if u = ''m'' then Some 60000000000
      else if u = ''h'' then Some 3600000000000
      else None)"

definition unit_stop :: "char \<Rightarrow> bool" where
  "unit_stop c \<longleftrightarrow> c = CHR ''.'' \<or> is_digit_char c"

text \<open>One round of the loop: a number, its unit, and the rest of the text.\<close>

definition duration_term :: "(nat \<Rightarrow> nat \<Rightarrow> nat \<Rightarrow> nat) \<Rightarrow> string \<Rightarrow> (nat \<times> string) option" where
  "duration_term fraction s =
     (if s = [] \<or> \<not> unit_stop (hd s) then None
      else case leading_int 0 s of
        None \<Rightarrow> None
      | Some (v, s1) \<Rightarrow>
          (let pre = (length s1 \<noteq> length s);
               dotted = (s1 \<noteq> [] \<and> hd s1 = CHR ''.'');
               (f, k, s2) = (if dotted then leading_fraction False 0 0 (tl s1) else (0, 0, s1));
               post = (dotted \<and> length s2 \<noteq> length (tl s1));
               u = takeWhile (\<lambda>c. \<not> unit_stop c) s2;
               s3 = dropWhile (\<lambda>c. \<not> unit_stop c) s2
           in if \<not> pre \<and> \<not> post then None
              else if u = [] then None
              else case duration_unit u of
                None \<Rightarrow> None
              | Some unit \<Rightarrow>
                  if v > two63 div unit then None
                  else (let w = v * unit + (if f > 0 then fraction f k unit else 0)
                        in if f > 0 \<and> w > two63 then None else Some (w, s3))))"

lemma length_leading_int: "leading_int x s = Some (v, t) \<Longrightarrow> length t \<le> length s"
  by (induction x s rule: leading_int.induct) (fastforce simp: Let_def split: if_splits)+

lemma length_leading_fraction: "length (snd (snd (leading_fraction b x k s))) \<le> length s"
proof (induction b x k s rule: leading_fraction.induct)
  case (2 overflow x k c s)
  then show ?case by (cases overflow) (auto simp: Let_def le_SucI)
qed simp

lemma length_dropWhile_take: "takeWhile p s \<noteq> [] \<Longrightarrow> length (dropWhile p s) < length s"
proof -
  assume "takeWhile p s \<noteq> []"
  then have "0 < length (takeWhile p s)" by simp
  moreover have "length (takeWhile p s) + length (dropWhile p s) = length s"
    by (metis length_append takeWhile_dropWhile_id)
  ultimately show ?thesis by linarith
qed

lemma duration_term_shorter:
  assumes "duration_term fraction s = Some (w, t)"
  shows "length t < length s"
proof -
  obtain v s1 where lead: "leading_int 0 s = Some (v, s1)"
    using assms by (auto simp: duration_term_def split: if_splits option.splits)
  define r where "r = (if s1 \<noteq> [] \<and> hd s1 = CHR ''.'' then leading_fraction False 0 0 (tl s1) else (0, 0, s1))"
  have s1: "length s1 \<le> length s" by (rule length_leading_int [OF lead])
  have r: "length (snd (snd r)) \<le> length s1"
    using length_leading_fraction [of False 0 0 "tl s1"] by (auto simp: r_def)
  have "takeWhile (\<lambda>c. \<not> unit_stop c) (snd (snd r)) \<noteq> [] \<and> t = dropWhile (\<lambda>c. \<not> unit_stop c) (snd (snd r))"
    using assms lead unfolding duration_term_def r_def [symmetric]
    by (auto simp: Let_def r_def split: if_splits option.splits prod.splits)
  with length_dropWhile_take [of "\<lambda>c. \<not> unit_stop c" "snd (snd r)"] r s1 show ?thesis by simp
qed

function duration_terms :: "(nat \<Rightarrow> nat \<Rightarrow> nat \<Rightarrow> nat) \<Rightarrow> nat \<Rightarrow> string \<Rightarrow> nat option" where
  "duration_terms fraction d s =
     (if s = [] then Some d
      else case duration_term fraction s of
        None \<Rightarrow> None
      | Some (v, t) \<Rightarrow> if d + v > two63 then None else duration_terms fraction (d + v) t)"
  by pat_completeness auto
termination
  using duration_term_shorter by (relation "measure (\<lambda>(f, d, s). length s)") auto

declare duration_terms.simps [simp del]

definition parse_duration :: "(nat \<Rightarrow> nat \<Rightarrow> nat \<Rightarrow> nat) \<Rightarrow> string \<Rightarrow> int64 option" where
  "parse_duration fraction s =
     (let negative = has_prefix s ''-'';
          t = (if negative \<or> has_prefix s ''+'' then tl s else s)
      in if t = ''0'' then Some 0
         else if t = [] then None
         else case duration_terms fraction 0 t of
             None \<Rightarrow> None
           | Some d \<Rightarrow>
               if negative then Some (- int d)
               else if d > two63 - 1 then None else Some (int d))"

lemma duration_terms_bound: "duration_terms fraction d s = Some n \<Longrightarrow> d \<le> two63 \<Longrightarrow> n \<le> two63"
proof (induction fraction d s rule: duration_terms.induct)
  case (1 fraction d s)
  from "1.prems" show ?case
    by (subst (asm) duration_terms.simps) (auto split: if_splits option.splits dest: "1.IH")
qed

lemma parse_duration_range: "parse_duration fraction s = Some n \<Longrightarrow> in_int64 n"
  using duration_terms_bound [of fraction 0]
  by (fastforce simp: parse_duration_def Let_def in_int64_def max_int64_def two63_def split: if_splits option.splits)

section \<open>path/filepath\<close>

text \<open>\<open>Clean\<close>: the lexical loop over the slash-separated elements; \<open>rev_out\<close> is the output so far,
  last element first.\<close>

fun clean_elements :: "bool \<Rightarrow> string list \<Rightarrow> string list \<Rightarrow> string list" where
  "clean_elements rooted rev_out [] = rev rev_out"
| "clean_elements rooted rev_out (e # es) =
     (if e = [] \<or> e = ''.'' then clean_elements rooted rev_out es
      else if e = ''..'' then
        (if rev_out \<noteq> [] \<and> hd rev_out \<noteq> ''..'' then clean_elements rooted (tl rev_out) es
         else if rooted then clean_elements rooted rev_out es
         else clean_elements rooted (e # rev_out) es)
      else clean_elements rooted (e # rev_out) es)"

definition path_clean :: "string \<Rightarrow> string" where
  "path_clean p =
     (let rooted = path_is_abs p;
          text = join ''/'' (clean_elements rooted [] (split_on (CHR ''/'') p))
      in if rooted then ''/'' @ text else if text = [] then ''.'' else text)"

definition path_join :: "string list \<Rightarrow> string" where
  "path_join elements =
     (case dropWhile (\<lambda>e. e = []) elements of
        [] \<Rightarrow> []
      | es \<Rightarrow> path_clean (join ''/'' es))"

definition path_dir :: "string \<Rightarrow> string" where
  "path_dir p = path_clean (rev (dropWhile (\<lambda>c. c \<noteq> CHR ''/'') (rev p)))"

lemma path_clean_abs: "path_is_abs p \<Longrightarrow> path_is_abs (path_clean p)"
  by (simp add: path_clean_def path_is_abs_def has_prefix_def)

lemma path_join_abs: "path_is_abs p \<Longrightarrow> path_is_abs (path_join (p # ps))"
proof -
  assume p: "path_is_abs p"
  then have "p \<noteq> []" by (auto simp: path_is_abs_def has_prefix_def)
  moreover have "path_is_abs (join ''/'' (p # ps))"
    using p by (cases ps) (auto simp: path_is_abs_def has_prefix_def)
  ultimately show ?thesis by (simp add: path_join_def path_clean_abs)
qed

section \<open>encoding/hex and encoding/binary\<close>

definition hex_digit :: "nat \<Rightarrow> char" where
  "hex_digit d = (if d < 10 then char_of (48 + d) else char_of (87 + d))"

definition hex_encode :: "string \<Rightarrow> string" where
  "hex_encode s = concat (map (\<lambda>c. [hex_digit (of_char c div 16), hex_digit (of_char c mod 16)]) s)"

text \<open>\<open>BigEndian.PutUint64\<close>.\<close>

fun big_endian :: "nat \<Rightarrow> nat \<Rightarrow> string" where
  "big_endian 0 n = []"
| "big_endian (Suc k) n = big_endian k (n div 256) @ [char_of (n mod 256)]"

lemma length_big_endian [simp]: "length (big_endian k n) = k"
  by (induction k arbitrary: n) auto

lemma big_endian_inject: "big_endian k m = big_endian k n \<Longrightarrow> m < 256 ^ k \<Longrightarrow> n < 256 ^ k \<Longrightarrow> m = n"
proof (induction k arbitrary: m n)
  case (Suc k)
  have low: "m mod 256 = n mod 256"
  proof -
    have "(of_char (char_of (m mod 256) :: char) :: nat) = of_char (char_of (n mod 256) :: char)"
      using Suc.prems by simp
    then show ?thesis by (simp add: of_char_mod_256)
  qed
  have "m div 256 < 256 ^ k" "n div 256 < 256 ^ k"
    using Suc.prems by (auto simp: less_mult_imp_div_less mult.commute)
  then have "m div 256 = n div 256" using Suc by auto
  with low show ?case by (metis div_mult_mod_eq)
qed simp

end
