(* ===== verification/OmpPolicy.thy ===== *)
theory OmpPolicy
  imports GoStd
begin

text \<open>
  What \<open>internal/omp\<close> and \<open>internal/logging\<close> check of the operator's settings: the policy on the
  environment of the child process (\<open>env.go\<close>), the arguments a preset may hold (\<open>ValidateArgs\<close>,
  \<open>client.go\<close>) and the logging levels (\<open>logging.go\<close>).
\<close>

section \<open>Errors of the configuration code\<close>

text \<open>An error is its text, or a text put before a wrapped error (\<open>%s: %w\<close>).\<close>

datatype config_error =
    Message string
  | InvalidReference
  | MissingBrace
  | UnsetVariable string
  | InField string config_error
  | BadField string string
  | BadAction nat string string

text \<open>\<open>if err != nil { return err }\<close>.\<close>

definition and_then :: "'e + 'a \<Rightarrow> ('a \<Rightarrow> 'e + 'b) \<Rightarrow> 'e + 'b" where
  "and_then r f = (case r of Inl e \<Rightarrow> Inl e | Inr x \<Rightarrow> f x)"

lemma and_then_simps [simp]: "and_then (Inl e) f = Inl e" "and_then (Inr x) f = f x"
  by (simp_all add: and_then_def)

lemma and_then_Inr [simp]: "and_then r f = Inr y \<longleftrightarrow> (\<exists>x. r = Inr x \<and> f x = Inr y)"
  by (cases r) auto

section \<open>The environment of the child\<close>

record environment =
  allowlist :: bool
  allowed :: "string set"
  denied :: "string set"

definition empty_environment :: environment where
  "empty_environment = \<lparr>allowlist = False, allowed = {}, denied = {}\<rparr>"

definition env_name_start :: "char \<Rightarrow> bool" where
  "env_name_start c \<longleftrightarrow> c = CHR ''_'' \<or> is_lower_char c \<or> is_upper_char c"

definition env_name_char :: "char \<Rightarrow> bool" where
  "env_name_char c \<longleftrightarrow> env_name_start c \<or> is_digit_char c"

definition validEnvironmentName :: "string \<Rightarrow> bool" where
  "validEnvironmentName name \<longleftrightarrow>
     (case name of [] \<Rightarrow> False | c # cs \<Rightarrow> env_name_start c \<and> list_all env_name_char cs)"

definition NewEnvironment :: "string \<Rightarrow> string list option \<Rightarrow> string list option \<Rightarrow> config_error + environment" where
  "NewEnvironment mode allow deny =
     (if mode = ''denylist'' then
        (if allow \<noteq> None then Inl (Message ''omp: denylist environment cannot specify an allow list'')
         else case deny of
             None \<Rightarrow> Inr empty_environment
           | Some names \<Rightarrow>
               if names = [] then Inr empty_environment
               else if \<not> list_all validEnvironmentName names
               then Inl (Message ''omp: invalid denied environment variable'')
               else Inr \<lparr>allowlist = False, allowed = {}, denied = set names\<rparr>)
      else if mode = ''allowlist'' then
        (if deny \<noteq> None then Inl (Message ''omp: allowlist environment cannot specify a deny list'')
         else case allow of
             None \<Rightarrow> Inr \<lparr>allowlist = True, allowed = {}, denied = {}\<rparr>
           | Some names \<Rightarrow>
               if names = [] then Inr \<lparr>allowlist = True, allowed = {}, denied = {}\<rparr>
               else if \<not> list_all validEnvironmentName names
               then Inl (Message ''omp: invalid allowed environment variable'')
               else Inr \<lparr>allowlist = True, allowed = set names, denied = {}\<rparr>)
      else Inl (Message ''omp: invalid environment mode''))"

definition permits :: "environment \<Rightarrow> string \<Rightarrow> bool" where
  "permits e name = (if allowlist e then name \<in> allowed e else name \<notin> denied e)"

text \<open>The process environment is the list \<open>os.Environ\<close> of \<open>NAME=value\<close> entries; \<open>os.LookupEnv\<close>
  is a map.\<close>

definition Lookup :: "(string \<Rightarrow> string option) \<Rightarrow> environment \<Rightarrow> string \<Rightarrow> string option" where
  "Lookup env e name = (if \<not> permits e name then None else env name)"

definition entry_name :: "string \<Rightarrow> string" where
  "entry_name entry = before_char (CHR ''='') entry"

fun filter_entries :: "environment \<Rightarrow> string list \<Rightarrow> string list" where
  "filter_entries e [] = []"
| "filter_entries e (entry # env) =
     (if \<not> permits e (entry_name entry) then filter_entries e env else entry # filter_entries e env)"

definition ChildEnv :: "string list \<Rightarrow> environment \<Rightarrow> string list" where
  "ChildEnv environ e = filter_entries e environ"

lemma ChildEnv_filter: "ChildEnv environ e = filter (permits e \<circ> entry_name) environ"
  unfolding ChildEnv_def by (induction environ) auto

section \<open>Arguments of a preset\<close>

definition reserved_flags :: "string list" where
  "reserved_flags = [''--'', ''--mode'', ''--cwd'', ''--resume'', ''--session'', ''--continue'', ''--print'',
     ''--no-session'', ''--export'']"

definition valid_arg :: "string \<Rightarrow> config_error + unit" where
  "valid_arg arg =
     (if before_char (CHR ''='') arg \<in> set reserved_flags
       \<or> has_prefix arg ''-r'' \<or> has_prefix arg ''-c'' \<or> has_prefix arg ''-p''
      then Inl (Message ''omp.args cannot override RPC mode, working directory, or session lifecycle'')
      else if CHR 0x00 \<in> set arg then Inl (Message ''omp.args cannot contain NUL bytes'')
      else Inr ())"

fun ValidateArgs :: "string list \<Rightarrow> config_error + unit" where
  "ValidateArgs [] = Inr ()"
| "ValidateArgs (arg # args) = and_then (valid_arg arg) (\<lambda>_. ValidateArgs args)"

definition argument_allowed :: "string \<Rightarrow> bool" where
  "argument_allowed arg \<longleftrightarrow>
     before_char (CHR ''='') arg \<notin> set reserved_flags \<and> CHR 0x00 \<notin> set arg
     \<and> \<not> has_prefix arg ''-r'' \<and> \<not> has_prefix arg ''-c'' \<and> \<not> has_prefix arg ''-p''"

lemma ValidateArgs_ok: "ValidateArgs args = Inr () \<longleftrightarrow> list_all argument_allowed args"
  by (induction args) (auto simp: valid_arg_def argument_allowed_def)

section \<open>Logging levels\<close>

definition log_components :: "string list" where
  "log_components = [''daemon'', ''bridge'', ''rpc'', ''telegram'', ''store'', ''media'']"

definition ValidateComponent :: "string \<Rightarrow> config_error + unit" where
  "ValidateComponent name =
     (if name \<notin> set log_components then Inl (Message ''unknown log component'') else Inr ())"

definition validLevel :: "string \<Rightarrow> bool" where
  "validLevel level \<longleftrightarrow> level \<in> {''debug'', ''info'', ''warn'', ''error''}"

text \<open>\<open>Options.ComponentLevels\<close> is an association list in the order of the sorted component names.\<close>

record log_options =
  Level :: string
  Format :: string
  ComponentLevels :: "(string \<times> string) list"

fun check_components :: "string list \<Rightarrow> config_error + unit" where
  "check_components [] = Inr ()"
| "check_components (c # cs) = and_then (ValidateComponent c) (\<lambda>_. check_components cs)"

fun check_levels :: "(string \<times> string) list \<Rightarrow> config_error + unit" where
  "check_levels [] = Inr ()"
| "check_levels ((c, level) # ls) =
     (if \<not> validLevel level
      then Inl (BadField (''logging.component_levels.'' @ c) ''must be debug, info, warn, or error'')
      else check_levels ls)"

definition log_validate :: "log_options \<Rightarrow> config_error + unit" where
  "log_validate opts =
     (if \<not> validLevel (Level opts) then Inl (Message ''logging.level must be debug, info, warn, or error'')
      else if Format opts \<noteq> ''text'' \<and> Format opts \<noteq> ''json''
      then Inl (Message ''logging.format must be text or json'')
      else and_then (check_components (map fst (ComponentLevels opts)))
        (\<lambda>_. check_levels (ComponentLevels opts)))"

lemma check_components_ok [simp]: "check_components cs = Inr () \<longleftrightarrow> set cs \<subseteq> set log_components"
  by (induction cs) (auto simp: ValidateComponent_def)

lemma check_levels_ok [simp]: "check_levels ls = Inr () \<longleftrightarrow> (\<forall>l \<in> set ls. validLevel (snd l))"
  by (induction ls rule: check_levels.induct) auto

lemma log_validate_ok: "log_validate opts = Inr () \<longleftrightarrow>
    validLevel (Level opts) \<and> Format opts \<in> {''text'', ''json''}
    \<and> (\<forall>(c, l) \<in> set (ComponentLevels opts). c \<in> set log_components \<and> validLevel l)"
  unfolding log_validate_def by (auto split: if_splits)

end
