(* ===== verification/Config.thy ===== *)
theory Config
  imports OmpPolicy
begin

text \<open>
  \<open>internal/config\<close>: the decoded file, the expansion of environment references, the checks of every
  section and \<open>load\<close>, which turns a file into a \<open>Config\<close> or an error.

  The TOML decoder and the shell lexer are third-party packages, and the file system is the
  operating system: they are the fields of the record \<open>host\<close> below, and so are \<open>crypto/sha256\<close> and the
  Unicode letter table outside ASCII. The errors \<open>load\<close> returns carry the partly filled \<open>Config\<close> in the
  code; every caller drops it, so an error here is its text.
\<close>

section \<open>The file as decoded\<close>

text \<open>A value of type \<open>any\<close>: the decoder gives an \<open>int64\<close>, a string, an array, or something else.\<close>

datatype go_any = AnyString string | AnyInt int64 | AnyStrings "string list" | AnyList "go_any list" | AnyOther

record FinalAction =
  Label :: string
  Command :: string

text \<open>A slice that may be nil, or a pointer to one, is an option.\<close>

record statusBarFileConfig =
  sbProgress :: "string list option"
  sbIntermediate :: "string list option"
  sbFinal :: "string list option"
  sbGitCommand :: "string list"
  sbGitTimeout :: "string option"

record telegramFileConfig =
  tgToken :: string
  tgAllowedUsers :: "go_any list"
  tgAllowedChats :: "go_any list"
  tgProgressMode :: string
  tgProgressRecentTools :: go_any
  tgStatusBar :: statusBarFileConfig
  tgFinalActions :: "FinalAction list"

record ompEnvironmentFileConfig =
  envMode :: string
  envAllow :: "string list option"
  envDeny :: "string list option"

record ompFileConfig =
  ompBinary :: string
  ompArgs :: go_any
  ompArgsLabels :: "string list"
  ompMigrationExtension :: bool
  ompEnvironment :: ompEnvironmentFileConfig

record storageFileConfig =
  stDataDir :: string
  stWorkspaceRoot :: string
  stDatabaseRetentionDays :: go_any

record workerFileConfig =
  wkMaxWorkers :: go_any
  wkQueueCapacity :: go_any
  wkIdleTimeout :: string

text \<open>The component levels are listed in the order in which \<open>load\<close> reads the six fields.\<close>

record loggingComponentFileConfig =
  lcBridge :: "string option"
  lcDaemon :: "string option"
  lcMedia :: "string option"
  lcRPC :: "string option"
  lcStore :: "string option"
  lcTelegram :: "string option"

record loggingFileConfig =
  lgLevel :: string
  lgFormat :: string
  lgComponentLevels :: loggingComponentFileConfig

record fileConfig =
  Telegram :: telegramFileConfig
  OMP :: ompFileConfig
  Storage :: storageFileConfig
  Worker :: workerFileConfig
  Logging :: loggingFileConfig

section \<open>The configuration\<close>

record StatusBar =
  Progress :: "string list option"
  Intermediate :: "string list option"
  Final :: "string list option"
  GitCommand :: "string list"
  GitTimeout :: int64

record Config =
  Token :: string
  AllowedUsers :: "int64 list"
  AllowedChats :: "int64 list"
  WorkspaceRoot :: string
  OMPPath :: string
  OMPArgs :: "string list list"
  OMPArgsLabels :: "string list"
  OMPArgsFingerprint :: string
  OMPEnvironment :: environment
  DataDir :: string
  MaxWorkers :: int64
  QueueCapacity :: int64
  DatabaseRetentionDays :: int64
  ProgressMode :: string
  ProgressRecentTools :: int64
  StatusBar :: StatusBar
  FinalActions :: "FinalAction list"
  UnknownFields :: "(nat \<times> nat) list"
  IdleTimeout :: int64
  LogLevel :: string
  LogFormat :: string
  LogComponentLevels :: "(string \<times> string) list"

section \<open>What the operating system and the packages do\<close>

datatype node = Directory | Regular string | Special

type_synonym filesystem = "string \<Rightarrow> node option"

record host =
  env :: "string \<Rightarrow> string option"
  working_dir :: "string option"
  executable :: "string option"
  eval_symlinks :: "string \<Rightarrow> string option"
  look_path :: "string \<Rightarrow> string option"
  mkdir_all :: "string \<Rightarrow> filesystem \<Rightarrow> filesystem option"
  io_fails :: "string \<Rightarrow> string \<Rightarrow> bool"
  temp_file :: "filesystem \<Rightarrow> string \<Rightarrow> string"
  decode_toml :: "fileConfig \<Rightarrow> string \<Rightarrow> (fileConfig \<times> (nat \<times> nat) list) option"
  shlex_split :: "string \<Rightarrow> string list option"
  sha256 :: "string \<Rightarrow> string"
  fraction :: "nat \<Rightarrow> nat \<Rightarrow> nat \<Rightarrow> nat"
  wide_letter :: "rune \<Rightarrow> bool"
  default_config :: string
  migration_extension :: string

text \<open>\<open>os.Getenv\<close> and \<open>filepath.Abs\<close>.\<close>

definition getenv :: "host \<Rightarrow> string \<Rightarrow> string" where
  "getenv h name = (case env h name of None \<Rightarrow> [] | Some v \<Rightarrow> v)"

definition path_abs :: "host \<Rightarrow> string \<Rightarrow> string option" where
  "path_abs h p =
     (if path_is_abs p then Some (path_clean p)
      else map_option (\<lambda>wd. path_join [wd, p]) (working_dir h))"

section \<open>Environment references\<close>

lemma length_dropWhile_Suc: "length (dropWhile p s) < Suc (length s)"
  using length_dropWhile_le [of p s] by (simp add: le_imp_less_Suc)

lemma length_tl_dropWhile_Suc: "length (tl (dropWhile p s)) < Suc (length s)"
  using length_dropWhile_le [of p s] by simp

text \<open>What follows a \<open>$\<close>: the replacement, and the text after the reference.\<close>

definition reference :: "(string \<Rightarrow> string option) \<Rightarrow> string \<Rightarrow> config_error + (string \<times> string)" where
  "reference getvar s =
     (if s \<noteq> [] \<and> hd s = CHR ''$'' then Inr (''$'', tl s)
      else (let braced = (s \<noteq> [] \<and> hd s = CHR ''{'');
                s1 = (if braced then tl s else s)
            in if s1 = [] \<or> \<not> env_name_start (hd s1) then Inl InvalidReference
               else (let name = takeWhile env_name_char s1;
                         s2 = dropWhile env_name_char s1
                     in if braced \<and> (s2 = [] \<or> hd s2 \<noteq> CHR ''}'') then Inl MissingBrace
                        else case getvar name of
                            None \<Rightarrow> Inl (UnsetVariable name)
                          | Some v \<Rightarrow> Inr (v, if braced then tl s2 else s2))))"

lemma reference_shorter: "reference getvar s = Inr (v, t) \<Longrightarrow> length t < Suc (length s)"
  using length_dropWhile_le [of env_name_char s] length_dropWhile_le [of env_name_char "tl s"]
  by (auto simp: reference_def Let_def split: if_splits option.splits)

function expand_loop :: "(string \<Rightarrow> string option) \<Rightarrow> string \<Rightarrow> string \<Rightarrow> config_error + string" where
  "expand_loop getvar result [] = Inr result"
| "expand_loop getvar result (c # s) =
     (if c \<noteq> CHR ''$'' then expand_loop getvar (result @ [c]) s
      else case reference getvar s of
          Inl e \<Rightarrow> Inl e
        | Inr (v, t) \<Rightarrow> expand_loop getvar (result @ v) t)"
  by pat_completeness auto
termination
  by (relation "measure (\<lambda>(g, r, s). length s)") (auto dest: reference_shorter)

definition expand :: "(string \<Rightarrow> string option) \<Rightarrow> string \<Rightarrow> config_error + string" where
  "expand getvar value = (if CHR ''$'' \<notin> set value then Inr value else expand_loop getvar [] value)"

text \<open>An error of \<open>expand\<close> under the name of its field.\<close>

definition expand_field :: "(string \<Rightarrow> string option) \<Rightarrow> string \<Rightarrow> string \<Rightarrow> config_error + string" where
  "expand_field getvar name value =
     (case expand getvar value of Inl e \<Rightarrow> Inl (InField name e) | Inr v \<Rightarrow> Inr v)"

section \<open>Numbers, lists of numbers, durations\<close>

definition integer :: "(string \<Rightarrow> string option) \<Rightarrow> string \<Rightarrow> go_any \<Rightarrow> config_error + int64" where
  "integer getvar field value =
     (let bad = Inl (BadField field ''must contain an integer or a decimal integer string'')
      in case value of
           AnyInt n \<Rightarrow> Inr n
         | AnyString s \<Rightarrow>
             and_then (expand_field getvar field s)
               (\<lambda>expanded. case parse_int expanded of Some n \<Rightarrow> Inr n | None \<Rightarrow> bad)
         | _ \<Rightarrow> bad)"

fun integer_items :: "string \<Rightarrow> string list \<Rightarrow> config_error + int64 list" where
  "integer_items field [] = Inr []"
| "integer_items field (item # items) =
     (case parse_int (trim_space item) of
        None \<Rightarrow> Inl (BadField field ''must contain decimal IDs separated by commas, without empty entries'')
      | Some n \<Rightarrow> and_then (integer_items field items) (\<lambda>ns. Inr (n # ns)))"

fun integers_loop :: "(string \<Rightarrow> string option) \<Rightarrow> string \<Rightarrow> int64 list \<Rightarrow> go_any list \<Rightarrow> config_error + int64 list" where
  "integers_loop getvar field result [] = Inr result"
| "integers_loop getvar field result (value # vs) =
     (case value of
        AnyString s \<Rightarrow>
          and_then (expand_field getvar field s) (\<lambda>expanded.
          and_then (integer_items field (split_on (CHR '','') expanded)) (\<lambda>ns.
            integers_loop getvar field (result @ ns) vs))
      | _ \<Rightarrow> and_then (integer getvar field value) (\<lambda>n. integers_loop getvar field (result @ [n]) vs))"

definition integers :: "(string \<Rightarrow> string option) \<Rightarrow> string \<Rightarrow> go_any list \<Rightarrow> config_error + int64 list" where
  "integers getvar field values = integers_loop getvar field [] values"

definition parseIdleTimeout :: "host \<Rightarrow> string \<Rightarrow> string \<Rightarrow> config_error + int64" where
  "parseIdleTimeout h field value =
     and_then (expand_field (env h) field value) (\<lambda>expanded.
       let v = trim_space expanded
       in if v = [] \<or> v = ''0'' \<or> equal_fold_ascii v ''disabled'' then Inr 0
          else case parse_duration (fraction h) v of
              Some d \<Rightarrow> if d \<le> 0 then Inl (BadField field ''must be 0, disabled, or a positive Go duration'') else Inr d
            | None \<Rightarrow> Inl (BadField field ''must be 0, disabled, or a positive Go duration''))"

section \<open>Presets of omp arguments\<close>

fun string_entries :: "go_any list \<Rightarrow> config_error + string list" where
  "string_entries [] = Inr []"
| "string_entries (AnyString s # vs) = and_then (string_entries vs) (\<lambda>ss. Inr (s # ss))"
| "string_entries (_ # vs) = Inl (Message ''omp.args must be a string or an array of strings'')"

definition ompArgSources :: "go_any \<Rightarrow> config_error + string list" where
  "ompArgSources value =
     (case value of
        AnyString s \<Rightarrow> Inr [s]
      | AnyStrings ss \<Rightarrow> if ss = [] then Inr [[]] else Inr ss
      | AnyList vs \<Rightarrow> if vs = [] then Inr [[]] else string_entries vs
      | _ \<Rightarrow> Inl (Message ''omp.args must be a string or an array of strings''))"

text \<open>The text of a preset: the optional default variable resolves once, everything else expands.\<close>

definition preset_text :: "host \<Rightarrow> string \<Rightarrow> config_error + string" where
  "preset_text h source =
     (if source = ''${OMP_TELEGRAM_ARGS}'' \<or> source = ''$OMP_TELEGRAM_ARGS''
      then Inr (getenv h ''OMP_TELEGRAM_ARGS'')
      else case expand (env h) source of
          Inl _ \<Rightarrow> Inl (Message ''omp.args contains an invalid environment reference or unset variable'')
        | Inr v \<Rightarrow> Inr v)"

definition preset_args :: "host \<Rightarrow> string \<Rightarrow> config_error + string list" where
  "preset_args h source =
     and_then (preset_text h source) (\<lambda>argText.
       case shlex_split h argText of
         None \<Rightarrow> Inl (Message ''omp.args contains invalid quoting or escaping'')
       | Some args \<Rightarrow> and_then (ValidateArgs args) (\<lambda>_. Inr args))"

fun all_presets :: "host \<Rightarrow> string list \<Rightarrow> config_error + string list list" where
  "all_presets h [] = Inr []"
| "all_presets h (source # ss) =
     and_then (preset_args h source) (\<lambda>args. and_then (all_presets h ss) (\<lambda>rest. Inr (args # rest)))"

text \<open>What \<open>fingerprintOMPArgs\<close> writes to the hash: every count and every length in eight bytes.\<close>

definition write_count :: "nat \<Rightarrow> string" where
  "write_count n = big_endian 8 n"

definition write_string :: "string \<Rightarrow> string" where
  "write_string s = write_count (length s) @ s"

definition write_preset :: "string \<times> string list \<Rightarrow> string" where
  "write_preset = (\<lambda>(source, args).
     write_string source @ write_count (length args) @ concat (map write_string args))"

definition fingerprint_input :: "string list \<Rightarrow> string list list \<Rightarrow> string" where
  "fingerprint_input sources presets =
     ''omp-args-fingerprint'' @ [CHR 0x00] @ ''v1''
     @ write_count (length sources) @ concat (map write_preset (zip sources presets))"

definition fingerprintOMPArgs :: "(string \<Rightarrow> string) \<Rightarrow> string list \<Rightarrow> string list list \<Rightarrow> string" where
  "fingerprintOMPArgs digest sources presets = hex_encode (digest (fingerprint_input sources presets))"

section \<open>Authorization\<close>

fun contains :: "int64 list \<Rightarrow> int64 \<Rightarrow> bool" where
  "contains [] x \<longleftrightarrow> False"
| "contains (v # xs) x \<longleftrightarrow> (if x = v then True else contains xs x)"

definition Authorized :: "Config \<Rightarrow> int64 \<Rightarrow> int64 \<Rightarrow> bool" where
  "Authorized c user chat \<longleftrightarrow> contains (AllowedUsers c) user \<and> contains (AllowedChats c) chat"

lemma contains_iff: "contains xs x \<longleftrightarrow> x \<in> set xs"
  by (induction xs) auto

end
