(* ===== verification/ConfigLoad.thy ===== *)
theory ConfigLoad
  imports Config
begin

text \<open>
  The checks of the status bar (\<open>status_bar.go\<close>) and the final actions (\<open>final_actions.go\<close>), the
  bundled migration extension (\<open>migration_extension.go\<close>) and \<open>load\<close> (\<open>config.go\<close>).
\<close>

section \<open>Status bar\<close>

definition DefaultGitTimeout :: int64 where
  "DefaultGitTimeout = 450000000"

definition defaultStatusBarFields :: "string list" where
  "defaultStatusBarFields = [''status'', ''thinking'', ''model'', ''fast'', ''context'', ''speed'']"

definition Fields :: "StatusBar \<Rightarrow> string \<Rightarrow> string list" where
  "Fields s kind =
     (let pick = (\<lambda>chosen. case chosen of None \<Rightarrow> defaultStatusBarFields | Some fs \<Rightarrow> fs)
      in if kind = ''progress'' then pick (Progress s)
         else if kind = ''intermediate'' then pick (Intermediate s)
         else if kind = ''final'' then pick (Final s)
         else [])"

definition Has :: "StatusBar \<Rightarrow> string \<Rightarrow> string \<Rightarrow> bool" where
  "Has s kind field \<longleftrightarrow> list_ex (\<lambda>selected. selected = field) (Fields s kind)"

definition Uses :: "StatusBar \<Rightarrow> string \<Rightarrow> bool" where
  "Uses s field \<longleftrightarrow> Has s ''progress'' field \<or> Has s ''intermediate'' field \<or> Has s ''final'' field"

definition plain_field :: "string \<Rightarrow> bool" where
  "plain_field field \<longleftrightarrow> field \<in> {''status'', ''model'', ''thinking'', ''fast'', ''context'', ''speed'', ''quota''}"

definition status_bar_field :: "string \<Rightarrow> string" where
  "status_bar_field kind = ''telegram.status_bar.'' @ kind"

fun validate_fields :: "string \<Rightarrow> string list \<Rightarrow> string list \<Rightarrow> config_error + unit" where
  "validate_fields kind previous [] = Inr ()"
| "validate_fields kind previous (field # rest) =
     (if field = ''git'' \<and> kind \<noteq> ''final''
      then Inl (BadField (status_bar_field kind) ''git is only allowed in final headers'')
      else if field \<noteq> ''git'' \<and> \<not> plain_field field
      then Inl (BadField (status_bar_field kind) ''contains an unknown field'')
      else if field \<in> set previous
      then Inl (BadField (status_bar_field kind) ''contains a duplicate field'')
      else validate_fields kind (previous @ [field]) rest)"

definition validate :: "StatusBar \<Rightarrow> config_error + unit" where
  "validate s =
     (if GitCommand s \<noteq> [] \<and> trim_space (hd (GitCommand s)) = []
      then Inl (Message ''telegram.status_bar.git_command requires a nonempty executable'')
      else if list_ex (\<lambda>argument. CHR 0x00 \<in> set argument) (GitCommand s)
      then Inl (Message ''telegram.status_bar.git_command cannot contain NUL bytes'')
      else and_then (validate_fields ''progress'' [] (Fields s ''progress'')) (\<lambda>_.
           and_then (validate_fields ''intermediate'' [] (Fields s ''intermediate'')) (\<lambda>_.
             validate_fields ''final'' [] (Fields s ''final''))))"

text \<open>\<open>statusBarFileFields\<close> turns a pointer into a slice: a missing array stays nil, an empty one is
  empty.\<close>

definition statusBarFileFields :: "string list option \<Rightarrow> string list option" where
  "statusBarFileFields chosen = (case chosen of None \<Rightarrow> None | Some fs \<Rightarrow> Some fs)"

definition statusBar :: "host \<Rightarrow> statusBarFileConfig \<Rightarrow> config_error + StatusBar" where
  "statusBar h s =
     (let made = (\<lambda>timeout. Inr \<lparr>Progress = statusBarFileFields (sbProgress s),
            Intermediate = statusBarFileFields (sbIntermediate s), Final = statusBarFileFields (sbFinal s),
            GitCommand = sbGitCommand s, GitTimeout = timeout\<rparr>);
          bad = Inl (Message ''telegram.status_bar.git_timeout must be a positive Go duration string'')
      in case sbGitTimeout s of
           None \<Rightarrow> made DefaultGitTimeout
         | Some t \<Rightarrow>
             (case parse_duration (fraction h) t of
                None \<Rightarrow> bad
              | Some timeout \<Rightarrow> if timeout \<le> 0 then bad else made timeout))"

section \<open>Final actions\<close>

definition bad_rune :: "rune \<Rightarrow> bool" where
  "bad_rune r \<longleftrightarrow> is_control r \<or> r = 0x2028 \<or> r = 0x2029"

definition name_rune :: "(rune \<Rightarrow> bool) \<Rightarrow> rune \<Rightarrow> bool" where
  "name_rune wide r \<longleftrightarrow>
     (if r < 128 then is_lower_char (char_of r) \<or> is_upper_char (char_of r) \<or> is_digit_char (char_of r)
        \<or> r = 95 \<or> r = 45 \<or> r = 46 \<or> r = 64
      else wide r)"

definition name_end :: "rune \<Rightarrow> bool" where
  "name_end r \<longleftrightarrow> r = 58 \<or> is_space r \<or> r = 0xFEFF"

definition command_name :: "string \<Rightarrow> (rune \<times> string) list" where
  "command_name command = takeWhile (\<lambda>r. \<not> name_end (fst r)) (runes (tl command))"

definition validate_action :: "(rune \<Rightarrow> bool) \<Rightarrow> nat \<Rightarrow> FinalAction \<Rightarrow> config_error + unit" where
  "validate_action wide i action =
     (let label = Label action; command = Command action
      in if trim_space label = [] \<or> \<not> valid_utf8 label
         then Inl (BadAction i ''label'' ''must be nonempty text'')
         else if list_ex (\<lambda>r. bad_rune (fst r)) (runes label)
         then Inl (BadAction i ''label'' ''must be single-line text without controls'')
         else if text_units label > 64
         then Inl (BadAction i ''label'' ''must not exceed 64 UTF-16 units'')
         else if command = [] \<or> \<not> valid_utf8 command \<or> \<not> has_prefix command ''/''
         then Inl (BadAction i ''command'' ''must be one slash invocation'')
         else if list_ex (\<lambda>r. bad_rune (fst r)) (runes command)
         then Inl (BadAction i ''command'' ''must not contain controls or line breaks'')
         else if command_name command = []
         then Inl (BadAction i ''command'' ''must have a command name'')
         else if list_ex (\<lambda>r. \<not> name_rune wide (fst r)) (command_name command)
         then Inl (BadAction i ''command'' ''has an invalid command name'')
         else Inr ())"

fun validate_actions :: "(rune \<Rightarrow> bool) \<Rightarrow> nat \<Rightarrow> FinalAction list \<Rightarrow> config_error + unit" where
  "validate_actions wide i [] = Inr ()"
| "validate_actions wide i (action # actions) =
     and_then (validate_action wide i action) (\<lambda>_. validate_actions wide (Suc i) actions)"

definition validateFinalActions :: "(rune \<Rightarrow> bool) \<Rightarrow> FinalAction list \<Rightarrow> config_error + unit" where
  "validateFinalActions wide actions =
     (if length actions > 6 then Inl (Message ''telegram.final_actions supports at most 6 buttons'')
      else validate_actions wide 0 actions)"

section \<open>The bundled extension\<close>

text \<open>An operation of the operating system on a path fails when \<open>io_fails\<close> says so. A new temporary
  file is renamed over the content-addressed path; \<open>None\<close> is any error.\<close>

definition extension_dir :: "string \<Rightarrow> string" where
  "extension_dir dataDir = path_join [dataDir, ''.bridge-extensions'']"

definition extension_path :: "host \<Rightarrow> string \<Rightarrow> string" where
  "extension_path h dataDir =
     path_join [extension_dir dataDir,
       ''omp-telegram-migrate-'' @ hex_encode (sha256 h (migration_extension h)) @ ''.ts'']"

definition write_extension :: "host \<Rightarrow> filesystem \<Rightarrow> string \<Rightarrow> (string \<times> filesystem) option" where
  "write_extension h fs dataDir =
     (let path = extension_path h dataDir; temp = temp_file h fs (extension_dir dataDir);
          written = fs(temp \<mapsto> Regular (migration_extension h))
      in if io_fails h ''create'' temp \<or> io_fails h ''write'' temp \<or> io_fails h ''close'' temp then None
         else if io_fails h ''rename'' path \<or> written path = Some Directory then None
         else Some (path, written(temp := None, path \<mapsto> Regular (migration_extension h))))"

definition prepareMigrationExtension :: "host \<Rightarrow> filesystem \<Rightarrow> string \<Rightarrow> (string \<times> filesystem) option" where
  "prepareMigrationExtension h fs0 dataDir =
     (let dir = extension_dir dataDir; path = extension_path h dataDir
      in case mkdir_all h dir fs0 of
           None \<Rightarrow> None
         | Some fs \<Rightarrow>
             if io_fails h ''lstat'' dir \<or> fs dir \<noteq> Some Directory then None
             else if io_fails h ''lstat'' path then None
             else (case fs path of
                 None \<Rightarrow> write_extension h fs dataDir
               | Some (Regular cached) \<Rightarrow>
                   if io_fails h ''open'' path \<or> io_fails h ''read'' path \<or> io_fails h ''close'' path then None
                   else if take (length (migration_extension h) + 1) cached = migration_extension h
                   then Some (path, fs)
                   else write_extension h fs dataDir
               | Some _ \<Rightarrow> None))"

section \<open>load\<close>

text \<open>The file, or the embedded default when no path was given and there is no file.\<close>

definition raw_defaults :: fileConfig where
  "raw_defaults =
     \<lparr>Telegram = \<lparr>tgToken = ''${OMP_TELEGRAM_BOT_TOKEN}'', tgAllowedUsers = [], tgAllowedChats = [],
        tgProgressMode = [], tgProgressRecentTools = AnyInt 5,
        tgStatusBar = \<lparr>sbProgress = None, sbIntermediate = None, sbFinal = None, sbGitCommand = [], sbGitTimeout = None\<rparr>,
        tgFinalActions = []\<rparr>,
      OMP = \<lparr>ompBinary = ''omp'', ompArgs = AnyString ''${OMP_TELEGRAM_ARGS}'', ompArgsLabels = [],
        ompMigrationExtension = False,
        ompEnvironment = \<lparr>envMode = ''denylist'', envAllow = None, envDeny = None\<rparr>\<rparr>,
      Storage = \<lparr>stDataDir = ''.'', stWorkspaceRoot = ''${OMP_TELEGRAM_WORKSPACE_ROOT}'',
        stDatabaseRetentionDays = AnyInt 90\<rparr>,
      Worker = \<lparr>wkMaxWorkers = AnyInt 8, wkQueueCapacity = AnyInt 16, wkIdleTimeout = ''30m''\<rparr>,
      Logging = \<lparr>lgLevel = ''info'', lgFormat = ''text'',
        lgComponentLevels = \<lparr>lcBridge = None, lcDaemon = None, lcMedia = None, lcRPC = None, lcStore = None,
          lcTelegram = None\<rparr>\<rparr>\<rparr>"

definition read_config :: "host \<Rightarrow> filesystem \<Rightarrow> string \<Rightarrow> string \<Rightarrow> config_error + string" where
  "read_config h fs path baseDir =
     (let implicit = (path = []);
          p = (if implicit then path_join [baseDir, ''config.toml''] else path)
      in if io_fails h ''open'' p then Inl (Message ''cannot read configuration'')
         else case fs p of
             Some (Regular content) \<Rightarrow> Inr content
           | Some _ \<Rightarrow> Inl (Message ''invalid TOML configuration: check syntax and value types'')
           | None \<Rightarrow>
               if implicit then Inr (default_config h)
               else Inl (InField ''cannot read configuration'' (Message ''file does not exist'')))"

definition decode_config :: "host \<Rightarrow> string \<Rightarrow> config_error + (fileConfig \<times> (nat \<times> nat) list)" where
  "decode_config h content =
     (case decode_toml h raw_defaults content of
        None \<Rightarrow> Inl (Message ''invalid TOML configuration: check syntax and value types'')
      | Some r \<Rightarrow> Inr r)"

definition load_status :: "host \<Rightarrow> telegramFileConfig \<Rightarrow> config_error + StatusBar" where
  "load_status h t =
     and_then (statusBar h (tgStatusBar t)) (\<lambda>bar.
     and_then (validate bar) (\<lambda>_.
     and_then (validateFinalActions (wide_letter h) (tgFinalActions t)) (\<lambda>_. Inr bar)))"

text \<open>Token, binary, data directory, level and format, expanded in this order.\<close>

definition load_texts :: "host \<Rightarrow> fileConfig \<Rightarrow> config_error + (string \<times> string \<times> string \<times> string \<times> string)" where
  "load_texts h raw =
     and_then (expand_field (env h) ''telegram.token'' (tgToken (Telegram raw))) (\<lambda>token.
     and_then (expand_field (env h) ''omp.binary'' (ompBinary (OMP raw))) (\<lambda>binary.
     and_then (expand_field (env h) ''storage.data_dir'' (stDataDir (Storage raw))) (\<lambda>dataDir.
     and_then (expand_field (env h) ''logging.level'' (lgLevel (Logging raw))) (\<lambda>level.
     and_then (expand_field (env h) ''logging.format'' (lgFormat (Logging raw))) (\<lambda>format.
       Inr (token, binary, dataDir, level, format))))))"

definition progress_mode :: "host \<Rightarrow> telegramFileConfig \<Rightarrow> string" where
  "progress_mode h t =
     (let m = (case expand (env h) (tgProgressMode t) of Inl _ \<Rightarrow> [] | Inr v \<Rightarrow> v)
      in if m \<in> {''off'', ''summary'', ''verbose''} then m else ''summary'')"

definition level_fields :: "loggingComponentFileConfig \<Rightarrow> (string \<times> string option) list" where
  "level_fields l = [(''bridge'', lcBridge l), (''daemon'', lcDaemon l), (''media'', lcMedia l),
     (''rpc'', lcRPC l), (''store'', lcStore l), (''telegram'', lcTelegram l)]"

fun load_levels :: "host \<Rightarrow> (string \<times> string option) list \<Rightarrow> config_error + (string \<times> string) list" where
  "load_levels h [] = Inr []"
| "load_levels h ((component, None) # ls) = load_levels h ls"
| "load_levels h ((component, Some level) # ls) =
     and_then (expand_field (env h) (''logging.component_levels.'' @ component) level) (\<lambda>expanded.
     and_then (load_levels h ls) (\<lambda>rest. Inr ((component, expanded) # rest)))"

definition load_logging :: "host \<Rightarrow> loggingFileConfig \<Rightarrow> string \<Rightarrow> string \<Rightarrow> config_error + (string \<times> string) list" where
  "load_logging h lg level format =
     and_then (load_levels h (level_fields (lgComponentLevels lg))) (\<lambda>levels.
     and_then (log_validate \<lparr>Level = level, Format = format, ComponentLevels = levels\<rparr>) (\<lambda>_. Inr levels))"

definition load_policy :: "ompEnvironmentFileConfig \<Rightarrow> config_error + environment" where
  "load_policy e =
     (if envMode e = ''allowlist'' \<and> envAllow e = None
      then Inl (Message ''omp.environment.allow is required in allowlist mode'')
      else case NewEnvironment (envMode e) (envAllow e) (envDeny e) of
          Inl _ \<Rightarrow> Inl (Message ''omp.environment has an invalid mode, variable name, or policy combination'')
        | Inr policy \<Rightarrow> Inr policy)"

definition load_binary :: "host \<Rightarrow> string \<Rightarrow> string \<Rightarrow> string \<Rightarrow> config_error + string" where
  "load_binary h token binary dataDir =
     (if token = [] \<or> binary = [] \<or> dataDir = []
      then Inl (Message ''telegram.token, omp.binary and storage.data_dir must be nonempty'')
      else case look_path h binary of
          None \<Rightarrow> Inl (Message ''omp.binary executable not found'')
        | Some found \<Rightarrow>
            (case path_abs h found of
               None \<Rightarrow> Inl (Message ''cannot resolve omp.binary executable path'')
             | Some p \<Rightarrow> Inr p))"

definition MaxWorkersLimit :: int64 where "MaxWorkersLimit = 64"
definition MaxQueueCapacityLimit :: int64 where "MaxQueueCapacityLimit = 1024"

definition load_limits :: "host \<Rightarrow> fileConfig \<Rightarrow> config_error + (int64 \<times> int64 \<times> int64 \<times> int64)" where
  "load_limits h raw =
     and_then (integer (env h) ''worker.max_workers'' (wkMaxWorkers (Worker raw))) (\<lambda>workers.
     and_then (integer (env h) ''worker.queue_capacity'' (wkQueueCapacity (Worker raw))) (\<lambda>capacity.
     and_then (integer (env h) ''storage.database_retention_days'' (stDatabaseRetentionDays (Storage raw))) (\<lambda>retention.
       if wrap64 workers \<noteq> workers \<or> wrap64 capacity \<noteq> capacity \<or> wrap64 retention \<noteq> retention
       then Inl (Message ''worker.max_workers, worker.queue_capacity, or storage.database_retention_days exceeds platform integer range'')
       else if workers > MaxWorkersLimit \<or> capacity > MaxQueueCapacityLimit
       then Inl (Message ''worker.max_workers or worker.queue_capacity exceeds the configured safety limit'')
       else and_then (integer (env h) ''telegram.progress_recent_tools'' (tgProgressRecentTools (Telegram raw))) (\<lambda>recent.
         if recent < 1 \<or> recent > 100
         then Inl (Message ''telegram.progress_recent_tools must be between 1 and 100'')
         else Inr (workers, capacity, retention, recent)))))"

definition check_ids :: "int64 list \<Rightarrow> int64 list \<Rightarrow> config_error + unit" where
  "check_ids users chats =
     (if users = [] \<or> chats = []
      then Inl (Message ''telegram.allowed_users and telegram.allowed_chats must be nonempty'')
      else if list_ex (\<lambda>i. i \<le> 0) users
      then Inl (Message ''telegram.allowed_users must contain positive user IDs'')
      else if list_ex (\<lambda>i. i = 0) chats
      then Inl (Message ''telegram.allowed_chats cannot contain zero'')
      else Inr ())"

definition check_limits :: "int64 \<Rightarrow> int64 \<Rightarrow> int64 \<Rightarrow> config_error + unit" where
  "check_limits workers capacity retention =
     (if workers < 1 \<or> capacity < 1
      then Inl (Message ''worker.max_workers and worker.queue_capacity must be positive'')
      else if retention < 0
      then Inl (Message ''storage.database_retention_days must be zero or positive'')
      else Inr ())"

definition load_workspace :: "host \<Rightarrow> string \<Rightarrow> string \<Rightarrow> config_error + string" where
  "load_workspace h baseDir workspace =
     and_then
       (if workspace = ''${OMP_TELEGRAM_WORKSPACE_ROOT}'' \<or> workspace = ''$OMP_TELEGRAM_WORKSPACE_ROOT''
        then Inr (getenv h ''OMP_TELEGRAM_WORKSPACE_ROOT'')
        else expand_field (env h) ''storage.workspace_root'' workspace) (\<lambda>expanded.
       let w = (if expanded = [] then ''workspace'' else expanded)
       in Inr (if path_is_abs w then w else path_join [baseDir, w]))"

text \<open>The directories and the extension: the only steps that change the file system. An error leaves
  what the steps before it did.\<close>

definition load_directories ::
    "host \<Rightarrow> filesystem \<Rightarrow> bool \<Rightarrow> string \<Rightarrow> string \<Rightarrow> string list list \<Rightarrow> (config_error + string list list) \<times> filesystem" where
  "load_directories h fs extension workspace dataDir presets =
     (case mkdir_all h workspace fs of
        None \<Rightarrow> (Inl (Message ''storage.workspace_root must be a writable directory''), fs)
      | Some fs1 \<Rightarrow>
          (case mkdir_all h dataDir fs1 of
             None \<Rightarrow> (Inl (Message ''storage.data_dir must be a writable directory''), fs1)
           | Some fs2 \<Rightarrow>
               if \<not> extension then (Inr presets, fs2)
               else (case prepareMigrationExtension h fs2 dataDir of
                   None \<Rightarrow> (Inl (Message ''omp.migration_extension: cannot prepare bundled Extension in storage.data_dir''), fs2)
                 | Some (path, fs3) \<Rightarrow> (Inr (map (\<lambda>args. args @ [''-e'', path]) presets), fs3))))"

text \<open>Everything before the directories, in the order of the code.\<close>

definition load_checked :: "host \<Rightarrow> fileConfig \<Rightarrow> (nat \<times> nat) list \<Rightarrow> string \<Rightarrow> config_error + (string list \<times> Config)" where
  "load_checked h raw unknown baseDir =
     and_then (load_status h (Telegram raw)) (\<lambda>bar.
     and_then (load_texts h raw) (\<lambda>(token, binary, dataDir, level, format).
     and_then (load_logging h (Logging raw) level format) (\<lambda>levels.
     and_then (ompArgSources (ompArgs (OMP raw))) (\<lambda>sources.
     and_then (all_presets h sources) (\<lambda>presets.
     and_then (load_policy (ompEnvironment (OMP raw))) (\<lambda>policy.
     and_then (load_binary h token binary dataDir) (\<lambda>omp.
     and_then (integers (env h) ''telegram.allowed_users'' (tgAllowedUsers (Telegram raw))) (\<lambda>users.
     and_then (integers (env h) ''telegram.allowed_chats'' (tgAllowedChats (Telegram raw))) (\<lambda>chats.
     and_then (load_limits h raw) (\<lambda>(workers, capacity, retention, recent).
     and_then (parseIdleTimeout h ''worker.idle_timeout'' (wkIdleTimeout (Worker raw))) (\<lambda>idle.
     and_then (check_ids users chats) (\<lambda>_.
     and_then (check_limits workers capacity retention) (\<lambda>_.
     and_then (load_workspace h baseDir (stWorkspaceRoot (Storage raw))) (\<lambda>workspace.
       Inr (sources,
         \<lparr>Token = token, AllowedUsers = users, AllowedChats = chats, WorkspaceRoot = workspace, OMPPath = omp,
           OMPArgs = presets, OMPArgsLabels = ompArgsLabels (OMP raw), OMPArgsFingerprint = [],
           OMPEnvironment = policy,
           DataDir = (if path_is_abs dataDir then dataDir else path_join [baseDir, dataDir]),
           MaxWorkers = workers, QueueCapacity = capacity, DatabaseRetentionDays = retention,
           ProgressMode = progress_mode h (Telegram raw), ProgressRecentTools = recent, StatusBar = bar,
           FinalActions = tgFinalActions (Telegram raw), UnknownFields = unknown, IdleTimeout = idle,
           LogLevel = level, LogFormat = format, LogComponentLevels = levels\<rparr>)))))))))))))))"

definition load :: "host \<Rightarrow> filesystem \<Rightarrow> string \<Rightarrow> string \<Rightarrow> (config_error + Config) \<times> filesystem" where
  "load h fs path baseDir =
     (case and_then (read_config h fs path baseDir) (\<lambda>content.
           and_then (decode_config h content) (\<lambda>(raw, unknown).
           and_then (load_checked h raw unknown baseDir) (\<lambda>(sources, c). Inr (raw, sources, c)))) of
        Inl e \<Rightarrow> (Inl e, fs)
      | Inr (raw, sources, c) \<Rightarrow>
          (case load_directories h fs (ompMigrationExtension (OMP raw)) (WorkspaceRoot c) (DataDir c) (OMPArgs c) of
             (Inl e, fs') \<Rightarrow> (Inl e, fs')
           | (Inr presets, fs') \<Rightarrow>
               (Inr (c\<lparr>OMPArgs := presets, OMPArgsFingerprint := fingerprintOMPArgs (sha256 h) sources presets\<rparr>), fs')))"

text \<open>\<open>Load\<close> takes the directory of the running executable as the base.\<close>

definition Load :: "host \<Rightarrow> filesystem \<Rightarrow> string \<Rightarrow> (config_error + Config) \<times> filesystem" where
  "Load h fs path =
     (case executable h of
        None \<Rightarrow> (Inl (Message ''cannot locate bridge executable''), fs)
      | Some exe \<Rightarrow>
          (case eval_symlinks h exe of
             None \<Rightarrow> (Inl (Message ''cannot resolve bridge executable''), fs)
           | Some real \<Rightarrow> load h fs path (path_dir real)))"

end
