(* ===== verification/ConfigProps.thy ===== *)
theory ConfigProps
  imports ConfigLoad
begin

text \<open>
  What a configuration that \<open>load\<close> returns satisfies, how environment references expand, and that the
  fingerprint of the presets hashes them without ambiguity.
\<close>

section \<open>The type of a loaded configuration\<close>

definition valid_action :: "(rune \<Rightarrow> bool) \<Rightarrow> FinalAction \<Rightarrow> bool" where
  "valid_action wide a \<longleftrightarrow>
     trim_space (Label a) \<noteq> [] \<and> valid_utf8 (Label a) \<and> text_units (Label a) \<le> 64
     \<and> (\<forall>r \<in> set (runes (Label a)) \<union> set (runes (Command a)). \<not> bad_rune (fst r))
     \<and> has_prefix (Command a) ''/'' \<and> valid_utf8 (Command a)
     \<and> command_name (Command a) \<noteq> [] \<and> (\<forall>r \<in> set (command_name (Command a)). name_rune wide (fst r))"

definition valid_header :: "string \<Rightarrow> string list \<Rightarrow> bool" where
  "valid_header kind chosen \<longleftrightarrow>
     distinct chosen \<and> (\<forall>f \<in> set chosen. plain_field f \<or> (f = ''git'' \<and> kind = ''final''))"

definition valid_status_bar :: "StatusBar \<Rightarrow> bool" where
  "valid_status_bar s \<longleftrightarrow>
     0 < GitTimeout s \<and> (\<forall>kind \<in> {''progress'', ''intermediate'', ''final''}. valid_header kind (Fields s kind))
     \<and> (GitCommand s \<noteq> [] \<longrightarrow> trim_space (hd (GitCommand s)) \<noteq> [])
     \<and> (\<forall>argument \<in> set (GitCommand s). CHR 0x00 \<notin> set argument)"

definition valid_limits :: "Config \<Rightarrow> bool" where
  "valid_limits c \<longleftrightarrow>
     1 \<le> MaxWorkers c \<and> MaxWorkers c \<le> 64 \<and> 1 \<le> QueueCapacity c \<and> QueueCapacity c \<le> 1024
     \<and> 0 \<le> DatabaseRetentionDays c \<and> 1 \<le> ProgressRecentTools c \<and> ProgressRecentTools c \<le> 100
     \<and> 0 \<le> IdleTimeout c \<and> ProgressMode c \<in> {''off'', ''summary'', ''verbose''}"

definition valid_logging :: "Config \<Rightarrow> bool" where
  "valid_logging c \<longleftrightarrow>
     validLevel (LogLevel c) \<and> LogFormat c \<in> {''text'', ''json''}
     \<and> (\<forall>(component, level) \<in> set (LogComponentLevels c). component \<in> set log_components \<and> validLevel level)"

definition valid_access :: "Config \<Rightarrow> bool" where
  "valid_access c \<longleftrightarrow>
     Token c \<noteq> [] \<and> AllowedUsers c \<noteq> [] \<and> (\<forall>i \<in> set (AllowedUsers c). 0 < i)
     \<and> AllowedChats c \<noteq> [] \<and> 0 \<notin> set (AllowedChats c)"

text \<open>A preset may only add the extension the bridge bundles to arguments the check accepts.\<close>

definition valid_preset :: "string list \<Rightarrow> bool" where
  "valid_preset args \<longleftrightarrow>
     list_all argument_allowed args
     \<or> (\<exists>own path. args = own @ [''-e'', path] \<and> list_all argument_allowed own)"

definition valid_config :: "(rune \<Rightarrow> bool) \<Rightarrow> Config \<Rightarrow> bool" where
  "valid_config wide c \<longleftrightarrow>
     valid_access c \<and> valid_limits c \<and> valid_logging c \<and> valid_status_bar (StatusBar c)
     \<and> length (FinalActions c) \<le> 6 \<and> list_all (valid_action wide) (FinalActions c)
     \<and> OMPArgs c \<noteq> [] \<and> list_all valid_preset (OMPArgs c)
     \<and> path_is_abs (WorkspaceRoot c) \<and> path_is_abs (DataDir c)"

lemma validate_action_ok: "validate_action wide i a = Inr () \<longleftrightarrow> valid_action wide a"
  unfolding validate_action_def valid_action_def
  by (auto simp: Let_def has_prefix_def list_ex_iff not_less split: if_splits)

lemma validate_actions_ok: "validate_actions wide i as = Inr () \<longleftrightarrow> list_all (valid_action wide) as"
  by (induction as arbitrary: i) (auto simp: validate_action_ok)

lemma validate_fields_ok:
  "validate_fields kind previous selected = Inr () \<longleftrightarrow>
     distinct selected \<and> set selected \<inter> set previous = {}
     \<and> (\<forall>f \<in> set selected. plain_field f \<or> (f = ''git'' \<and> kind = ''final''))"
proof (induction kind previous selected rule: validate_fields.induct)
  case (2 kind previous field rest)
  have "\<not> plain_field ''git''" by (simp add: plain_field_def)
  with 2 show ?case by auto
qed simp

lemma load_status_ok:
  assumes "load_status h t = Inr bar"
  shows "valid_status_bar bar" "length (tgFinalActions t) \<le> 6"
    "list_all (valid_action (wide_letter h)) (tgFinalActions t)"
proof -
  have made: "statusBar h (tgStatusBar t) = Inr bar" and ok: "validate bar = Inr ()"
    and actions: "validateFinalActions (wide_letter h) (tgFinalActions t) = Inr ()"
    using assms by (auto simp: load_status_def)
  have "0 < GitTimeout bar"
    using made by (auto simp: statusBar_def Let_def DefaultGitTimeout_def split: option.splits if_splits)
  with ok show "valid_status_bar bar"
    unfolding validate_def valid_status_bar_def valid_header_def
    by (auto simp: validate_fields_ok list_ex_iff split: if_splits)
  show "length (tgFinalActions t) \<le> 6" "list_all (valid_action (wide_letter h)) (tgFinalActions t)"
    using actions by (auto simp: validateFinalActions_def validate_actions_ok split: if_splits)
qed

lemma load_logging_ok:
  "load_logging h lg level format = Inr levels \<Longrightarrow>
     validLevel level \<and> format \<in> {''text'', ''json''}
     \<and> (\<forall>(c, l) \<in> set levels. c \<in> set log_components \<and> validLevel l)"
  by (auto simp: load_logging_def log_validate_ok)

lemma load_limits_ok:
  "load_limits h raw = Inr (workers, capacity, retention, recent) \<Longrightarrow>
     workers \<le> 64 \<and> capacity \<le> 1024 \<and> 1 \<le> recent \<and> recent \<le> 100"
  by (auto simp: load_limits_def MaxWorkersLimit_def MaxQueueCapacityLimit_def split: if_splits)

lemma parseIdleTimeout_ok: "parseIdleTimeout h field v = Inr d \<Longrightarrow> 0 \<le> d"
  by (auto simp: parseIdleTimeout_def Let_def split: if_splits option.splits)

lemma progress_mode_ok: "progress_mode h t \<in> {''off'', ''summary'', ''verbose''}"
  by (simp add: progress_mode_def Let_def)

lemma preset_args_ok: "preset_args h s = Inr args \<Longrightarrow> list_all argument_allowed args"
  by (auto simp: preset_args_def ValidateArgs_ok split: option.splits)

lemma all_presets_ok: "all_presets h ss = Inr ps \<Longrightarrow> length ps = length ss \<and> list_all (list_all argument_allowed) ps"
  by (induction ss arbitrary: ps) (auto dest: preset_args_ok)

lemma string_entries_length: "string_entries vs = Inr ss \<Longrightarrow> length ss = length vs"
  by (induction vs arbitrary: ss rule: string_entries.induct) auto

lemma ompArgSources_nonempty: "ompArgSources v = Inr ss \<Longrightarrow> ss \<noteq> []"
  using string_entries_length by (fastforce simp: ompArgSources_def split: go_any.splits if_splits)

lemma load_workspace_ok: "load_workspace h baseDir w = Inr p \<Longrightarrow> path_is_abs baseDir \<Longrightarrow> path_is_abs p"
  by (auto simp: load_workspace_def Let_def path_join_abs split: if_splits) (metis path_join_abs)+

lemma load_checked_ok:
  assumes "load_checked h raw unknown baseDir = Inr (sources, c)" "path_is_abs baseDir"
  shows "valid_access c \<and> valid_limits c \<and> valid_logging c \<and> valid_status_bar (StatusBar c)
     \<and> length (FinalActions c) \<le> 6 \<and> list_all (valid_action (wide_letter h)) (FinalActions c)
     \<and> sources \<noteq> [] \<and> length (OMPArgs c) = length sources \<and> list_all (list_all argument_allowed) (OMPArgs c)
     \<and> path_is_abs (WorkspaceRoot c) \<and> path_is_abs (DataDir c)"
proof -
  from assms(1) obtain bar token binary dataDir level format levels presets policy omp users chats
      workers capacity retention recent idle workspace where
    bar: "load_status h (Telegram raw) = Inr bar"
    and levels: "load_logging h (Logging raw) level format = Inr levels"
    and sources: "ompArgSources (ompArgs (OMP raw)) = Inr sources"
    and presets: "all_presets h sources = Inr presets"
    and omp: "load_binary h token binary dataDir = Inr omp"
    and limits: "load_limits h raw = Inr (workers, capacity, retention, recent)"
    and idle: "parseIdleTimeout h ''worker.idle_timeout'' (wkIdleTimeout (Worker raw)) = Inr idle"
    and ids: "check_ids users chats = Inr ()"
    and low: "check_limits workers capacity retention = Inr ()"
    and workspace: "load_workspace h baseDir (stWorkspaceRoot (Storage raw)) = Inr workspace"
    and c: "c = \<lparr>Token = token, AllowedUsers = users, AllowedChats = chats, WorkspaceRoot = workspace,
       OMPPath = omp, OMPArgs = presets, OMPArgsLabels = ompArgsLabels (OMP raw), OMPArgsFingerprint = [],
       OMPEnvironment = policy,
       DataDir = (if path_is_abs dataDir then dataDir else path_join [baseDir, dataDir]),
       MaxWorkers = workers, QueueCapacity = capacity, DatabaseRetentionDays = retention,
       ProgressMode = progress_mode h (Telegram raw), ProgressRecentTools = recent, StatusBar = bar,
       FinalActions = tgFinalActions (Telegram raw), UnknownFields = unknown, IdleTimeout = idle,
       LogLevel = level, LogFormat = format, LogComponentLevels = levels\<rparr>"
    unfolding load_checked_def by (auto split: prod.splits)
  have "token \<noteq> []" using omp by (auto simp: load_binary_def split: if_splits)
  then have "valid_access c"
    using ids by (auto simp: c valid_access_def check_ids_def list_ex_iff split: if_splits)
  moreover have "valid_limits c"
    using load_limits_ok [OF limits] low parseIdleTimeout_ok [OF idle] progress_mode_ok [of h "Telegram raw"]
    by (auto simp: c valid_limits_def check_limits_def split: if_splits)
  moreover have "valid_logging c" using load_logging_ok [OF levels] by (simp add: c valid_logging_def)
  moreover have "path_is_abs (DataDir c)" using assms(2) by (simp add: c path_join_abs)
  ultimately show ?thesis
    using load_status_ok [OF bar] ompArgSources_nonempty [OF sources] all_presets_ok [OF presets]
      load_workspace_ok [OF workspace assms(2)] by (simp add: c)
qed

lemma load_directories_presets:
  "fst (load_directories h fs extension w d presets) = Inr ps \<Longrightarrow>
     ps = presets \<or> (\<exists>path. ps = map (\<lambda>args. args @ [''-e'', path]) presets)"
  by (auto simp: load_directories_def split: option.splits if_splits)

lemma valid_presets_extended:
  "list_all (list_all argument_allowed) presets \<Longrightarrow> list_all valid_preset presets"
  "list_all (list_all argument_allowed) presets \<Longrightarrow>
     list_all valid_preset (map (\<lambda>args. args @ [''-e'', path]) presets)"
  by (auto simp: list_all_iff valid_preset_def)

lemma load_parts:
  assumes "fst (load h fs path baseDir) = Inr c"
  obtains raw unknown sources c0 presets where
    "load_checked h raw unknown baseDir = Inr (sources, c0)"
    "fst (load_directories h fs (ompMigrationExtension (OMP raw)) (WorkspaceRoot c0) (DataDir c0) (OMPArgs c0)) = Inr presets"
    "c = c0\<lparr>OMPArgs := presets, OMPArgsFingerprint := fingerprintOMPArgs (sha256 h) sources presets\<rparr>"
  using assms unfolding load_def
  by (auto split: sum.splits prod.splits)

text \<open>C40: every configuration \<open>load\<close> returns is in range: workers, queue, retention, recent tools and idle
  timeout within their bounds, a known progress mode and known log levels, at least one positive user and
  one nonzero chat, at most six well-formed final actions, duplicate-free status headers with Git only in
  the final one, presets without the flags the bridge owns, and absolute directories.\<close>

theorem load_valid:
  assumes loaded: "fst (load h fs path baseDir) = Inr c" and base: "path_is_abs baseDir"
  shows "valid_config (wide_letter h) c"
proof -
  from loaded obtain raw unknown sources c0 presets where
    c0: "load_checked h raw unknown baseDir = Inr (sources, c0)"
    and dirs: "fst (load_directories h fs (ompMigrationExtension (OMP raw)) (WorkspaceRoot c0) (DataDir c0) (OMPArgs c0)) = Inr presets"
    and c: "c = c0\<lparr>OMPArgs := presets, OMPArgsFingerprint := fingerprintOMPArgs (sha256 h) sources presets\<rparr>"
    by (rule load_parts)
  note ok = load_checked_ok [OF c0 base]
  have "OMPArgs c0 \<noteq> []" using ok by (cases "OMPArgs c0") auto
  then have "presets \<noteq> [] \<and> list_all valid_preset presets"
    using load_directories_presets [OF dirs] ok valid_presets_extended [of "OMPArgs c0"] by auto
  with ok show ?thesis
    by (simp add: c valid_config_def valid_access_def valid_limits_def valid_logging_def)
qed

text \<open>The witness: a host whose file lists the users and chats and whose environment holds the token.\<close>

definition sample_raw :: "fileConfig \<Rightarrow> fileConfig" where
  "sample_raw raw = raw\<lparr>Telegram := (Telegram raw)\<lparr>tgAllowedUsers := [AnyString ''7, 8''],
     tgAllowedChats := [AnyInt (-100)],
     tgFinalActions := [\<lparr>Label = ''Tests'', Command = ''/test all''\<rparr>]\<rparr>,
     Worker := (Worker raw)\<lparr>wkIdleTimeout := ''0''\<rparr>\<rparr>"

definition sample_host :: host where
  "sample_host = \<lparr>env = (\<lambda>name. if name = ''OMP_TELEGRAM_BOT_TOKEN'' then Some ''1:a'' else None),
     working_dir = Some ''/srv'', executable = Some ''/srv/bridge'', eval_symlinks = Some,
     look_path = (\<lambda>p. Some (''/usr/bin/'' @ p)), mkdir_all = (\<lambda>p fs. Some fs), io_fails = (\<lambda>op p. False),
     temp_file = (\<lambda>fs dir. dir @ ''/x''), decode_toml = (\<lambda>raw text. Some (sample_raw raw, [])),
     shlex_split = (\<lambda>s. Some (if s = [] then [] else [s])), sha256 = (\<lambda>s. s), fraction = (\<lambda>f k unit. 0),
     wide_letter = (\<lambda>r. False), default_config = [], migration_extension = []\<rparr>"


lemmas sample_simps = sample_raw_def sample_host_def raw_defaults_def

definition sample_file :: fileConfig where
  "sample_file = sample_raw raw_defaults"

lemma sample_action: "validate_action (\<lambda>r. False) 0 \<lparr>Label = ''Tests'', Command = ''/test all''\<rparr> = Inr ()" 
 by (simp add: validate_action_def ascii_trim_space_empty ascii_units ascii_runes is_space_def valid_utf8_def bad_rune_def is_control_def has_prefix_def command_name_def name_end_def name_rune_def rune_error_def is_lower_char_def)
lemma sample_status: "load_status sample_host (Telegram sample_file) = Inr 
 \<lparr>Progress = None, Intermediate = None, Final = None, GitCommand = [], GitTimeout = 450000000\<rparr>"
 apply (simp add: load_status_def statusBar_def sample_file_def sample_simps validateFinalActions_def sample_action DefaultGitTimeout_def statusBarFileFields_def validate_def Fields_def defaultStatusBarFields_def plain_field_def)
 done
lemma sample_idle: "parseIdleTimeout sample_host ''worker.idle_timeout'' ''0'' = Inr 0" by (simp add: parseIdleTimeout_def expand_field_def expand_def trim_space_def ascii_trim_left ascii_trim_right is_space_def)
lemma sample_ids: "check_ids [7,8] [-100] = Inr ()" by code_simp
lemma sample_low: "check_limits 8 16 90 = Inr ()" by code_simp
lemma sample_policy: "load_policy (ompEnvironment (OMP sample_file)) = Inr empty_environment" by (simp add: load_policy_def sample_file_def sample_simps NewEnvironment_def)
lemma sample_sources: "ompArgSources (ompArgs (OMP sample_file)) = Inr [''${OMP_TELEGRAM_ARGS}'']" by (simp add: ompArgSources_def sample_file_def sample_simps)
lemma sample_texts: "load_texts sample_host sample_file = Inr (''1:a'',''omp'',''.'',''info'',''text'')" by code_simp
lemma sample_users: "integers (env sample_host) ''telegram.allowed_users'' (tgAllowedUsers (Telegram sample_file)) = Inr [7, 8]" by code_simp
lemma sample_chats: "integers (env sample_host) ''telegram.allowed_chats'' (tgAllowedChats (Telegram sample_file)) = Inr [-100]" by code_simp
lemma sample_limits: "load_limits sample_host sample_file = Inr (8,16,90,5)" by code_simp
lemma sample_logging: "load_logging sample_host (Logging sample_file) ''info'' ''text'' = Inr []" by code_simp
lemma sample_workspace: "load_workspace sample_host ''/srv'' (stWorkspaceRoot (Storage sample_file)) = Inr ''/srv/workspace''"
  by code_simp
lemma sample_presets: "all_presets sample_host [''${OMP_TELEGRAM_ARGS}''] = Inr [[]]" by code_simp
lemma sample_binary: "load_binary sample_host ''1:a'' ''omp'' ''.'' = Inr ''/usr/bin/omp''" by code_simp
lemma sample_idle_field: "wkIdleTimeout (Worker sample_file) = ''0''"
  by (simp add: sample_file_def sample_simps)
lemma sample_read: "read_config sample_host (\<lambda>p. None) [] ''/srv'' = Inr []" by code_simp
lemma sample_decode: "decode_config sample_host [] = Inr (sample_file, [])"
  by (simp add: decode_config_def sample_host_def sample_file_def)

lemmas sample_stages = sample_status sample_texts sample_logging sample_sources sample_presets sample_policy
  sample_binary sample_users sample_chats sample_limits sample_idle_field sample_idle sample_ids sample_low sample_workspace

lemma sample_checked: "\<exists>sources c. load_checked sample_host sample_file [] ''/srv'' = Inr (sources, c)"
  unfolding load_checked_def by (simp add: sample_stages del: all_presets.simps)

lemma sample_directories:
  "fst (load_directories sample_host fs (ompMigrationExtension (OMP sample_file)) w d presets) = Inr presets"
  by (simp add: load_directories_def sample_file_def sample_simps)

lemma sample_loads: "\<exists>c. fst (load sample_host (\<lambda>p. None) [] ''/srv'') = Inr c"
proof -
  obtain sources c where c: "load_checked sample_host sample_file [] ''/srv'' = Inr (sources, c)"
    using sample_checked by blast
  show ?thesis
    unfolding load_def using sample_directories [of "\<lambda>p. None" "WorkspaceRoot c" "DataDir c" "OMPArgs c"]
    by (auto simp: sample_read sample_decode c split: sum.splits prod.splits)
qed

theorem load_valid_witness:
  "\<exists>c. fst (load sample_host (\<lambda>p. None) [] ''/srv'') = Inr c \<and> valid_config (\<lambda>r. False) c"
proof -
  obtain c where c: "fst (load sample_host (\<lambda>p. None) [] ''/srv'') = Inr c" using sample_loads by blast
  have "path_is_abs ''/srv''" by (simp add: path_is_abs_def has_prefix_def)
  from load_valid [OF c this] c show ?thesis by (auto simp: sample_host_def)
qed

section \<open>Environment references\<close>

text \<open>The three ways to write a piece of a value, and what each stands for.\<close>

datatype piece = Plain string | Dollar | Braced string

fun piece_source :: "piece \<Rightarrow> string" where
  "piece_source (Plain s) = s"
| "piece_source Dollar = ''$$''"
| "piece_source (Braced name) = ''${'' @ name @ ''}''"

fun piece_value :: "(string \<Rightarrow> string option) \<Rightarrow> piece \<Rightarrow> string" where
  "piece_value getvar (Plain s) = s"
| "piece_value getvar Dollar = ''$''"
| "piece_value getvar (Braced name) = (case getvar name of None \<Rightarrow> [] | Some v \<Rightarrow> v)"

fun piece_ok :: "(string \<Rightarrow> string option) \<Rightarrow> piece \<Rightarrow> bool" where
  "piece_ok getvar (Plain s) \<longleftrightarrow> CHR ''$'' \<notin> set s"
| "piece_ok getvar Dollar \<longleftrightarrow> True"
| "piece_ok getvar (Braced name) \<longleftrightarrow> validEnvironmentName name \<and> getvar name \<noteq> None"

lemma expand_loop_plain: "CHR ''$'' \<notin> set s \<Longrightarrow> expand_loop getvar r (s @ t) = expand_loop getvar (r @ s) t"
  by (induction s arbitrary: r) auto

lemma reference_braced:
  assumes "validEnvironmentName name" "getvar name = Some v"
  shows "reference getvar (''{'' @ name @ ''}'' @ t) = Inr (v, t)"
proof -
  obtain c cs where name: "name = c # cs" and c: "env_name_start c" and cs: "list_all env_name_char cs"
    using assms(1) by (auto simp: validEnvironmentName_def split: list.splits)
  have stop: "\<not> env_name_char (CHR ''}'')"
    by (simp add: env_name_char_def env_name_start_def is_lower_char_def is_upper_char_def is_digit_char_def)
  have "\<forall>x \<in> set name. env_name_char x" using c cs by (auto simp: name env_name_char_def list_all_iff)
  with stop have "takeWhile env_name_char (name @ CHR ''}'' # t) = name"
    "dropWhile env_name_char (name @ CHR ''}'' # t) = CHR ''}'' # t"
    by (simp_all add: takeWhile_append2 dropWhile_append2)
  with c assms(2) show ?thesis by (simp add: reference_def name)
qed

lemma expand_loop_piece:
  "piece_ok getvar p \<Longrightarrow> expand_loop getvar r (piece_source p @ t) = expand_loop getvar (r @ piece_value getvar p) t"
proof (cases p)
  case Dollar
  then show ?thesis by (simp add: reference_def)
next
  case (Braced name)
  assume "piece_ok getvar p"
  then obtain v where v: "validEnvironmentName name" "getvar name = Some v" using Braced by auto
  from reference_braced [of name getvar v t, OF this] show ?thesis using Braced v by simp
qed (simp add: expand_loop_plain)

lemma expand_loop_pieces:
  "list_all (piece_ok getvar) ps \<Longrightarrow>
     expand_loop getvar r (concat (map piece_source ps)) = Inr (r @ concat (map (piece_value getvar) ps))"
  by (induction ps arbitrary: r) (simp_all add: expand_loop_piece)

lemma expand_is_loop: "expand getvar s = expand_loop getvar [] s"
  using expand_loop_plain [of s getvar "[]" "[]"] by (auto simp: expand_def)

text \<open>a value written as plain text, doubled dollars and references expands to its meaning, once: the
  contents of a variable are inserted verbatim, so a dollar or a quote in them is never interpreted.\<close>

theorem expand_pieces:
  assumes "list_all (piece_ok getvar) ps"
  shows "expand getvar (concat (map piece_source ps)) = Inr (concat (map (piece_value getvar) ps))"
  using expand_loop_pieces [OF assms, of "[]"] by (simp add: expand_is_loop)

theorem expand_pieces_witness:
  "expand (\<lambda>n. Some ''$HOME'') ''a$$${HOME}'' = Inr ''a$$HOME''"
  using expand_pieces [of "\<lambda>n. Some ''$HOME''" "[Plain ''a'', Dollar, Braced ''HOME'']"]
  by (simp add: validEnvironmentName_def env_name_char_def env_name_start_def is_upper_char_def)

section \<open>The fingerprint of the presets\<close>

definition writable :: "string list \<Rightarrow> bool" where
  "writable ss \<longleftrightarrow> length ss < 256 ^ 8 \<and> (\<forall>s \<in> set ss. length s < 256 ^ 8)"

lemma writable_length: "writable ss \<Longrightarrow> s \<in> set ss \<Longrightarrow> length s < 256 ^ 8"
  unfolding writable_def by blast

lemma write_count_prefix:
  "write_count m @ a = write_count n @ b \<Longrightarrow> m < 256 ^ 8 \<Longrightarrow> n < 256 ^ 8 \<Longrightarrow> m = n \<and> a = b"
  using big_endian_inject [of 8 m n] by (simp add: write_count_def)

lemma write_string_prefix:
  assumes "write_string s @ a = write_string t @ b" "length s < 256 ^ 8" "length t < 256 ^ 8"
  shows "s = t \<and> a = b"
proof -
  have "length s = length t \<and> s @ a = t @ b"
    using write_count_prefix [of "length s" "s @ a" "length t" "t @ b"] assms by (simp add: write_string_def)
  then show ?thesis by auto
qed

lemma write_strings_prefix:
  "concat (map write_string ss) @ a = concat (map write_string ts) @ b \<Longrightarrow> length ss = length ts
     \<Longrightarrow> \<forall>s \<in> set ss. length s < 256 ^ 8 \<Longrightarrow> \<forall>t \<in> set ts. length t < 256 ^ 8 \<Longrightarrow> ss = ts \<and> a = b"
proof (induction ss arbitrary: ts)
  case (Cons s ss)
  then obtain t ts' where ts: "ts = t # ts'" by (cases ts) auto
  have "s = t \<and> concat (map write_string ss) @ a = concat (map write_string ts') @ b"
    using Cons.prems write_string_prefix [of s _ t] by (simp add: ts)
  with Cons show ?case by (simp add: ts)
qed simp

lemma write_preset_prefix:
  assumes "write_preset (s, xs) @ a = write_preset (t, ys) @ b" "length s < 256 ^ 8" "length t < 256 ^ 8"
    "writable xs" "writable ys"
  shows "s = t \<and> xs = ys \<and> a = b"
proof -
  have st: "s = t" and rest: "write_count (length xs) @ concat (map write_string xs) @ a
      = write_count (length ys) @ concat (map write_string ys) @ b"
    using write_string_prefix [OF _ assms(2,3)] assms(1) by (auto simp: write_preset_def)
  have "length xs = length ys" "concat (map write_string xs) @ a = concat (map write_string ys) @ b"
    using write_count_prefix [OF rest] assms(4,5) by (auto simp: writable_def)
  with write_strings_prefix [of xs a ys b] assms(4,5) st show ?thesis by (simp add: writable_def)
qed

lemma write_presets_prefix:
  "concat (map write_preset ps) = concat (map write_preset qs) \<Longrightarrow> length ps = length qs
     \<Longrightarrow> \<forall>p \<in> set (ps @ qs). length (fst p) < 256 ^ 8 \<and> writable (snd p) \<Longrightarrow> ps = qs"
proof (induction ps arbitrary: qs)
  case (Cons p ps)
  then obtain q qs' where qs: "qs = q # qs'" by (cases qs) auto
  obtain s xs t ys where pq: "p = (s, xs)" "q = (t, ys)" by (cases p, cases q) auto
  have "s = t \<and> xs = ys \<and> concat (map write_preset ps) = concat (map write_preset qs')"
    using Cons.prems write_preset_prefix [of s xs _ t ys] by (simp add: qs pq)
  with Cons show ?case by (simp add: qs pq)
qed simp

text \<open>The text that the fingerprint hashes determines the sources and the presets: two configurations
  with different omp arguments never feed the same bytes to the digest.\<close>

theorem fingerprint_injective:
  assumes lengths: "length presets = length sources" "length presets' = length sources'"
    and small: "writable sources" "writable sources'" "\<forall>p \<in> set (presets @ presets'). writable p"
  shows "fingerprint_input sources presets = fingerprint_input sources' presets'
    \<longleftrightarrow> sources = sources' \<and> presets = presets'"
proof
  assume same: "fingerprint_input sources presets = fingerprint_input sources' presets'"
  let ?z = "zip sources presets" and ?z' = "zip sources' presets'"
  have "write_count (length sources) @ concat (map write_preset ?z)
      = write_count (length sources') @ concat (map write_preset ?z')"
    using same by (simp add: fingerprint_input_def)
  then have n: "length sources = length sources'" and z: "concat (map write_preset ?z) = concat (map write_preset ?z')"
    using write_count_prefix small(1,2) unfolding writable_def by blast+
  have "\<forall>p \<in> set (?z @ ?z'). length (fst p) < 256 ^ 8 \<and> writable (snd p)"
  proof
    fix p
    assume "p \<in> set (?z @ ?z')"
    then have "(fst p, snd p) \<in> set ?z \<or> (fst p, snd p) \<in> set ?z'" by simp
    then have "fst p \<in> set sources \<or> fst p \<in> set sources'" "snd p \<in> set (presets @ presets')"
      using set_zip_leftD [of "fst p" "snd p"] set_zip_rightD [of "fst p" "snd p"] by (auto simp only: set_append Un_iff)
    then show "length (fst p) < 256 ^ 8 \<and> writable (snd p)"
      using small(3) writable_length [OF small(1)] writable_length [OF small(2)] by (simp only: Un_iff) blast
  qed
  with z n lengths have "?z = ?z'" by (intro write_presets_prefix) auto
  then have "map fst ?z = map fst ?z'" "map snd ?z = map snd ?z'" by simp_all
  with n lengths show "sources = sources' \<and> presets = presets'" by simp
qed simp

theorem fingerprint_injective_witness:
  "fingerprint_input [''a''] [[''b'', ''c'']] \<noteq> fingerprint_input [''a''] [[''bc'']]"
  using fingerprint_injective [of "[[''b'', ''c'']]" "[''a'']" "[[''bc'']]" "[''a'']"]
  by (simp add: writable_def)

end
