(* ===== verification/TelegramErrors.thy ===== *)
theory TelegramErrors
  imports GoStd
begin

text \<open>
  Errors of the Telegram client (\<open>internal/telegram/client.go\<close>): the values the client returns, what
  \<open>ClassifyError\<close> reads off them, and the sanitized description of a rejection.
\<close>

section \<open>Error values\<close>

text \<open>A Go error is a chain of wrappers; \<open>errors.As\<close> and \<open>errors.Is\<close> look for the first link of a kind.
  Errors of \<open>net/http\<close> are never wrapped by the client, so the only links that answer \<open>Timeout()\<close>
  are those of the context.\<close>

record APIError =
  ae_code :: int
  ae_description :: string
  ae_retry_after :: int

datatype tg_error =
    Canceled
  | DeadlineExceeded
  | Opaque string
  | Api APIError
  | ReasonError string tg_error
  | DeliveryError tg_error bool

text \<open>What \<open>ctx.Err()\<close> reports.\<close>

datatype ctx_error = CtxCanceled | CtxDeadline

fun ctx_err :: "ctx_error \<Rightarrow> tg_error" where
  "ctx_err CtxCanceled = Canceled"
| "ctx_err CtxDeadline = DeadlineExceeded"

fun is_error :: "tg_error \<Rightarrow> tg_error \<Rightarrow> bool" where
  "is_error target (ReasonError r e) \<longleftrightarrow> is_error target e"
| "is_error target (DeliveryError e u) \<longleftrightarrow> is_error target e"
| "is_error target e \<longleftrightarrow> e = target"

fun as_delivery :: "tg_error \<Rightarrow> bool option" where
  "as_delivery (DeliveryError e u) = Some u"
| "as_delivery (ReasonError r e) = as_delivery e"
| "as_delivery e = None"

fun as_api :: "tg_error \<Rightarrow> APIError option" where
  "as_api (Api a) = Some a"
| "as_api (ReasonError r e) = as_api e"
| "as_api (DeliveryError e u) = as_api e"
| "as_api e = None"

fun as_reason :: "tg_error \<Rightarrow> string option" where
  "as_reason (ReasonError r e) = Some r"
| "as_reason (DeliveryError e u) = as_reason e"
| "as_reason e = None"

definition timeoutError :: "tg_error \<Rightarrow> bool" where
  "timeoutError e \<longleftrightarrow> is_error DeadlineExceeded e"

definition withReason :: "string \<Rightarrow> tg_error option \<Rightarrow> tg_error option" where
  "withReason reason e = map_option (ReasonError reason) e"

definition deliveryFailure :: "tg_error option \<Rightarrow> bool \<Rightarrow> tg_error option" where
  "deliveryFailure e uncertain = map_option (\<lambda>e. DeliveryError e uncertain) e"

text \<open>Unclassified errors are conservative.\<close>

definition DeliveryUncertain :: "tg_error option \<Rightarrow> bool" where
  "DeliveryUncertain err =
     (case err of
        None \<Rightarrow> False
      | Some e \<Rightarrow> (case as_delivery e of Some u \<Rightarrow> u | None \<Rightarrow> True))"

section \<open>Classification\<close>

record ErrorInfo =
  info_code :: int
  info_reason :: string
  info_retry_after :: int
  info_uncertain :: bool

definition messageThreadNotFound :: "string \<Rightarrow> bool" where
  "messageThreadNotFound description \<longleftrightarrow>
     to_lower (trim_space description) \<in> {''bad request: message thread not found'', ''message thread not found''}"

definition replyTargetNotFound :: "string \<Rightarrow> bool" where
  "replyTargetNotFound description \<longleftrightarrow>
     to_lower (trim_space description) \<in>
       {''bad request: reply message not found'', ''reply message not found'',
        ''bad request: message to reply not found'', ''message to reply not found'',
        ''bad request: message to be replied not found'', ''message to be replied not found''}"

definition apiErrorUncertain :: "APIError \<Rightarrow> bool" where
  "apiErrorUncertain a \<longleftrightarrow> ae_code a < 400 \<or> ae_code a > 599 \<or> trim_space (ae_description a) = []"

definition delivery_flag :: "tg_error \<Rightarrow> bool" where
  "delivery_flag e = (case as_delivery e of Some u \<Rightarrow> u | None \<Rightarrow> False)"

definition api_reason :: "APIError \<Rightarrow> string" where
  "api_reason a =
     (if ae_code a = 429 then ''rate_limited''
      else if ae_code a = 400 \<and> messageThreadNotFound (ae_description a) then ''message_thread_not_found''
      else if ae_code a = 400 \<and> replyTargetNotFound (ae_description a) then ''reply_target_not_found''
      else if ae_code a = 400 then ''api_bad_request''
      else ''api_error'')"

definition ClassifyError :: "tg_error option \<Rightarrow> ErrorInfo" where
  "ClassifyError err =
     (let info = \<lparr>info_code = 0, info_reason = ''unknown'', info_retry_after = 0, info_uncertain = False\<rparr>
      in case err of
           None \<Rightarrow> info
         | Some e \<Rightarrow>
             if is_error Canceled e then info\<lparr>info_reason := ''cancelled'', info_uncertain := delivery_flag e\<rparr>
             else if is_error DeadlineExceeded e then info\<lparr>info_reason := ''timeout'', info_uncertain := delivery_flag e\<rparr>
             else (case as_api e of
                 Some a \<Rightarrow> info\<lparr>info_code := ae_code a, info_retry_after := ae_retry_after a,
                     info_uncertain := (if as_delivery e = None then apiErrorUncertain a else DeliveryUncertain err),
                     info_reason := api_reason a\<rparr>
               | None \<Rightarrow>
                   (case as_reason e of
                      Some r \<Rightarrow> info\<lparr>info_reason := r, info_uncertain := DeliveryUncertain err\<rparr>
                    | None \<Rightarrow>
                        if timeoutError e then info\<lparr>info_reason := ''timeout'', info_uncertain := DeliveryUncertain err\<rparr>
                        else info\<lparr>info_uncertain := DeliveryUncertain err\<rparr>)))"

text \<open>A failure that the client marked keeps its mark: \<open>Uncertain\<close> is what \<open>deliveryFailure\<close> was told.\<close>

lemma classify_marked: "info_uncertain (ClassifyError (Some (DeliveryError e u))) = u"
  by (simp add: ClassifyError_def Let_def delivery_flag_def DeliveryUncertain_def split: option.splits)

section \<open>Fallbacks\<close>

fun contains_text :: "string \<Rightarrow> string \<Rightarrow> bool" where
  "contains_text t [] \<longleftrightarrow> t = []"
| "contains_text t (c # s) \<longleftrightarrow> has_prefix (c # s) t \<or> contains_text t s"

definition parseEntitiesError :: "tg_error option \<Rightarrow> bool" where
  "parseEntitiesError err =
     (case err of
        None \<Rightarrow> False
      | Some e \<Rightarrow>
          (case as_api e of
             None \<Rightarrow> False
           | Some a \<Rightarrow>
               ae_code a = 400
               \<and> (let desc = to_lower (ae_description a)
                  in contains_text (''can'' @ [CHR 0x27] @ ''t parse entities'') desc
                     \<or> contains_text ''unexpected end of'' desc \<or> contains_text ''unsupported start tag'' desc)))"

definition replyRejected :: "tg_error option \<Rightarrow> bool" where
  "replyRejected err =
     (case err of
        None \<Rightarrow> False
      | Some e \<Rightarrow>
          (case as_api e of
             None \<Rightarrow> False
           | Some a \<Rightarrow> ae_code a = 400 \<and> replyTargetNotFound (ae_description a)))"

text \<open>An edit that changes nothing counts as done.\<close>

definition not_modified :: "tg_error option \<Rightarrow> bool" where
  "not_modified err =
     (case err of
        None \<Rightarrow> False
      | Some e \<Rightarrow>
          (case as_api e of
             None \<Rightarrow> False
           | Some a \<Rightarrow> ae_code a = 400 \<and> contains_text ''message is not modified'' (to_lower (ae_description a))))"

definition topic_not_modified :: "tg_error option \<Rightarrow> bool" where
  "topic_not_modified err =
     (case err of
        None \<Rightarrow> False
      | Some e \<Rightarrow>
          (case as_api e of
             None \<Rightarrow> False
           | Some a \<Rightarrow> ae_code a = 400
               \<and> contains_text ''topic'' (to_lower (ae_description a))
               \<and> contains_text ''not modified'' (to_lower (ae_description a))))"

section \<open>Sanitized descriptions\<close>

text \<open>\<open>strings.ReplaceAll\<close> with a nonempty text, \<open>url.QueryEscape\<close> and \<open>url.PathEscape\<close>.\<close>

function replace_all :: "string \<Rightarrow> string \<Rightarrow> string \<Rightarrow> string" where
  "replace_all old new [] = []"
| "replace_all old new (c # s) =
     (if old \<noteq> [] \<and> has_prefix (c # s) old then new @ replace_all old new (drop (length old) (c # s))
      else c # replace_all old new s)"
  by pat_completeness auto
termination
  by (relation "measure (\<lambda>(old, new, s). length s)") auto

definition url_unreserved :: "char \<Rightarrow> bool" where
  "url_unreserved c \<longleftrightarrow> is_lower_char c \<or> is_upper_char c \<or> is_digit_char c \<or> c \<in> {CHR ''-'', CHR ''_'', CHR ''.'', CHR ''~''}"

definition upper_hex :: "nat \<Rightarrow> char" where
  "upper_hex d = (if d < 10 then char_of (48 + d) else char_of (55 + d))"

definition percent :: "char \<Rightarrow> string" where
  "percent c = [CHR ''%'', upper_hex (of_char c div 16), upper_hex (of_char c mod 16)]"

definition query_escape :: "string \<Rightarrow> string" where
  "query_escape s = concat (map (\<lambda>c. if url_unreserved c then [c] else if c = CHR '' '' then ''+'' else percent c) s)"

definition path_escape :: "string \<Rightarrow> string" where
  "path_escape s = concat (map (\<lambda>c. if url_unreserved c \<or> c \<in> set ''$&+=:@'' then [c] else percent c) s)"

text \<open>The pattern \<open>responseURL\<close>: its match at the start of a text. Case folding also takes the long s.\<close>

definition url_stop :: "char \<Rightarrow> bool" where
  "url_stop c \<longleftrightarrow> of_char c \<in> {9, 10, 12, 13, 32 :: nat} \<or> c \<in> {CHR ''<'', CHR ''>'', CHR 0x22, CHR 0x27}"

definition after_scheme :: "string \<Rightarrow> string option" where
  "after_scheme s =
     (if to_lower (take 5 s) = ''https'' then Some (drop 5 s)
      else if to_lower (take 4 s) = ''http'' \<and> take 2 (drop 4 s) = [CHR 0xC5, CHR 0xBF] then Some (drop 6 s)
      else if to_lower (take 4 s) = ''http'' then Some (drop 4 s)
      else None)"

definition url_end :: "string \<Rightarrow> string option" where
  "url_end s =
     (case after_scheme s of
        None \<Rightarrow> None
      | Some rest \<Rightarrow>
          if has_prefix rest ''://'' \<and> takeWhile (\<lambda>c. \<not> url_stop c) (drop 3 rest) \<noteq> []
          then Some (dropWhile (\<lambda>c. \<not> url_stop c) (drop 3 rest))
          else None)"

lemma length_after_scheme: "after_scheme s = Some t \<Longrightarrow> length t \<le> length s"
  by (auto simp: after_scheme_def split: if_splits)

lemma length_url_end: "url_end s = Some t \<Longrightarrow> length t < length s"
proof -
  assume "url_end s = Some t"
  then obtain rest where rest: "after_scheme s = Some rest" "has_prefix rest ''://''"
    and t: "t = dropWhile (\<lambda>c. \<not> url_stop c) (drop 3 rest)"
    by (auto simp: url_end_def split: option.splits if_splits)
  have "3 \<le> length rest" using rest(2) by (auto simp: has_prefix_def prefix_def)
  moreover have "length t \<le> length (drop 3 rest)" unfolding t by (rule length_dropWhile_le)
  ultimately show ?thesis using length_after_scheme [OF rest(1)] by simp
qed

function redact_urls :: "string \<Rightarrow> string" where
  "redact_urls [] = []"
| "redact_urls (c # s) =
     (case url_end (c # s) of
        Some rest \<Rightarrow> ''[redacted URL]'' @ redact_urls rest
      | None \<Rightarrow> c # redact_urls s)"
  by pat_completeness auto
termination
  by (relation "measure length") (auto dest: length_url_end)

definition blank_controls :: "string \<Rightarrow> string" where
  "blank_controls s = concat (map (\<lambda>(r, bytes).
     if r < 32 \<or> r = 127 then '' ''
     else if r = rune_error \<and> length bytes = 1 then [CHR 0xEF, CHR 0xBF, CHR 0xBD]
     else bytes) (runes s))"

definition sanitize :: "string \<Rightarrow> string \<Rightarrow> string" where
  "sanitize token description =
     (let redact = (\<lambda>secret d. replace_all secret ''[redacted]'' d);
          d = (if token \<noteq> []
               then redact (path_escape token) (redact (query_escape token) (redact token description))
               else description)
      in blank_controls (redact_urls d))"

end
