(* ===== verification/TelegramClient.thy ===== *)
theory TelegramClient
  imports TelegramErrors MarkdownConvert
begin

text \<open>
  The Telegram client (\<open>client.go\<close>, \<open>media.go\<close>): one API request, the decoding of its answer, the
  retries of \<open>call\<close>, and the messages, edits and uploads built from them.

  The network is a parameter: what happens to the n-th request. An attempt says what the context
  reports before the request, after a failure and while waiting for a retry, what the client sees, and,
  as a ghost that no code reads, whether Telegram performed the request. Delays only set timers and are
  left out; so are log records.
\<close>

section \<open>Requests and answers\<close>

text \<open>The fields of a request body that depend on the caller; \<open>None\<close> leaves a field out.\<close>

datatype 'k markup = InlineKeyboard "'k" | ForceReply

record 'k fields =
  fl_chat :: int64
  fl_thread :: int64
  fl_message :: "int64 option"
  fl_text :: "string option"
  fl_html :: bool
  fl_reply :: int64
  fl_markup :: "'k markup option"
  fl_file :: "(string \<times> string) option"
  fl_query :: "string option"
  fl_topic :: "string option"
  fl_action :: "string option"

record 'k request =
  rq_method :: string
  rq_fields :: "'k fields"

text \<open>The envelope: \<open>ok\<close> may be missing; \<open>ev_result\<close> is the message id when the result is present and
  decodes.\<close>

record envelope =
  ev_ok :: "bool option"
  ev_result :: "int64 option"
  ev_code :: int
  ev_description :: string
  ev_retry_after :: "int option"

datatype response_body = InvalidJSON | Oversized | Envelope envelope

datatype exchange =
    DoFailed bool
  | ReadFailed bool
  | Answered int response_body

record attempt =
  ctx_before :: "ctx_error option"
  ctx_after :: "ctx_error option"
  ctx_wait :: "ctx_error option"
  exchange :: exchange
  write_failed :: bool
  posted :: bool

type_synonym 'k network = "nat \<Rightarrow> 'k request \<Rightarrow> attempt"

record 'k net_state =
  calls :: nat
  performed :: "('k request \<times> attempt) list"

definition fresh_net :: "'k net_state" where
  "fresh_net = \<lparr>calls = 0, performed = []\<rparr>"

text \<open>A request that the context stops before it starts reaches nobody.\<close>

definition advance :: "'k net_state \<Rightarrow> 'k request \<Rightarrow> attempt \<Rightarrow> 'k net_state" where
  "advance st rq a =
     \<lparr>calls = Suc (calls st),
      performed = (if ctx_before a = None then performed st @ [(rq, a)] else performed st)\<rparr>"

section \<open>One request\<close>

type_synonym answer = "bool \<times> tg_error option \<times> int64"

definition api_error :: "string \<Rightarrow> int \<Rightarrow> envelope \<Rightarrow> APIError" where
  "api_error token status ev =
     (let code = (if ev_code ev = 0 then status else ev_code ev);
          description = sanitize token (ev_description ev)
      in \<lparr>ae_code = code, ae_description = (if description = [] then ''request rejected'' else description),
          ae_retry_after = 0\<rparr>)"

text \<open>Only an explicit, complete rejection proves that nothing was done.\<close>

definition incomplete :: "envelope \<Rightarrow> bool" where
  "incomplete ev \<longleftrightarrow>
     ev_ok ev \<noteq> Some False \<or> ev_code ev < 400 \<or> ev_code ev > 599 \<or> trim_space (ev_description ev) = []"

definition decode_envelope :: "string \<Rightarrow> int \<Rightarrow> envelope \<Rightarrow> bool \<Rightarrow> bool \<Rightarrow> answer" where
  "decode_envelope token status ev wants safe =
     (if ev_ok ev \<noteq> Some True \<or> status < 200 \<or> status \<ge> 300 then
        (let a = api_error token status ev; uncertain = incomplete ev
         in if ae_code a = 429 \<and> \<not> uncertain
            then (False, deliveryFailure (Some (Api (a\<lparr>ae_retry_after :=
                   (case ev_retry_after ev of Some n \<Rightarrow> if n > 0 then n else 1 | None \<Rightarrow> 1)\<rparr>))) uncertain, 0)
            else (safe \<and> ae_code a \<ge> 500 \<and> ae_code a \<le> 599, deliveryFailure (Some (Api a)) uncertain, 0))
      else if \<not> wants then (False, None, 0)
      else case ev_result ev of
          None \<Rightarrow> (False, withReason ''api_error'' (Some (Opaque ''telegram: invalid API result'')), 0)
        | Some i \<Rightarrow> (False, None, i))"

definition decodeResponse :: "string \<Rightarrow> attempt \<Rightarrow> int \<Rightarrow> response_body \<Rightarrow> bool \<Rightarrow> bool \<Rightarrow> answer" where
  "decodeResponse token a status body wants safe =
     (case body of
        Oversized \<Rightarrow> (False, withReason ''api_error'' (Some (Opaque ''telegram: response exceeds size limit'')), 0)
      | InvalidJSON \<Rightarrow> (safe \<and> status \<ge> 500,
          withReason ''api_error'' (Some (Opaque ''telegram: invalid API response'')), 0)
      | Envelope ev \<Rightarrow> decode_envelope token status ev wants safe)"

definition transport_failure :: "attempt \<Rightarrow> bool \<Rightarrow> bool \<Rightarrow> string \<Rightarrow> answer" where
  "transport_failure a timeout safe text =
     (case ctx_after a of
        Some c \<Rightarrow> (False, Some (ctx_err c), 0)
      | None \<Rightarrow> (safe, withReason (if timeout then ''timeout'' else ''transport_failed'') (Some (Opaque text)), 0))"

definition answer_of :: "string \<Rightarrow> attempt \<Rightarrow> bool \<Rightarrow> bool \<Rightarrow> answer" where
  "answer_of token a wants safe =
     (case exchange a of
        DoFailed timeout \<Rightarrow> transport_failure a timeout safe ''telegram: transport failed (delivery may be uncertain)''
      | ReadFailed timeout \<Rightarrow> transport_failure a timeout safe ''telegram: response read failed (delivery may be uncertain)''
      | Answered status body \<Rightarrow> decodeResponse token a status body wants safe)"

definition request_api ::
    "string \<Rightarrow> 'k network \<Rightarrow> 'k net_state \<Rightarrow> 'k request \<Rightarrow> bool \<Rightarrow> bool \<Rightarrow> answer \<times> attempt \<times> 'k net_state" where
  "request_api token net st rq wants safe =
     (let a = net (calls st) rq; st' = advance st rq a
      in case ctx_before a of
           Some c \<Rightarrow> ((False, deliveryFailure (Some (ctx_err c)) False, 0), a, st')
         | None \<Rightarrow> (answer_of token a wants safe, a, st'))"

section \<open>call\<close>

type_synonym sent_result = "tg_error option \<times> int64"

fun call_loop ::
    "string \<Rightarrow> 'k network \<Rightarrow> 'k request \<Rightarrow> bool \<Rightarrow> bool \<Rightarrow> nat \<Rightarrow> bool \<Rightarrow> 'k net_state \<Rightarrow> sent_result \<times> 'k net_state" where
  "call_loop token net rq wants safe 0 uncertain st = ((None, 0), st)"
| "call_loop token net rq wants safe (Suc left) uncertain st =
     (case request_api token net st rq wants safe of
        ((retry, err, i), a, st') \<Rightarrow>
          (let u = (uncertain \<or> DeliveryUncertain err)
           in if err = None \<or> \<not> retry \<or> left = 0 then ((deliveryFailure err u, i), st')
              else (case ctx_wait a of
                  Some c \<Rightarrow> ((deliveryFailure (Some (ctx_err c)) u, i), st')
                | None \<Rightarrow> call_loop token net rq wants safe left u st')))"

definition call_api :: "string \<Rightarrow> 'k network \<Rightarrow> 'k net_state \<Rightarrow> 'k request \<Rightarrow> bool \<Rightarrow> bool \<Rightarrow> sent_result \<times> 'k net_state" where
  "call_api token net st rq wants safe = call_loop token net rq wants safe 3 False st"

section \<open>Messages\<close>

text \<open>\<open>html.UnescapeString\<close> on the entities the converter writes (\<open>escapeHTML\<close> escapes every ampersand
  and angle of the text, so a generated document has no others).\<close>

function unescape_html :: "string \<Rightarrow> string" where
  "unescape_html [] = []"
| "unescape_html (c # s) =
     (if has_prefix (c # s) ''&amp;'' then ''&'' @ unescape_html (drop 4 s)
      else if has_prefix (c # s) ''&lt;'' then ''<'' @ unescape_html (drop 3 s)
      else if has_prefix (c # s) ''&gt;'' then ''>'' @ unescape_html (drop 3 s)
      else if has_prefix (c # s) ''&quot;'' then CHR 0x22 # unescape_html (drop 5 s)
      else c # unescape_html s)"
  by pat_completeness auto
termination
  by (relation "measure length") auto

fun strip_tags :: "bool \<Rightarrow> (rune \<times> string) list \<Rightarrow> string" where
  "strip_tags inside [] = []"
| "strip_tags inside ((r, bytes) # rs) =
     (if r = 60 then strip_tags True rs
      else if r = 62 then strip_tags False rs
      else if inside then strip_tags inside rs
      else (if r = rune_error \<and> length bytes = 1 then [CHR 0xEF, CHR 0xBF, CHR 0xBD] else bytes) @ strip_tags inside rs)"

definition plainHTMLText :: "string \<Rightarrow> string" where
  "plainHTMLText markup = unescape_html (strip_tags False (runes markup))"

text \<open>The conversion may not return (then nothing is sent, and \<open>None\<close> is the result).\<close>

definition applyPlain :: "'k fields \<Rightarrow> string \<Rightarrow> 'k fields" where
  "applyPlain f text =
     (let t = (if literalUTF16Len text > MaxMessageUTF16 \<and> fl_html f
               then (case fl_text f of Some html \<Rightarrow> plainHTMLText html | None \<Rightarrow> text)
               else text)
      in f\<lparr>fl_text := Some t, fl_html := False\<rparr>)"

definition applyHTML :: "unicode_class \<Rightarrow> 'k fields \<Rightarrow> string \<Rightarrow> 'k fields option" where
  "applyHTML wide_punct f text =
     map_option (\<lambda>html.
         if renderedUTF16Len html > MaxMessageUTF16 then applyPlain f text
         else f\<lparr>fl_text := Some html, fl_html := True\<rparr>)
       (ConvertMarkdown wide_punct text)"

record 'k SendOptions =
  so_reply :: int64
  so_keyboard :: "'k option"
  so_force_reply :: bool

definition no_fields :: "int64 \<Rightarrow> 'k fields" where
  "no_fields chat = \<lparr>fl_chat = chat, fl_thread = 0, fl_message = None, fl_text = None, fl_html = False,
     fl_reply = 0, fl_markup = None, fl_file = None, fl_query = None, fl_topic = None,
     fl_action = None\<rparr>"

definition options_markup :: "'k SendOptions \<Rightarrow> 'k markup option" where
  "options_markup opts =
     (case so_keyboard opts of
        Some k \<Rightarrow> Some (InlineKeyboard k)
      | None \<Rightarrow> if so_force_reply opts then Some ForceReply else None)"

definition send_fields :: "unicode_class \<Rightarrow> int64 \<Rightarrow> int64 \<Rightarrow> string \<Rightarrow> 'k SendOptions \<Rightarrow> 'k fields option" where
  "send_fields wide_punct chat thread text opts =
     map_option (\<lambda>f. f\<lparr>fl_thread := thread, fl_reply := so_reply opts, fl_markup := options_markup opts\<rparr>)
       (applyHTML wide_punct (no_fields chat) text)"

text \<open>A text request and, when Telegram rejects its markup, the same request in plain text.\<close>

definition call_text ::
    "string \<Rightarrow> 'k network \<Rightarrow> 'k net_state \<Rightarrow> string \<Rightarrow> 'k fields \<Rightarrow> string \<Rightarrow> bool \<Rightarrow> sent_result \<times> 'k net_state" where
  "call_text token net st method f text wants =
     (case call_api token net st \<lparr>rq_method = method, rq_fields = f\<rparr> wants False of
        ((err, i), st1) \<Rightarrow>
          if parseEntitiesError err
          then call_api token net st1 \<lparr>rq_method = method, rq_fields = applyPlain f text\<rparr> wants False
          else ((err, i), st1))"

definition sendWithReplyFallback ::
    "'k SendOptions \<Rightarrow> ('k SendOptions \<Rightarrow> 'k net_state \<Rightarrow> sent_result \<times> 'k net_state) \<Rightarrow> 'k net_state \<Rightarrow> sent_result \<times> 'k net_state" where
  "sendWithReplyFallback opts send st =
     (if so_keyboard opts \<noteq> None \<and> so_force_reply opts
      then ((deliveryFailure (Some (Opaque ''inline keyboard and ForceReply are mutually exclusive'')) False, 0), st)
      else case send opts st of
          ((err, i), st1) \<Rightarrow>
            if err = None \<or> so_reply opts = 0 \<or> \<not> replyRejected err then ((err, i), st1)
            else send (opts\<lparr>so_reply := 0\<rparr>) st1)"

definition Send ::
    "unicode_class \<Rightarrow> string \<Rightarrow> 'k network \<Rightarrow> int64 \<Rightarrow> int64 \<Rightarrow> string \<Rightarrow> 'k SendOptions \<Rightarrow> 'k net_state
       \<Rightarrow> (sent_result \<times> 'k net_state) option" where
  "Send wide_punct token net chat thread text opts st =
     (case send_fields wide_punct chat thread text opts of
        None \<Rightarrow> None
      | Some f \<Rightarrow> Some (sendWithReplyFallback opts
          (\<lambda>o' st. call_text token net st ''sendMessage'' (f\<lparr>fl_reply := so_reply o'\<rparr>) text True) st))"

definition Edit ::
    "unicode_class \<Rightarrow> string \<Rightarrow> 'k network \<Rightarrow> int64 \<Rightarrow> int64 \<Rightarrow> string \<Rightarrow> 'k option \<Rightarrow> 'k net_state
       \<Rightarrow> (tg_error option \<times> 'k net_state) option" where
  "Edit wide_punct token net chat message text keyboard st =
     (case applyHTML wide_punct ((no_fields chat)\<lparr>fl_message := Some message\<rparr>) text of
        None \<Rightarrow> None
      | Some f \<Rightarrow>
          (case call_text token net st ''editMessageText''
             (f\<lparr>fl_markup := map_option InlineKeyboard keyboard\<rparr>) text False of
             ((err, i), st') \<Rightarrow> Some (if not_modified err then None else err, st')))"

text \<open>The keyboard operations; an empty keyboard removes the buttons.\<close>

definition EditKeyboard ::
    "string \<Rightarrow> 'k network \<Rightarrow> 'k \<Rightarrow> int64 \<Rightarrow> int64 \<Rightarrow> 'k option \<Rightarrow> 'k net_state \<Rightarrow> tg_error option \<times> 'k net_state" where
  "EditKeyboard token net no_buttons chat message keyboard st =
     (case call_api token net st \<lparr>rq_method = ''editMessageReplyMarkup'',
         rq_fields = (no_fields chat)\<lparr>fl_message := Some message,
           fl_markup := Some (InlineKeyboard (case keyboard of None \<Rightarrow> no_buttons | Some k \<Rightarrow> k))\<rparr>\<rparr> False False of
        ((err, i), st') \<Rightarrow> (if not_modified err then None else err, st'))"

definition ClearKeyboard :: "string \<Rightarrow> 'k network \<Rightarrow> 'k \<Rightarrow> int64 \<Rightarrow> int64 \<Rightarrow> 'k net_state \<Rightarrow> tg_error option \<times> 'k net_state" where
  "ClearKeyboard token net no_buttons chat message st =
     (case call_api token net st \<lparr>rq_method = ''editMessageReplyMarkup'',
         rq_fields = (no_fields chat)\<lparr>fl_message := Some message, fl_markup := Some (InlineKeyboard no_buttons)\<rparr>\<rparr> False False of
        ((err, i), st') \<Rightarrow> (err, st'))"

definition EditForumTopic :: "string \<Rightarrow> 'k network \<Rightarrow> int64 \<Rightarrow> int64 \<Rightarrow> string \<Rightarrow> 'k net_state \<Rightarrow> tg_error option \<times> 'k net_state" where
  "EditForumTopic token net chat thread name st =
     (case call_api token net st \<lparr>rq_method = ''editForumTopic'',
         rq_fields = (no_fields chat)\<lparr>fl_thread := thread, fl_topic := Some name\<rparr>\<rparr> False True of
        ((err, i), st') \<Rightarrow> (if topic_not_modified err then None else err, st'))"

definition tg_delete :: "string \<Rightarrow> 'k network \<Rightarrow> int64 \<Rightarrow> int64 \<Rightarrow> 'k net_state \<Rightarrow> tg_error option \<times> 'k net_state" where
  "tg_delete token net chat message st =
     (case call_api token net st \<lparr>rq_method = ''deleteMessage'',
         rq_fields = (no_fields chat)\<lparr>fl_message := Some message\<rparr>\<rparr> False False of
        ((err, i), st') \<Rightarrow> (err, st'))"

definition AnswerCallback :: "string \<Rightarrow> 'k network \<Rightarrow> string \<Rightarrow> string \<Rightarrow> 'k net_state \<Rightarrow> tg_error option \<times> 'k net_state" where
  "AnswerCallback token net query text st =
     (case call_api token net st \<lparr>rq_method = ''answerCallbackQuery'',
         rq_fields = (no_fields 0)\<lparr>fl_text := Some text, fl_query := Some query\<rparr>\<rparr> False False of
        ((err, i), st') \<Rightarrow> (err, st'))"

definition Typing :: "string \<Rightarrow> 'k network \<Rightarrow> int64 \<Rightarrow> int64 \<Rightarrow> 'k net_state \<Rightarrow> tg_error option \<times> 'k net_state" where
  "Typing token net chat thread st =
     (case call_api token net st \<lparr>rq_method = ''sendChatAction'',
         rq_fields = (no_fields chat)\<lparr>fl_thread := thread, fl_action := Some ''typing''\<rparr>\<rparr> False False of
        ((err, i), st') \<Rightarrow> (err, st'))"

section \<open>Uploads\<close>

text \<open>What the file system shows of an attachment: whether it is a regular file and can be opened, whether
  the opened file is the same, its size, and the decoded picture header.\<close>

record upload_view =
  up_regular :: bool
  up_opens :: bool
  up_same :: bool
  up_size :: int64
  up_picture :: "(string \<times> int \<times> int) option"
  up_rewinds :: bool

definition photo_ok :: "(string \<times> int \<times> int) option \<Rightarrow> bool" where
  "photo_ok decoded =
     (case decoded of
        None \<Rightarrow> False
      | Some (format, width, height) \<Rightarrow>
          \<not> (format \<noteq> ''jpeg'' \<and> format \<noteq> ''png'' \<or> width \<le> 0 \<or> height \<le> 0 \<or> width > 10000 \<or> height > 10000
             \<or> width + height > 10000 \<or> width > height * 20 \<or> height > width * 20))"

definition openUpload :: "upload_view \<Rightarrow> string \<Rightarrow> int64 \<Rightarrow> tg_error option" where
  "openUpload v kind limit =
     (if \<not> up_regular v then Some (Opaque ''telegram: attachment must be a regular file'')
      else if \<not> up_opens v then Some (Opaque ''telegram: cannot open attachment'')
      else if \<not> up_same v \<or> up_size v > limit
      then Some (Opaque ''telegram: attachment is unsafe or exceeds size limit'')
      else if kind = ''photo'' \<and> \<not> photo_ok (up_picture v)
      then Some (Opaque ''telegram: photo must be JPEG/PNG with dimension sum <=10000 and ratio <=20'')
      else if kind = ''photo'' \<and> \<not> up_rewinds v then Some (Opaque ''telegram: cannot rewind attachment'')
      else None)"

definition upload_answer :: "string \<Rightarrow> attempt \<Rightarrow> answer" where
  "upload_answer token a =
     (case exchange a of
        DoFailed timeout \<Rightarrow> transport_failure a timeout False ''telegram: upload transport failed (delivery may be uncertain)''
      | ReadFailed timeout \<Rightarrow> transport_failure a timeout False ''telegram: response read failed (delivery may be uncertain)''
      | Answered status body \<Rightarrow>
          (case decodeResponse token a status body True False of
             (retry, Some e, i) \<Rightarrow> (retry, Some e, i)
           | (retry, None, i) \<Rightarrow>
               if write_failed a
               then (False, withReason ''transport_failed'' (Some (Opaque ''telegram: upload interrupted (delivery may be uncertain)'')), i)
               else (False, None, i)))"

definition upload ::
    "string \<Rightarrow> 'k network \<Rightarrow> 'k net_state \<Rightarrow> 'k request \<Rightarrow> answer \<times> attempt \<times> 'k net_state" where
  "upload token net st rq =
     (let a = net (calls st) rq; st' = advance st rq a
      in case ctx_before a of
           Some c \<Rightarrow> ((False, deliveryFailure (Some (ctx_err c)) False, 0), a, st')
         | None \<Rightarrow> (upload_answer token a, a, st'))"

fun upload_loop ::
    "string \<Rightarrow> 'k network \<Rightarrow> (nat \<Rightarrow> upload_view) \<Rightarrow> string \<Rightarrow> int64 \<Rightarrow> 'k request \<Rightarrow> nat \<Rightarrow> bool \<Rightarrow> 'k net_state
       \<Rightarrow> sent_result \<times> 'k net_state" where
  "upload_loop token net view kind limit rq 0 uncertain st = ((None, 0), st)"
| "upload_loop token net view kind limit rq (Suc left) uncertain st =
     (case openUpload (view (calls st)) kind limit of
        Some e \<Rightarrow> ((deliveryFailure (Some e) uncertain, 0), st)
      | None \<Rightarrow>
          (case upload token net st rq of
             ((retry, err, i), a, st') \<Rightarrow>
               (let u = (uncertain \<or> DeliveryUncertain err)
                in if err = None \<or> \<not> retry \<or> left = 0 then ((deliveryFailure err u, i), st')
                   else (case ctx_wait a of
                       Some c \<Rightarrow> ((deliveryFailure (Some (ctx_err c)) u, i), st')
                     | None \<Rightarrow> upload_loop token net view kind limit rq left u st'))))"

definition sendFile ::
    "string \<Rightarrow> 'k network \<Rightarrow> (nat \<Rightarrow> upload_view) \<Rightarrow> int64 \<Rightarrow> int64 \<Rightarrow> string \<Rightarrow> string \<Rightarrow> string \<Rightarrow> string \<Rightarrow> int64
       \<Rightarrow> 'k net_state \<Rightarrow> sent_result \<times> 'k net_state" where
  "sendFile token net view chat thread kind path name caption replyTo st =
     (let limit = (if kind = ''photo'' then 10000000 else 50000000);
          method = (if kind = ''photo'' then ''sendPhoto'' else ''sendDocument'');
          shown = (if name = [] then path_base path else name);
          bad = (\<lambda>text. ((deliveryFailure (Some (Opaque text)) False, 0), st))
      in if kind \<noteq> ''photo'' \<and> kind \<noteq> ''document'' then bad ''telegram: unsupported attachment kind''
         else if \<not> path_is_abs path then bad ''telegram: attachment path must be absolute''
         else if text_units caption > 1024 then bad ''telegram: caption exceeds 1024 UTF-16 units''
         else if list_ex (\<lambda>c. c \<in> {CHR 0x0D, CHR 0x0A, CHR 0x00}) shown then bad ''telegram: invalid attachment name''
         else upload_loop token net view kind limit
           \<lparr>rq_method = method, rq_fields = (no_fields chat)\<lparr>fl_thread := thread, fl_text := Some caption,
              fl_reply := replyTo, fl_file := Some (path, shown)\<rparr>\<rparr> 3 False st)"

definition SendFile ::
    "string \<Rightarrow> 'k network \<Rightarrow> (nat \<Rightarrow> upload_view) \<Rightarrow> int64 \<Rightarrow> int64 \<Rightarrow> string \<Rightarrow> string \<Rightarrow> string \<Rightarrow> string
       \<Rightarrow> 'k SendOptions \<Rightarrow> 'k net_state \<Rightarrow> sent_result \<times> 'k net_state" where
  "SendFile token net view chat thread kind path name caption opts st =
     sendWithReplyFallback opts
       (\<lambda>o' st. sendFile token net view chat thread kind path name caption (so_reply o') st) st"

section \<open>Paths of downloads\<close>

definition path_char :: "char \<Rightarrow> bool" where
  "path_char c \<longleftrightarrow> is_lower_char c \<or> is_upper_char c \<or> is_digit_char c \<or> c \<in> {CHR ''_'', CHR ''-'', CHR ''.''}"

definition validFilePath :: "string \<Rightarrow> bool" where
  "validFilePath path \<longleftrightarrow>
     path \<noteq> [] \<and> list_all (\<lambda>segment. segment \<notin> {[], ''.'', ''..''} \<and> list_all path_char segment)
       (split_on (CHR ''/'') path)"

end
