(* ===== verification/BridgeDelivery.thy ===== *)
theory BridgeDelivery
  imports TelegramClient StoreSteps
begin

text \<open>
  The delivery workers of the bridge (\<open>deliver\<close> in \<open>bridge.go\<close>, the header and button edits of
  \<open>assistant_delivery.go\<close> and \<open>final_actions.go\<close>, the reconnect delays of \<open>polling.go\<close>): the store's
  outbox on one side, the Telegram client on the other.

  The environment of one round of the loop is a record: the clock, whether the context is done at each
  point that asks, the localized notices, the network and the file system. The removal of a delivered
  attachment's snapshot and the log records change no modelled state and are left out.
\<close>

section \<open>Keyboards\<close>

type_synonym keyboard = "(string \<times> string) list list"

definition finalActionPrefix :: string where
  "finalActionPrefix = ''fa:''"

text \<open>At most three buttons and twenty-four UTF-16 units in a row, but at least one button.\<close>

fun keyboard_rows :: "keyboard \<Rightarrow> (string \<times> string) list \<Rightarrow> nat \<Rightarrow> final_action list \<Rightarrow> keyboard" where
  "keyboard_rows rows row units [] = rows @ [row]"
| "keyboard_rows rows row units (action # actions) =
     (let n = text_units (a_label action); button = (a_label action, finalActionPrefix @ a_token action)
      in if row \<noteq> [] \<and> (length row = 3 \<or> units + n > 24)
         then keyboard_rows (rows @ [row]) [button] n actions
         else keyboard_rows rows (row @ [button]) (units + n) actions)"

definition finalActionKeyboard :: "action_codec \<Rightarrow> string \<Rightarrow> keyboard option" where
  "finalActionKeyboard codec encoded =
     (if encoded = [] then None
      else case unmarshal codec encoded of
          None \<Rightarrow> None
        | Some actions \<Rightarrow> if actions = [] then None else Some (keyboard_rows [] [] 0 actions))"

section \<open>Delays\<close>

definition pollBackoffInitial :: int64 where "pollBackoffInitial = 1000000000"
definition pollBackoffMax :: int64 where "pollBackoffMax = 30000000000"

definition nextPollBackoff :: "int64 \<Rightarrow> int64" where
  "nextPollBackoff current =
     (if current \<le> 0 then pollBackoffInitial
      else if current \<ge> pollBackoffMax div 2 then pollBackoffMax
      else wrap64 (current * 2))"

definition nextPollDelay :: "int64 \<Rightarrow> int64 \<Rightarrow> int64" where
  "nextPollDelay current retryAfter =
     (let delay = nextPollBackoff current
      in if retryAfter \<le> 0 then delay
         else (let serverDelay = wrap64 (retryAfter * 1000000000)
               in if serverDelay > delay then serverDelay else delay))"

definition maxServerRetryDelaySeconds :: int64 where "maxServerRetryDelaySeconds = 300"
definition maxServerDeliveryAttempts :: int64 where "maxServerDeliveryAttempts = 12"

definition retryableServerRejection :: "ErrorInfo \<Rightarrow> bool" where
  "retryableServerRejection info \<longleftrightarrow> \<not> info_uncertain info \<and> info_code info \<in> {500, 502, 503, 504}"

function doubled_delay :: "int64 \<Rightarrow> int64 \<Rightarrow> int64 \<Rightarrow> int64" where
  "doubled_delay attemptCount attempt delay =
     (if attempt < attemptCount \<and> delay < maxServerRetryDelaySeconds
      then doubled_delay attemptCount (attempt + 1) (delay * 2) else delay)"
  by pat_completeness auto
termination
  by (relation "measure (\<lambda>(c, a, d). nat (c - a))") auto

declare doubled_delay.simps [simp del]

definition deliveryRetryDelaySeconds :: "Output \<Rightarrow> ErrorInfo \<Rightarrow> int64" where
  "deliveryRetryDelaySeconds output info =
     (if info_reason info = ''rate_limited''
      then (if info_retry_after info > 0 then info_retry_after info else 1)
      else (let attemptCount = (if retryableServerRejection info then wrap64 (o_server_retry_count output + 1)
                                else o_attempt_count output);
                delay = doubled_delay attemptCount 1 1
            in if delay > maxServerRetryDelaySeconds then maxServerRetryDelaySeconds else delay))"

section \<open>The state of a delivery worker\<close>

record delivery_env =
  de_punct :: unicode_class
  de_token :: string
  de_net :: "keyboard network"
  de_view :: "nat \<Rightarrow> upload_view"
  de_codec :: action_codec
  de_decode :: chat_decoder
  de_notice :: "outbox_state \<Rightarrow> string"
  de_now :: int64
  de_clock :: int64
  de_header_done :: bool
  de_claim_done :: bool
  de_edit_done :: bool
  de_finish_done :: bool
  de_fetch_done :: bool
  de_clean_done :: "int64 \<Rightarrow> bool"

record delivery_state =
  sw :: "database world"
  nw :: "keyboard net_state"

definition on_store :: "'a store \<Rightarrow> delivery_state \<Rightarrow> (store_error + 'a) \<times> delivery_state" where
  "on_store m s = (case m (sw s) of (r, w) \<Rightarrow> (r, s\<lparr>sw := w\<rparr>))"

text \<open>How a round ends: the loop goes on, or \<open>deliver\<close> returns, with an error or without.\<close>

datatype round_end = Again | Stop "store_error option"

definition finish_with :: "(store_error + 'a) \<times> delivery_state \<Rightarrow> round_end \<times> delivery_state" where
  "finish_with r = (case r of (Inl e, s) \<Rightarrow> (Stop (Some e), s) | (Inr _, s) \<Rightarrow> (Again, s))"

section \<open>Edits of delivered messages\<close>

definition assistantOutputText :: "Output \<Rightarrow> string" where
  "assistantOutputText o' = (if o_header o' = [] then o_text o' else o_header o' @ [newline, newline] @ o_text o')"

definition deliverAssistantHeader :: "delivery_env \<Rightarrow> delivery_state \<Rightarrow> (round_end \<times> delivery_state) option" where
  "deliverAssistantHeader env s =
     (case on_store NextAssistantHeader s of
        (Inl e, s1) \<Rightarrow> Some (if e = ErrNoRows then Again else Stop (Some e), s1)
      | (Inr o', s1) \<Rightarrow>
          (case Edit (de_punct env) (de_token env) (de_net env) (o_chat o') (o_message_id o') (assistantOutputText o')
             (finalActionKeyboard (de_codec env) (o_final_actions o')) (nw s1) of
             None \<Rightarrow> None
           | Some (err, n) \<Rightarrow>
               Some (finish_with (on_store
                 (if de_header_done env then FinishFinalActionEdit (o_id o') (o_final_actions o')
                  else MarkAssistantHeaderDelivered (o_id o') (o_header o') (o_final_actions o')) (s1\<lparr>nw := n\<rparr>)))))"

definition deliverFinalActions :: "delivery_env \<Rightarrow> delivery_state \<Rightarrow> round_end \<times> delivery_state" where
  "deliverFinalActions env s =
     (case on_store (ClaimFinalActionEdit (de_now env)) s of
        (Inl e, s1) \<Rightarrow> (if e = ErrNoRows \<or> de_claim_done env then Again else Stop (Some e), s1)
      | (Inr o', s1) \<Rightarrow>
          if de_edit_done env then finish_with (on_store (ReleaseAssistantEdit (o_id o')) s1)
          else (case EditKeyboard (de_token env) (de_net env) [] (o_chat o') (o_message_id o')
              (finalActionKeyboard (de_codec env) (o_final_actions o')) (nw s1) of
              (err, n) \<Rightarrow>
                (case on_store (FinishFinalActionEdit (o_id o') (o_final_actions o')) (s1\<lparr>nw := n\<rparr>) of
                   (Inl e, s2) \<Rightarrow> (if de_finish_done env then Again else Stop (Some e), s2)
                 | (Inr _, s2) \<Rightarrow> (Again, s2))))"

section \<open>Sending a claimed message\<close>

definition reply_options :: "int64 \<Rightarrow> keyboard option \<Rightarrow> keyboard SendOptions" where
  "reply_options reply keyboard = \<lparr>so_reply = reply, so_keyboard = keyboard, so_force_reply = False\<rparr>"

text \<open>The outer option is a conversion that does not return, the inner one a kind the code does not know.\<close>

definition send_output :: "delivery_env \<Rightarrow> Output \<Rightarrow> keyboard net_state \<Rightarrow> (sent_result \<times> keyboard net_state) option option" where
  "send_output env o' n =
     (if o_kind o' = ''text'' then
        map_option Some (Send (de_punct env) (de_token env) (de_net env) (o_chat o') (o_thread o') (assistantOutputText o')
          (reply_options (o_reply_to o') (finalActionKeyboard (de_codec env) (o_final_actions o'))) n)
      else if o_kind o' = ''photo'' \<or> o_kind o' = ''document'' then
        Some (Some (case SendFile (de_token env) (de_net env) (de_view env) (o_chat o') (o_thread o') (o_kind o') (o_path o')
            (o_name o') (o_text o') (reply_options (o_reply_to o') None) n of
          ((err, i), n') \<Rightarrow> ((err, 0), n')))
      else Some None)"

text \<open>What the answer means for the row: the retry of a definite refusal, or a final state.\<close>

datatype verdict = RetryLater int64 bool | Settle outbox_state

definition next_attempt :: "int64 \<Rightarrow> int64 \<Rightarrow> int64" where
  "next_attempt now delay = (if delay > max_int64 - now then max_int64 else now + delay)"

definition verdict_of :: "delivery_env \<Rightarrow> Output \<Rightarrow> tg_error option \<Rightarrow> verdict" where
  "verdict_of env o' err =
     (if err = None then Settle OutboxDone
      else (let info = ClassifyError err;
                rateLimited = (info_reason info = ''rate_limited'' \<and> \<not> info_uncertain info);
                serverRejection = retryableServerRejection info
            in if rateLimited \<or> serverRejection
               then RetryLater (next_attempt (de_now env) (deliveryRetryDelaySeconds o' info)) serverRejection
               else Settle (if info_uncertain info then OutboxUncertain else OutboxFailed)))"

text \<open>The write of the verdict. The result is the final state, or \<open>None\<close> for a scheduled retry.\<close>

definition settle_output :: "delivery_env \<Rightarrow> Output \<Rightarrow> tg_error option \<Rightarrow> int64 \<Rightarrow> outbox_state option store" where
  "settle_output env o' err messageID =
     (case verdict_of env o' err of
        RetryLater at serverRejection \<Rightarrow>
          if serverRejection
          then bind (RetryServerOutput (de_clock env) (o_id o') at maxServerDeliveryAttempts)
            (\<lambda>(count, exhausted). give (if exhausted then Some OutboxFailed else None))
          else bind (RetryOutput (de_clock env) (o_id o') at) (\<lambda>_. give None)
      | Settle state \<Rightarrow>
          bind (if state = OutboxDone \<and> (o_header_editable o' \<or> o_assistant_body o' \<or> o_final_actions o' \<noteq> [])
                then MarkOutputDelivered (de_clock env) (o_id o') messageID (o_header o') (o_final_actions o')
                else MarkOutput (de_clock env) (o_id o') state) (\<lambda>_. give (Some state)))"

section \<open>After the delivery\<close>

definition permanent_refusal :: "ErrorInfo \<Rightarrow> bool" where
  "permanent_refusal info \<longleftrightarrow>
     \<not> info_uncertain info \<and> info_code info \<ge> 400 \<and> info_code info < 500 \<and> info_code info \<noteq> 429"

definition deleteProgressMessage :: "delivery_env \<Rightarrow> progress_message \<Rightarrow> delivery_state \<Rightarrow> delivery_state" where
  "deleteProgressMessage env m s =
     (if pm_message_id m = 0 \<or> de_clean_done env (pm_message_id m) then s
      else case tg_delete (de_token env) (de_net env) (pm_chat m) (pm_message_id m) (nw s) of
          (err, n) \<Rightarrow>
            (let s1 = s\<lparr>nw := n\<rparr>;
                 clear = snd (on_store (ClearProgressMessage (pm_inbox_id m) (pm_message_id m)) s1)
             in if err = None \<or> (\<not> de_clean_done env (pm_message_id m) \<and> permanent_refusal (ClassifyError err)) then clear else s1))"

text \<open>\<open>cleanupDeliveredProgress\<close>, and with the inbox id 0 \<open>reconcileProgressCleanup\<close>.\<close>

definition cleanupDeliveredProgress :: "delivery_env \<Rightarrow> int64 \<Rightarrow> delivery_state \<Rightarrow> delivery_state" where
  "cleanupDeliveredProgress env inboxID s =
     (case on_store (CompletedProgressMessages (de_decode env) inboxID) s of
        (Inl e, s1) \<Rightarrow> s1
      | (Inr messages, s1) \<Rightarrow> fold (deleteProgressMessage env) messages s1)"

definition after_delivery :: "delivery_env \<Rightarrow> Output \<Rightarrow> outbox_state \<Rightarrow> delivery_state \<Rightarrow> round_end \<times> delivery_state" where
  "after_delivery env o' state s =
     (let s1 = (if o_inbox_id o' \<noteq> 0 then cleanupDeliveredProgress env (o_inbox_id o') s else s)
      in if o_kind o' \<noteq> ''text'' \<and> state \<noteq> OutboxDone
         then finish_with (on_store (Enqueue (de_clock env) (o_chat o') (o_thread o') (de_notice env state)) s1)
         else (Again, s1))"

section \<open>One round of the loop\<close>

definition deliver_claimed :: "delivery_env \<Rightarrow> Output \<Rightarrow> delivery_state \<Rightarrow> (round_end \<times> delivery_state) option" where
  "deliver_claimed env o' s =
     (case send_output env o' (nw s) of
        None \<Rightarrow> None
      | Some None \<Rightarrow> Some (Stop (Some (ErrMsg ''unsupported outbox content kind'')), s)
      | Some (Some ((err, messageID), n)) \<Rightarrow>
          Some (case on_store (settle_output env o' err messageID) (s\<lparr>nw := n\<rparr>) of
            (Inl e, s1) \<Rightarrow> (Stop (Some e), s1)
          | (Inr None, s1) \<Rightarrow> (Again, s1)
          | (Inr (Some state), s1) \<Rightarrow> after_delivery env o' state s1))"

definition claim_and_deliver :: "delivery_env \<Rightarrow> delivery_state \<Rightarrow> (round_end \<times> delivery_state) option" where
  "claim_and_deliver env s =
     (case on_store (ClaimNextOutput (de_clock env) (de_now env)) s of
        (Inl e, s1) \<Rightarrow> Some (if e = ErrNoRows then Again else if de_fetch_done env then Stop None else Stop (Some e), s1)
      | (Inr o', s1) \<Rightarrow> deliver_claimed env o' s1)"

definition deliver_round :: "delivery_env \<Rightarrow> delivery_state \<Rightarrow> (round_end \<times> delivery_state) option" where
  "deliver_round env s =
     (case deliverAssistantHeader env s of
        None \<Rightarrow> None
      | Some (Stop e, s1) \<Rightarrow> Some (Stop e, s1)
      | Some (Again, s1) \<Rightarrow>
          (case deliverFinalActions env s1 of
             (Stop e, s2) \<Rightarrow> Some (Stop e, s2)
           | (Again, s2) \<Rightarrow> claim_and_deliver env s2))"

text \<open>The loop, for a number of rounds: \<open>done k\<close> is whether the context is done before round \<open>k\<close>.\<close>

fun deliver :: "nat \<Rightarrow> (nat \<Rightarrow> delivery_env) \<Rightarrow> (nat \<Rightarrow> bool) \<Rightarrow> delivery_state \<Rightarrow> (round_end \<times> delivery_state) option" where
  "deliver 0 env finished s = Some (Again, s)"
| "deliver (Suc k) env finished s =
     (if finished k then Some (Stop None, s)
      else case deliver_round (env k) s of
          Some (Again, s1) \<Rightarrow> deliver k env finished s1
        | r \<Rightarrow> r)"

end
