(* ===== verification/TelegramProps.thy ===== *)
theory TelegramProps
  imports TelegramClient
begin

text \<open>
  Sending at most once: one \<open>Send\<close> or \<open>SendFile\<close> makes Telegram post at most one message, and when it
  posted one the caller is told so or is told that the outcome is uncertain.
\<close>

section \<open>What Telegram promises\<close>

text \<open>The documented protocol: an explicit rejection was not carried out, and a request answered with
  success was. The last part says that a refusal with code 400 comes with a full envelope, which the two
  fallbacks of the client rely on.\<close>

definition honest :: "string \<Rightarrow> attempt \<Rightarrow> bool" where
  "honest token a \<longleftrightarrow>
     (\<forall>status ev. exchange a = Answered status (Envelope ev) \<longrightarrow>
        (\<not> incomplete ev \<longrightarrow> \<not> posted a)
        \<and> (ev_ok ev = Some True \<and> 200 \<le> status \<and> status < 300 \<longrightarrow> posted a)
        \<and> (ae_code (api_error token status ev) = 400 \<and> ev_ok ev \<noteq> Some True \<longrightarrow> \<not> incomplete ev)
        \<and> (ev_ok ev = Some True \<longrightarrow> 200 \<le> status \<and> status < 300))"

definition honest_network :: "string \<Rightarrow> 'k network \<Rightarrow> bool" where
  "honest_network token net \<longleftrightarrow> (\<forall>n rq. honest token (net n rq))"

definition post_count :: "'k net_state \<Rightarrow> nat" where
  "post_count st = length (filter (posted \<circ> snd) (performed st))"

definition bad_request :: "tg_error option \<Rightarrow> bool" where
  "bad_request err \<longleftrightarrow> (\<exists>e a. err = Some e \<and> as_api e = Some a \<and> ae_code a = 400)"

text \<open>The contract of one sending operation.\<close>

definition sends_once :: "'k net_state \<Rightarrow> sent_result \<times> 'k net_state \<Rightarrow> bool" where
  "sends_once st r \<longleftrightarrow> (case r of ((err, i), st') \<Rightarrow>
     (post_count st' = post_count st \<and> err \<noteq> None)
     \<or> (post_count st' = Suc (post_count st)
        \<and> (err = None \<or> (info_uncertain (ClassifyError err) \<and> \<not> bad_request err))))"

section \<open>One answer\<close>

lemma as_api_marked: "as_api e = Some a \<Longrightarrow> as_api (DeliveryError e u) = Some a" by simp

lemma classify_failure: "err \<noteq> None \<Longrightarrow> info_uncertain (ClassifyError (deliveryFailure err u)) = u"
  by (auto simp: deliveryFailure_def classify_marked)

lemma bad_request_link [simp]: "bad_request (Some (DeliveryError e u)) = bad_request (Some e)"
  by (simp add: bad_request_def)

lemma bad_request_marked [simp]: "bad_request (deliveryFailure err u) = bad_request err"
  by (auto simp: bad_request_def deliveryFailure_def)

lemma deliveryFailure_None [simp]: "deliveryFailure err u = None \<longleftrightarrow> err = None"
  by (simp add: deliveryFailure_def)

lemma deliveryFailure_Some [simp]: "deliveryFailure (Some e) u = Some (DeliveryError e u)" "deliveryFailure None u = None"
  by (simp_all add: deliveryFailure_def)

lemma uncertain_marked [simp]: "DeliveryUncertain (Some (DeliveryError e u)) = u"
  by (simp add: DeliveryUncertain_def)

lemma bad_request_api [simp]: "bad_request (Some (Api a)) \<longleftrightarrow> ae_code a = 400"
  by (auto simp: bad_request_def)

lemma uncertain_opaque [simp]: "DeliveryUncertain (withReason r (Some (Opaque t)))" "\<not> bad_request (withReason r (Some (Opaque t)))"
  "withReason r (Some (Opaque t)) \<noteq> None"
  by (auto simp: DeliveryUncertain_def withReason_def bad_request_def)

lemma ctx_err_facts [simp]: "as_api (ctx_err c) = None" "as_delivery (ctx_err c) = None"
  by (cases c; simp)+

lemma ctx_uncertain [simp]: "DeliveryUncertain (Some (ctx_err c))" "\<not> bad_request (Some (ctx_err c))"
  by (auto simp: DeliveryUncertain_def bad_request_def)

definition answer_fair :: "attempt \<Rightarrow> answer \<Rightarrow> bool" where
  "answer_fair a r \<longleftrightarrow> (case r of (retry, err, i) \<Rightarrow>
     (err = None \<longrightarrow> posted a) \<and> (posted a \<longrightarrow> err = None \<or> (DeliveryUncertain err \<and> \<not> bad_request err)))"

lemma transport_fair: "answer_fair a (transport_failure a timeout safe text)"
  by (simp add: answer_fair_def transport_failure_def split: option.splits)

lemma envelope_fair:
  assumes h: "honest token a" and x: "exchange a = Answered status (Envelope ev)"
  shows "answer_fair a (decode_envelope token status ev wants safe)"
proof (cases "ev_ok ev = Some True")
  case True
  with h x have "200 \<le> status" "status < 300" "posted a" unfolding honest_def by blast+
  with True show ?thesis by (simp add: answer_fair_def decode_envelope_def split: option.splits)
next
  case False
  have "\<not> incomplete ev \<Longrightarrow> \<not> posted a" "ae_code (api_error token status ev) = 400 \<Longrightarrow> \<not> incomplete ev"
    using h x False unfolding honest_def by blast+
  with False show ?thesis by (auto simp: answer_fair_def decode_envelope_def Let_def)
qed

lemma decode_fair:
  "honest token a \<Longrightarrow> exchange a = Answered status body \<Longrightarrow> answer_fair a (decodeResponse token a status body wants safe)"
  using envelope_fair by (cases body) (auto simp: decodeResponse_def answer_fair_def)

lemma answer_of_fair: "honest token a \<Longrightarrow> answer_fair a (answer_of token a wants safe)"
  using decode_fair transport_fair by (auto simp: answer_of_def split: exchange.splits)

lemma upload_answer_fair:
  assumes h: "honest token a" shows "answer_fair a (upload_answer token a)"
proof (cases "exchange a")
  case (Answered status body)
  have fair: "answer_fair a (decodeResponse token a status body True False)"
    by (rule decode_fair [OF h Answered])
  show ?thesis
  proof (cases "decodeResponse token a status body True False")
    case (fields retry err i)
    with fair Answered show ?thesis by (auto simp: upload_answer_def answer_fair_def split: option.splits)
  qed
qed (simp_all add: upload_answer_def transport_fair)

text \<open>An unsafe request is never repeated.\<close>

lemma unsafe_no_retry: "fst (answer_of token a wants False) = False"
  by (auto simp: answer_of_def transport_failure_def decodeResponse_def decode_envelope_def Let_def
      split: exchange.splits option.splits response_body.splits)

lemma upload_no_retry: "fst (upload_answer token a) = False"
  by (auto simp: upload_answer_def transport_failure_def decodeResponse_def decode_envelope_def Let_def
      split: exchange.splits option.splits response_body.splits prod.splits)

section \<open>One call\<close>

lemma post_count_advance:
  "post_count (advance st rq a) = post_count st + (if ctx_before a = None \<and> posted a then 1 else 0)"
  by (simp add: post_count_def advance_def)

lemma fair_sends_once:
  assumes "answer_fair a (retry, err, i)" "ctx_before a = None"
  shows "sends_once st ((deliveryFailure err (DeliveryUncertain err), i), advance st rq a)"
  using assms by (auto simp: sends_once_def answer_fair_def post_count_advance classify_marked)

lemma stopped_sends_once:
  "ctx_before a = Some c \<Longrightarrow> sends_once st ((deliveryFailure (deliveryFailure (Some (ctx_err c)) False) u, i), advance st rq a)"
  by (simp add: sends_once_def post_count_advance)

lemma call_sends_once:
  assumes "honest_network token net"
  shows "sends_once st (call_api token net st rq wants False)"
proof -
  let ?a = "net (calls st) rq"
  have honest: "honest token ?a" using assms by (simp add: honest_network_def)
  obtain retry err i where ans: "answer_of token ?a wants False = (retry, err, i)"
    by (cases "answer_of token ?a wants False")
  have retry: "\<not> retry" using unsafe_no_retry [of token ?a wants] ans by simp
  show ?thesis
  proof (cases "ctx_before ?a")
    case None
    have "sends_once st ((deliveryFailure err (DeliveryUncertain err), i), advance st rq ?a)"
      using answer_of_fair [OF honest, of wants False] ans None by (intro fair_sends_once) auto
    with None ans retry show ?thesis by (simp add: call_api_def numeral_3_eq_3 request_api_def Let_def)
  next
    case (Some c)
    from stopped_sends_once [OF this] Some show ?thesis
      by (simp add: call_api_def numeral_3_eq_3 request_api_def Let_def)
  qed
qed

text \<open>A second try after a refusal with code 400.\<close>

lemma sends_once_again:
  assumes "sends_once st ((err, i), st1)" "bad_request err" "sends_once st1 r"
  shows "sends_once st r"
  using assms by (auto simp: sends_once_def bad_request_def split: prod.splits)

lemma parse_bad_request: "parseEntitiesError err \<Longrightarrow> bad_request err"
  by (auto simp: parseEntitiesError_def bad_request_def split: option.splits)

lemma reply_bad_request: "replyRejected err \<Longrightarrow> bad_request err"
  by (auto simp: replyRejected_def bad_request_def split: option.splits)

lemma call_text_sends_once:
  assumes "honest_network token net"
  shows "sends_once st (call_text token net st method f text wants)"
  using call_sends_once [OF assms, of st "\<lparr>rq_method = method, rq_fields = f\<rparr>" wants]
    sends_once_again [OF _ parse_bad_request call_sends_once [OF assms]]
  by (auto simp: call_text_def split: prod.splits)

lemma fallback_sends_once:
  assumes each: "\<And>opts st. sends_once st (send opts st)"
  shows "sends_once st (sendWithReplyFallback opts send st)"
proof (cases "so_keyboard opts \<noteq> None \<and> so_force_reply opts")
  case True
  then show ?thesis by (simp add: sendWithReplyFallback_def sends_once_def)
next
  case False
  obtain err i st1 where first: "send opts st = ((err, i), st1)" by (metis surj_pair)
  show ?thesis
  proof (cases "err = None \<or> so_reply opts = 0 \<or> \<not> replyRejected err")
    case True
    with False first each [of st opts] show ?thesis by (auto simp: sendWithReplyFallback_def)
  next
    case again: False
    have "sends_once st (send (opts\<lparr>so_reply := 0\<rparr>) st1)"
      using each [of st opts] first again by (intro sends_once_again [OF _ reply_bad_request each]) auto
    with again first \<open>\<not> (so_keyboard opts \<noteq> None \<and> so_force_reply opts)\<close> show ?thesis
      by (simp only: sendWithReplyFallback_def if_False prod.case)
  qed
qed

lemma upload_sends_once:
  assumes "honest_network token net"
  shows "sends_once st (upload_loop token net view kind limit rq 3 False st)"
proof -
  let ?a = "net (calls st) rq"
  have honest: "honest token ?a" using assms by (simp add: honest_network_def)
  obtain retry err i where ans: "upload_answer token ?a = (retry, err, i)" by (cases "upload_answer token ?a")
  have retry: "\<not> retry" using upload_no_retry [of token ?a] ans by simp
  show ?thesis
  proof (cases "openUpload (view (calls st)) kind limit")
    case (Some e)
    then show ?thesis by (simp add: numeral_3_eq_3 sends_once_def)
  next
    case opened: None
    show ?thesis
    proof (cases "ctx_before ?a")
      case None
      have "sends_once st ((deliveryFailure err (DeliveryUncertain err), i), advance st rq ?a)"
        using upload_answer_fair [OF honest] ans None by (intro fair_sends_once) auto
      with None opened ans retry show ?thesis by (simp add: numeral_3_eq_3 upload_def Let_def)
    next
      case (Some c)
      from stopped_sends_once [OF this] Some opened show ?thesis
        by (simp add: numeral_3_eq_3 upload_def Let_def)
    qed
  qed
qed

lemma SendFile_sends_once:
  assumes "honest_network token net"
  shows "sends_once st (SendFile token net view chat thread kind path name caption opts st)"
  unfolding SendFile_def
proof (rule fallback_sends_once)
  show "sends_once st (sendFile token net view chat thread kind path name caption (so_reply opts) st)" for opts st
    using upload_sends_once [OF assms] by (simp add: sendFile_def Let_def sends_once_def)
qed

lemma Send_sends_once:
  assumes "honest_network token net" "Send wide_punct token net chat thread text opts st = Some r"
  shows "sends_once st r"
  using assms(2) call_text_sends_once [OF assms(1)]
  by (auto simp: Send_def split: option.splits intro: fallback_sends_once)

end
