(* ===== verification/DeliverySystem.thy ===== *)
theory DeliverySystem
  imports BridgeDelivery TelegramProps OutboxProps
begin

text \<open>
  At-most-once delivery. The store, the Telegram client and the delivery workers are put together:
  workers claim, send and settle in any interleaving, other store operations run between, workers may be
  lost at any point, and the process may restart. No queued message is ever posted twice.
\<close>

section \<open>Which operations make a message pending\<close>

definition no_new_pending :: "int64 set \<Rightarrow> database \<Rightarrow> database \<Rightarrow> bool" where
  "no_new_pending X d d' \<longleftrightarrow> outbox_seq d \<le> outbox_seq d' \<and>
     (\<forall>r' \<in> set (outbox d'). out_state r' = OutboxPending \<longrightarrow> out_id r' \<in> X \<or>
        outbox_seq d < out_id r' \<or> (\<exists>r \<in> set (outbox d). out_id r = out_id r' \<and> out_state r = OutboxPending))"

lemma no_new_pending_refl: "no_new_pending X d d" by (auto simp: no_new_pending_def)

lemma no_new_pending_trans: "no_new_pending X d d' \<Longrightarrow> no_new_pending X d' d'' \<Longrightarrow> no_new_pending X d d''"
  unfolding no_new_pending_def
proof (intro conjI ballI impI; elim conjE)
  fix r assume first: "\<forall>r' \<in> set (outbox d'). out_state r' = OutboxPending \<longrightarrow> out_id r' \<in> X \<or> outbox_seq d < out_id r'
      \<or> (\<exists>r \<in> set (outbox d). out_id r = out_id r' \<and> out_state r = OutboxPending)"
    and second: "\<forall>r' \<in> set (outbox d''). out_state r' = OutboxPending \<longrightarrow> out_id r' \<in> X \<or> outbox_seq d' < out_id r'
      \<or> (\<exists>r \<in> set (outbox d'). out_id r = out_id r' \<and> out_state r = OutboxPending)"
    and seq: "outbox_seq d \<le> outbox_seq d'" and r: "r \<in> set (outbox d'')" "out_state r = OutboxPending"
  show "out_id r \<in> X \<or> outbox_seq d < out_id r \<or> (\<exists>q \<in> set (outbox d). out_id q = out_id r \<and> out_state q = OutboxPending)"
    using second [rule_format, OF r] first seq by fastforce
qed auto

definition anything :: "database \<Rightarrow> bool" where "anything d = True"

interpretation quiet: evolution_frame anything "no_new_pending X" "{TOutbox}" for X
proof unfold_locales
  show "no_new_pending X d d" for d by (rule no_new_pending_refl)
  show "no_new_pending X d d''" if "no_new_pending X d d'" "no_new_pending X d' d''" for d d' d''
    using that by (rule no_new_pending_trans)
  show "evolving anything (no_new_pending X) d d'" if "only (- {TOutbox}) d d'" for d d'
    using that by (auto simp: only_iff evolving_def anything_def no_new_pending_def)
qed

abbreviation adds_no_pending :: "int64 set \<Rightarrow> 'a store \<Rightarrow> bool" where
  "adds_no_pending X m \<equiv> follows (evolving anything (no_new_pending X)) m"

lemma pending_unchanged:
  "outbox d' = outbox d \<Longrightarrow> outbox_seq d' = outbox_seq d \<Longrightarrow> evolving anything (no_new_pending X) d d'"
  by (auto simp: evolving_def anything_def no_new_pending_def)

lemma pending_insert: "evolving anything (no_new_pending X) d (snd (insert_outbox r d))"
  by (auto simp: evolving_def anything_def no_new_pending_def insert_outbox_def)

lemma pending_update:
  assumes "\<And>r. out_id (f r) = out_id r" "\<And>r. p r \<Longrightarrow> out_state (f r) = OutboxPending \<Longrightarrow> out_state r = OutboxPending"
  shows "evolving anything (no_new_pending X) d (snd (update_outbox p f d))"
  using assms by (fastforce simp: evolving_def anything_def no_new_pending_def update_outbox_def set_update_rows)

lemma enqueue_quiet:
  "adds_no_pending X (Enqueue now chat thread body)"
  "adds_no_pending X (EnqueueAttachment now chat thread kind path name caption)"
  "adds_no_pending X (appendInboxReplies now iid chat thread replies header he parts)"
  unfolding Enqueue_def EnqueueAttachment_def appendInboxReplies_def
  by (intro quiet.rel.follows_rules pending_insert)+

lemma edits_quiet:
  "adds_no_pending X (SetAssistantHeader now oid header)"
  "adds_no_pending X (MarkOutputDelivered now oid messageID sentHeader markup)"
  "adds_no_pending X (MarkAssistantHeaderDelivered oid header actions)"
  "adds_no_pending X (ClaimFinalActionEdit now)"
  "adds_no_pending X (ReleaseAssistantEdit oid)"
  "adds_no_pending X (FinishFinalActionEdit oid snapshot)"
  "adds_no_pending X (ClaimNextOutput clock now)"
  unfolding SetAssistantHeader_def MarkOutputDelivered_def MarkAssistantHeaderDelivered_def
    ClaimFinalActionEdit_def ReleaseAssistantEdit_def FinishFinalActionEdit_def ClaimNextOutput_def
  by (intro quiet.rel.follows_rules pending_update; simp add: set_header_def)+

lemma NextAssistantHeader_quiet: "adds_no_pending X NextAssistantHeader"
  unfolding NextAssistantHeader_def
proof (rule quiet.rel.follows_stmt)
  fix d x d'
  assume "(case first_by out_id header_edit_due (outbox d) of None \<Rightarrow> (Inl ErrNoRows, d)
     | Some r \<Rightarrow> (Inr (scanOutput (r\<lparr>out_actions_pending := 2\<rparr>)),
                 snd (update_outbox (\<lambda>r'. out_id r' = out_id r) (\<lambda>r'. r'\<lparr>out_actions_pending := 2\<rparr>) d))) = (Inr x, d')"
  then show "evolving anything (no_new_pending X) d d'"
    by (cases "first_by out_id header_edit_due (outbox d)") (auto intro!: pending_update)
qed

lemma MarkOutput_quiet: "adds_no_pending X (MarkOutput now oid ostate)"
  unfolding MarkOutput_def
  by (cases ostate; simp; intro quiet.rel.follows_rules pending_update; simp)

lemma settlement_quiet:
  "adds_no_pending X (completeInboxWithReplies codec now iid chat thread state replies targetID header he actions)"
  unfolding completeInboxWithReplies_def registerFinalActions_def Let_def
  by (intro quiet.rel.follows_rules pending_update pending_insert)
    (auto simp: set_header_def set_buttons_def update_inbox_def intro: pending_unchanged)

lemma consume_quiet: "adds_no_pending X (consumeFinalAction codec iid)"
  unfolding consumeFinalAction_def
  by (intro quiet.rel.follows_rules pending_update)
    (auto simp: set_buttons_def update_final_actions_def intro: pending_unchanged)

lemma ConsumeFinalAction_quiet: "adds_no_pending X (ConsumeFinalAction codec iid)"
  unfolding ConsumeFinalAction_def by (intro quiet.rel.follows_rules consume_quiet)

lemma publish_quiet: "adds_no_pending X (publishMigration now m target notice recovery)"
  unfolding publishMigration_def
  by (intro quiet.rel.follows_rules pending_insert)
    (auto simp: archive_binding_def table_updates intro: pending_unchanged)

lemma settle_quiet: "evolving anything (no_new_pending X) d (settle_interrupted now d)"
  by (intro quiet.rel.settle_interrupted_follows; unfold settle_defs;
      (rule pending_update | rule pending_unchanged); simp add: update_inbox_def)

lemma recover_quiet: "adds_no_pending X (recover codec decode now)"
  unfolding recover_def backfillProgressChats_def recoverFinalActionReservations_def
  by (intro quiet.rel.follows_rules consume_quiet settle_quiet quiet.outside [OF binding_footprints(12)])
    (auto simp: update_inbox_def intro: pending_unchanged)

lemma cleanup_quiet: "adds_no_pending X (cleanupOutboxBatch cutoff)"
proof (intro follows_success)
  fix w x w' assume "cleanupOutboxBatch cutoff w = (Inr x, w')"
  then have "db w' = snd (delete_outbox (outbox_batch cutoff (db w)) (db w))"
    by (auto simp: cleanupOutboxBatch_def sql_ok)
  then show "evolving anything (no_new_pending X) (db w) (db w')"
    by (auto simp: evolving_def anything_def no_new_pending_def delete_outbox_def set_delete_rows)
qed (simp_all add: cleanupOutboxBatch_def quiet.evolving_refl)

text \<open>The two operations that put a message back into the queue.\<close>

inductive retry_op :: "unit store \<Rightarrow> bool" where
  retry_limit: "retry_op (discard (RetryOutput now oid next))"
| retry_server: "retry_op (discard (RetryServerOutput now oid next maxAttempts))"

lemma other_op_quiet: "store_op codec decode m \<Longrightarrow> retry_op m \<or> adds_no_pending X m"
proof (induction rule: store_op.induct)
  case (op_RetryOutput now oid due)
  show ?case by (intro disjI1 retry_limit)
next
  case (op_RetryServerOutput now oid due maxAttempts)
  show ?case by (intro disjI1 retry_server)
qed (rule disjI2, rule quiet.drop_result,
    (rule enqueue_quiet edits_quiet NextAssistantHeader_quiet MarkOutput_quiet settlement_quiet
       ConsumeFinalAction_quiet publish_quiet recover_quiet cleanup_quiet
     | rule quiet.outside, rule footprints, simp))+

lemma retry_quiet:
  "adds_no_pending {oid} (RetryOutput now oid due)"
  "adds_no_pending {oid} (RetryServerOutput now oid due maxAttempts)"
proof -
  have "evolving anything (no_new_pending {oid}) d (snd (update_outbox (\<lambda>r. out_id r = oid \<and> out_state r = OutboxSending) f d))"
    if "\<And>r. out_id (f r) = out_id r" for d f
    using that by (fastforce simp: evolving_def anything_def no_new_pending_def update_outbox_def set_update_rows)
  note update = this
  show "adds_no_pending {oid} (RetryOutput now oid due)"
    unfolding RetryOutput_def by (intro quiet.rel.follows_rules update; simp)
  show "adds_no_pending {oid} (RetryServerOutput now oid due maxAttempts)"
    unfolding RetryServerOutput_def Let_def by (intro quiet.rel.follows_rules update; simp)
qed

section \<open>The system of workers\<close>

text \<open>A worker is between rounds, has claimed a message, or has the answer to its request. \<open>sent_ids\<close>
  records, once per post, the message that Telegram posted.\<close>

datatype phase = Idle | Holding Output | Replied Output "tg_error option" int64

record system =
  sys_db :: database
  workers :: "nat \<Rightarrow> phase"
  sent_ids :: "int64 list"

inductive system_step :: "action_codec \<Rightarrow> chat_decoder \<Rightarrow> system \<Rightarrow> system \<Rightarrow> bool" for codec decode where
  claim: "workers s i = Idle \<Longrightarrow> ClaimNextOutput clock now w = (Inr o', w') \<Longrightarrow> db w = sys_db s \<Longrightarrow>
    system_step codec decode s (s\<lparr>sys_db := db w', workers := (workers s)(i := Holding o')\<rparr>)"
| send: "workers s i = Holding o' \<Longrightarrow> honest_network (de_token env) (de_net env) \<Longrightarrow>
    send_output env o' n = Some (Some ((err, messageID), n')) \<Longrightarrow>
    system_step codec decode s (s\<lparr>workers := (workers s)(i := Replied o' err messageID),
      sent_ids := sent_ids s @ replicate (post_count n' - post_count n) (o_id o')\<rparr>)"
| settle: "workers s i = Replied o' err messageID \<Longrightarrow> settle_output env o' err messageID w = (r, w') \<Longrightarrow>
    db w = sys_db s \<Longrightarrow> system_step codec decode s (s\<lparr>sys_db := db w', workers := (workers s)(i := Idle)\<rparr>)"
| lost: "system_step codec decode s (s\<lparr>workers := (workers s)(i := Idle)\<rparr>)"
| restart: "system_step codec decode s (s\<lparr>workers := \<lambda>_. Idle\<rparr>)"
| other: "store_op codec decode m \<Longrightarrow> \<not> retry_op m \<Longrightarrow> m w = (r, w') \<Longrightarrow> db w = sys_db s \<Longrightarrow>
    system_step codec decode s (s\<lparr>sys_db := db w'\<rparr>)"

inductive system_reachable :: "action_codec \<Rightarrow> chat_decoder \<Rightarrow> system \<Rightarrow> bool" for codec decode where
  start: "reachable codec decode d \<Longrightarrow> system_reachable codec decode \<lparr>sys_db = d, workers = \<lambda>_. Idle, sent_ids = []\<rparr>"
| further: "system_reachable codec decode s \<Longrightarrow> system_step codec decode s s' \<Longrightarrow> system_reachable codec decode s'"

section \<open>The invariant\<close>

definition taken :: "database \<Rightarrow> int64 \<Rightarrow> bool" where
  "taken d i \<longleftrightarrow> i \<le> outbox_seq d \<and> (\<forall>r \<in> set (outbox d). out_id r = i \<longrightarrow> out_state r \<noteq> OutboxPending)"

fun held :: "phase \<Rightarrow> int64 option" where
  "held Idle = None"
| "held (Holding o') = Some (o_id o')"
| "held (Replied o' err messageID) = Some (o_id o')"

definition retries :: "Output \<Rightarrow> tg_error option \<Rightarrow> bool" where
  "retries o' err \<longleftrightarrow> (\<exists>env at server. verdict_of env o' err = RetryLater at server)"

fun unsent :: "int64 list \<Rightarrow> phase \<Rightarrow> bool" where
  "unsent sent Idle \<longleftrightarrow> True"
| "unsent sent (Holding o') \<longleftrightarrow> o_id o' \<notin> set sent"
| "unsent sent (Replied o' err messageID) \<longleftrightarrow> (retries o' err \<longrightarrow> o_id o' \<notin> set sent)"

definition system_ok :: "action_codec \<Rightarrow> chat_decoder \<Rightarrow> system \<Rightarrow> bool" where
  "system_ok codec decode s \<longleftrightarrow>
     reachable codec decode (sys_db s) \<and> distinct (sent_ids s)
     \<and> (\<forall>i \<in> set (sent_ids s). taken (sys_db s) i)
     \<and> (\<forall>i oid. held (workers s i) = Some oid \<longrightarrow> taken (sys_db s) oid)
     \<and> (\<forall>i j oid. held (workers s i) = Some oid \<and> held (workers s j) = Some oid \<longrightarrow> i = j)
     \<and> (\<forall>i. unsent (sent_ids s) (workers s i))"

lemma taken_preserved: "taken d i \<Longrightarrow> no_new_pending X d d' \<Longrightarrow> i \<notin> X \<Longrightarrow> taken d' i"
  by (fastforce simp: taken_def no_new_pending_def)

lemma quiet_step: "adds_no_pending X m \<Longrightarrow> m w = (r, w') \<Longrightarrow> no_new_pending X (db w) (db w')"
  by (auto dest!: followsD simp: evolving_def anything_def)

lemma store_call: "store_op codec decode (discard m) \<Longrightarrow> m w = (r, w') \<Longrightarrow> reachable codec decode (db w)
    \<Longrightarrow> reachable codec decode (db w')"
proof -
  assume op: "store_op codec decode (discard m)" and run: "m w = (r, w')" and "reachable codec decode (db w)"
  have "snd (discard m w) = w'" using run by (cases r) (simp_all add: discard_def bind_def give_def)
  then have "store_step codec decode (db w) (db w')"
    using store_step.call [OF op, of w "fst (discard m w)" w'] by (simp add: prod_eq_iff)
  with \<open>reachable codec decode (db w)\<close> show ?thesis by (rule reachable.step)
qed

section \<open>The steps keep the invariant\<close>

lemma system_okI:
  assumes "reachable codec decode (sys_db s)" "distinct (sent_ids s)"
    "\<And>i. i \<in> set (sent_ids s) \<Longrightarrow> taken (sys_db s) i"
    "\<And>i oid. held (workers s i) = Some oid \<Longrightarrow> taken (sys_db s) oid"
    "\<And>i j oid. held (workers s i) = Some oid \<Longrightarrow> held (workers s j) = Some oid \<Longrightarrow> i = j"
    "\<And>i. unsent (sent_ids s) (workers s i)"
  shows "system_ok codec decode s"
  using assms unfolding system_ok_def by blast

lemma system_okD:
  assumes "system_ok codec decode s"
  shows "reachable codec decode (sys_db s)" "distinct (sent_ids s)"
    "i \<in> set (sent_ids s) \<Longrightarrow> taken (sys_db s) i"
    "held (workers s j) = Some oid \<Longrightarrow> taken (sys_db s) oid"
    "held (workers s j) = Some oid \<Longrightarrow> held (workers s k) = Some oid \<Longrightarrow> j = k"
    "unsent (sent_ids s) (workers s j)"
  using assms unfolding system_ok_def by blast+

text \<open>Workers that give up what they hold.\<close>

lemma release_ok:
  assumes ok: "system_ok codec decode s" and less: "\<And>i. ws i = workers s i \<or> ws i = Idle"
  shows "system_ok codec decode (s\<lparr>workers := ws\<rparr>)"
proof -
  have h: "held (ws i) = Some oid \<Longrightarrow> held (workers s i) = Some oid" for i oid
    using less [of i] by auto
  have u: "unsent (sent_ids s) (ws i)" for i using less [of i] system_okD(6) [OF ok, of i] by auto
  show ?thesis
  proof (rule system_okI, goal_cases)
    case (3 i)
    then show ?case using system_okD(3) [OF ok, of i] by simp
  next
    case (4 i oid)
    then show ?case using system_okD(4) [OF ok h [of i oid]] by simp
  next
    case (5 i j oid)
    then show ?case using system_okD(5) [OF ok h [of i oid] h [of j oid]] by simp
  qed (use system_okD(1,2) [OF ok] u in simp_all)
qed

text \<open>A step of the store that makes nothing pending except messages nobody holds or has sent.\<close>

lemma store_ok:
  assumes ok: "system_ok codec decode s" and next_db: "reachable codec decode d" "no_new_pending X (sys_db s) d"
    and free: "X \<inter> set (sent_ids s) = {}" "\<And>i oid. held (workers s i) = Some oid \<Longrightarrow> oid \<notin> X"
  shows "system_ok codec decode (s\<lparr>sys_db := d\<rparr>)"
proof -
  have kept: "taken (sys_db s) i \<Longrightarrow> i \<notin> X \<Longrightarrow> taken d i" for i
    using next_db(2) by (rule taken_preserved [rotated])
  show ?thesis
  proof (rule system_okI, goal_cases)
    case (3 i)
    then show ?case using kept [OF system_okD(3) [OF ok, of i]] free(1) by auto
  next
    case (4 i oid)
    then show ?case using kept [OF system_okD(4) [OF ok, of i oid]] free(2) [of i oid] by simp
  next
    case (5 i j oid)
    then show ?case using system_okD(5) [OF ok, of i oid j] by simp
  qed (use system_okD(2,6) [OF ok] next_db(1) in simp_all)
qed

lemma other_ok:
  assumes ok: "system_ok codec decode s" and op: "store_op codec decode m" "\<not> retry_op m"
    and run: "m w = (r, w')" "db w = sys_db s"
  shows "system_ok codec decode (s\<lparr>sys_db := db w'\<rparr>)"
proof (rule store_ok [OF ok])
  have "store_step codec decode (db w) (db w')" by (rule store_step.call [OF op(1) run(1)])
  then show "reachable codec decode (db w')" using system_okD(1) [OF ok] run(2) by (auto intro: reachable.step)
  have "adds_no_pending {} m" using other_op_quiet [OF op(1)] op(2) by blast
  from quiet_step [OF this run(1)] run(2) show "no_new_pending {} (sys_db s) (db w')" by simp
qed simp_all

text \<open>The claim takes the row out of the queue.\<close>

lemma claim_taken:
  assumes run: "ClaimNextOutput clock now w = (Inr o', w')" and ok: "outbox_ok (db w)"
  shows "\<not> taken (db w) (o_id o') \<and> taken (db w') (o_id o')"
proof -
  obtain r where r: "first_by out_id (claimable now (outbox (db w))) (outbox (db w)) = Some r"
    and o': "o' = (scanOutput r)\<lparr>o_attempt_count := wrap64 (out_attempt_count r + 1)\<rparr>"
    and w': "db w' = snd (update_outbox (\<lambda>q. out_id q = out_id r \<and> out_state q = OutboxPending) (claim_row clock) (db w))"
    using ClaimNextOutput_ok [OF run] by blast
  have row: "r \<in> set (outbox (db w))" "out_state r = OutboxPending" "out_id r \<le> outbox_seq (db w)"
    using first_by_Some(1,2) [OF r] ok by (auto simp: claimable_def outbox_ok_def)
  have "o_id o' = out_id r" by (simp add: o' scanOutput_def)
  with row show ?thesis
    by (auto simp: taken_def w' update_outbox_def set_update_rows claim_row_def)
qed

lemma claim_ok:
  assumes ok: "system_ok codec decode s" and idle: "workers s i = Idle"
    and run: "ClaimNextOutput clock now w = (Inr o', w')" and d: "db w = sys_db s"
  shows "system_ok codec decode (s\<lparr>sys_db := db w', workers := (workers s)(i := Holding o')\<rparr>)"
proof -
  have rows: "outbox_ok (db w)" using outbox_life.holds [OF system_okD(1) [OF ok]] d by simp
  note claimed = claim_taken [OF run rows]
  have reach: "reachable codec decode (db w')"
    using store_call [OF op_ClaimNextOutput run] system_okD(1) [OF ok] d by simp
  have quiet: "no_new_pending {} (sys_db s) (db w')"
    using quiet_step [OF edits_quiet(7) run] d by simp
  have kept: "taken (sys_db s) oid \<Longrightarrow> taken (db w') oid" for oid
    using taken_preserved [OF _ quiet] by simp
  have new: "\<not> taken (sys_db s) (o_id o')" "taken (db w') (o_id o')" using claimed d by auto
  then have fresh: "o_id o' \<notin> set (sent_ids s)" "\<And>j. held (workers s j) \<noteq> Some (o_id o')"
    using system_okD(3,4) [OF ok] by blast+
  show ?thesis
    by (rule system_okI) (use system_okD [OF ok] reach kept new fresh in \<open>auto split: if_splits\<close>)
qed

text \<open>A refusal that is retried was not posted.\<close>

lemma retries_certain: "retries o' err \<Longrightarrow> err \<noteq> None \<and> \<not> info_uncertain (ClassifyError err)"
  by (auto simp: retries_def verdict_of_def Let_def retryableServerRejection_def split: if_splits)

lemma send_output_once:
  assumes "honest_network (de_token env) (de_net env)" "send_output env o' n = Some (Some ((err, messageID), n'))"
  shows "sends_once n ((err, messageID), n')"
proof -
  note send = Send_sends_once [OF assms(1)] and upload = SendFile_sends_once [OF assms(1)]
  show ?thesis
  proof (cases "o_kind o' = ''text''")
    case True
    with assms(2) send show ?thesis by (auto simp: send_output_def)
  next
    case False
    with assms(2) obtain i where "SendFile (de_token env) (de_net env) (de_view env) (o_chat o') (o_thread o') (o_kind o')
        (o_path o') (o_name o') (o_text o') (reply_options (o_reply_to o') None) n = ((err, i), n')"
      by (auto simp: send_output_def split: if_splits prod.splits)
    with upload [of n "de_view env" "o_chat o'" "o_thread o'" "o_kind o'" "o_path o'" "o_name o'" "o_text o'"
        "reply_options (o_reply_to o') None"] show ?thesis by (simp add: sends_once_def)
  qed
qed

lemma send_ok:
  assumes ok: "system_ok codec decode s" and holds: "workers s i = Holding o'"
    and net: "honest_network (de_token env) (de_net env)"
    and run: "send_output env o' n = Some (Some ((err, messageID), n'))"
  shows "system_ok codec decode (s\<lparr>workers := (workers s)(i := Replied o' err messageID),
      sent_ids := sent_ids s @ replicate (post_count n' - post_count n) (o_id o')\<rparr>)"
proof -
  let ?k = "post_count n' - post_count n"
  have once: "sends_once n ((err, messageID), n')" by (rule send_output_once [OF net run])
  have k: "?k = 0 \<or> ?k = 1" and sure: "retries o' err \<Longrightarrow> ?k = 0"
    using once retries_certain [of o' err] by (auto simp: sends_once_def)
  have unsent: "o_id o' \<notin> set (sent_ids s)" using system_okD(6) [OF ok, of i] holds by simp
  have held: "held (workers s i) = Some (o_id o')" using holds by simp
  have mine: "taken (sys_db s) (o_id o')" by (rule system_okD(4) [OF ok held])
  have alone: "\<And>j. j \<noteq> i \<Longrightarrow> held (workers s j) \<noteq> Some (o_id o')"
    using system_okD(5) [OF ok held] by blast
  have others: "unsent (sent_ids s @ replicate ?k (o_id o')) (workers s j)" if "j \<noteq> i" for j
    using system_okD(6) [OF ok, of j] alone [OF that] by (cases "workers s j") auto
  have "distinct (sent_ids s @ replicate ?k (o_id o'))" using k unsent system_okD(2) [OF ok] by auto
  moreover have "unsent (sent_ids s @ replicate ?k (o_id o')) (Replied o' err messageID)"
    using sure unsent by auto
  ultimately show ?thesis
    by (intro system_okI)
      (use system_okD [OF ok] held mine alone others in \<open>auto split: if_splits simp: fun_upd_apply\<close>)
qed

text \<open>The write of the verdict is a store operation of its own.\<close>

lemma bind_last_run:
  assumes "bind m k w = (r, w')" "\<And>x w. snd (k x w) = w"
  obtains q where "m w = (q, w')"
proof (cases "m w")
  case (Pair q w1)
  have "w1 = w'"
  proof (cases q)
    case (Inr x)
    with assms(1) Pair have "k x w1 = (r, w')" by (simp add: bind_def)
    with assms(2) [of x w1] show ?thesis by simp
  qed (use assms(1) Pair in \<open>simp add: bind_def\<close>)
  with Pair that show thesis by simp
qed

lemma settle_run:
  assumes run: "settle_output env o' err messageID w = (r, w')"
  shows "(reachable codec decode (db w) \<longrightarrow> reachable codec decode (db w'))
    \<and> (no_new_pending {} (db w) (db w') \<or> retries o' err \<and> no_new_pending {o_id o'} (db w) (db w'))"
proof (cases "verdict_of env o' err")
  case (RetryLater due server)
  then have retry: "retries o' err" by (auto simp: retries_def)
  show ?thesis
  proof (cases server)
    case True
    obtain q where q: "RetryServerOutput (de_clock env) (o_id o') due maxServerDeliveryAttempts w = (q, w')"
      by (rule bind_last_run [of _ _ w r w'])
        (use run RetryLater True in \<open>auto simp: settle_output_def give_def split: prod.splits\<close>)
    from store_call [OF op_RetryServerOutput q] quiet_step [OF retry_quiet(2) q] retry show ?thesis by blast
  next
    case False
    obtain q where q: "RetryOutput (de_clock env) (o_id o') due w = (q, w')"
      by (rule bind_last_run [of _ _ w r w'])
        (use run RetryLater False in \<open>auto simp: settle_output_def give_def\<close>)
    from store_call [OF op_RetryOutput q] quiet_step [OF retry_quiet(1) q] retry show ?thesis by blast
  qed
next
  case (Settle state)
  have final: "state \<noteq> OutboxSending" using Settle by (auto simp: verdict_of_def Let_def split: if_splits)
  show ?thesis
  proof (cases "state = OutboxDone \<and> (o_header_editable o' \<or> o_assistant_body o' \<or> o_final_actions o' \<noteq> [])")
    case True
    obtain q where q: "MarkOutputDelivered (de_clock env) (o_id o') messageID (o_header o') (o_final_actions o') w = (q, w')"
      by (rule bind_last_run [of _ _ w r w'])
        (use run Settle True in \<open>auto simp: settle_output_def give_def\<close>)
    from store_call [OF op_MarkOutputDelivered q] quiet_step [OF edits_quiet(2) q] show ?thesis by blast
  next
    case False
    obtain q where q: "MarkOutput (de_clock env) (o_id o') state w = (q, w')"
      by (rule bind_last_run [of _ _ w r w'])
        (use run Settle False in \<open>auto simp: settle_output_def give_def split: if_splits\<close>)
    from store_call [OF op_MarkOutput [OF final] q] quiet_step [OF MarkOutput_quiet q] show ?thesis by blast
  qed
qed

lemma settle_ok:
  assumes ok: "system_ok codec decode s" and replied: "workers s i = Replied o' err messageID"
    and run: "settle_output env o' err messageID w = (r, w')" and d: "db w = sys_db s"
  shows "system_ok codec decode (s\<lparr>sys_db := db w', workers := (workers s)(i := Idle)\<rparr>)"
proof -
  define s1 where "s1 = s\<lparr>workers := (workers s)(i := Idle)\<rparr>"
  have ok1: "system_ok codec decode s1" unfolding s1_def by (rule release_ok [OF ok]) simp
  have held: "held (workers s i) = Some (o_id o')" using replied by simp
  have free: "held (workers s1 j) \<noteq> Some (o_id o')" for j
    using system_okD(5) [OF ok held, of j] by (auto simp: s1_def)
  have unsent: "retries o' err \<Longrightarrow> o_id o' \<notin> set (sent_ids s1)"
    using system_okD(6) [OF ok, of i] replied by (simp add: s1_def)
  have reach: "reachable codec decode (db w')"
    using settle_run [OF run, of codec decode] system_okD(1) [OF ok] d by simp
  obtain X where "no_new_pending X (sys_db s1) (db w')" "X = {} \<or> retries o' err \<and> X = {o_id o'}"
    using settle_run [OF run, of codec decode] d by (auto simp: s1_def)
  then have "system_ok codec decode (s1\<lparr>sys_db := db w'\<rparr>)"
    using free unsent by (intro store_ok [OF ok1 reach]) auto
  moreover have "s1\<lparr>sys_db := db w'\<rparr> = s\<lparr>sys_db := db w', workers := (workers s)(i := Idle)\<rparr>" by (simp add: s1_def)
  ultimately show ?thesis by simp
qed

lemma system_invariant: "system_reachable codec decode s \<Longrightarrow> system_ok codec decode s"
proof (induction rule: system_reachable.induct)
  case (start d)
  then show ?case by (simp add: system_ok_def)
next
  case (further s s')
  from further.hyps(2) further.IH show ?case
  proof (induction rule: system_step.induct)
    case (lost s i)
    then show ?case by (intro release_ok) auto
  next
    case (restart s)
    then show ?case by (intro release_ok) auto
  qed (blast intro: claim_ok send_ok settle_ok other_ok)+
qed

text \<open>C1: However the delivery workers, the other store operations, crashes and restarts interleave, and
  whatever the network does within the documented protocol, Telegram posts each queued message at most
  once, and a message that was posted never becomes pending again.\<close>

theorem posted_at_most_once:
  assumes "system_reachable codec decode s"
  shows "distinct (sent_ids s) \<and> (\<forall>r \<in> set (outbox (sys_db s)). out_id r \<in> set (sent_ids s) \<longrightarrow> out_state r \<noteq> OutboxPending)"
  using system_invariant [OF assms] by (auto simp: system_ok_def taken_def)

text \<open>The witness: a queued document is claimed, uploaded and answered with success.\<close>

definition sample_accepted :: attempt where
  "sample_accepted = \<lparr>ctx_before = None, ctx_after = None, ctx_wait = None,
     exchange = Answered 200 (Envelope \<lparr>ev_ok = Some True, ev_result = Some 9, ev_code = 0, ev_description = [],
       ev_retry_after = None\<rparr>), write_failed = False, posted = True\<rparr>"

definition sample_delivery :: delivery_env where
  "sample_delivery = \<lparr>de_punct = (\<lambda>_. False), de_token = [], de_net = (\<lambda>n rq. sample_accepted),
     de_view = (\<lambda>n. \<lparr>up_regular = True, up_opens = True, up_same = True, up_size = 1, up_picture = None, up_rewinds = True\<rparr>),
     de_codec = sample_codec, de_decode = sample_decoder, de_notice = (\<lambda>_. []), de_now = 110, de_clock = 110,
     de_header_done = False, de_claim_done = False, de_edit_done = False, de_finish_done = False,
     de_fetch_done = False, de_clean_done = (\<lambda>_. False)\<rparr>"

definition sample_document :: database where
  "sample_document = after (EnqueueAttachment 100 3 4 ''document'' ''/a/b'' ''b'' []) empty_database"

lemma sample_document_reachable: "reachable sample_codec sample_decoder sample_document"
  unfolding sample_document_def by (intro reachable_after op_EnqueueAttachment reachable.fresh)

lemma sample_document_eq: "sample_document = empty_database\<lparr>outbox := [(queued_row 100 3 4 [])\<lparr>out_id := 1,
    out_kind := ''document'', out_path := ''/a/b'', out_name := ''b''\<rparr>], outbox_seq := 1\<rparr>"
  by (simp add: sample_document_def after_def EnqueueAttachment_def sql_run empty_database_def insert_outbox_def)

definition sample_claimed :: Output where
  "sample_claimed = (scanOutput ((queued_row 100 3 4 [])\<lparr>out_id := 1, out_kind := ''document'', out_path := ''/a/b'',
     out_name := ''b''\<rparr>))\<lparr>o_attempt_count := 1\<rparr>"

lemma sample_document_claim: "fst (ClaimNextOutput 110 110 (healthy sample_document)) = Inr sample_claimed"
  by (simp add: ClaimNextOutput_def sql_run sample_document_eq first_by_def select_by_def claimable_def queued_row_def
      in_flight_def same_conversation_def update_outbox_def scanOutput_def empty_database_def sample_claimed_def
      wrap64_id in_int64_def max_int64_def)

lemma sample_net_honest: "honest_network (de_token sample_delivery) (de_net sample_delivery)"
  by (simp add: honest_network_def honest_def sample_delivery_def sample_accepted_def incomplete_def)

lemma sample_sent: "\<exists>n'. send_output sample_delivery sample_claimed fresh_net = Some (Some ((None, 0), n'))
    \<and> post_count n' - post_count (fresh_net :: keyboard net_state) = 1"
proof -
  have name: "\<not> list_ex (\<lambda>c. c \<in> {CHR 0x0D, CHR 0x0A, CHR 0x00}) ''b''" by simp
  show ?thesis
    using name
    by (simp add: send_output_def sample_claimed_def scanOutput_def queued_row_def SendFile_def sendWithReplyFallback_def
        reply_options_def sendFile_def path_is_abs_def has_prefix_def numeral_3_eq_3 openUpload_def sample_delivery_def
        upload_def upload_answer_def sample_accepted_def decodeResponse_def decode_envelope_def advance_def fresh_net_def
        post_count_def Let_def)
qed

theorem posted_at_most_once_witness:
  "\<exists>s. system_reachable sample_codec sample_decoder s \<and> sent_ids s = [1]
     \<and> (\<forall>r \<in> set (outbox (sys_db s)). out_id r = 1 \<longrightarrow> out_state r \<noteq> OutboxPending)"
proof -
  define s0 where "s0 = \<lparr>sys_db = sample_document, workers = \<lambda>_. Idle, sent_ids = []\<rparr>"
  obtain w' where claim: "ClaimNextOutput 110 110 (healthy sample_document) = (Inr sample_claimed, w')"
    using sample_document_claim by (metis prod.collapse)
  obtain n' where sent: "send_output sample_delivery sample_claimed fresh_net = Some (Some ((None, 0), n'))"
    and one: "post_count n' - post_count (fresh_net :: keyboard net_state) = 1" using sample_sent by blast
  define s1 where "s1 = s0\<lparr>sys_db := db w', workers := (workers s0)(0 := Holding sample_claimed)\<rparr>"
  define s2 where "s2 = s1\<lparr>workers := (workers s1)(0 := Replied sample_claimed None 0),
     sent_ids := sent_ids s1 @ replicate (post_count n' - post_count (fresh_net :: keyboard net_state)) (o_id sample_claimed)\<rparr>"
  have "system_reachable sample_codec sample_decoder s0"
    unfolding s0_def by (rule system_reachable.start [OF sample_document_reachable])
  moreover have "system_step sample_codec sample_decoder s0 s1"
    unfolding s1_def by (rule system_step.claim [OF _ claim]) (simp_all add: s0_def healthy_def)
  moreover have "system_step sample_codec sample_decoder s1 s2"
    unfolding s2_def by (rule system_step.send [OF _ sample_net_honest sent]) (simp add: s1_def)
  ultimately have reach: "system_reachable sample_codec sample_decoder s2"
    by (blast intro: system_reachable.further)
  have ids: "sent_ids s2 = [1]"
    by (simp add: s2_def one) (simp add: s1_def s0_def sample_claimed_def scanOutput_def)
  from posted_at_most_once [OF reach] ids reach show ?thesis by auto
qed

end
