(* ===== verification/DeliveryProps.thy ===== *)
theory DeliveryProps
  imports DeliverySystem
begin

text \<open>
  The delays before a message is tried again, the layout of the shortcut buttons, and a refusal the
  client repeats although it may have been carried out.
\<close>

section \<open>Retry delays\<close>

lemma doubled_delay_powers:
  assumes "0 \<le> k" "attempt + k = attemptCount" "0 < delay"
  shows "min 300 (doubled_delay attemptCount attempt delay) = min 300 (delay * 2 ^ nat k)"
  using assms
proof (induction attemptCount attempt delay arbitrary: k rule: doubled_delay.induct)
  case (1 attemptCount attempt delay)
  show ?case
  proof (cases "attempt < attemptCount \<and> delay < maxServerRetryDelaySeconds")
    case True
    then have small: "delay < 300" and k: "1 \<le> k" using "1.prems"(2) by (simp_all add: maxServerRetryDelaySeconds_def)
    have power: "(2::int) ^ nat k = 2 * 2 ^ nat (k - 1)" using k by (simp add: nat_diff_distrib' flip: power_Suc)
    have "min 300 (doubled_delay attemptCount (attempt + 1) (delay * 2)) = min 300 (delay * 2 * 2 ^ nat (k - 1))"
      using k small "1.prems" by (intro "1.IH" True) auto
    with True power show ?thesis by (subst doubled_delay.simps) (simp add: mult.assoc)
  next
    case False
    then consider "k = 0" | "300 \<le> delay" using "1.prems"(1,2) by (force simp: maxServerRetryDelaySeconds_def)
    then show ?thesis
    proof cases
      case 2
      have "delay * 1 \<le> delay * 2 ^ nat k" using "1.prems"(3) by (intro mult_left_mono) auto
      then have "300 \<le> delay * 2 ^ nat k" using 2 by linarith
      with 2 False show ?thesis by (subst doubled_delay.simps) (simp add: maxServerRetryDelaySeconds_def)
    qed (use False in \<open>subst doubled_delay.simps, auto\<close>)
  qed
qed

text \<open>C39: the delay before the next attempt after a server failure is the capped power of two of the
  number of attempts, and a rate limit is obeyed to the second: the delay is never zero or negative.\<close>

theorem retry_delay_exact:
  assumes "0 \<le> o_server_retry_count o'" "o_server_retry_count o' < max_int64"
  shows "(info_reason info \<noteq> ''rate_limited'' \<and> retryableServerRejection info \<longrightarrow>
      deliveryRetryDelaySeconds o' info = min 300 (2 ^ nat (o_server_retry_count o')))
    \<and> (info_reason info = ''rate_limited'' \<longrightarrow> deliveryRetryDelaySeconds o' info = max 1 (info_retry_after info))"
proof (intro conjI impI; (elim conjE)?)
  assume server: "info_reason info \<noteq> ''rate_limited''" "retryableServerRejection info"
  have "min 300 (doubled_delay (o_server_retry_count o' + 1) 1 1) = min 300 (1 * 2 ^ nat (o_server_retry_count o'))"
    using assms(1) by (intro doubled_delay_powers) auto
  with assms server show "deliveryRetryDelaySeconds o' info = min 300 (2 ^ nat (o_server_retry_count o'))"
    by (simp add: deliveryRetryDelaySeconds_def Let_def maxServerRetryDelaySeconds_def min_def split: if_splits)
qed (simp add: deliveryRetryDelaySeconds_def)

theorem retry_delay_exact_witness:
  "deliveryRetryDelaySeconds (sample_claimed\<lparr>o_server_retry_count := 3\<rparr>)
     \<lparr>info_code = 502, info_reason = ''api_error'', info_retry_after = 0, info_uncertain = False\<rparr> = 8"
  using retry_delay_exact [of "sample_claimed\<lparr>o_server_retry_count := 3\<rparr>"
      "\<lparr>info_code = 502, info_reason = ''api_error'', info_retry_after = 0, info_uncertain = False\<rparr>"]
  by (simp add: max_int64_def retryableServerRejection_def)

section \<open>Buttons\<close>

definition button :: "final_action \<Rightarrow> string \<times> string" where
  "button a = (a_label a, finalActionPrefix @ a_token a)"

definition row_units :: "(string \<times> string) list \<Rightarrow> nat" where
  "row_units row = sum_list (map (text_units \<circ> fst) row)"

definition row_fits :: "(string \<times> string) list \<Rightarrow> bool" where
  "row_fits row \<longleftrightarrow> row \<noteq> [] \<and> length row \<le> 3 \<and> (length row = 1 \<or> row_units row \<le> 24)"

lemma keyboard_rows_layout:
  assumes "list_all row_fits rows" "row = [] \<and> actions \<noteq> [] \<or> row_fits row" "units = row_units row"
  shows "concat (keyboard_rows rows row units actions) = concat rows @ row @ map button actions
    \<and> list_all row_fits (keyboard_rows rows row units actions)"
  using assms
proof (induction rows row units actions rule: keyboard_rows.induct)
  case (2 rows row units action actions)
  let ?b = "(a_label action, finalActionPrefix @ a_token action)"
  have single: "row_fits [?b]" "row_units [?b] = text_units (a_label action)" by (simp_all add: row_fits_def row_units_def)
  show ?case
  proof (cases "row \<noteq> [] \<and> (length row = 3 \<or> units + text_units (a_label action) > 24)")
    case True
    with "2.IH"(1) [OF refl refl True] "2.prems" single show ?thesis by (simp add: Let_def button_def)
  next
    case False
    have "row_units (row @ [?b]) = units + text_units (a_label action)" using "2.prems"(3) by (simp add: row_units_def)
    moreover have "row_fits (row @ [?b])"
      using False "2.prems"(2,3) by (cases "row = []") (auto simp: row_fits_def row_units_def)
    ultimately show ?thesis using "2.IH"(2) [OF refl refl False] "2.prems"(1) False by (auto simp: Let_def button_def)
  qed
qed auto

text \<open>the keyboard of a finished reply shows every configured shortcut exactly once, in order, in rows of
  at most three buttons, and a row of several buttons is at most twenty-four UTF-16 units wide.\<close>

theorem finalActionKeyboard_layout:
  assumes "encoded \<noteq> []" "unmarshal codec encoded = Some actions" "actions \<noteq> []"
  shows "\<exists>rows. finalActionKeyboard codec encoded = Some rows \<and> concat rows = map button actions \<and> list_all row_fits rows"
  using assms keyboard_rows_layout [of "[]" "[]" actions 0] by (simp add: finalActionKeyboard_def row_units_def)

definition sample_buttons :: action_codec where
  "sample_buttons = \<lparr>marshal = (\<lambda>_. ''x''), unmarshal = (\<lambda>_. Some (map (\<lambda>l. \<lparr>a_token = ''t'', a_label = l, a_command = ''/c''\<rparr>)
     [''one'', ''two'', ''three'', ''four'']))\<rparr>"

theorem finalActionKeyboard_layout_witness:
  "\<exists>rows. finalActionKeyboard sample_buttons ''x'' = Some rows
     \<and> concat rows = [(''one'', ''fa:t''), (''two'', ''fa:t''), (''three'', ''fa:t''), (''four'', ''fa:t'')] \<and> list_all row_fits rows"
  using finalActionKeyboard_layout [of "''x''" sample_buttons
      "map (\<lambda>l. \<lparr>a_token = ''t'', a_label = l, a_command = ''/c''\<rparr>) [''one'', ''two'', ''three'', ''four'']"]
  by (simp add: sample_buttons_def button_def finalActionPrefix_def)

section \<open>An incomplete rejection is sent again\<close>

text \<open>The fallback without the reply target does not look at the uncertainty of the refusal: an answer
  with code 400 that lacks the field \<open>ok\<close> is marked uncertain and still repeated, so a message that was
  posted is posted twice. The protocol above excludes such answers.\<close>

definition sample_unclear :: attempt where
  "sample_unclear = sample_accepted\<lparr>exchange := Answered 400 (Envelope \<lparr>ev_ok = None, ev_result = None, ev_code = 400,
     ev_description = ''message to reply not found'', ev_retry_after = None\<rparr>)\<rparr>"

lemma sanitize_plain: "sanitize [] ''message to reply not found'' = ''message to reply not found''"
  by (simp add: sanitize_def url_end_def after_scheme_def to_lower_def lower_char_def blank_controls_def ascii_runes rune_error_def)

lemma unclear_reply: "replyTargetNotFound ''message to reply not found''"
  by (simp add: replyTargetNotFound_def trim_space_def ascii_trim_left ascii_trim_right is_space_def to_lower_def lower_char_def)

lemma reply_fallback_reposts:
  "post_count (snd (SendFile [] (\<lambda>n rq. sample_unclear) (de_view sample_delivery) 3 4 ''document'' ''/a/b'' ''b'' []
     (reply_options 7 None) fresh_net)) = 2"
proof -
  have decoded: "decode_envelope [] 400 \<lparr>ev_ok = None, ev_result = None, ev_code = 400,
      ev_description = ''message to reply not found'', ev_retry_after = None\<rparr> wants False
    = (False, Some (DeliveryError (Api \<lparr>ae_code = 400, ae_description = ''message to reply not found'', ae_retry_after = 0\<rparr>) True), 0)" for wants
    by (simp add: decode_envelope_def api_error_def sanitize_plain incomplete_def Let_def)
  show ?thesis
    by (simp add: SendFile_def sendWithReplyFallback_def reply_options_def sendFile_def path_is_abs_def has_prefix_def
        numeral_3_eq_3 openUpload_def sample_delivery_def upload_def upload_answer_def sample_unclear_def sample_accepted_def
        decodeResponse_def decoded advance_def fresh_net_def post_count_def Let_def replyRejected_def unclear_reply)
qed

end
