(* ===== verification/BridgeSessions.thy ===== *)
theory BridgeSessions
  imports StoreMigrations StoreBindings GoStd
begin

text \<open>
  Which conversation may use which OMP session: \<open>internal/bridge/session.go\<close>,
  \<open>internal/bridge/migration_claims.go\<close> and the reservation parts of
  \<open>internal/bridge/session_delete.go\<close>.

  The bridge keeps three tables under \<open>sessionMu\<close>: the sessions claimed by workers, by file; the
  session a worker exports; and the session a worker deletes. Each operation below is one critical
  section of that mutex. Workers are referred to by pointer; \<open>None\<close> is the nil pointer. A Go map is a
  list of entries: where the code's result depends on the order in which it ranges over a map, the
  order is an argument.

  \<open>strings.ToLower\<close> is modelled on ASCII text and is the argument \<open>wl\<close> elsewhere (it needs the
  Unicode tables). The database and its faults are those of the store theories.
\<close>

section \<open>State\<close>

type_synonym worker_ref = "nat option"

record sessionClaim =
  sc_owner :: worker_ref
  sc_id :: string
  sc_migration :: bool

record worker =
  wk_chat :: int64
  wk_thread :: int64
  wk_binding :: binding
  wk_migration :: "migration option"
  wk_claimed_session :: string
  wk_session_id :: string
  wk_starting :: bool
  wk_active :: bool

record bridge =
  br_bot :: int64
  br_db :: "database world option"
  br_workers :: "nat \<Rightarrow> worker"
  br_session_claims :: "(string \<times> sessionClaim) list"
  br_export_claims :: "(nat \<times> string) list"
  br_delete_claims :: "(nat \<times> string) list"

type_synonym 'a critical = "bridge \<Rightarrow> 'a \<times> bridge"

definition put_entry :: "'k \<Rightarrow> 'v \<Rightarrow> ('k \<times> 'v) list \<Rightarrow> ('k \<times> 'v) list" where
  "put_entry k v xs = filter (\<lambda>e. fst e \<noteq> k) xs @ [(k, v)]"

definition drop_entry :: "'k \<Rightarrow> ('k \<times> 'v) list \<Rightarrow> ('k \<times> 'v) list" where
  "drop_entry k xs = filter (\<lambda>e. fst e \<noteq> k) xs"

definition on_worker :: "nat \<Rightarrow> (worker \<Rightarrow> worker) \<Rightarrow> bridge \<Rightarrow> bridge" where
  "on_worker w f s = s\<lparr>br_workers := (br_workers s)(w := f (br_workers s w))\<rparr>"

text \<open>A call of the store on the bridge's database.\<close>

definition with_store :: "database world \<Rightarrow> 'a store \<Rightarrow> bridge \<Rightarrow> (store_error + 'a) \<times> bridge" where
  "with_store d m s = (case m d of (r, d') \<Rightarrow> (r, s\<lparr>br_db := Some d'\<rparr>))"

section \<open>Session identifiers\<close>

definition session_char :: "char \<Rightarrow> bool" where
  "session_char c \<longleftrightarrow> c = CHR ''-'' \<or> is_digit_char c
     \<or> (97 \<le> (of_char c :: nat) \<and> of_char c \<le> (102 :: nat)) \<or> (65 \<le> (of_char c :: nat) \<and> of_char c \<le> (70 :: nat))"

definition valid_session_id :: "string \<Rightarrow> bool" where
  "valid_session_id i \<longleftrightarrow>
     \<not> (length i < 8 \<or> length i > 64 \<or> has_prefix i ''-'' \<or> has_suffix i ''-'') \<and> list_all session_char i"

definition lower_text :: "(string \<Rightarrow> string) \<Rightarrow> string \<Rightarrow> string" where
  "lower_text wl s = (if ascii s then to_lower s else wl s)"

definition sessionIDsMatch :: "(string \<Rightarrow> string) \<Rightarrow> string \<Rightarrow> string \<Rightarrow> bool" where
  "sessionIDsMatch wl x y =
     (let l = lower_text wl x; r = lower_text wl y in l = r \<or> has_prefix l r \<or> has_prefix r l)"

section \<open>Matching against the tables\<close>

definition exportMatchesLocked :: "(string \<Rightarrow> string) \<Rightarrow> worker_ref \<Rightarrow> string \<Rightarrow> bridge \<Rightarrow> bool" where
  "exportMatchesLocked wl except i s =
     list_ex (\<lambda>(w, claimed). Some w \<noteq> except \<and> sessionIDsMatch wl claimed i) (br_export_claims s)"

definition deleteMatchesLocked :: "(string \<Rightarrow> string) \<Rightarrow> string \<Rightarrow> bridge \<Rightarrow> bool" where
  "deleteMatchesLocked wl i s = list_ex (\<lambda>(w, claimed). sessionIDsMatch wl claimed i) (br_delete_claims s)"

text \<open>A pending migration holds its source and its candidate.\<close>

definition migration_holds :: "(string \<Rightarrow> string) \<Rightarrow> string \<Rightarrow> migration \<Rightarrow> bool" where
  "migration_holds wl i m \<longleftrightarrow>
     \<not> ((b_session_id (m_source m) = [] \<or> \<not> sessionIDsMatch wl (b_session_id (m_source m)) i)
        \<and> (m_candidate_id m = [] \<or> \<not> sessionIDsMatch wl (m_candidate_id m) i))"

definition migration_elsewhere :: "worker_ref \<Rightarrow> migration \<Rightarrow> bridge \<Rightarrow> bool" where
  "migration_elsewhere w m s =
     (case w of None \<Rightarrow> True
      | Some n \<Rightarrow> wk_chat (br_workers s n) \<noteq> b_chat (m_source m) \<or> wk_thread (br_workers s n) \<noteq> b_thread (m_source m))"

definition migrationSessionStatusLocked ::
  "(string \<Rightarrow> string) \<Rightarrow> worker_ref \<Rightarrow> string \<Rightarrow> (bool \<times> bool) critical" where
  "migrationSessionStatusLocked wl owner i s =
     (if i = [] then ((False, False), s)
      else (let held = filter (\<lambda>(path, c). sc_migration c \<and> sessionIDsMatch wl (sc_id c) i) (br_session_claims s);
                busy = (held \<noteq> []);
                elsewhere = list_ex (\<lambda>(path, c). sc_owner c \<noteq> owner) held
            in case br_db s of
                 None \<Rightarrow> ((busy, elsewhere), s)
               | Some d \<Rightarrow>
                   (case with_store d (PendingMigrations (br_bot s)) s of
                      (Inl _, s') \<Rightarrow> ((True, True), s')
                    | (Inr ms, s') \<Rightarrow>
                        (let hits = filter (migration_holds wl i) ms
                         in ((busy \<or> hits \<noteq> [], elsewhere \<or> list_ex (\<lambda>m. migration_elsewhere owner m s) hits), s')))))"

definition sessionMatchesLocked :: "(string \<Rightarrow> string) \<Rightarrow> worker_ref \<Rightarrow> string \<Rightarrow> bool critical" where
  "sessionMatchesLocked wl except i s =
     (if list_ex (\<lambda>(path, c). sc_owner c \<noteq> except \<and> sessionIDsMatch wl (sc_id c) i) (br_session_claims s)
      then (True, s)
      else (case migrationSessionStatusLocked wl except i s of ((busy, _), s') \<Rightarrow> (busy, s')))"

definition sessionInUseByOther :: "(string \<Rightarrow> string) \<Rightarrow> worker_ref \<Rightarrow> string \<Rightarrow> bool critical" where
  "sessionInUseByOther wl owner i s =
     (case sessionMatchesLocked wl owner i s of (held, s') \<Rightarrow>
        (held \<or> exportMatchesLocked wl owner i s' \<or> deleteMatchesLocked wl i s', s'))"

definition sessionInUse :: "(string \<Rightarrow> string) \<Rightarrow> string \<Rightarrow> bool critical" where
  "sessionInUse wl i = sessionInUseByOther wl None i"

definition migrationBindingLocked :: "int64 \<Rightarrow> int64 \<Rightarrow> int64 \<Rightarrow> bool critical" where
  "migrationBindingLocked botID chat thread s =
     (case br_db s of None \<Rightarrow> (False, s)
      | Some d \<Rightarrow> (case with_store d (Migration botID chat thread) s of (r, s') \<Rightarrow> (r \<noteq> Inl ErrNoRows, s')))"

section \<open>Deleting a session\<close>

definition running_owner :: "bridge \<Rightarrow> sessionClaim \<Rightarrow> bool" where
  "running_owner s c =
     (case sc_owner c of None \<Rightarrow> False
      | Some n \<Rightarrow> wk_active (br_workers s n) \<or> wk_starting (br_workers s n))"

definition sessionDeleteStatusLocked ::
  "(string \<Rightarrow> string) \<Rightarrow> worker_ref \<Rightarrow> string \<Rightarrow> (bool \<times> bool) critical" where
  "sessionDeleteStatusLocked wl owner i s =
     (case migrationSessionStatusLocked wl owner i s of ((busy, elsewhere), s') \<Rightarrow>
        (let claims = filter (\<lambda>(path, c). sessionIDsMatch wl (sc_id c) i \<and> running_owner s c) (br_session_claims s);
             others = filter (\<lambda>(w, claimed). sessionIDsMatch wl claimed i) (br_export_claims s @ br_delete_claims s)
         in ((busy \<or> claims \<noteq> [] \<or> others \<noteq> [],
              elsewhere \<or> list_ex (\<lambda>(path, c). sc_owner c \<noteq> owner) claims
                \<or> list_ex (\<lambda>(w, claimed). Some w \<noteq> owner) others), s')))"

definition reserveDelete :: "(string \<Rightarrow> string) \<Rightarrow> nat \<Rightarrow> string \<Rightarrow> bool critical" where
  "reserveDelete wl owner i s =
     (case sessionDeleteStatusLocked wl None i s of ((busy, _), s') \<Rightarrow>
        if busy then (False, s')
        else if list_ex (\<lambda>(w, _). w = owner) (br_delete_claims s') then (False, s')
        else (True, s'\<lparr>br_delete_claims := put_entry owner i (br_delete_claims s')\<rparr>))"

definition releaseDelete :: "nat \<Rightarrow> bridge \<Rightarrow> bridge" where
  "releaseDelete owner s = s\<lparr>br_delete_claims := drop_entry owner (br_delete_claims s)\<rparr>"

text \<open>The claims a finished deletion of session \<open>i\<close> removes.\<close>

definition forget_deleted :: "(string \<Rightarrow> string) \<Rightarrow> string \<Rightarrow> bridge \<Rightarrow> bridge" where
  "forget_deleted wl i s = s\<lparr>br_session_claims :=
     filter (\<lambda>(path, c). \<not> sessionIDsMatch wl (sc_id c) i \<or> sc_migration c \<or> running_owner s c) (br_session_claims s)\<rparr>"

text \<open>Whether the database knows of work that may still use the session: \<open>filepath.EvalSymlinks\<close> is the
  argument \<open>ev\<close>.\<close>

definition sameWorkspace :: "(string \<Rightarrow> string option) \<Rightarrow> string \<Rightarrow> string \<Rightarrow> bool" where
  "sameWorkspace ev x y =
     (case ev x of None \<Rightarrow> False
      | Some a \<Rightarrow> (case ev y of None \<Rightarrow> False | Some b \<Rightarrow> path_clean a = path_clean b))"

definition migration_names :: "(string \<Rightarrow> string) \<Rightarrow> string \<Rightarrow> migration \<Rightarrow> bool" where
  "migration_names wl i m \<longleftrightarrow> sessionIDsMatch wl (b_session_id (m_source m)) i
     \<or> m_candidate_id m \<noteq> [] \<and> sessionIDsMatch wl (m_candidate_id m) i"

definition intent_names ::
  "(string \<Rightarrow> string) \<Rightarrow> (string \<Rightarrow> string option) \<Rightarrow> string \<Rightarrow> string \<Rightarrow> start_intent \<Rightarrow> bool" where
  "intent_names wl ev i workspace n \<longleftrightarrow> si_kind n = ''resume'' \<and>
     (sessionIDsMatch wl (si_session n) i
      \<or> \<not> valid_session_id (si_session n) \<and> (si_workspace n = workspace \<or> sameWorkspace ev (si_workspace n) workspace))"

definition sessionDeleteAvailable ::
  "(string \<Rightarrow> string) \<Rightarrow> (string \<Rightarrow> string option) \<Rightarrow> int64 \<Rightarrow> string \<Rightarrow> string \<Rightarrow> bool store" where
  "sessionDeleteAvailable wl ev botID i workspace =
     bind (PendingMigrations botID) (\<lambda>ms.
     if list_ex (migration_names wl i) ms then give False
     else bind (RunningBindings botID) (\<lambda>bs.
     if list_ex (\<lambda>b. b_session_id b = [] \<and> (b_workspace b = workspace \<or> sameWorkspace ev (b_workspace b) workspace)) bs
     then give False
     else bind (PendingStarts botID) (\<lambda>ns.
     give (\<not> list_ex (intent_names wl ev i workspace) ns))))"

section \<open>Exporting a session\<close>

definition reserveExport :: "(string \<Rightarrow> string) \<Rightarrow> nat \<Rightarrow> string \<Rightarrow> bool critical" where
  "reserveExport wl owner i s =
     (case sessionInUseByOther wl (Some owner) i s of (used, s') \<Rightarrow>
        if used then (False, s')
        else if list_ex (\<lambda>(w, _). w = owner) (br_export_claims s') then (False, s')
        else (True, s'\<lparr>br_export_claims := put_entry owner i (br_export_claims s')\<rparr>))"

definition releaseExport :: "nat \<Rightarrow> bridge \<Rightarrow> bridge" where
  "releaseExport owner s = s\<lparr>br_export_claims := drop_entry owner (br_export_claims s)\<rparr>"

section \<open>Claiming a session for a runtime\<close>

definition own_claim :: "string \<Rightarrow> nat \<Rightarrow> string \<Rightarrow> bridge \<Rightarrow> bridge" where
  "own_claim path w i s = on_worker w (\<lambda>k. k\<lparr>wk_claimed_session := path, wk_session_id := i\<rparr>) s"

definition claimSession :: "(string \<Rightarrow> string) \<Rightarrow> nat \<Rightarrow> string \<Rightarrow> string \<Rightarrow> bool critical" where
  "claimSession wl w path i s =
     (case sessionInUseByOther wl (Some w) i s of (used, s') \<Rightarrow>
        if used then (False, s')
        else if list_ex (\<lambda>(p, c). p = path \<and> sc_owner c \<noteq> Some w) (br_session_claims s') then (False, s')
        else if list_ex (\<lambda>(p, c). sc_owner c = Some w \<and> sc_migration c) (br_session_claims s') then (False, s')
        else (True, own_claim path w i
          (s'\<lparr>br_session_claims := put_entry path \<lparr>sc_owner = Some w, sc_id = i, sc_migration = False\<rparr>
                (filter (\<lambda>(p, c). sc_owner c \<noteq> Some w) (br_session_claims s'))\<rparr>)))"

definition claimPersistedSession :: "(string \<Rightarrow> string) \<Rightarrow> nat \<Rightarrow> bool critical" where
  "claimPersistedSession wl w s =
     (let b = wk_binding (br_workers s w)
      in if b_session b = [] \<or> \<not> valid_session_id (b_session_id b) then (False, s)
         else claimSession wl w (b_session b) (b_session_id b) s)"

definition releaseSession :: "nat \<Rightarrow> bridge \<Rightarrow> bridge" where
  "releaseSession w s =
     on_worker w (\<lambda>k. k\<lparr>wk_claimed_session := [], wk_session_id := [], wk_starting := False, wk_active := False\<rparr>)
       (s\<lparr>br_session_claims := filter (\<lambda>(p, c). \<not> (sc_owner c = Some w \<and> \<not> sc_migration c)) (br_session_claims s)\<rparr>)"

definition stale_restore :: "binding \<Rightarrow> binding \<Rightarrow> string \<Rightarrow> bool" where
  "stale_restore current b i \<longleftrightarrow>
     b_generation current \<noteq> b_generation b \<or> b_workspace current \<noteq> b_workspace b
     \<or> b_session current \<noteq> b_session b \<or> b_running current \<noteq> b_running b
     \<or> \<not> equal_fold_ascii (b_session_id current) i"

text \<open>The loop over the claims stops at the first claim of the worker that \<open>visit\<close>, the order of this
  iteration, meets. A nil database is a nil dereference: the result \<open>None\<close>.\<close>

definition restored :: "nat \<Rightarrow> string \<Rightarrow> string \<Rightarrow> bridge \<Rightarrow> bridge" where
  "restored w path i s = on_worker w (\<lambda>k. k\<lparr>wk_starting := True\<rparr>) (own_claim path w i s)"

definition restore_at :: "nat \<Rightarrow> string \<Rightarrow> string \<Rightarrow> bool critical" where
  "restore_at w claimPath i s =
     (if claimPath \<noteq> [] then (True, restored w claimPath i s)
      else (let path = b_session (wk_binding (br_workers s w)) in
            if path = [] then (False, s)
            else if list_ex (\<lambda>(p, c). p = path \<and> sc_owner c \<noteq> Some w) (br_session_claims s) then (False, s)
            else (True, restored w path i (s\<lparr>br_session_claims :=
              put_entry path \<lparr>sc_owner = Some w, sc_id = i, sc_migration = False\<rparr> (br_session_claims s)\<rparr>))))"

definition restore_claim ::
  "((string \<times> sessionClaim) list \<Rightarrow> (string \<times> sessionClaim) list) \<Rightarrow> nat \<Rightarrow> string \<Rightarrow> bool critical" where
  "restore_claim visit w i s =
     (case find (\<lambda>(p, c). sc_owner c = Some w) (visit (br_session_claims s)) of
        Some (p, c) \<Rightarrow> if equal_fold_ascii (sc_id c) i then restore_at w p i s else (False, s)
      | None \<Rightarrow> restore_at w [] i s)"

definition beginSessionRestore ::
  "(string \<Rightarrow> string) \<Rightarrow> ((string \<times> sessionClaim) list \<Rightarrow> (string \<times> sessionClaim) list) \<Rightarrow> nat \<Rightarrow> string
    \<Rightarrow> bool option critical" where
  "beginSessionRestore wl visit w i s =
     (if \<not> valid_session_id i then (Some False, s)
      else if deleteMatchesLocked wl i s then (Some False, s)
      else (case sessionMatchesLocked wl (Some w) i s of (held, s1) \<Rightarrow>
        if held \<or> exportMatchesLocked wl (Some w) i s1 then (Some False, s1)
        else (case br_db s1 of
          None \<Rightarrow> (None, s1)
        | Some d \<Rightarrow>
            (let k = br_workers s1 w in
             case with_store d (Binding (br_bot s1) (wk_chat k) (wk_thread k)) s1 of
               (Inl _, s2) \<Rightarrow> (Some False, s2)
             | (Inr current, s2) \<Rightarrow>
                 if stale_restore current (wk_binding k) i then (Some False, s2)
                 else (case restore_claim visit w i s2 of (r, s3) \<Rightarrow> (Some r, s3))))))"

section \<open>Sessions of a migration\<close>

definition invalid_identities :: "(string \<Rightarrow> string) \<Rightarrow> migration \<Rightarrow> bool" where
  "invalid_identities wl m =
     (let sourceFile = b_session (m_source m); sourceID = b_session_id (m_source m);
          candidateFile = m_candidate_file m; candidateID = m_candidate_id m
      in sourceFile = [] \<or> \<not> valid_session_id sourceID \<or> (candidateFile = []) \<noteq> (candidateID = [])
         \<or> candidateFile \<noteq> [] \<and> (\<not> valid_session_id candidateID \<or> candidateFile = sourceFile
                                  \<or> sessionIDsMatch wl sourceID candidateID))"

definition foreign_claim :: "nat \<Rightarrow> migration \<Rightarrow> string \<times> sessionClaim \<Rightarrow> bool" where
  "foreign_claim w m e =
     (case e of (path, c) \<Rightarrow>
        sc_owner c = Some w \<and> sc_migration c \<and> path \<noteq> b_session (m_source m)
        \<and> (path \<noteq> m_candidate_file m \<or> \<not> equal_fold_ascii (sc_id c) (m_candidate_id m)))"

definition available :: "(string \<Rightarrow> string) \<Rightarrow> nat \<Rightarrow> string \<Rightarrow> string \<Rightarrow> bridge \<Rightarrow> bool" where
  "available wl w path i s \<longleftrightarrow>
     path = [] \<or>
     \<not> (exportMatchesLocked wl None i s \<or> deleteMatchesLocked wl i s) \<and>
     \<not> list_ex (\<lambda>(p, c). sc_owner c \<noteq> Some w \<and> (p = path \<or> sessionIDsMatch wl (sc_id c) i)) (br_session_claims s)"

definition identity_clash :: "(string \<Rightarrow> string) \<Rightarrow> migration \<Rightarrow> string \<Rightarrow> string \<Rightarrow> bool" where
  "identity_clash wl m path i \<longleftrightarrow>
     i \<noteq> [] \<and> (sessionIDsMatch wl i (b_session_id (m_source m))
              \<or> m_candidate_id m \<noteq> [] \<and> sessionIDsMatch wl i (m_candidate_id m))
     \<or> path \<noteq> [] \<and> (path = b_session (m_source m) \<or> path = m_candidate_file m)"

definition pending_clash :: "(string \<Rightarrow> string) \<Rightarrow> migration \<Rightarrow> migration \<Rightarrow> bool" where
  "pending_clash wl m p \<longleftrightarrow>
     m_id p \<noteq> m_id m \<and>
     (identity_clash wl m (b_session (m_source p)) (b_session_id (m_source p))
      \<or> identity_clash wl m (m_candidate_file p) (m_candidate_id p))"

definition checkMigrationClaimsLocked ::
  "(string \<Rightarrow> string) \<Rightarrow> nat \<Rightarrow> migration \<Rightarrow> (store_error + unit) critical" where
  "checkMigrationClaimsLocked wl w m s =
     (if invalid_identities wl m then (Inl (ErrMsg ''invalid migration session identities''), s)
      else if list_ex (foreign_claim w m) (br_session_claims s) then (Inl ErrMigrationLocked, s)
      else if \<not> available wl w (b_session (m_source m)) (b_session_id (m_source m)) s
              \<or> \<not> available wl w (m_candidate_file m) (m_candidate_id m) s then (Inl ErrMigrationLocked, s)
      else (case br_db s of
          None \<Rightarrow> (Inr (), s)
        | Some d \<Rightarrow>
            (case with_store d (PendingMigrations (br_bot s)) s of
               (Inl e, s') \<Rightarrow> (Inl e, s')
             | (Inr ms, s') \<Rightarrow>
                 (if list_ex (pending_clash wl m) ms then Inl ErrMigrationLocked else Inr (), s'))))"

definition installMigrationClaimsLocked :: "nat \<Rightarrow> migration \<Rightarrow> bridge \<Rightarrow> bridge" where
  "installMigrationClaimsLocked w m s =
     (let withSource = put_entry (b_session (m_source m))
            \<lparr>sc_owner = Some w, sc_id = b_session_id (m_source m), sc_migration = True\<rparr> (br_session_claims s)
      in s\<lparr>br_session_claims :=
           (if m_candidate_file m \<noteq> []
            then put_entry (m_candidate_file m) \<lparr>sc_owner = Some w, sc_id = m_candidate_id m, sc_migration = True\<rparr> withSource
            else withSource)\<rparr>)"

definition reserveMigrationClaimsLocked :: "(string \<Rightarrow> string) \<Rightarrow> nat \<Rightarrow> migration \<Rightarrow> bool critical" where
  "reserveMigrationClaimsLocked wl w m s =
     (case checkMigrationClaimsLocked wl w m s of
        (Inl _, s') \<Rightarrow> (False, s')
      | (Inr _, s') \<Rightarrow>
          (True, own_claim (b_session (m_source m)) w (b_session_id (m_source m)) (installMigrationClaimsLocked w m s')))"

definition reserveMigrationCandidate :: "(string \<Rightarrow> string) \<Rightarrow> nat \<Rightarrow> string \<Rightarrow> string \<Rightarrow> bool critical" where
  "reserveMigrationCandidate wl w path i s =
     (case wk_migration (br_workers s w) of
        None \<Rightarrow> (False, s)
      | Some m \<Rightarrow>
          if path = [] \<or> \<not> valid_session_id i then (False, s)
          else if m_candidate_id m \<noteq> [] \<and> (\<not> equal_fold_ascii (m_candidate_id m) i \<or> m_candidate_file m \<noteq> path)
            then (False, s)
          else if sessionIDsMatch wl (b_session_id (m_source m)) i \<or> b_session (m_source m) = path then (False, s)
          else reserveMigrationClaimsLocked wl w (m\<lparr>m_candidate_file := path, m_candidate_id := i\<rparr>) s)"

definition restoreMigrationClaims :: "(string \<Rightarrow> string) \<Rightarrow> nat \<Rightarrow> bool critical" where
  "restoreMigrationClaims wl w s =
     (case wk_migration (br_workers s w) of
        None \<Rightarrow> (False, s)
      | Some m \<Rightarrow>
          if (m_candidate_file m = []) \<noteq> (m_candidate_id m = []) then (False, s)
          else reserveMigrationClaimsLocked wl w m s)"

text \<open>The candidate is persisted between the check and the installation of the claims. A rejected
  observation writes nothing.\<close>

definition other_candidate :: "migration \<Rightarrow> string \<Rightarrow> string \<Rightarrow> bool" where
  "other_candidate m path i \<longleftrightarrow> m_candidate_file m \<noteq> path \<or> \<not> equal_fold_ascii (m_candidate_id m) i"

definition store_observation ::
  "int64 \<Rightarrow> nat \<Rightarrow> string \<Rightarrow> string \<Rightarrow> string \<Rightarrow> migration \<Rightarrow> database world \<Rightarrow> (store_error + migration) critical" where
  "store_observation now w migrationID path i m d s =
     (case with_store d (bind (UpdateMigration now m (m_phase m)) (\<lambda>_.
              Migration (br_bot s) (wk_chat (br_workers s w)) (wk_thread (br_workers s w)))) s of
        (Inl e, s') \<Rightarrow> (Inl e, s')
      | (Inr m', s') \<Rightarrow>
          if m_id m' \<noteq> migrationID \<or> other_candidate m' path i then (Inl ErrStaleMigration, s')
          else (Inr m', installMigrationClaimsLocked w m' s'))"

definition observeMigrationCandidate ::
  "(string \<Rightarrow> string) \<Rightarrow> int64 \<Rightarrow> nat \<Rightarrow> string \<Rightarrow> string \<Rightarrow> string \<Rightarrow> (store_error + migration) critical" where
  "observeMigrationCandidate wl now w migrationID path i s =
     (case br_db s of
        None \<Rightarrow> (Inl (ErrMsg ''invalid migration candidate observation''), s)
      | Some d \<Rightarrow>
          if path = [] \<or> \<not> valid_session_id i then (Inl (ErrMsg ''invalid migration candidate observation''), s)
          else (case with_store d (Migration (br_bot s) (wk_chat (br_workers s w)) (wk_thread (br_workers s w))) s of
            (Inl e, s1) \<Rightarrow> (Inl e, s1)
          | (Inr m, s1) \<Rightarrow>
              if m_id m \<noteq> migrationID \<or> m_candidate_id m \<noteq> [] \<and> other_candidate m path i
              then (Inl ErrStaleMigration, s1)
              else (let m' = (if m_candidate_id m = [] then m\<lparr>m_candidate_file := path, m_candidate_id := i\<rparr> else m)
                    in case checkMigrationClaimsLocked wl w m' s1 of
                         (Inl e, s2) \<Rightarrow> (Inl e, s2)
                       | (Inr _, s2) \<Rightarrow>
                           (case br_db s2 of None \<Rightarrow> (Inl ErrSQL, s2)
                            | Some d2 \<Rightarrow> store_observation now w migrationID path i m' d2 s2))))"

definition finishMigrationClaims :: "nat \<Rightarrow> string \<Rightarrow> string \<Rightarrow> bool critical" where
  "finishMigrationClaims w targetFile targetID s =
     (case map_of (br_session_claims s) targetFile of
        None \<Rightarrow> (False, s)
      | Some c \<Rightarrow>
          if sc_owner c \<noteq> Some w \<or> \<not> sc_migration c \<or> \<not> equal_fold_ascii (sc_id c) targetID then (False, s)
          else (True, own_claim targetFile w targetID (s\<lparr>br_session_claims :=
            put_entry targetFile \<lparr>sc_owner = Some w, sc_id = targetID, sc_migration = False\<rparr>
              (filter (\<lambda>(p, c). sc_owner c \<noteq> Some w) (br_session_claims s))\<rparr>)))"

end
