(* ===== verification/SessionProps.thy ===== *)
theory SessionProps
  imports BridgeSessions BindingProps Samples
begin

text \<open>
  Session exclusion: whatever the workers do, no session is run, migrated, exported or deleted by two
  conversations at once. The three tables are read as one list of uses, and a table of which uses of
  matching sessions may coexist is the specification that every critical section implements.
\<close>

section \<open>The specification\<close>

datatype purpose = Running | Migrating | Exporting | Deleting

type_synonym session_use = "worker_ref \<times> purpose \<times> string"

definition claim_use :: "string \<times> sessionClaim \<Rightarrow> session_use" where
  "claim_use e = (sc_owner (snd e), if sc_migration (snd e) then Migrating else Running, sc_id (snd e))"

definition session_uses :: "bridge \<Rightarrow> session_use set" where
  "session_uses s = claim_use ` set (br_session_claims s)
     \<union> (\<lambda>(w, i). (Some w, Exporting, i)) ` set (br_export_claims s)
     \<union> (\<lambda>(w, i). (Some w, Deleting, i)) ` set (br_delete_claims s)"

text \<open>When two uses of matching sessions may coexist. A session may be deleted while a worker that
  does not run it still remembers it.\<close>

definition compatible :: "session_use \<Rightarrow> session_use \<Rightarrow> bool" where
  "compatible x y \<longleftrightarrow>
     (case (fst (snd x), fst (snd y)) of
        (Running, Deleting) \<Rightarrow> True
      | (Deleting, Running) \<Rightarrow> True
      | (Migrating, Exporting) \<Rightarrow> False
      | (Exporting, Migrating) \<Rightarrow> False
      | (Deleting, q) \<Rightarrow> q = Deleting \<and> fst x = fst y
      | (q, Deleting) \<Rightarrow> False
      | _ \<Rightarrow> fst x = fst y)"

text \<open>When a new use may begin beside an existing one of a matching session: as above, and nothing
  begins on a session that is being deleted, and a deletion does not begin on a session in use.\<close>

definition admits :: "bridge \<Rightarrow> session_use \<Rightarrow> session_use \<Rightarrow> bool" where
  "admits s x y \<longleftrightarrow> compatible x y \<and> fst (snd y) \<noteq> Deleting
     \<and> (fst (snd x) = Deleting \<longrightarrow>
         (\<forall>w. fst y = Some w \<longrightarrow> \<not> wk_active (br_workers s w) \<and> \<not> wk_starting (br_workers s w)))"

definition overlap :: "(string \<Rightarrow> string) \<Rightarrow> session_use \<Rightarrow> session_use \<Rightarrow> bool" where
  "overlap wl x y \<longleftrightarrow> sessionIDsMatch wl (snd (snd x)) (snd (snd y))"

definition exclusive :: "(string \<Rightarrow> string) \<Rightarrow> bridge \<Rightarrow> bool" where
  "exclusive wl s \<longleftrightarrow> (\<forall>x \<in> session_uses s. \<forall>y \<in> session_uses s. overlap wl x y \<longrightarrow> compatible x y)"

text \<open>The tables are Go maps, and a migration holds well-formed identifiers.\<close>

definition tables_ok :: "bridge \<Rightarrow> bool" where
  "tables_ok s \<longleftrightarrow> distinct (map fst (br_session_claims s)) \<and> distinct (map fst (br_export_claims s))
     \<and> distinct (map fst (br_delete_claims s))
     \<and> (\<forall>x \<in> session_uses s. fst (snd x) = Migrating \<longrightarrow> valid_session_id (snd (snd x)))"

section \<open>Transitions\<close>

definition same_tables :: "bridge \<Rightarrow> bridge \<Rightarrow> bool" where
  "same_tables s s' \<longleftrightarrow> br_session_claims s' = br_session_claims s
     \<and> br_export_claims s' = br_export_claims s \<and> br_delete_claims s' = br_delete_claims s"

text \<open>The critical sections in any order, with anything else the program does to the workers and the
  database in between. Callers pass the identifiers of exports and deletions after they checked them.\<close>

inductive session_step :: "(string \<Rightarrow> string) \<Rightarrow> bridge \<Rightarrow> bridge \<Rightarrow> bool" for wl where
  claim: "claimSession wl w path i s = (r, s') \<Longrightarrow> session_step wl s s'"
| claim_persisted: "claimPersistedSession wl w s = (r, s') \<Longrightarrow> session_step wl s s'"
| restore: "(\<And>xs. set (visit xs) = set xs) \<Longrightarrow> beginSessionRestore wl visit w i s = (r, s') \<Longrightarrow> session_step wl s s'"
| release: "session_step wl s (releaseSession w s)"
| export: "i \<noteq> [] \<Longrightarrow> reserveExport wl w i s = (r, s') \<Longrightarrow> session_step wl s s'"
| release_export: "session_step wl s (releaseExport w s)"
| delete: "valid_session_id i \<Longrightarrow> reserveDelete wl w i s = (r, s') \<Longrightarrow> session_step wl s s'"
| release_delete: "session_step wl s (releaseDelete w s)"
| deleted: "session_step wl s (forget_deleted wl i s)"
| candidate: "reserveMigrationCandidate wl w path i s = (r, s') \<Longrightarrow> session_step wl s s'"
| restore_migration: "restoreMigrationClaims wl w s = (r, s') \<Longrightarrow> session_step wl s s'"
| observe: "observeMigrationCandidate wl now w mid path i s = (m, s') \<Longrightarrow> session_step wl s s'"
| finish: "finishMigrationClaims w path i s = (r, s') \<Longrightarrow> session_step wl s s'"
| other: "same_tables s s' \<Longrightarrow> session_step wl s s'"

inductive session_reachable :: "(string \<Rightarrow> string) \<Rightarrow> bridge \<Rightarrow> bool" for wl where
  start: "br_session_claims s = [] \<Longrightarrow> br_export_claims s = [] \<Longrightarrow> br_delete_claims s = [] \<Longrightarrow> session_reachable wl s"
| step: "session_reachable wl s \<Longrightarrow> session_step wl s s' \<Longrightarrow> session_reachable wl s'"

section \<open>Identifiers\<close>

lemma match_refl [simp]: "sessionIDsMatch wl x x"
  by (simp add: sessionIDsMatch_def)

lemma match_sym: "sessionIDsMatch wl x y = sessionIDsMatch wl y x"
  by (auto simp: sessionIDsMatch_def Let_def)

lemma match_lower: "lower_text wl x = lower_text wl y \<Longrightarrow> sessionIDsMatch wl x z = sessionIDsMatch wl y z"
  by (simp add: sessionIDsMatch_def)

lemma compatible_sym: "compatible x y = compatible y x"
  by (cases x; cases y; cases "fst (snd x)"; cases "fst (snd y)") (auto simp: compatible_def)

lemma decode_high: "128 \<le> b \<Longrightarrow> 128 \<le> fst (decode_bytes (b # bs))"
  by (auto simp: rune_error_def second_ok_def continuation_def split: list.splits if_splits)

lemma runes_low_ascii: "(\<And>r b. (r, b) \<in> set (runes s) \<Longrightarrow> r < 128) \<Longrightarrow> ascii s"
proof (induction "length s" arbitrary: s rule: less_induct)
  case less
  show ?case
  proof (cases s)
    case (Cons c t)
    have "fst (decode_rune s) < 128" using less.prems Cons by (metis list.set_intros(1) list.distinct(1) runes_nonempty)
    then have low: "of_char c < (128 :: nat)"
      using Cons by (simp add: decode_rune_def del: decode_bytes.simps) (metis decode_high not_le)
    then have "runes s = (of_char c, [c]) # runes t" by (simp add: Cons runes_ascii)
    then have "ascii t" using less Cons by (metis length_Cons lessI list.set_intros(2))
    with low Cons show ?thesis by simp
  qed simp
qed

lemma session_char_ascii: "session_char c \<Longrightarrow> of_char c < (128 :: nat)"
  by (auto simp: session_char_def is_digit_char_def)

lemma valid_ascii: "valid_session_id i \<Longrightarrow> ascii i"
  by (auto simp: valid_session_id_def ascii_def list_all_iff dest: session_char_ascii)

lemma valid_nonempty: "valid_session_id i \<Longrightarrow> i \<noteq> []"
  by (auto simp: valid_session_id_def)

lemma fold_ascii: "of_char c < (128 :: nat) \<Longrightarrow> fold_rune (of_char c) = of_char (lower_char c)"
  by (auto simp: fold_rune_def lower_char_def)

lemma fold_session_char: "session_char c \<Longrightarrow> fold_rune r = fold_rune (of_char c) \<Longrightarrow> r < 128"
  by (auto simp: session_char_def is_digit_char_def fold_rune_def split: if_splits)

lemma fold_valid:
  assumes "valid_session_id i" and "equal_fold_ascii i t"
  shows "lower_text wl i = lower_text wl t"
proof -
  have chars: "\<forall>c \<in> set i. session_char c" using assms by (simp add: valid_session_id_def list_all_iff)
  have ai: "ascii i" using assms by (simp add: valid_ascii)
  have folds: "map (fold_rune \<circ> fst) (runes t) = map (\<lambda>c. fold_rune (of_char c)) i"
    using assms ai by (simp add: equal_fold_ascii_def ascii_runes comp_def)
  have "r < 128" if "(r, b) \<in> set (runes t)" for r b
  proof -
    have "fold_rune r \<in> set (map (fold_rune \<circ> fst) (runes t))" using that by force
    then obtain c where "c \<in> set i" "fold_rune r = fold_rune (of_char c)" unfolding folds by auto
    with chars fold_session_char show ?thesis by blast
  qed
  then have at: "ascii t" by (rule runes_low_ascii)
  have "map (\<lambda>c. fold_rune (of_char c)) t = map (\<lambda>c. fold_rune (of_char c)) i"
    using folds at by (simp add: ascii_runes comp_def)
  then have "map (\<lambda>c. of_char (lower_char c) :: nat) t = map (\<lambda>c. of_char (lower_char c)) i"
    using at ai by (simp add: ascii_def fold_ascii cong: map_cong)
  then have "map of_char (to_lower t) = (map of_char (to_lower i) :: nat list)" by (simp add: to_lower_def comp_def)
  then have "to_lower t = to_lower i" by (simp add: inj_map_eq_map inj_def)
  with ai at show ?thesis by (simp add: lower_text_def)
qed

lemma fold_sym: "equal_fold_ascii x y = equal_fold_ascii y x"
  by (auto simp: equal_fold_ascii_def)

section \<open>Adding uses\<close>

lemma exclusive_smaller:
  assumes "exclusive wl s" and "session_uses s' \<subseteq> session_uses s" shows "exclusive wl s'"
  using assms unfolding exclusive_def by blast

text \<open>The uses after a critical section are the old ones and admitted new ones.\<close>

definition admitted :: "(string \<Rightarrow> string) \<Rightarrow> bridge \<Rightarrow> bridge \<Rightarrow> bool" where
  "admitted wl s s' \<longleftrightarrow> (\<forall>x \<in> session_uses s' - session_uses s. \<forall>y \<in> session_uses s. overlap wl x y \<longrightarrow> admits s x y)
     \<and> (\<forall>x \<in> session_uses s' - session_uses s. \<forall>y \<in> session_uses s' - session_uses s. overlap wl x y \<longrightarrow> compatible x y)"

lemma admitted_exclusive: "exclusive wl s \<Longrightarrow> admitted wl s s' \<Longrightarrow> exclusive wl s'"
  unfolding exclusive_def admitted_def admits_def overlap_def
  by (metis DiffI compatible_sym match_sym)

lemma admitted_smaller: "session_uses s' \<subseteq> session_uses s \<Longrightarrow> admitted wl s s'"
  unfolding admitted_def by blast


section \<open>What a grant means\<close>

lemma with_store_tables: "with_store d m s = (r, s') \<Longrightarrow> \<exists>d'. s' = s\<lparr>br_db := Some d'\<rparr>"
  by (auto simp: with_store_def split: prod.splits)

lemma same_tables_db [simp]: "same_tables s (s\<lparr>br_db := d\<rparr>)"
  by (simp add: same_tables_def)

lemma same_tables_refl [simp]: "same_tables s s"
  by (simp add: same_tables_def)

lemma same_tables_uses: "same_tables s s' \<Longrightarrow> session_uses s' = session_uses s"
  by (simp add: same_tables_def session_uses_def)

lemma migration_status:
  assumes "migrationSessionStatusLocked wl w i s = ((busy, elsewhere), s')"
  shows "\<exists>d. s' = s\<lparr>br_db := d\<rparr>"
    and "\<not> busy \<Longrightarrow> i \<noteq> [] \<Longrightarrow> (p, c) \<in> set (br_session_claims s) \<Longrightarrow> sc_migration c \<Longrightarrow> \<not> sessionIDsMatch wl (sc_id c) i"
  using assms
  by (auto simp: migrationSessionStatusLocked_def Let_def filter_empty_conv
    dest!: with_store_tables split: if_splits option.splits prod.splits sum.splits intro: exI [of _ "br_db s"])

lemma compatible_self [simp]: "compatible x x"
  by (cases "fst (snd x)") (auto simp: compatible_def)

lemma admitted_one:
  assumes "session_uses s' \<subseteq> insert x (session_uses s)"
    and "\<And>y. y \<in> session_uses s \<Longrightarrow> overlap wl x y \<Longrightarrow> admits s x y"
  shows "admitted wl s s'"
  using assms unfolding admitted_def by (metis DiffE compatible_self insertE subsetD)

lemma admitted_two:
  assumes sub: "session_uses s' \<subseteq> {x, x'} \<union> session_uses s"
    and "\<And>y. y \<in> session_uses s \<Longrightarrow> overlap wl x y \<Longrightarrow> admits s x y"
    and "\<And>y. y \<in> session_uses s \<Longrightarrow> overlap wl x' y \<Longrightarrow> admits s x' y"
    and c: "compatible x x'"
  shows "admitted wl s s'"
proof -
  have new: "z = x \<or> z = x'" if "z \<in> session_uses s' - session_uses s" for z using that sub by blast
  have "compatible x' x" using c by (simp add: compatible_sym)
  with assms(2,3) c new show ?thesis unfolding admitted_def by (metis DiffE compatible_self)
qed

lemma session_uses_cases:
  assumes "y \<in> session_uses s"
  obtains (claim) p c where "(p, c) \<in> set (br_session_claims s)"
      "y = (sc_owner c, if sc_migration c then Migrating else Running, sc_id c)"
  | (export) w i where "(w, i) \<in> set (br_export_claims s)" "y = (Some w, Exporting, i)"
  | (delete) w i where "(w, i) \<in> set (br_delete_claims s)" "y = (Some w, Deleting, i)"
  using assms unfolding session_uses_def claim_use_def by fastforce

lemma matches_db:
  assumes "sessionMatchesLocked wl w i s = (r, s')" shows "\<exists>d. s' = s\<lparr>br_db := d\<rparr>"
proof -
  obtain b e s1 where st: "migrationSessionStatusLocked wl w i s = ((b, e), s1)" by (metis prod.exhaust)
  have "s = s\<lparr>br_db := br_db s\<rparr>" by simp
  moreover have "s' = s \<or> s' = s1" using assms st by (auto simp: sessionMatchesLocked_def split: if_splits)
  ultimately show ?thesis using migration_status(1) [OF st] by metis
qed

lemma in_use_db:
  assumes "sessionInUseByOther wl w i s = (r, s')" shows "\<exists>d. s' = s\<lparr>br_db := d\<rparr>"
  using assms by (auto simp: sessionInUseByOther_def dest: matches_db split: prod.splits)

lemma not_in_use:
  assumes "sessionInUseByOther wl w i s = (False, s')"
  shows "y \<in> session_uses s \<Longrightarrow> sessionIDsMatch wl i (snd (snd y)) \<Longrightarrow>
      fst y = w \<and> fst (snd y) \<noteq> Deleting \<and> (i \<noteq> [] \<longrightarrow> fst (snd y) \<noteq> Migrating)"
proof -
  have none: "\<not> list_ex (\<lambda>(p, c). sc_owner c \<noteq> w \<and> sessionIDsMatch wl (sc_id c) i) (br_session_claims s)"
    and "\<exists>e. migrationSessionStatusLocked wl w i s = ((False, e), s')"
    and free: "\<not> exportMatchesLocked wl w i s'" "\<not> deleteMatchesLocked wl i s'"
    using assms by (auto simp: sessionInUseByOther_def sessionMatchesLocked_def split: if_splits prod.splits)
  then obtain e where st: "migrationSessionStatusLocked wl w i s = ((False, e), s')" by blast
  then obtain d where s': "s' = s\<lparr>br_db := d\<rparr>" using migration_status(1) by blast
  assume y: "y \<in> session_uses s" and m: "sessionIDsMatch wl i (snd (snd y))"
  from y show "fst y = w \<and> fst (snd y) \<noteq> Deleting \<and> (i \<noteq> [] \<longrightarrow> fst (snd y) \<noteq> Migrating)"
  proof (cases rule: session_uses_cases)
    case (claim p c)
    with m none migration_status(2) [OF st] show ?thesis by (auto simp: list_ex_iff match_sym)
  next
    case (export w i)
    with m free s' show ?thesis by (auto simp: exportMatchesLocked_def list_ex_iff match_sym)
  next
    case (delete w i)
    with m free s' show ?thesis by (auto simp: deleteMatchesLocked_def list_ex_iff match_sym)
  qed
qed

lemma admits_running:
  assumes "fst y = w" and "fst (snd y) \<noteq> Deleting" shows "admits s (w, Running, i) y"
  using assms by (cases "fst (snd y)") (auto simp: admits_def compatible_def)

lemma uses_put_claim:
  "claim_use ` set (put_entry path c xs) \<subseteq> insert (claim_use (path, c)) (claim_use ` set xs)"
  by (auto simp: put_entry_def)

lemma on_worker_tables [simp]:
  "br_session_claims (on_worker w f s) = br_session_claims s" "br_export_claims (on_worker w f s) = br_export_claims s"
  "br_delete_claims (on_worker w f s) = br_delete_claims s" "br_db (on_worker w f s) = br_db s"
  "br_bot (on_worker w f s) = br_bot s"
  by (simp_all add: on_worker_def)

lemma own_claim_tables [simp]:
  "br_session_claims (own_claim p w i s) = br_session_claims s" "br_export_claims (own_claim p w i s) = br_export_claims s"
  "br_delete_claims (own_claim p w i s) = br_delete_claims s"
  by (simp_all add: own_claim_def)

lemma restored_tables [simp]:
  "br_session_claims (restored w p i s) = br_session_claims s" "br_export_claims (restored w p i s) = br_export_claims s"
  "br_delete_claims (restored w p i s) = br_delete_claims s"
  by (simp_all add: restored_def)

lemma distinct_entries [simp]:
  "distinct (map fst xs) \<Longrightarrow> distinct (map fst (filter P xs))"
  "distinct (map fst xs) \<Longrightarrow> distinct (map fst (put_entry k v xs))"
  "distinct (map fst xs) \<Longrightarrow> distinct (map fst (drop_entry k xs))"
  by (auto simp: put_entry_def drop_entry_def distinct_map_filter)

text \<open>What every critical section does.\<close>

definition sound :: "(string \<Rightarrow> string) \<Rightarrow> bridge \<Rightarrow> bridge \<Rightarrow> bool" where
  "sound wl s s' \<longleftrightarrow> (tables_ok s \<and> exclusive wl s \<longrightarrow> admitted wl s s' \<and> tables_ok s')"

lemma sound_same: "same_tables s s' \<Longrightarrow> sound wl s s'"
  using same_tables_uses [of s s'] by (simp add: sound_def admitted_def tables_ok_def same_tables_def)

definition map_tables :: "bridge \<Rightarrow> bool" where
  "map_tables s \<longleftrightarrow> distinct (map fst (br_session_claims s)) \<and> distinct (map fst (br_export_claims s))
     \<and> distinct (map fst (br_delete_claims s))"

lemma sound_smaller:
  assumes "map_tables s \<Longrightarrow> map_tables s'" and "session_uses s' \<subseteq> session_uses s"
  shows "sound wl s s'"
  using assms admitted_smaller [OF assms(2)] by (auto simp: sound_def tables_ok_def map_tables_def)

lemma sound_one:
  assumes "map_tables s \<Longrightarrow> map_tables s'" and sub: "session_uses s' \<subseteq> insert x (session_uses s)"
    and adm: "\<And>y. tables_ok s \<Longrightarrow> exclusive wl s \<Longrightarrow> y \<in> session_uses s \<Longrightarrow> overlap wl x y \<Longrightarrow> admits s x y"
    and "fst (snd x) = Migrating \<Longrightarrow> valid_session_id (snd (snd x))"
  shows "sound wl s s'"
proof -
  have "tables_ok s \<Longrightarrow> tables_ok s'" using assms(1,4) subsetD [OF sub] by (auto simp: tables_ok_def map_tables_def)
  moreover have "tables_ok s \<Longrightarrow> exclusive wl s \<Longrightarrow> admitted wl s s'" using sub adm by (rule admitted_one)
  ultimately show ?thesis by (simp add: sound_def)
qed

lemma sound_two:
  assumes "map_tables s \<Longrightarrow> map_tables s'" and sub: "session_uses s' \<subseteq> {x, x'} \<union> session_uses s"
    and adm: "\<And>y. y \<in> session_uses s \<Longrightarrow> overlap wl x y \<Longrightarrow> admits s x y"
      "\<And>y. y \<in> session_uses s \<Longrightarrow> overlap wl x' y \<Longrightarrow> admits s x' y"
    and "compatible x x'" and valid: "valid_session_id (snd (snd x))" "valid_session_id (snd (snd x'))"
  shows "sound wl s s'"
proof -
  have "tables_ok s \<Longrightarrow> tables_ok s'" using assms(1) valid subsetD [OF sub] by (auto simp: tables_ok_def map_tables_def)
  moreover have "admitted wl s s'" using sub adm assms(5) by (rule admitted_two)
  ultimately show ?thesis by (simp add: sound_def)
qed

section \<open>Claims\<close>

lemma claim_sound:
  assumes "claimSession wl w path i s = (r, s')" shows "sound wl s s'"
proof -
  obtain used s1 where u: "sessionInUseByOther wl (Some w) i s = (used, s1)" by force
  show ?thesis
  proof (cases r)
    case False
    with assms u have "s' = s1" by (auto simp: claimSession_def split: if_splits)
    with in_use_db [OF u] sound_same show ?thesis by auto
  next
    case True
    with assms u have s': "\<not> used" "s' = own_claim path w i
      (s1\<lparr>br_session_claims := put_entry path \<lparr>sc_owner = Some w, sc_id = i, sc_migration = False\<rparr>
         (filter (\<lambda>(p, c). sc_owner c \<noteq> Some w) (br_session_claims s1))\<rparr>)"
      by (auto simp: claimSession_def split: if_splits)
    obtain d where s1: "s1 = s\<lparr>br_db := d\<rparr>" using in_use_db [OF u] by blast
    show ?thesis
    proof (rule sound_one [where x = "(Some w, Running, i)"])
      show "map_tables s'" if "map_tables s" using that s1 s'(2) by (simp add: map_tables_def)
      show "session_uses s' \<subseteq> insert (Some w, Running, i) (session_uses s)"
        using s1 s'(2) by (auto simp: session_uses_def put_entry_def claim_use_def)
      show "admits s (Some w, Running, i) y" if "y \<in> session_uses s" "overlap wl (Some w, Running, i) y" for y
        using that not_in_use [of wl "Some w" i s s1 y] u s'(1) by (auto simp: overlap_def intro!: admits_running)
    qed simp
  qed
qed

lemma claim_persisted_sound: "claimPersistedSession wl w s = (r, s') \<Longrightarrow> sound wl s s'"
  using claim_sound sound_same [of s s] by (auto simp: claimPersistedSession_def Let_def same_tables_def split: if_splits)

lemma restore_at_sound:
  assumes "restore_at w p i s = (r, s')"
    and free: "\<And>y. y \<in> session_uses s \<Longrightarrow> overlap wl (Some w, Running, i) y \<Longrightarrow> fst y = Some w \<and> fst (snd y) \<noteq> Deleting"
  shows "sound wl s s'"
proof (cases "same_tables s s'")
  case False
  with assms(1) obtain path where s': "s' = restored w path i (s\<lparr>br_session_claims :=
      put_entry path \<lparr>sc_owner = Some w, sc_id = i, sc_migration = False\<rparr> (br_session_claims s)\<rparr>)"
    by (auto simp: restore_at_def same_tables_def Let_def split: if_splits)
  show ?thesis
  proof (rule sound_one [where x = "(Some w, Running, i)"])
    show "map_tables s'" if "map_tables s" using that s' by (simp add: map_tables_def)
    show "session_uses s' \<subseteq> insert (Some w, Running, i) (session_uses s)"
      using s' by (auto simp: session_uses_def put_entry_def claim_use_def)
    show "admits s (Some w, Running, i) y" if "y \<in> session_uses s" "overlap wl (Some w, Running, i) y" for y
      using free [OF that] by (intro admits_running) auto
  qed simp
qed (rule sound_same)

lemma sound_db: "sound wl (s\<lparr>br_db := d\<rparr>) s' = sound wl s s'"
  by (auto simp: sound_def tables_ok_def admitted_def session_uses_def admits_def exclusive_def)

lemma restore_claim_cases:
  assumes "restore_claim visit w i s = (r, s')"
  shows "s' = s \<or> (\<exists>p. restore_at w p i s = (r, s'))"
  using assms by (auto simp: restore_claim_def split: option.splits if_splits)

lemma restore_cases:
  assumes "beginSessionRestore wl visit w i s = (r, s')" and m: "sessionMatchesLocked wl (Some w) i s = (held, s1)"
  shows "(\<exists>d. s' = s\<lparr>br_db := d\<rparr>) \<or>
    \<not> held \<and> \<not> exportMatchesLocked wl (Some w) i s1 \<and> \<not> deleteMatchesLocked wl i s \<and>
      (\<exists>d p r'. restore_at w p i (s\<lparr>br_db := d\<rparr>) = (r', s'))"
proof -
  obtain d where s1: "s1 = s\<lparr>br_db := d\<rparr>" using matches_db [OF m] by blast
  have id: "\<exists>d. s = s\<lparr>br_db := d\<rparr>" by (rule exI [of _ "br_db s"]) simp
  show ?thesis
  proof (cases "\<not> valid_session_id i \<or> deleteMatchesLocked wl i s \<or> held \<or> exportMatchesLocked wl (Some w) i s1")
    case True
    then show ?thesis using assms s1 id by (auto simp: beginSessionRestore_def split: if_splits)
  next
    case granted: False
    show ?thesis
    proof (cases d)
      case None
      with granted show ?thesis using assms s1 by (auto simp: beginSessionRestore_def)
    next
      case (Some dw)
      obtain q s2 where q: "with_store dw (Binding (br_bot s) (wk_chat (br_workers s w)) (wk_thread (br_workers s w))) s1 = (q, s2)"
        by force
      then obtain d' where s2: "s2 = s\<lparr>br_db := Some d'\<rparr>" using with_store_tables s1 by fastforce
      have "s' = s2 \<or> (\<exists>r'. restore_claim visit w i s2 = (r', s'))"
        using assms granted Some q s1
        by (auto simp: beginSessionRestore_def Let_def split: sum.splits if_splits prod.splits)
      with s2 granted restore_claim_cases show ?thesis by blast
    qed
  qed
qed

lemma restore_sound:
  assumes "beginSessionRestore wl visit w i s = (r, s')" shows "sound wl s s'"
proof -
  obtain held s1 where m: "sessionMatchesLocked wl (Some w) i s = (held, s1)" by force
  obtain d where s1: "s1 = s\<lparr>br_db := d\<rparr>" using matches_db [OF m] by blast
  show ?thesis
    using restore_cases [OF assms m]
  proof (elim disjE conjE exE)
    fix d' p r'
    assume free: "\<not> held" "\<not> exportMatchesLocked wl (Some w) i s1" "\<not> deleteMatchesLocked wl i s"
      and at: "restore_at w p i (s\<lparr>br_db := d'\<rparr>) = (r', s')"
    have use: "sessionInUseByOther wl (Some w) i s = (False, s1)"
      using free m s1 by (simp add: sessionInUseByOther_def deleteMatchesLocked_def)
    have "sound wl (s\<lparr>br_db := d'\<rparr>) s'"
      by (rule restore_at_sound [OF at]) (use not_in_use [OF use] in \<open>auto simp: overlap_def session_uses_def\<close>)
    then show ?thesis by (simp add: sound_db)
  qed (simp add: sound_same)
qed

section \<open>Releases\<close>

lemma release_sound: "sound wl s (releaseSession w s)"
  by (rule sound_smaller) (auto simp: releaseSession_def map_tables_def session_uses_def claim_use_def)

lemma release_export_sound: "sound wl s (releaseExport w s)"
  by (rule sound_smaller) (auto simp: releaseExport_def map_tables_def session_uses_def drop_entry_def)

lemma release_delete_sound: "sound wl s (releaseDelete w s)"
  by (rule sound_smaller) (auto simp: releaseDelete_def map_tables_def session_uses_def drop_entry_def)

lemma forget_deleted_sound: "sound wl s (forget_deleted wl i s)"
  by (rule sound_smaller) (auto simp: forget_deleted_def map_tables_def session_uses_def)

section \<open>Exports and deletions\<close>

lemma export_sound:
  assumes r: "reserveExport wl w i s = (r, s')" and i: "i \<noteq> []" shows "sound wl s s'"
proof -
  obtain used s1 where u: "sessionInUseByOther wl (Some w) i s = (used, s1)" by force
  obtain d where s1: "s1 = s\<lparr>br_db := d\<rparr>" using in_use_db [OF u] by blast
  show ?thesis
  proof (cases r)
    case False
    with r u s1 have "same_tables s s'" by (auto simp: reserveExport_def split: if_splits)
    then show ?thesis by (rule sound_same)
  next
    case True
    with r u have s': "\<not> used" "s' = s1\<lparr>br_export_claims := put_entry w i (br_export_claims s1)\<rparr>"
      by (auto simp: reserveExport_def split: if_splits)
    show ?thesis
    proof (rule sound_one [where x = "(Some w, Exporting, i)"])
      show "map_tables s'" if "map_tables s" using that s1 s'(2) by (simp add: map_tables_def)
      show "session_uses s' \<subseteq> insert (Some w, Exporting, i) (session_uses s)"
        using s1 s'(2) by (auto simp: session_uses_def put_entry_def)
      show "admits s (Some w, Exporting, i) y" if "y \<in> session_uses s" "overlap wl (Some w, Exporting, i) y" for y
        using that not_in_use [of wl "Some w" i s s1 y] u s'(1) i
        by (cases "fst (snd y)") (auto simp: overlap_def admits_def compatible_def)
    qed simp
  qed
qed

lemma delete_status:
  assumes st: "sessionDeleteStatusLocked wl w i s = ((False, e), s')" and i: "i \<noteq> []"
    and y: "y \<in> session_uses s" and m: "sessionIDsMatch wl i (snd (snd y))"
  shows "fst (snd y) = Running \<and> (\<forall>v. fst y = Some v \<longrightarrow> \<not> wk_active (br_workers s v) \<and> \<not> wk_starting (br_workers s v))"
proof -
  obtain b e' s1 where mig: "migrationSessionStatusLocked wl w i s = ((b, e'), s1)" by (metis prod.exhaust)
  have b: "\<not> b"
    and idle: "\<And>p c. (p, c) \<in> set (br_session_claims s) \<Longrightarrow> sessionIDsMatch wl (sc_id c) i \<Longrightarrow> \<not> running_owner s c"
    and free: "\<And>v j. (v, j) \<in> set (br_export_claims s) \<union> set (br_delete_claims s) \<Longrightarrow> \<not> sessionIDsMatch wl j i"
    using st mig by (auto simp: sessionDeleteStatusLocked_def Let_def filter_empty_conv)
  from y show ?thesis
  proof (cases rule: session_uses_cases)
    case (claim p c)
    with m idle [of p c] migration_status(2) [OF mig b i] show ?thesis
      by (auto simp: match_sym running_owner_def split: option.splits)
  next
    case (export v j)
    with m free [of v j] show ?thesis by (auto simp: match_sym)
  next
    case (delete v j)
    with m free [of v j] show ?thesis by (auto simp: match_sym)
  qed
qed

lemma delete_status_db: "sessionDeleteStatusLocked wl w i s = (r, s') \<Longrightarrow> \<exists>d. s' = s\<lparr>br_db := d\<rparr>"
  by (auto simp: sessionDeleteStatusLocked_def Let_def dest: migration_status(1) split: prod.splits)

lemma delete_sound:
  assumes r: "reserveDelete wl w i s = (r, s')" and i: "i \<noteq> []" shows "sound wl s s'"
proof -
  obtain busy e s1 where u: "sessionDeleteStatusLocked wl None i s = ((busy, e), s1)" by (metis prod.exhaust)
  obtain d where s1: "s1 = s\<lparr>br_db := d\<rparr>" using delete_status_db [OF u] by blast
  show ?thesis
  proof (cases r)
    case False
    with r u s1 have "same_tables s s'" by (auto simp: reserveDelete_def split: if_splits)
    then show ?thesis by (rule sound_same)
  next
    case True
    with r u have s': "\<not> busy" "s' = s1\<lparr>br_delete_claims := put_entry w i (br_delete_claims s1)\<rparr>"
      by (auto simp: reserveDelete_def split: if_splits)
    show ?thesis
    proof (rule sound_one [where x = "(Some w, Deleting, i)"])
      show "map_tables s'" if "map_tables s" using that s1 s'(2) by (simp add: map_tables_def)
      show "session_uses s' \<subseteq> insert (Some w, Deleting, i) (session_uses s)"
        using s1 s'(2) by (auto simp: session_uses_def put_entry_def)
      show "admits s (Some w, Deleting, i) y" if "y \<in> session_uses s" "overlap wl (Some w, Deleting, i) y" for y
        using that delete_status [of wl None i s e s1 y] u s'(1) i by (auto simp: overlap_def admits_def compatible_def)
    qed simp
  qed
qed

section \<open>Migrations\<close>

lemma available_use:
  assumes "available wl w path i s" and "path \<noteq> []" and "y \<in> session_uses s" and "sessionIDsMatch wl i (snd (snd y))"
  shows "admits s (Some w, Migrating, i) y"
  using assms(3)
proof (cases rule: session_uses_cases)
  case (claim p c)
  with assms show ?thesis by (auto simp: available_def list_ex_iff match_sym admits_def compatible_def)
next
  case (export v j)
  with assms show ?thesis by (auto simp: available_def exportMatchesLocked_def list_ex_iff match_sym)
next
  case (delete v j)
  with assms show ?thesis by (auto simp: available_def deleteMatchesLocked_def list_ex_iff match_sym)
qed

text \<open>What the check established for the identities that are then installed.\<close>

lemma check_ok:
  assumes "checkMigrationClaimsLocked wl w m s = (Inr u, s')"
  shows "\<exists>d. s' = s\<lparr>br_db := d\<rparr>" and "\<not> invalid_identities wl m"
    and "available wl w (b_session (m_source m)) (b_session_id (m_source m)) s"
    and "available wl w (m_candidate_file m) (m_candidate_id m) s"
  using assms by (auto simp: checkMigrationClaimsLocked_def dest!: with_store_tables
      intro: exI [of _ "br_db s"] split: if_splits option.splits prod.splits sum.splits)

lemma check_db: "checkMigrationClaimsLocked wl w m s = (r, s') \<Longrightarrow> \<exists>d. s' = s\<lparr>br_db := d\<rparr>"
  by (auto simp: checkMigrationClaimsLocked_def dest!: with_store_tables
      intro: exI [of _ "br_db s"] split: if_splits option.splits prod.splits sum.splits)

lemma check_world:
  assumes "checkMigrationClaimsLocked wl w m s = (r, s')" and "br_db s = Some d"
  shows "\<exists>d'. s' = s\<lparr>br_db := Some d'\<rparr> \<and> db d' = db d"
proof -
  have "s = s\<lparr>br_db := Some d\<rparr>" using assms(2) by simp
  moreover have "db d' = db d" if "PendingMigrations (br_bot s) d = (x, d')" for x d'
    using that read_onlyD [OF read_only_query] unfolding PendingMigrations_def by blast
  ultimately show ?thesis using assms
    by (auto simp: checkMigrationClaimsLocked_def with_store_def intro: exI [of _ d]
        split: if_splits prod.splits sum.splits)
qed

lemma install_sound:
  assumes source: "b_session (m_source m) \<noteq> []" "valid_session_id (b_session_id (m_source m))"
      "available wl w (b_session (m_source m)) (b_session_id (m_source m)) s"
    and candidate: "m_candidate_file m \<noteq> [] \<Longrightarrow> valid_session_id (m_candidate_id m)
      \<and> available wl w (m_candidate_file m) (m_candidate_id m) s"
  shows "sound wl s (installMigrationClaimsLocked w m s)"
proof -
  let ?x = "(Some w, Migrating, b_session_id (m_source m))"
  let ?x' = "if m_candidate_file m = [] then ?x else (Some w, Migrating, m_candidate_id m)"
  show ?thesis
  proof (rule sound_two [where x = ?x and x' = ?x'])
    show "map_tables (installMigrationClaimsLocked w m s)" if "map_tables s"
      using that by (simp add: installMigrationClaimsLocked_def map_tables_def Let_def)
    show "session_uses (installMigrationClaimsLocked w m s) \<subseteq> {?x, ?x'} \<union> session_uses s"
      by (auto simp: installMigrationClaimsLocked_def Let_def session_uses_def put_entry_def claim_use_def)
    show "admits s ?x y" if "y \<in> session_uses s" "overlap wl ?x y" for y
      using available_use [OF source(3,1)] that by (simp add: overlap_def)
    show "admits s ?x' y" if "y \<in> session_uses s" "overlap wl ?x' y" for y
      using available_use [OF source(3,1)] available_use [of wl w "m_candidate_file m" "m_candidate_id m" s] candidate that
      by (auto simp: overlap_def split: if_splits)
    show "compatible ?x ?x'" by (simp add: compatible_def)
    show "valid_session_id (snd (snd ?x))" "valid_session_id (snd (snd ?x'))" using source candidate by auto
  qed
qed

lemma checked_install_sound:
  assumes "checkMigrationClaimsLocked wl w m s = (Inr u, s')"
    and "m_source m' = m_source m" "m_candidate_file m' = m_candidate_file m" "m_candidate_id m' = m_candidate_id m"
  shows "sound wl s (installMigrationClaimsLocked w m' s)"
  by (rule install_sound) (use check_ok [OF assms(1)] assms(2-) in \<open>auto simp: invalid_identities_def Let_def\<close>)

lemma sound_after: "sound wl s s' \<Longrightarrow> same_tables s' s'' \<Longrightarrow> sound wl s s''"
  using same_tables_uses [of s' s'']
  by (simp add: sound_def tables_ok_def admitted_def same_tables_def)

lemma reserve_migration_sound:
  assumes "reserveMigrationClaimsLocked wl w m s = (r, s')" shows "sound wl s s'"
proof -
  obtain q s1 where c: "checkMigrationClaimsLocked wl w m s = (q, s1)" by force
  obtain d where s1: "s1 = s\<lparr>br_db := d\<rparr>" using check_db [OF c] by blast
  show ?thesis
  proof (cases q)
    case (Inl e)
    with assms c s1 show ?thesis by (auto simp: reserveMigrationClaimsLocked_def intro: sound_same)
  next
    case (Inr u)
    have "sound wl s (installMigrationClaimsLocked w m s)" by (rule checked_install_sound) (use c Inr in auto)
    moreover have "same_tables (installMigrationClaimsLocked w m s) s'"
      using assms c s1 Inr by (auto simp: reserveMigrationClaimsLocked_def same_tables_def installMigrationClaimsLocked_def Let_def)
    ultimately show ?thesis by (rule sound_after)
  qed
qed

lemma candidate_sound: "reserveMigrationCandidate wl w path i s = (r, s') \<Longrightarrow> sound wl s s'"
  using sound_same [of s s]
  by (auto simp: reserveMigrationCandidate_def same_tables_def intro: reserve_migration_sound split: option.splits if_splits)

lemma restore_migration_sound: "restoreMigrationClaims wl w s = (r, s') \<Longrightarrow> sound wl s s'"
  using sound_same [of s s]
  by (auto simp: restoreMigrationClaims_def same_tables_def intro: reserve_migration_sound split: option.splits if_splits)

lemma find_update_rows:
  assumes "\<And>r. q (f r) = q r"
  shows "find q (update_rows p f rows) = map_option (\<lambda>r. if p r then f r else r) (find q rows)"
  using assms by (induction rows) (auto simp: update_rows_def)

lemma stored_candidate:
  assumes m: "find_migration conv (db d) = Some m" and m2: "m_id m2 = m_id m" "m_conv m2 = m_conv m"
    and up: "UpdateMigration now m2 phase d = (Inr u, d1)" and find: "find_migration conv (db d1) = Some m'"
  shows "m_source m' = m_source m \<and> m_candidate_file m' = m_candidate_file m2 \<and> m_candidate_id m' = m_candidate_id m2"
proof -
  obtain current where "find_migration (m_conv m2) (db d) = Some current"
    and rows: "migrations (db d1) = migrations (write_migration (recorded current m2) (db d))"
    using UpdateMigration_ok [OF up] by (auto simp: fail_submitted_def update_inbox_def split: if_splits)
  have conv: "m_conv m = conv" using m find_SomeD unfolding find_migration_def by fastforce
  have same: "m_id (recorded current m2) = m_id m" "m_candidate_file (recorded current m2) = m_candidate_file m2"
    "m_candidate_id (recorded current m2) = m_candidate_id m2"
    using m2 by (auto simp: recorded_def)
  show ?thesis using find m conv same
    by (auto simp: find_migration_def rows write_migration_def find_update_rows m_conv_def)
qed

lemma store_observation_sound:
  assumes o: "store_observation now w mid path i m2 d s = (r, s')"
    and m: "find_migration (br_bot s, wk_chat (br_workers s w), wk_thread (br_workers s w)) (db d) = Some m"
    and m2: "m2 = m \<or> m2 = m\<lparr>m_candidate_file := path, m_candidate_id := i\<rparr>"
    and check: "checkMigrationClaimsLocked wl w m2 s0 = (Inr u, s1)" and "same_tables s0 s" "br_workers s0 = br_workers s"
  shows "sound wl s0 s'"
proof -
  obtain q d' where q: "bind (UpdateMigration now m2 (m_phase m2)) (\<lambda>_.
              Migration (br_bot s) (wk_chat (br_workers s w)) (wk_thread (br_workers s w))) d = (q, d')" by force
  show ?thesis
  proof (cases "same_tables s0 s'")
    case False
    with o q assms(5) obtain m' where m': "q = Inr m'" "s' = installMigrationClaimsLocked w m' (s\<lparr>br_db := Some d'\<rparr>)"
      by (auto simp: store_observation_def with_store_def same_tables_def split: sum.splits if_splits)
    with q obtain u d1 where "UpdateMigration now m2 (m_phase m2) d = (Inr u, d1)"
      "find_migration (br_bot s, wk_chat (br_workers s w), wk_thread (br_workers s w)) (db d1) = Some m'"
      by (auto simp: bind_ok Migration_def query_row_ok)
    moreover have "m_id m2 = m_id m" "m_conv m2 = m_conv m" "m_source m2 = m_source m" using m2 by (auto simp: m_conv_def)
    ultimately have same: "m_source m' = m_source m2" "m_candidate_file m' = m_candidate_file m2"
      "m_candidate_id m' = m_candidate_id m2" using stored_candidate [OF m, of m2] by auto
    have "sound wl s0 (installMigrationClaimsLocked w m' s0)" by (rule checked_install_sound [OF check same])
    moreover have "same_tables (installMigrationClaimsLocked w m' s0) s'"
      using m'(2) assms(5) by (simp add: same_tables_def installMigrationClaimsLocked_def Let_def)
    ultimately show ?thesis by (rule sound_after)
  qed (rule sound_same)
qed

lemma Migration_world:
  assumes "Migration b c t d = (r, d')" shows "db d' = db d"
  using assms read_onlyD [OF read_only_query_row] unfolding Migration_def by blast

lemma observe_sound:
  assumes o: "observeMigrationCandidate wl now w mid path i s = (r, s')" shows "sound wl s s'"
proof (cases "br_db s")
  case None
  with o show ?thesis by (auto simp: observeMigrationCandidate_def same_tables_def intro: sound_same)
next
  case (Some d)
  let ?M = "Migration (br_bot s) (wk_chat (br_workers s w)) (wk_thread (br_workers s w))"
  obtain q d1 where q: "?M d = (q, d1)" by force
  show ?thesis
  proof (cases "same_tables s s'")
    case False
    with o q Some obtain m where m: "q = Inr m" by (auto simp: observeMigrationCandidate_def with_store_def split: sum.splits if_splits)
    define m2 where "m2 = (if m_candidate_id m = [] then m\<lparr>m_candidate_file := path, m_candidate_id := i\<rparr> else m)"
    obtain c s2 where c: "checkMigrationClaimsLocked wl w m2 (s\<lparr>br_db := Some d1\<rparr>) = (c, s2)" by force
    then obtain d2 where s2: "s2 = s\<lparr>br_db := Some d2\<rparr>" "db d2 = db d1"
      using check_world [OF c, of d1] by auto
    have "c = Inr () \<and> store_observation now w mid path i m2 d2 s2 = (r, s')"
      using o q Some m c s2 False unfolding m2_def
      by (auto simp: observeMigrationCandidate_def with_store_def same_tables_def Let_def split: sum.splits if_splits)
    then have st: "store_observation now w mid path i m2 d2 s2 = (r, s')" and c': "c = Inr ()" by auto
    have "db d2 = db d" using s2 Migration_world [OF q] by simp
    moreover have "find_migration (br_bot s, wk_chat (br_workers s w), wk_thread (br_workers s w)) (db d) = Some m"
      using q m Migration_world [OF q] by (simp add: Migration_def query_row_ok)
    ultimately have "find_migration (br_bot s2, wk_chat (br_workers s2 w), wk_thread (br_workers s2 w)) (db d2) = Some m"
      using s2 by simp
    from store_observation_sound [OF st this _ c [unfolded c']] have "sound wl (s\<lparr>br_db := Some d1\<rparr>) s'"
      using s2 by (simp add: m2_def same_tables_def)
    then show ?thesis by (simp add: sound_db)
  qed (rule sound_same)
qed

lemma finish_sound:
  assumes f: "finishMigrationClaims w path i s = (r, s')" shows "sound wl s s'"
proof (cases "same_tables s s'")
  case False
  with f obtain c where c: "map_of (br_session_claims s) path = Some c" "sc_owner c = Some w" "sc_migration c"
      "equal_fold_ascii (sc_id c) i"
    and s': "s' = own_claim path w i (s\<lparr>br_session_claims := put_entry path \<lparr>sc_owner = Some w, sc_id = i, sc_migration = False\<rparr>
              (filter (\<lambda>(p, c). sc_owner c \<noteq> Some w) (br_session_claims s))\<rparr>)"
    by (auto simp: finishMigrationClaims_def same_tables_def split: option.splits if_splits)
  have old: "(Some w, Migrating, sc_id c) \<in> session_uses s"
    using c map_of_SomeD [OF c(1)] by (force simp: session_uses_def claim_use_def)
  show ?thesis
  proof (rule sound_one [where x = "(Some w, Running, i)"])
    show "map_tables s'" if "map_tables s" using that s' by (simp add: map_tables_def)
    show "session_uses s' \<subseteq> insert (Some w, Running, i) (session_uses s)"
      using s' by (auto simp: session_uses_def put_entry_def claim_use_def)
    fix y assume ok: "tables_ok s" "exclusive wl s" and y: "y \<in> session_uses s" "overlap wl (Some w, Running, i) y"
    have "valid_session_id (sc_id c)" using ok old by (auto simp: tables_ok_def)
    then have "overlap wl (Some w, Migrating, sc_id c) y"
      using y(2) match_lower [OF fold_valid [OF _ c(4)]] by (simp add: overlap_def)
    then have "compatible (Some w, Migrating, sc_id c) y" using ok old y(1) unfolding exclusive_def by blast
    then show "admits s (Some w, Running, i) y"
      by (intro admits_running) (cases "fst (snd y)"; simp add: compatible_def)+
  qed simp
qed (rule sound_same)

section \<open>Every step\<close>

lemma step_sound: "session_step wl s s' \<Longrightarrow> sound wl s s'"
  by (induction rule: session_step.induct)
    (auto intro: claim_sound claim_persisted_sound restore_sound release_sound export_sound release_export_sound
      delete_sound release_delete_sound forget_deleted_sound candidate_sound restore_migration_sound observe_sound
      finish_sound sound_same dest: valid_nonempty)

lemma reachable_ok: "session_reachable wl s \<Longrightarrow> tables_ok s \<and> exclusive wl s"
proof (induction rule: session_reachable.induct)
  case (start s)
  then show ?case by (simp add: tables_ok_def exclusive_def session_uses_def)
next
  case (step s s')
  then show ?case using step_sound [of wl s s'] admitted_exclusive by (auto simp: sound_def)
qed

section \<open>Exclusion\<close>

lemma compatible_owner: "compatible x y \<Longrightarrow> fst x = fst y \<or> {fst (snd x), fst (snd y)} = {Running, Deleting}"
  by (cases "fst (snd x)"; cases "fst (snd y)") (auto simp: compatible_def)

text \<open>C5: Two conversations never run, migrate or export the same session at once. In every state the
  critical sections can reach, in whatever order and with whatever other changes to workers and database in
  between, two uses of sessions whose identifiers match belong to the same conversation; an export and a
  migration of a session exclude each other even there; and a session being deleted is neither exported, nor
  migrated, nor deleted by a second worker. There is one exception to the first part, for any owners: a
  session being deleted may still be in the claim table under a worker that remembers it (a deletion only
  begins while no such worker has a runtime up or starting, which is the next property).\<close>

theorem sessions_exclusive:
  assumes "session_reachable wl s" and "x \<in> session_uses s" and "y \<in> session_uses s"
    and "sessionIDsMatch wl (snd (snd x)) (snd (snd y))"
  shows "compatible x y \<and> (fst x = fst y \<or> {fst (snd x), fst (snd y)} = {Running, Deleting})"
proof -
  have "compatible x y" using reachable_ok [OF assms(1)] assms(2-) by (auto simp: exclusive_def overlap_def)
  then show ?thesis using compatible_owner by blast
qed

text \<open>C6: A use begins only where it is admitted. Whatever a critical section adds to the tables, no use
  of a matching session that was there before excludes it, no session that is being deleted is taken into
  use, and a deletion begins only when no runtime of a worker that remembers the session is up or
  starting.\<close>

theorem uses_begin_admitted:
  assumes "session_reachable wl s" and "session_step wl s s'"
    and "x \<in> session_uses s'" and "x \<notin> session_uses s" and "y \<in> session_uses s"
    and "sessionIDsMatch wl (snd (snd x)) (snd (snd y))"
  shows "admits s x y"
  using step_sound [OF assms(2)] reachable_ok [OF assms(1)] assms(3-)
  by (auto simp: sound_def admitted_def overlap_def)

text \<open>C7: Persistence failures never grant a session. When a claim, an export or a deletion of a session
  is granted, the pending migrations of the bot could be read, and none of them holds the session as its
  source or its candidate.\<close>

theorem grants_fail_closed:
  assumes "claimSession wl w path i s = (True, s') \<or> reserveExport wl w i s = (True, s')
    \<or> reserveDelete wl w i s = (True, s') \<or> beginSessionRestore wl visit w i s = (Some True, s')"
    and "i \<noteq> []" and "br_db s = Some d"
  shows "\<exists>ms d'. PendingMigrations (br_bot s) d = (Inr ms, d') \<and> (\<forall>m \<in> set ms. \<not> migration_holds wl i m)"
proof -
  have "\<exists>o' e s1. migrationSessionStatusLocked wl o' i s = ((False, e), s1)"
    using assms(1)
  proof (elim disjE)
    assume "beginSessionRestore wl visit w i s = (Some True, s')"
    moreover obtain held s1 where m: "sessionMatchesLocked wl (Some w) i s = (held, s1)" by force
    ultimately have "\<not> held" by (auto simp: beginSessionRestore_def split: if_splits)
    with m show ?thesis by (auto simp: sessionMatchesLocked_def split: if_splits prod.splits)
  qed (auto simp: claimSession_def reserveExport_def reserveDelete_def sessionInUseByOther_def sessionMatchesLocked_def
        sessionDeleteStatusLocked_def Let_def split: if_splits prod.splits)
  then obtain o' e s1 where st: "migrationSessionStatusLocked wl o' i s = ((False, e), s1)" by blast
  obtain q d' where q: "PendingMigrations (br_bot s) d = (q, d')" by force
  show ?thesis
  proof (cases q)
    case (Inl err)
    with st q assms(2,3) show ?thesis by (simp add: migrationSessionStatusLocked_def with_store_def Let_def)
  next
    case (Inr ms)
    with st q assms(2,3) show ?thesis
      by (auto simp: migrationSessionStatusLocked_def with_store_def Let_def filter_empty_conv)
  qed
qed

section \<open>Witnesses\<close>

text \<open>One session is migrating; worker 1 claims another one, and worker 2 deletes that one while worker 1
  does not run it.\<close>

definition sample_worker :: worker where
  "sample_worker = \<lparr>wk_chat = 3, wk_thread = 5, wk_binding = sample_binding, wk_migration = None,
     wk_claimed_session = [], wk_session_id = [], wk_starting = False, wk_active = False\<rparr>"

definition sample_bridge :: bridge where
  "sample_bridge = \<lparr>br_bot = 1, br_db = Some (healthy sample_migrating), br_workers = (\<lambda>_. sample_worker),
     br_session_claims = [], br_export_claims = [], br_delete_claims = []\<rparr>"

definition sample_claimed :: bridge where
  "sample_claimed = snd (claimSession (\<lambda>s. s) 1 ''/s/b.jsonl'' ''bbbbbbbb'' sample_bridge)"

definition sample_deleting :: bridge where
  "sample_deleting = snd (reserveDelete (\<lambda>s. s) 2 ''bbbbbbbb'' sample_claimed)"

lemma sample_pending: "PendingMigrations 1 (healthy sample_migrating) = (Inr [sample_migration], healthy sample_migrating)"
  unfolding sample_migrating_eq sample_db_eq
  by (simp add: PendingMigrations_def sql_run select_by_def sample_migration_def sample_binding_def)

lemma sample_apart [simp]: "\<not> migration_holds (\<lambda>s. s) ''bbbbbbbb'' sample_migration"
  by (simp add: migration_holds_def sample_migration_def sample_binding_def sessionIDsMatch_def lower_text_def
      to_lower_def lower_char_def has_prefix_def)

lemma sample_claimed_eq:
  "sample_claimed = sample_bridge\<lparr>br_session_claims := [(''/s/b.jsonl'', \<lparr>sc_owner = Some 1, sc_id = ''bbbbbbbb'', sc_migration = False\<rparr>)],
     br_workers := (\<lambda>_. sample_worker)(1 := sample_worker\<lparr>wk_claimed_session := ''/s/b.jsonl'', wk_session_id := ''bbbbbbbb''\<rparr>)\<rparr>"
  "fst (claimSession (\<lambda>s. s) 1 ''/s/b.jsonl'' ''bbbbbbbb'' sample_bridge)"
  by (simp_all add: sample_claimed_def claimSession_def sessionInUseByOther_def sessionMatchesLocked_def
    migrationSessionStatusLocked_def with_store_def sample_bridge_def sample_pending exportMatchesLocked_def
    deleteMatchesLocked_def put_entry_def own_claim_def on_worker_def)

lemma sample_deleting_eq:
  "sample_deleting = sample_claimed\<lparr>br_delete_claims := [(2, ''bbbbbbbb'')]\<rparr>"
  by (simp add: sample_deleting_def reserveDelete_def sessionDeleteStatusLocked_def
    migrationSessionStatusLocked_def with_store_def sample_claimed_eq sample_bridge_def sample_pending running_owner_def
    put_entry_def sample_worker_def)

lemma sample_claimed_reachable: "session_reachable (\<lambda>s. s) sample_claimed"
  unfolding sample_claimed_def
  by (rule session_reachable.step [OF session_reachable.start session_step.claim [OF prod.collapse [symmetric]]])
    (simp_all add: sample_bridge_def)

lemma sample_delete_step: "session_step (\<lambda>s. s) sample_claimed sample_deleting"
  unfolding sample_deleting_def
  by (rule session_step.delete [OF _ prod.collapse [symmetric]])
    (simp add: valid_session_id_def session_char_def is_digit_char_def has_prefix_def has_suffix_def suffix_to_prefix)

lemma sample_uses:
  "(Some 1, Running, ''bbbbbbbb'') \<in> session_uses sample_claimed"
  "(Some 2, Deleting, ''bbbbbbbb'') \<notin> session_uses sample_claimed"
  "(Some 2, Deleting, ''bbbbbbbb'') \<in> session_uses sample_deleting"
  "(Some 1, Running, ''bbbbbbbb'') \<in> session_uses sample_deleting"
  by (simp_all add: session_uses_def claim_use_def sample_deleting_eq sample_claimed_eq sample_bridge_def)

text \<open>The worker that claimed the session exports it while it runs; another worker may not.\<close>

definition sample_exporting :: bridge where
  "sample_exporting = snd (reserveExport (\<lambda>s. s) 1 ''bbbbbbbb'' sample_claimed)"

lemma sample_exporting_eq:
  "sample_exporting = sample_claimed\<lparr>br_export_claims := [(1, ''bbbbbbbb'')]\<rparr>"
  "\<not> fst (reserveExport (\<lambda>s. s) 2 ''bbbbbbbb'' sample_exporting)"
  by (simp_all add: sample_exporting_def reserveExport_def sessionInUseByOther_def sessionMatchesLocked_def
    migrationSessionStatusLocked_def with_store_def sample_claimed_eq sample_bridge_def sample_pending
    exportMatchesLocked_def deleteMatchesLocked_def put_entry_def)

lemma sample_export_step: "session_step (\<lambda>s. s) sample_claimed sample_exporting"
  unfolding sample_exporting_def by (rule session_step.export [OF _ prod.collapse [symmetric]]) simp

theorem sessions_exclusive_witness:
  "compatible (Some 1, Running, ''bbbbbbbb'') (Some 1, Exporting, ''bbbbbbbb'')
   \<and> (Some 2, Exporting, ''bbbbbbbb'') \<notin> session_uses sample_exporting"
proof
  have reach: "session_reachable (\<lambda>s. s) sample_exporting"
    by (rule session_reachable.step [OF sample_claimed_reachable sample_export_step])
  have uses: "(Some 1, Running, ''bbbbbbbb'') \<in> session_uses sample_exporting"
    "(Some 1, Exporting, ''bbbbbbbb'') \<in> session_uses sample_exporting"
    by (simp_all add: session_uses_def claim_use_def sample_exporting_eq sample_claimed_eq sample_bridge_def)
  from sessions_exclusive [OF reach uses] show "compatible (Some 1, Running, ''bbbbbbbb'') (Some 1, Exporting, ''bbbbbbbb'')"
    by simp
  from sessions_exclusive [OF reach uses(2), of "(Some 2, Exporting, ''bbbbbbbb'')"]
  show "(Some 2, Exporting, ''bbbbbbbb'') \<notin> session_uses sample_exporting" by auto
qed

theorem uses_begin_admitted_witness:
  "admits sample_claimed (Some 2, Deleting, ''bbbbbbbb'') (Some 1, Running, ''bbbbbbbb'')"
  by (rule uses_begin_admitted [OF sample_claimed_reachable sample_delete_step sample_uses(3,2,1)]) simp

theorem grants_fail_closed_witness:
  "\<exists>ms d'. PendingMigrations 1 (healthy sample_migrating) = (Inr ms, d')
    \<and> (\<forall>m \<in> set ms. \<not> migration_holds (\<lambda>s. s) ''bbbbbbbb'' m)"
  using grants_fail_closed [of "\<lambda>s. s" 1 "''/s/b.jsonl''" "''bbbbbbbb''" sample_bridge sample_claimed] sample_claimed_eq(2)
  by (simp add: sample_claimed_def prod_eq_iff) (simp add: sample_bridge_def)

end
