(* ===== verification/BridgeCommands.thy ===== *)
theory BridgeCommands
  imports GoStd
begin

text \<open>
  Slash commands: \<open>internal/bridge/command_helpers.go\<close> and the command table of
  \<open>internal/bridge/bridge.go\<close>. The descriptions come from the message table of \<open>internal/i18n\<close>; a
  command is listed here with the name of its message, and the rendering of a message in the interface
  language is the argument \<open>text\<close>.
\<close>

section \<open>Splitting an invocation\<close>

definition slashCommandWhitespace :: "rune \<Rightarrow> bool" where
  "slashCommandWhitespace r \<longleftrightarrow> r = 65279 \<or> r \<noteq> 133 \<and> is_space r"

text \<open>\<open>strings.IndexFunc\<close> as the prefix before the first rune that satisfies the predicate.\<close>

definition before_func :: "(rune \<Rightarrow> bool) \<Rightarrow> string \<Rightarrow> string" where
  "before_func p s = concat (map snd (takeWhile (\<lambda>(r, b). \<not> p r) (runes s)))"

definition trim_func :: "(rune \<Rightarrow> bool) \<Rightarrow> string \<Rightarrow> string" where
  "trim_func p s = trim_right_func p (trim_left_func p s)"

definition identifier_char :: "char \<Rightarrow> bool" where
  "identifier_char c \<longleftrightarrow> is_lower_char c \<or> is_upper_char c \<or> is_digit_char c \<or> c = CHR ''_''"

definition telegramCommandIdentifier :: "string \<Rightarrow> bool" where
  "telegramCommandIdentifier name \<longleftrightarrow> \<not> (length name = 0 \<or> length name > 32) \<and> list_all identifier_char name"

definition parseSlashCommandToken :: "string \<Rightarrow> string \<Rightarrow> string \<times> bool" where
  "parseSlashCommandToken token botUsername =
     (let name = before_char (CHR ''@'') token;
          addressed = (CHR ''@'' \<in> set token);
          target = drop (Suc (length name)) token
      in if \<not> addressed \<or> length name < 2 \<or> name ! 0 \<noteq> CHR ''/'' \<or> \<not> telegramCommandIdentifier (drop 1 name)
            \<or> length target < 5 \<or> \<not> telegramCommandIdentifier target
         then (token, False)
         else (name, \<not> equal_fold_ascii target botUsername))"

definition parseSlashInvocation :: "string \<Rightarrow> string \<Rightarrow> string \<times> string \<times> bool" where
  "parseSlashInvocation text botUsername =
     (let token = before_func (\<lambda>r. r = 58 \<or> slashCommandWhitespace r) text
      in case parseSlashCommandToken token botUsername of
           (command, foreign) \<Rightarrow> (command, drop (length token) text, foreign))"

definition slashCommandArguments :: "string \<Rightarrow> string" where
  "slashCommandArguments tail =
     (if tail = [] then []
      else trim_func slashCommandWhitespace (if tail ! 0 = CHR '':'' then drop 1 tail else tail))"

section \<open>The command table\<close>

record bot_command =
  bc_command :: string
  bc_description :: string

definition botCommands :: "(string \<times> string) list" where
  "botCommands =
    [(''new'', ''NewSessionNewNameProjectPath''), (''stop'', ''StopTaskClearQueue''),
     (''followup'', ''QueuePromptAfterCurrentTask''), (''queue'', ''ShowCancelPendingBridgeTasks''),
     (''resume'', ''ChoosePinOmpSessionWorkingDirectory''), (''args'', ''SelectOMPArgumentPresetArgsNumber''),
     (''review'', ''RunOmpReviewReviewArguments''), (''close'', ''CloseOmpKeepWorkspaceSession''),
     (''export'', ''ExportOmpSessionExportHtmlSessionId''), (''bindings'', ''ListSavedBindingsBindingsOld''),
     (''status'', ''ShowSessionModelContextSpeedQueue''), (''doctor'', ''RunSafeDiagnostics''),
     (''name'', ''NameOmpSessionNameTitle''), (''model'', ''ChooseCycleRoleModelProviderModel''),
     (''thinking'', ''ChooseThinkingLevelSession''), (''fast'', ''ToggleNativeFastMode''),
     (''compact'', ''CompactContextWhileIdle''), (''handoff'', ''RunNativeHandoffHandoffInstructions''),
     (''migrate'', ''MigrateContextMigrateRecoverOldSessionIdSessionFile''),
     (''lang'', ''Language.CommandDescription''), (''help'', ''CommandHelp'')]"

definition knownBridgeCommand :: "string \<Rightarrow> bool" where
  "knownBridgeCommand command \<longleftrightarrow>
     command = ''/start'' \<or> has_prefix command ''/'' \<and> list_ex (\<lambda>(known, _). drop 1 command = known) botCommands"

definition commandHelp :: "(string \<Rightarrow> string) \<Rightarrow> string \<Rightarrow> string" where
  "commandHelp text version =
     ''omp-telegram '' @ version @ [newline, newline] @
     join [newline] (map (\<lambda>(command, description). ''/'' @ command @ '' - '' @ text description) botCommands)"

definition localizedCommands :: "(string \<Rightarrow> string) \<Rightarrow> bot_command list \<Rightarrow> bot_command list" where
  "localizedCommands text native =
     take 100 (map (\<lambda>(command, description). \<lparr>bc_command = command, bc_description = text description\<rparr>) botCommands
       @ map (\<lambda>c. if bc_description c = [] then c\<lparr>bc_description := text ''OMPNativeCommand''\<rparr> else c) native)"

end
