(* ===== verification/BridgeIngest.thy ===== *)
theory BridgeIngest
  imports BridgeCommands StoreSteps Config
begin

text \<open>
  From Telegram to the workers: the polling loop and the dispatch loop of \<open>Run\<close> in
  \<open>internal/bridge/bridge.go\<close>, and the cancellation of waiting prompts in
  \<open>internal/bridge/recovery.go\<close>.

  The poller stores every update before it asks for the next ones. The dispatcher pages through the
  pending inputs and hands each one to the channel of its conversation's worker; it keeps the inputs it
  handed over in \<open>delivered\<close> until they are no longer pending. The JSON decoder and encoder of updates
  are arguments. Messages keep the fields these loops read.
\<close>

section \<open>Updates\<close>

record message =
  ms_chat :: int64
  ms_chat_type :: string
  ms_thread :: int64
  ms_from :: "int64 option"
  ms_text :: string
  ms_photo :: bool
  ms_document :: bool

record callback =
  cb_from :: int64
  cb_message :: "message option"

record update =
  up_id :: int64
  up_message :: "message option"
  up_callback :: "callback option"

type_synonym update_decoder = "string \<Rightarrow> update option"
type_synonym update_encoder = "update \<Rightarrow> string option"

type_synonym target = "int64 \<times> int64"

definition supportedConversation :: "message option \<Rightarrow> bool" where
  "supportedConversation m = (case m of None \<Rightarrow> False | Some m \<Rightarrow> ms_thread m \<noteq> 0 \<or> ms_chat_type m = ''private'')"

definition updateSender :: "update \<Rightarrow> message option \<times> int64" where
  "updateSender u =
     (case up_callback u of
        Some c \<Rightarrow> (cb_message c, cb_from c)
      | None \<Rightarrow>
          (case up_message u of
             None \<Rightarrow> (None, 0)
           | Some m \<Rightarrow> (Some m, case ms_from m of Some i \<Rightarrow> i | None \<Rightarrow> 0)))"

text \<open>\<open>m == nil || !cfg.Authorized(user, m.Chat.ID)\<close>, negated.\<close>

definition admissible :: "Config \<Rightarrow> update \<Rightarrow> message option" where
  "admissible cfg u =
     (case updateSender u of
        (None, _) \<Rightarrow> None
      | (Some m, user) \<Rightarrow> if Authorized cfg user (ms_chat m) then Some m else None)"

section \<open>Polling\<close>

definition poll_update :: "Config \<Rightarrow> update_encoder \<Rightarrow> int64 \<Rightarrow> update \<Rightarrow> unit store" where
  "poll_update cfg encode now u =
     (case admissible cfg u of
        None \<Rightarrow> AcceptIgnored now (up_id u)
      | Some m \<Rightarrow> (case encode u of None \<Rightarrow> throw (ErrMsg ''json'') | Some raw \<Rightarrow> Accept now (up_id u) raw))"

primrec poll_updates :: "Config \<Rightarrow> update_encoder \<Rightarrow> int64 \<Rightarrow> update list \<Rightarrow> unit store" where
  "poll_updates cfg encode now [] = give ()"
| "poll_updates cfg encode now (u # us) = bind (poll_update cfg encode now u) (\<lambda>_. poll_updates cfg encode now us)"

text \<open>One round of the poller; a failed request leaves the store alone.\<close>

definition poll_round :: "Config \<Rightarrow> update_encoder \<Rightarrow> (int64 \<Rightarrow> update list option) \<Rightarrow> int64 \<Rightarrow> unit store" where
  "poll_round cfg encode getUpdates now =
     bind Offset (\<lambda>offset. case getUpdates offset of None \<Rightarrow> give () | Some us \<Rightarrow> poll_updates cfg encode now us)"

section \<open>Dispatching\<close>

definition pendingInputBatchSize :: int where
  "pendingInputBatchSize = 256"

text \<open>What the dispatcher sees of a worker: the inputs in its channel and whether it is about to exit.\<close>

record input_worker =
  iw_queue :: "int64 list"
  iw_exit :: bool

definition fresh_worker :: input_worker where
  "fresh_worker = \<lparr>iw_queue = [], iw_exit = False\<rparr>"

text \<open>\<open>dp_handed\<close> is a record of what was handed over, for the properties; the loop does not read it.\<close>

record dispatcher =
  dp_world :: "database world"
  dp_delivered :: "int64 list"
  dp_cursor :: int64
  dp_high :: int64
  dp_active :: bool
  dp_workers :: "target \<Rightarrow> input_worker option"
  dp_handed :: "(target \<times> int64) list"

type_synonym 'a dispatch = "dispatcher \<Rightarrow> (store_error + 'a) \<times> dispatcher"

definition in_store :: "'a store \<Rightarrow> 'a dispatch" where
  "in_store m s = (case m (dp_world s) of (r, w) \<Rightarrow> (r, s\<lparr>dp_world := w\<rparr>))"

definition and_next :: "'a dispatch \<Rightarrow> ('a \<Rightarrow> 'b dispatch) \<Rightarrow> 'b dispatch" where
  "and_next m k s = (case m s of (Inl f, s') \<Rightarrow> (Inl f, s') | (Inr x, s') \<Rightarrow> k x s')"

definition return :: "'a \<Rightarrow> 'a dispatch" where
  "return x s = (Inr x, s)"

text \<open>Inputs that are no longer pending leave \<open>delivered\<close>.\<close>

definition forget_settled :: "unit dispatch" where
  "forget_settled s =
     (if dp_delivered s = [] then (Inr (), s)
      else and_next (in_store (PendingIDs (dp_delivered s)))
        (\<lambda>ids s'. (Inr (), s'\<lparr>dp_delivered := filter (\<lambda>i. i \<in> ids) (dp_delivered s')\<rparr>)) s)"

text \<open>A cycle pages through what was stored when it began.\<close>

definition begin_cycle :: "unit dispatch" where
  "begin_cycle s =
     (if dp_active s then (Inr (), s)
      else and_next (in_store Offset)
        (\<lambda>offset s'. (Inr (), s'\<lparr>dp_cursor := -1, dp_high := wrap64 (offset - 1), dp_active := True\<rparr>)) s)"

definition read_batch :: "Input list dispatch" where
  "read_batch s =
     and_next (in_store (PendingAfter (dp_cursor s) (dp_high s) pendingInputBatchSize))
       (\<lambda>inputs s'. (Inr inputs,
          if inputs = [] then s'\<lparr>dp_cursor := -1, dp_high := 0, dp_active := False\<rparr>
          else (let cursor = input_id (last inputs)
                in s'\<lparr>dp_cursor := cursor, dp_active := (if cursor \<ge> dp_high s' then False else dp_active s')\<rparr>))) s"

text \<open>\<open>tryInput\<close>: a non-blocking send on the worker's channel of the given capacity.\<close>

definition tryInput :: "nat \<Rightarrow> int64 \<Rightarrow> input_worker \<Rightarrow> input_worker option" where
  "tryInput capacity i w =
     (if iw_exit w then None
      else if length (iw_queue w) < capacity then Some (w\<lparr>iw_queue := iw_queue w @ [i]\<rparr>) else None)"

definition input_capacity :: "Config \<Rightarrow> nat" where
  "input_capacity cfg = nat (QueueCapacity cfg + 16)"

definition bindingForWorker :: "int64 \<Rightarrow> target \<Rightarrow> binding store" where
  "bindingForWorker botID key w =
     (case Binding botID (fst key) (snd key) w of
        (Inl ErrNoRows, w') \<Rightarrow>
          (Inr \<lparr>b_bot = botID, b_chat = fst key, b_thread = snd key, b_workspace = [], b_session = [],
                b_session_id = [], b_generation = 0, b_last_used_at = 0, b_running = False, b_interrupted = False\<rparr>, w')
      | (r, w') \<Rightarrow> (r, w'))"

definition hand_over :: "nat \<Rightarrow> target \<Rightarrow> int64 \<Rightarrow> input_worker \<Rightarrow> target list \<Rightarrow> target list dispatch" where
  "hand_over capacity key i w blocked s =
     (case tryInput capacity i w of
        None \<Rightarrow> (Inr (key # blocked), s\<lparr>dp_workers := (dp_workers s)(key \<mapsto> w)\<rparr>)
      | Some w' \<Rightarrow> (Inr blocked, s\<lparr>dp_workers := (dp_workers s)(key \<mapsto> w'),
                                  dp_delivered := dp_delivered s @ [i], dp_handed := dp_handed s @ [(key, i)]\<rparr>))"

record dispatch_env =
  dx_config :: Config
  dx_bot :: int64
  dx_decode :: update_decoder
  dx_notice :: string
  dx_now :: int64

text \<open>The conversation an input is for, when it is to be handed to a worker.\<close>

definition route :: "dispatch_env \<Rightarrow> string \<Rightarrow> target option" where
  "route e raw =
     (case dx_decode e raw of
        None \<Rightarrow> None
      | Some u \<Rightarrow>
          (case admissible (dx_config e) u of
             None \<Rightarrow> None
           | Some m \<Rightarrow> if supportedConversation (Some m) then Some (ms_chat m, ms_thread m) else None))"

definition dispatch_input :: "dispatch_env \<Rightarrow> Input \<Rightarrow> target list \<Rightarrow> target list dispatch" where
  "dispatch_input e inp blocked s =
     (let i = input_id inp;
          ignore = and_next (in_store (Mark (dx_now e) i InboxIgnored)) (\<lambda>_. return blocked)
      in if i \<in> set (dp_delivered s) then (Inr blocked, s)
      else case dx_decode e (input_raw inp) of
        None \<Rightarrow> ignore s
      | Some u \<Rightarrow>
          (case admissible (dx_config e) u of
             None \<Rightarrow> ignore s
           | Some m \<Rightarrow>
               if \<not> supportedConversation (Some m)
               then and_next (in_store (Enqueue (dx_now e) (ms_chat m) 0 (dx_notice e)))
                      (\<lambda>_. and_next (in_store (Mark (dx_now e) i InboxDone)) (\<lambda>_. return blocked)) s
               else (let key = (ms_chat m, ms_thread m) in
                 if key \<in> set blocked then (Inr blocked, s)
                 else (case dp_workers s key of
                     Some w \<Rightarrow>
                       if iw_exit w then (Inr (key # blocked), s)
                       else hand_over (input_capacity (dx_config e)) key i w blocked s
                   | None \<Rightarrow>
                       and_next (in_store (bindingForWorker (dx_bot e) key))
                         (\<lambda>_. hand_over (input_capacity (dx_config e)) key i fresh_worker blocked) s))))"

primrec dispatch_inputs :: "dispatch_env \<Rightarrow> Input list \<Rightarrow> target list \<Rightarrow> unit dispatch" where
  "dispatch_inputs e [] blocked = return ()"
| "dispatch_inputs e (i # is) blocked = and_next (dispatch_input e i blocked) (dispatch_inputs e is)"

definition dispatch_round :: "dispatch_env \<Rightarrow> unit dispatch" where
  "dispatch_round e =
     and_next forget_settled (\<lambda>_. and_next begin_cycle (\<lambda>_. and_next read_batch (\<lambda>inputs. dispatch_inputs e inputs [])))"

text \<open>An exited worker leaves the table.\<close>

definition removeExitedWorker :: "target \<Rightarrow> dispatcher \<Rightarrow> dispatcher" where
  "removeExitedWorker key s = s\<lparr>dp_workers := (dp_workers s)(key := None)\<rparr>"

section \<open>Prompts that wait at a restart\<close>

definition deferredPrompt :: "message \<Rightarrow> string \<Rightarrow> bool" where
  "deferredPrompt m botUsername =
     (if ms_photo m \<or> ms_document m then True
      else let text = trim_space (ms_text m)
        in if \<not> has_prefix text ''/'' then True
           else case parseSlashInvocation text botUsername of
             (command, _, foreign) \<Rightarrow>
               if foreign then False
               else command = ''/review'' \<or> command = ''/followup'' \<or> \<not> knownBridgeCommand command)"

definition waiting_prompt :: "update_decoder \<Rightarrow> string \<Rightarrow> Input \<Rightarrow> bool" where
  "waiting_prompt decode botUsername inp =
     (case decode (input_raw inp) of
        None \<Rightarrow> False
      | Some u \<Rightarrow> (case up_message u of None \<Rightarrow> False | Some m \<Rightarrow> deferredPrompt m botUsername))"

primrec cancel_inputs :: "update_decoder \<Rightarrow> string \<Rightarrow> int64 \<Rightarrow> Input list \<Rightarrow> unit store" where
  "cancel_inputs decode botUsername now [] = give ()"
| "cancel_inputs decode botUsername now (i # is) =
     (if waiting_prompt decode botUsername i
      then bind (Mark now (input_id i) InboxCancelled) (\<lambda>_. cancel_inputs decode botUsername now is)
      else cancel_inputs decode botUsername now is)"

text \<open>The loop returns after at most one round per 256 pending inputs; the fuel bounds the rounds.\<close>

fun cancel_rounds :: "nat \<Rightarrow> update_decoder \<Rightarrow> string \<Rightarrow> int64 \<Rightarrow> int64 \<Rightarrow> int64 \<Rightarrow> unit store" where
  "cancel_rounds 0 decode botUsername now cursor throughID = throw Diverged"
| "cancel_rounds (Suc fuel) decode botUsername now cursor throughID =
     bind (PendingAfter cursor throughID pendingInputBatchSize) (\<lambda>pending.
     if pending = [] then give ()
     else bind (cancel_inputs decode botUsername now pending) (\<lambda>_.
       cancel_rounds fuel decode botUsername now (input_id (last pending)) throughID))"

definition cancelPendingPrompts :: "update_decoder \<Rightarrow> string \<Rightarrow> int64 \<Rightarrow> unit store" where
  "cancelPendingPrompts decode botUsername now =
     bind Offset (\<lambda>offset.
     with_db (\<lambda>d. cancel_rounds (Suc (length (inbox d))) decode botUsername now (-1) (wrap64 (offset - 1))))"

end
