(* ===== verification/IngestProps.thy ===== *)
theory IngestProps
  imports BridgeIngest InboxProps DeliverySystem
begin

text \<open>
  Inputs reach their worker once and in order: the polling loop, the dispatch loop and the other users of
  the store as one system, with the position of the dispatcher between two of its database calls as part
  of the state.
\<close>

section \<open>Store operations that add no pending input\<close>

definition offset_of :: "database \<Rightarrow> int64" where
  "offset_of d = (case meta d ''offset'' of None \<Rightarrow> 0 | Some v \<Rightarrow> v)"

definition pending_in :: "int64 \<Rightarrow> database \<Rightarrow> bool" where
  "pending_in i d \<longleftrightarrow> (\<exists>r \<in> set (inbox d). in_id r = i \<and> in_state r = InboxPending)"

definition no_new_input :: "database \<Rightarrow> database \<Rightarrow> bool" where
  "no_new_input d d' \<longleftrightarrow> (\<forall>i. pending_in i d' \<longrightarrow> pending_in i d) \<and> meta d' ''offset'' = meta d ''offset''"

interpretation still: evolution_frame anything no_new_input "{TInbox, TMeta}"
proof unfold_locales
  show "no_new_input d d" for d by (simp add: no_new_input_def)
  show "no_new_input d d''" if "no_new_input d d'" "no_new_input d' d''" for d d' d''
    using that by (simp add: no_new_input_def)
  show "evolving anything no_new_input d d'" if "only (- {TInbox, TMeta}) d d'" for d d'
    using that by (simp add: only_iff evolving_def anything_def no_new_input_def pending_in_def)
qed

abbreviation adds_no_input :: "'a store \<Rightarrow> bool" where
  "adds_no_input m \<equiv> follows (evolving anything no_new_input) m"

lemma input_unchanged:
  "inbox d' = inbox d \<Longrightarrow> meta d' ''offset'' = meta d ''offset'' \<Longrightarrow> evolving anything no_new_input d d'"
  by (simp add: evolving_def anything_def no_new_input_def pending_in_def)

lemma input_update:
  assumes "\<And>r. in_id (f r) = in_id r" "\<And>r. p r \<Longrightarrow> in_state (f r) = InboxPending \<Longrightarrow> in_state r = InboxPending"
  shows "evolving anything no_new_input d (snd (update_inbox p f d))"
  using assms
  by (fastforce simp: evolving_def anything_def no_new_input_def pending_in_def update_inbox_def set_update_rows)

lemma CheckBot_still: "adds_no_input (CheckBot iid)"
  unfolding CheckBot_def by (intro still.rel.follows_rules) (auto intro: input_unchanged)

lemma mark_still:
  "adds_no_input (Mark now iid state)" "adds_no_input (FinishSubmitted now iid state)"
  "adds_no_input (Submit now iid replyTo)" "adds_no_input (CancelPendingFollowupInbox now iid)"
  "adds_no_input (SettleRejectedFinalAction now iid)"
  unfolding Mark_def FinishSubmitted_def Submit_def CancelPendingFollowupInbox_def SettleRejectedFinalAction_def
  by ((intro still.rel.follows_rules input_update; cases state; auto)+)

lemma fail_submitted_still: "evolving anything no_new_input d (fail_submitted now iid d)"
  unfolding fail_submitted_def by (rule input_update) auto

lemma migration_still:
  "adds_no_input (UpdateMigration now m phase)" "adds_no_input (FailMigration now mid kind)"
  "adds_no_input (publishMigration now m target notice recovery)"
  unfolding UpdateMigration_def apply_update_def FailMigration_def publishMigration_def
  by (intro still.rel.follows_rules fail_submitted_still input_update;
      auto simp: write_migration_def archive_binding_def table_updates insert_outbox_def intro: input_unchanged)+

lemma settlement_still:
  "state \<in> {InboxDone, InboxUncertain, InboxCancelled} \<Longrightarrow>
   adds_no_input (completeInboxWithReplies codec now iid chat thread state replies targetID header he actions)"
  "adds_no_input (ReleaseFinalAction now iid)"
  unfolding completeInboxWithReplies_def registerFinalActions_def Let_def ReleaseFinalAction_def
  by (intro still.rel.follows_rules input_update;
      auto simp: insert_outbox_def update_outbox_def update_final_actions_def intro: input_unchanged)+

lemma consume_still: "adds_no_input (consumeFinalAction codec iid)"
  by (rule still.outside [OF consume_footprint]) simp

lemma settle_still: "evolving anything no_new_input d (settle_interrupted now d)"
  by (intro still.rel.settle_interrupted_follows; unfold settle_defs;
      (rule input_update | rule input_unchanged); auto simp: update_outbox_def)

lemma recover_still: "adds_no_input (recover codec decode now)"
  unfolding recover_def backfillProgressChats_def recoverFinalActionReservations_def
  by (intro still.rel.follows_rules consume_still settle_still still.outside [OF binding_footprints(12)] input_update)
    (auto intro: input_unchanged)

lemma cleanup_still: "adds_no_input (cleanupInboxBatch cutoff)"
proof (rule follows_success)
  fix w x w' assume "cleanupInboxBatch cutoff w = (Inr x, w')"
  then have "db w' = (db w)\<lparr>inbox := delete_rows (\<lambda>r. in_id r \<in> set (inbox_batch cutoff (db w))) (inbox (db w))\<rparr>"
    by (auto simp: cleanupInboxBatch_def sql_ok Let_def)
  then show "evolving anything no_new_input (db w) (db w')"
    by (auto simp: evolving_def anything_def no_new_input_def pending_in_def set_delete_rows)
qed (simp_all add: cleanupInboxBatch_def still.evolving_refl)

text \<open>Only the poller adds inputs.\<close>

inductive accept_op :: "unit store \<Rightarrow> bool" where
  accepts: "accept_op (discard (Accept now iid raw))"
| accepts_ignored: "accept_op (discard (AcceptIgnored now iid))"

lemma other_op_still: "store_op codec decode m \<Longrightarrow> accept_op m \<or> adds_no_input m"
proof (induction rule: store_op.induct)
  case (op_Accept now iid raw)
  show ?case by (intro disjI1 accepts)
next
  case (op_AcceptIgnored now iid)
  show ?case by (intro disjI1 accepts_ignored)
next
  case (op_completeInboxWithReplies state now iid chat thread replies targetID header he actions)
  then show ?case by (intro disjI2 still.drop_result settlement_still(1))
qed (rule disjI2, rule still.drop_result,
    (rule CheckBot_still mark_still migration_still settlement_still(2) recover_still cleanup_still
     | rule still.outside, rule footprints, simp))+

lemma still_step: "adds_no_input m \<Longrightarrow> m w = (r, w') \<Longrightarrow> no_new_input (db w) (db w')"
  by (auto dest!: followsD simp: evolving_def anything_def)

section \<open>The system\<close>

text \<open>Where the dispatch loop is: before the cleaning of \<open>delivered\<close>, before the begin of a cycle, before
  the read of a batch, or in a batch with the inputs it went past, those ahead, and the blocked
  conversations.\<close>

datatype stage = Cleaning | Cycling | Reading | Walking "Input list" "Input list" "target list"

record ingest =
  ig_disp :: dispatcher
  ig_stage :: stage

definition the_db :: "ingest \<Rightarrow> database" where
  "the_db s = db (dp_world (ig_disp s))"

text \<open>Telegram returns updates from the requested offset on, and the poller accepts them in their order.\<close>

definition offered :: "database \<Rightarrow> update \<Rightarrow> bool" where
  "offered d u \<longleftrightarrow> offset_of d \<le> up_id u \<and> up_id u < max_int64"

inductive ingest_step :: "dispatch_env \<Rightarrow> update_encoder \<Rightarrow> action_codec \<Rightarrow> chat_decoder \<Rightarrow> ingest \<Rightarrow> ingest \<Rightarrow> bool"
  for e encode codec decode where
  clean: "ig_stage s = Cleaning \<Longrightarrow> forget_settled (ig_disp s) = (Inr u, d) \<Longrightarrow>
    ingest_step e encode codec decode s \<lparr>ig_disp = d, ig_stage = Cycling\<rparr>"
| cycle: "ig_stage s = Cycling \<Longrightarrow> begin_cycle (ig_disp s) = (Inr u, d) \<Longrightarrow>
    ingest_step e encode codec decode s \<lparr>ig_disp = d, ig_stage = Reading\<rparr>"
| read: "ig_stage s = Reading \<Longrightarrow> read_batch (ig_disp s) = (Inr inputs, d) \<Longrightarrow>
    ingest_step e encode codec decode s \<lparr>ig_disp = d, ig_stage = Walking [] inputs []\<rparr>"
| walk: "ig_stage s = Walking past (i # ahead) blocked \<Longrightarrow> dispatch_input e i blocked (ig_disp s) = (Inr blocked', d) \<Longrightarrow>
    ingest_step e encode codec decode s \<lparr>ig_disp = d, ig_stage = Walking (past @ [i]) ahead blocked'\<rparr>"
| again: "ig_stage s = Walking past [] blocked \<Longrightarrow>
    ingest_step e encode codec decode s (s\<lparr>ig_stage := Cleaning\<rparr>)"
| receive: "dp_workers (ig_disp s) key = Some w \<Longrightarrow> iw_queue w = i # queue \<Longrightarrow>
    ingest_step e encode codec decode s
      (s\<lparr>ig_disp := (ig_disp s)\<lparr>dp_workers := (dp_workers (ig_disp s))(key \<mapsto> w\<lparr>iw_queue := queue\<rparr>)\<rparr>\<rparr>)"
| exit_request: "dp_workers (ig_disp s) key = Some w \<Longrightarrow>
    ingest_step e encode codec decode s
      (s\<lparr>ig_disp := (ig_disp s)\<lparr>dp_workers := (dp_workers (ig_disp s))(key \<mapsto> w\<lparr>iw_exit := True\<rparr>)\<rparr>\<rparr>)"
| removal: "ig_stage s = Cleaning \<Longrightarrow>
    ingest_step e encode codec decode s (s\<lparr>ig_disp := removeExitedWorker key (ig_disp s)\<rparr>)"
| poll: "offered (the_db s) u \<Longrightarrow> db w = the_db s \<Longrightarrow> poll_update (dx_config e) encode now u w = (r, w') \<Longrightarrow>
    ingest_step e encode codec decode s (s\<lparr>ig_disp := (ig_disp s)\<lparr>dp_world := w'\<rparr>\<rparr>)"
| other: "store_op codec decode m \<Longrightarrow> \<not> accept_op m \<Longrightarrow> db w = the_db s \<Longrightarrow> m w = (r, w') \<Longrightarrow>
    ingest_step e encode codec decode s (s\<lparr>ig_disp := (ig_disp s)\<lparr>dp_world := w'\<rparr>\<rparr>)"

definition ingest_start :: "action_codec \<Rightarrow> chat_decoder \<Rightarrow> ingest \<Rightarrow> bool" where
  "ingest_start codec decode s \<longleftrightarrow> reachable codec decode (the_db s) \<and> 0 \<le> offset_of (the_db s)
     \<and> offset_of (the_db s) \<le> max_int64 \<and> ig_stage s = Cleaning
     \<and> dp_delivered (ig_disp s) = [] \<and> \<not> dp_active (ig_disp s) \<and> dp_handed (ig_disp s) = []
     \<and> (\<forall>key w. dp_workers (ig_disp s) key = Some w \<longrightarrow> iw_queue w = [])"

inductive ingest_reachable :: "dispatch_env \<Rightarrow> update_encoder \<Rightarrow> action_codec \<Rightarrow> chat_decoder \<Rightarrow> ingest \<Rightarrow> bool"
  for e encode codec decode where
  begun: "ingest_start codec decode s \<Longrightarrow> ingest_reachable e encode codec decode s"
| stepped: "ingest_reachable e encode codec decode s \<Longrightarrow> ingest_step e encode codec decode s s' \<Longrightarrow>
    ingest_reachable e encode codec decode s'"

section \<open>The invariant\<close>

definition handed_ids :: "dispatcher \<Rightarrow> int64 list" where
  "handed_ids d = map snd (dp_handed d)"

lemma handed_ids_same [simp]:
  "handed_ids (d\<lparr>dp_world := w\<rparr>) = handed_ids d" "handed_ids (d\<lparr>dp_workers := ws\<rparr>) = handed_ids d"
  "handed_ids (d\<lparr>dp_delivered := ds\<rparr>) = handed_ids d" "handed_ids (d\<lparr>dp_cursor := c\<rparr>) = handed_ids d"
  "handed_ids (d\<lparr>dp_high := h\<rparr>) = handed_ids d" "handed_ids (d\<lparr>dp_active := a\<rparr>) = handed_ids d"
  by (simp_all add: handed_ids_def)

lemma handed_ids_more [simp]: "handed_ids (d\<lparr>dp_handed := dp_handed d @ [(key, i)]\<rparr>) = handed_ids d @ [i]"
  by (simp add: handed_ids_def)

fun stage_ok :: "dispatch_env \<Rightarrow> dispatcher \<Rightarrow> stage \<Rightarrow> bool" where
  "stage_ok e d Cleaning \<longleftrightarrow> True"
| "stage_ok e d Cycling \<longleftrightarrow> True"
| "stage_ok e d Reading \<longleftrightarrow> dp_active d"
| "stage_ok e d (Walking past ahead blocked) \<longleftrightarrow>
     distinct (map input_id ahead)
     \<and> (\<forall>i \<in> set ahead. input_id i < offset_of (db (dp_world d))
          \<and> (input_id i \<in> set (handed_ids d) \<longrightarrow> input_id i \<in> set (dp_delivered d)))
     \<and> (\<forall>i \<in> set past. \<forall>key. route e (input_raw i) = Some key \<longrightarrow>
          input_id i \<in> set (dp_delivered d) \<or> key \<in> set blocked)"

definition dispatcher_ok :: "action_codec \<Rightarrow> chat_decoder \<Rightarrow> dispatcher \<Rightarrow> bool" where
  "dispatcher_ok codec decode d \<longleftrightarrow>
     reachable codec decode (db (dp_world d))
     \<and> 0 \<le> offset_of (db (dp_world d)) \<and> offset_of (db (dp_world d)) \<le> max_int64
     \<and> distinct (handed_ids d)
     \<and> (\<forall>i \<in> set (handed_ids d). i < offset_of (db (dp_world d))
          \<and> (i \<in> set (dp_delivered d) \<or> \<not> pending_in i (db (dp_world d))))
     \<and> (dp_active d \<longrightarrow> dp_high d < offset_of (db (dp_world d)))"

definition ingest_ok :: "dispatch_env \<Rightarrow> action_codec \<Rightarrow> chat_decoder \<Rightarrow> ingest \<Rightarrow> bool" where
  "ingest_ok e codec decode s \<longleftrightarrow> dispatcher_ok codec decode (ig_disp s) \<and> stage_ok e (ig_disp s) (ig_stage s)"

text \<open>Steps that change the database only: no input comes back, and new ones lie beyond the offset.\<close>

definition inputs_kept :: "action_codec \<Rightarrow> chat_decoder \<Rightarrow> database \<Rightarrow> database \<Rightarrow> bool" where
  "inputs_kept codec decode d d' \<longleftrightarrow>
     (reachable codec decode d \<longrightarrow> reachable codec decode d')
     \<and> offset_of d \<le> offset_of d' \<and> (0 \<le> offset_of d \<and> offset_of d \<le> max_int64 \<longrightarrow> offset_of d' \<le> max_int64)
     \<and> (\<forall>i. pending_in i d' \<longrightarrow> pending_in i d \<or> offset_of d \<le> i)"

lemma kept_refl [simp]: "inputs_kept codec decode d d"
  by (simp add: inputs_kept_def)

lemma dispatcher_kept:
  assumes "dispatcher_ok codec decode d" and "inputs_kept codec decode (db (dp_world d)) (db w)"
  shows "dispatcher_ok codec decode (d\<lparr>dp_world := w\<rparr>)"
  using assms unfolding dispatcher_ok_def inputs_kept_def by fastforce

lemma stage_kept:
  assumes "stage_ok e d st" and "inputs_kept codec decode (db (dp_world d)) (db w)"
  shows "stage_ok e (d\<lparr>dp_world := w\<rparr>) st"
  using assms by (cases st) (fastforce simp: inputs_kept_def)+

lemma still_kept:
  assumes "adds_no_input m" and "store_op codec decode (discard m)" and "m w = (r, w')"
  shows "inputs_kept codec decode (db w) (db w')"
  using still_step [OF assms(1,3)] store_call [OF assms(2,3)]
  by (auto simp: inputs_kept_def no_new_input_def offset_of_def)

lemma step_kept:
  assumes "no_new_input d d'" and "reachable codec decode d \<Longrightarrow> reachable codec decode d'"
  shows "inputs_kept codec decode d d'"
  using assms by (auto simp: inputs_kept_def no_new_input_def offset_of_def)

section \<open>The poller and the other users of the store\<close>

lemma accept_kept:
  assumes "Accept now i raw w = (r, w') \<or> AcceptIgnored now i w = (r, w')" and "offset_of (db w) \<le> i" and "i < max_int64"
    and "0 \<le> offset_of (db w)"
  shows "inputs_kept codec decode (db w) (db w')"
proof -
  have reach: "reachable codec decode (db w) \<Longrightarrow> reachable codec decode (db w')"
    using assms(1) store_call [OF op_Accept] store_call [OF op_AcceptIgnored] by blast
  show ?thesis
  proof (cases r)
    case (Inl err)
    have "atomic (Accept now i raw)" "atomic (AcceptIgnored now i)" by (simp_all add: Accept_def AcceptIgnored_def)
    then have "db w' = db w" using assms(1) Inl by (auto dest: atomicD)
    then show ?thesis by simp
  next
    case (Inr u)
    have wrap: "wrap64 (i + 1) = i + 1" using assms by (intro wrap64_id) (auto simp: in_int64_def max_int64_def)
    have "\<exists>row. db w' = raise_offset (wrap64 (i + 1)) (insert_inbox row (db w)) \<and> in_id row = i"
      using assms(1) Inr by (elim disjE) (rule exI, rule conjI, simp add: Accept_ok AcceptIgnored_ok, simp)+
    then obtain row where row: "in_id row = i" "db w' = raise_offset (wrap64 (i + 1)) (insert_inbox row (db w))" by blast
    show ?thesis
      using reach row wrap assms(2-)
      by (auto simp: inputs_kept_def pending_in_def offset_of_def raise_offset_def insert_inbox_def split: option.splits)
  qed
qed

lemma poll_kept:
  assumes "poll_update cfg encode now u w = (r, w')" and "offered (db w) u" and "0 \<le> offset_of (db w)"
  shows "inputs_kept codec decode (db w) (db w')"
proof (cases "admissible cfg u")
  case None
  then have "AcceptIgnored now (up_id u) w = (r, w')" using assms(1) by (simp add: poll_update_def)
  then show ?thesis using assms(2,3) by (intro accept_kept) (auto simp: offered_def)
next
  case (Some m)
  show ?thesis
  proof (cases "encode u")
    case None
    then show ?thesis using assms(1) Some by (auto simp: poll_update_def throw_def)
  next
    case (Some raw)
    then have "Accept now (up_id u) raw w = (r, w')" using assms(1) \<open>admissible cfg u = Some m\<close> by (simp add: poll_update_def)
    then show ?thesis using assms(2,3) by (intro accept_kept) (auto simp: offered_def)
  qed
qed

lemma other_kept:
  assumes "store_op codec decode m" and "\<not> accept_op m" and "m w = (r, w')"
  shows "inputs_kept codec decode (db w) (db w')"
proof (rule step_kept)
  have "adds_no_input m" using other_op_still assms(1,2) by blast
  then show "no_new_input (db w) (db w')" using assms(3) by (rule still_step)
  show "reachable codec decode (db w')" if "reachable codec decode (db w)"
    using that store_step.call [OF assms(1,3)] by (rule reachable.step)
qed

section \<open>The dispatch loop\<close>

lemma pending_ids_exact:
  "pending_ids_loop ids acc w = (Inr found, w') \<Longrightarrow>
   db w' = db w \<and> found = acc \<union> {i \<in> set ids. pending_in i (db w)}"
proof (induction ids acc arbitrary: w rule: pending_ids_loop.induct)
  case (1 ids acc)
  show ?case
  proof (cases "ids = []")
    case True
    then show ?thesis using 1(2) by (subst (asm) pending_ids_loop.simps) (auto simp: give_def)
  next
    case False
    let ?n = pendingIDQueryBatchSize
    have "bind (query (pending_batch (take ?n ids))) (\<lambda>q. pending_ids_loop (drop ?n ids) (acc \<union> set q)) w = (Inr found, w')"
      using 1(2) unfolding pending_ids_loop.simps [of ids acc] if_not_P [OF False] .
    then obtain q w1 where q: "query (pending_batch (take ?n ids)) w = (Inr q, w1)"
      and rest: "pending_ids_loop (drop ?n ids) (acc \<union> set q) w1 = (Inr found, w')"
      unfolding bind_ok by blast
    have w1: "db w1 = db w" "set q = {i \<in> set (take ?n ids). pending_in i (db w)}"
      using q by (auto simp: query_ok pending_batch_def pending_in_def)
    from 1(1) [OF False rest] w1
    have "db w' = db w" "found = acc \<union> {i \<in> set (take ?n ids) \<union> set (drop ?n ids). pending_in i (db w)}" by auto
    moreover have "set (take ?n ids) \<union> set (drop ?n ids) = set ids" by (metis append_take_drop_id set_append)
    ultimately show ?thesis by simp
  qed
qed

lemma and_next_ok: "and_next m k s = (Inr y, s'') \<longleftrightarrow> (\<exists>x s'. m s = (Inr x, s') \<and> k x s' = (Inr y, s''))"
  by (auto simp: and_next_def split: prod.splits sum.splits)

lemma in_store_ok: "in_store m s = (Inr x, s') \<longleftrightarrow> (\<exists>w. m (dp_world s) = (Inr x, w) \<and> s' = s\<lparr>dp_world := w\<rparr>)"
  by (auto simp: in_store_def split: prod.splits)

lemma clean_ok:
  assumes "dispatcher_ok codec decode d" and "forget_settled d = (Inr u, d')"
  shows "dispatcher_ok codec decode d'"
proof (cases "dp_delivered d = []")
  case False
  with assms(2) obtain found w where p: "PendingIDs (dp_delivered d) (dp_world d) = (Inr found, w)"
    and d': "d' = d\<lparr>dp_world := w, dp_delivered := filter (\<lambda>i. i \<in> found) (dp_delivered d)\<rparr>"
    by (auto simp: forget_settled_def and_next_ok in_store_ok)
  from pending_ids_exact [of "dp_delivered d" "{}"] p
  have "db w = db (dp_world d)" "found = {i \<in> set (dp_delivered d). pending_in i (db (dp_world d))}"
    by (auto simp: PendingIDs_def)
  with assms(1) d' show ?thesis by (auto simp: dispatcher_ok_def)
qed (use assms in \<open>auto simp: forget_settled_def\<close>)

lemma Offset_run:
  assumes "Offset w = (Inr off, w')" shows "off = offset_of (db w) \<and> db w' = db w"
  using assms by (auto simp: Offset_def on_no_rows_ok query_row_ok query_row_no_rows give_ok offset_of_def split: option.splits)

lemma cycle_ok:
  assumes "dispatcher_ok codec decode d" and "begin_cycle d = (Inr u, d')"
  shows "dispatcher_ok codec decode d' \<and> dp_active d'"
proof (cases "dp_active d")
  case False
  with assms(2) obtain off w where o': "Offset (dp_world d) = (Inr off, w)"
    and d': "d' = d\<lparr>dp_world := w, dp_cursor := -1, dp_high := wrap64 (off - 1), dp_active := True\<rparr>"
    by (auto simp: begin_cycle_def and_next_ok in_store_ok)
  have "wrap64 (off - 1) = off - 1"
    using assms(1) Offset_run [OF o'] by (intro wrap64_id) (auto simp: dispatcher_ok_def in_int64_def max_int64_def)
  with assms(1) d' Offset_run [OF o'] show ?thesis by (auto simp: dispatcher_ok_def)
qed (use assms in \<open>auto simp: begin_cycle_def\<close>)

lemma distinct_select_by: "keys_unique key rows \<Longrightarrow> distinct (map key (select_by key p rows))"
  by (auto simp: select_by_def keys_unique_def distinct_map inj_on_def)

lemma read_ok:
  assumes ok: "dispatcher_ok codec decode d" and active: "dp_active d" and r: "read_batch d = (Inr inputs, d')"
  shows "dispatcher_ok codec decode d' \<and> stage_ok e d' (Walking [] inputs [])"
proof -
  obtain w where p: "PendingAfter (dp_cursor d) (dp_high d) pendingInputBatchSize (dp_world d) = (Inr inputs, w)"
    and d': "dp_world d' = w" "dp_delivered d' = dp_delivered d" "handed_ids d' = handed_ids d" "dp_high d' = dp_high d \<or> \<not> dp_active d'"
    using r by (auto simp: read_batch_def and_next_ok in_store_ok Let_def handed_ids_def)
  define rows where "rows = take (nat pendingInputBatchSize) (select_by in_id
      (\<lambda>r. in_state r = InboxPending \<and> dp_cursor d < in_id r \<and> in_id r \<le> dp_high d) (inbox (db (dp_world d))))"
  have same: "db w = db (dp_world d)" and inputs: "inputs = map (\<lambda>r. \<lparr>input_id = in_id r, input_raw = in_raw r\<rparr>) rows"
    using p by (auto simp: PendingAfter_def query_ok rows_def pendingInputBatchSize_def)
  have "keys_unique in_id (inbox (db (dp_world d)))"
    using ok inbox_life.holds unfolding dispatcher_ok_def inbox_ok_def by blast
  then have "distinct (map in_id (select_by in_id
      (\<lambda>r. in_state r = InboxPending \<and> dp_cursor d < in_id r \<and> in_id r \<le> dp_high d) (inbox (db (dp_world d)))))"
    by (rule distinct_select_by)
  then have "distinct (map in_id rows)" unfolding rows_def take_map [symmetric] by (rule distinct_take)
  then have dist: "distinct (map input_id inputs)" by (simp add: inputs comp_def)
  have pend: "pending_in (input_id i) (db (dp_world d)) \<and> input_id i \<le> dp_high d" if "i \<in> set inputs" for i
    using that by (auto simp: inputs rows_def pending_in_def set_select_by dest!: in_set_takeD)
  have "dispatcher_ok codec decode d'"
    using d'(4) ok active by (elim disjE) (simp_all add: dispatcher_ok_def d'(1-3) same)
  moreover have "input_id i < offset_of (db w) \<and> (input_id i \<in> set (handed_ids d) \<longrightarrow> input_id i \<in> set (dp_delivered d))"
    if "i \<in> set inputs" for i
  proof -
    have "dp_high d < offset_of (db w)" using ok active same by (simp add: dispatcher_ok_def)
    moreover have "input_id i \<in> set (dp_delivered d) \<or> \<not> pending_in (input_id i) (db w)" if "input_id i \<in> set (handed_ids d)"
      using ok that same by (simp add: dispatcher_ok_def)
    ultimately show ?thesis using pend [OF that] same by auto
  qed
  ultimately show ?thesis using dist d' by simp
qed

text \<open>One input of a batch.\<close>

lemma hand_over_ok:
  assumes ok: "dispatcher_ok codec decode d" and h: "hand_over c key i w blocked d = (Inr blocked', d')"
    and "i < offset_of (db (dp_world d))" and "i \<notin> set (handed_ids d)"
  shows "dispatcher_ok codec decode d' \<and> dp_world d' = dp_world d \<and> set (dp_delivered d) \<subseteq> set (dp_delivered d')
    \<and> set (handed_ids d') \<subseteq> insert i (set (handed_ids d)) \<and> set blocked \<subseteq> set blocked'
    \<and> (i \<in> set (dp_delivered d') \<or> key \<in> set blocked')"
proof (cases "tryInput c i w")
  case None
  then show ?thesis using h ok by (auto simp: hand_over_def dispatcher_ok_def)
next
  case (Some w')
  then have "blocked' = blocked" "d' = d\<lparr>dp_workers := (dp_workers d)(key \<mapsto> w'), dp_delivered := dp_delivered d @ [i],
      dp_handed := dp_handed d @ [(key, i)]\<rparr>" using h by (auto simp: hand_over_def)
  then have "handed_ids d' = handed_ids d @ [i]" "dp_world d' = dp_world d" "dp_delivered d' = dp_delivered d @ [i]"
    "dp_active d' = dp_active d" "dp_high d' = dp_high d" by (simp_all add: handed_ids_def)
  then show ?thesis using ok assms(3,4) \<open>blocked' = blocked\<close> by (auto simp: dispatcher_ok_def)
qed

definition goes_on :: "action_codec \<Rightarrow> chat_decoder \<Rightarrow> dispatcher \<Rightarrow> target list \<Rightarrow> int64 \<Rightarrow> dispatcher \<Rightarrow> target list \<Rightarrow> bool" where
  "goes_on codec decode d blocked i d' blocked' \<longleftrightarrow>
     dispatcher_ok codec decode d' \<and> offset_of (db (dp_world d)) \<le> offset_of (db (dp_world d'))
     \<and> set (dp_delivered d) \<subseteq> set (dp_delivered d')
     \<and> (\<forall>j \<in> set (handed_ids d'). j \<in> set (handed_ids d) \<or> j = i)
     \<and> set blocked \<subseteq> set blocked'"

lemma goes_on_same: "dispatcher_ok codec decode d \<Longrightarrow> goes_on codec decode d blocked i d blocked"
  by (simp add: goes_on_def)

lemma store_goes_on:
  assumes "dispatcher_ok codec decode d" and "m (dp_world d) = (r, w)" and "adds_no_input m" and "store_op codec decode (discard m)"
  shows "goes_on codec decode d blocked i (d\<lparr>dp_world := w\<rparr>) blocked"
proof -
  have k: "inputs_kept codec decode (db (dp_world d)) (db w)" using assms(3,4,2) by (rule still_kept)
  then have "dispatcher_ok codec decode (d\<lparr>dp_world := w\<rparr>)" using assms(1) by (intro dispatcher_kept)
  with k show ?thesis by (simp add: goes_on_def inputs_kept_def)
qed

lemma goes_on_trans:
  "goes_on codec decode d b i d' b' \<Longrightarrow> goes_on codec decode d' b' i d'' b'' \<Longrightarrow> goes_on codec decode d b i d'' b''"
  unfolding goes_on_def by (meson order_trans)

lemma Enqueue_still: "adds_no_input (Enqueue now chat thread body)"
  by (rule still.outside, rule footprints, simp)

lemma bindingForWorker_run: "bindingForWorker botID key w = (r, w') \<Longrightarrow> db w' = db w"
  using read_onlyD [OF read_only_query_row]
  by (auto simp: bindingForWorker_def Binding_def split: prod.splits sum.splits store_error.splits)

lemma store_and_next:
  assumes "and_next (in_store m) k d = (Inr x, d')"
  obtains y w where "m (dp_world d) = (Inr y, w)" and "k y (d\<lparr>dp_world := w\<rparr>) = (Inr x, d')"
  using assms by (auto simp: and_next_ok in_store_ok)

text \<open>Either the input is left alone, or it is settled here, or it goes to its worker.\<close>

lemma dispatch_cases:
  assumes "dispatch_input e inp blocked d = (Inr blocked', d')"
  obtains (skip) "d' = d" "blocked' = blocked"
      "input_id inp \<in> set (dp_delivered d) \<or> (\<exists>key. route e (input_raw inp) = Some key \<and> key \<in> set blocked)"
  | (ignore) r w where "Mark (dx_now e) (input_id inp) InboxIgnored (dp_world d) = (r, w)" "d' = d\<lparr>dp_world := w\<rparr>"
      "blocked' = blocked" "route e (input_raw inp) = None"
  | (unsupported) r w r' w' chat where "Enqueue (dx_now e) chat 0 (dx_notice e) (dp_world d) = (r, w)"
      "Mark (dx_now e) (input_id inp) InboxDone w = (r', w')" "d' = d\<lparr>dp_world := w'\<rparr>" "blocked' = blocked"
      "route e (input_raw inp) = None"
  | (stopping) key where "route e (input_raw inp) = Some key" "d' = d" "blocked' = key # blocked"
  | (hand) key w wd where "route e (input_raw inp) = Some key" "input_id inp \<notin> set (dp_delivered d)" "key \<notin> set blocked"
      "hand_over (input_capacity (dx_config e)) key (input_id inp) w blocked (d\<lparr>dp_world := wd\<rparr>) = (Inr blocked', d')"
      "db wd = db (dp_world d)"
proof (cases "input_id inp \<in> set (dp_delivered d)")
  case True
  with assms show ?thesis by (intro skip) (auto simp: dispatch_input_def)
next
  case fresh: False
  show ?thesis
  proof (cases "dx_decode e (input_raw inp)")
    case None
    with assms fresh show ?thesis
      by (auto simp: dispatch_input_def route_def return_def elim!: store_and_next intro: ignore)
  next
    case (Some u)
    show ?thesis
    proof (cases "admissible (dx_config e) u")
      case None
      with assms fresh Some show ?thesis
        by (auto simp: dispatch_input_def route_def return_def elim!: store_and_next intro: ignore)
    next
      case (Some m)
      let ?key = "(ms_chat m, ms_thread m)"
      show ?thesis
      proof (cases "supportedConversation (Some m)")
        case False
        with assms fresh \<open>dx_decode e (input_raw inp) = Some u\<close> Some show ?thesis
          by (auto simp: dispatch_input_def route_def return_def elim!: store_and_next intro: unsupported)
      next
        case True
        have key: "route e (input_raw inp) = Some ?key"
          using True Some \<open>dx_decode e (input_raw inp) = Some u\<close> by (simp add: route_def)
        show ?thesis
        proof (cases "?key \<in> set blocked")
          case True
          with assms fresh key \<open>supportedConversation (Some m)\<close> \<open>dx_decode e (input_raw inp) = Some u\<close> Some show ?thesis
            by (intro skip) (auto simp: dispatch_input_def)
        next
          case False
          note facts = fresh key False \<open>supportedConversation (Some m)\<close> \<open>dx_decode e (input_raw inp) = Some u\<close> Some
          show ?thesis
          proof (cases "dp_workers d ?key")
            case None
            with assms facts have "and_next (in_store (bindingForWorker (dx_bot e) ?key))
                (\<lambda>_. hand_over (input_capacity (dx_config e)) ?key (input_id inp) fresh_worker blocked) d = (Inr blocked', d')"
              by (simp add: dispatch_input_def Let_def)
            then obtain y wd where "bindingForWorker (dx_bot e) ?key (dp_world d) = (Inr y, wd)"
              and h: "hand_over (input_capacity (dx_config e)) ?key (input_id inp) fresh_worker blocked (d\<lparr>dp_world := wd\<rparr>)
                = (Inr blocked', d')" by (rule store_and_next)
            then have "db wd = db (dp_world d)" using bindingForWorker_run by blast
            with key fresh False h show ?thesis by (rule hand)
          next
            case (Some w)
            with assms facts show ?thesis
              by (cases "iw_exit w") (auto simp: dispatch_input_def intro: stopping hand [where wd = "dp_world d"])
          qed
        qed
      qed
    qed
  qed
qed

lemma dispatch_ok:
  assumes ok: "dispatcher_ok codec decode d" and run: "dispatch_input e inp blocked d = (Inr blocked', d')"
    and below: "input_id inp < offset_of (db (dp_world d))"
    and known: "input_id inp \<in> set (handed_ids d) \<Longrightarrow> input_id inp \<in> set (dp_delivered d)"
  shows "goes_on codec decode d blocked (input_id inp) d' blocked'
    \<and> (\<forall>key. route e (input_raw inp) = Some key \<longrightarrow> input_id inp \<in> set (dp_delivered d') \<or> key \<in> set blocked')"
  using run
proof (cases rule: dispatch_cases)
  case skip
  then show ?thesis using ok by (auto simp: goes_on_same)
next
  case (ignore r w)
  have "goes_on codec decode d blocked (input_id inp) d' blocked"
    unfolding ignore(2) by (rule store_goes_on [OF ok ignore(1) mark_still(1) op_Mark])
  with ignore show ?thesis by simp
next
  case (unsupported r w r' w' chat)
  have first: "goes_on codec decode d blocked (input_id inp) (d\<lparr>dp_world := w\<rparr>) blocked"
    by (rule store_goes_on [OF ok unsupported(1) Enqueue_still op_Enqueue])
  have "goes_on codec decode (d\<lparr>dp_world := w\<rparr>) blocked (input_id inp) ((d\<lparr>dp_world := w\<rparr>)\<lparr>dp_world := w'\<rparr>) blocked"
    by (rule store_goes_on [OF _ _ mark_still(1) op_Mark]) (use first unsupported(2) in \<open>auto simp: goes_on_def\<close>)
  from goes_on_trans [OF first this] unsupported show ?thesis by simp
next
  case (stopping key)
  with ok show ?thesis by (auto simp: goes_on_def)
next
  case (hand key w wd)
  have "inputs_kept codec decode (db (dp_world d)) (db wd)" using hand(5) by simp
  with ok have ok': "dispatcher_ok codec decode (d\<lparr>dp_world := wd\<rparr>)" by (rule dispatcher_kept)
  have "input_id inp \<notin> set (handed_ids d)" using known hand(2) by blast
  with hand_over_ok [OF ok' hand(4)] below hand(1,5) show ?thesis by (auto simp: goes_on_def)
qed

lemma ingest_step_ok:
  assumes "ingest_ok e codec decode s" and "ingest_step e encode codec decode s s'"
  shows "ingest_ok e codec decode s'"
  using assms(2,1)
proof (cases rule: ingest_step.cases)
  case (clean u d)
  with assms(1) show ?thesis by (auto simp: ingest_ok_def intro: clean_ok)
next
  case (cycle u d)
  with assms(1) show ?thesis by (auto simp: ingest_ok_def dest: cycle_ok)
next
  case (read inputs d)
  with assms(1) show ?thesis using read_ok [of codec decode "ig_disp s" inputs d e] by (auto simp: ingest_ok_def)
next
  case (walk past i ahead blocked blocked' d)
  have ok: "dispatcher_ok codec decode (ig_disp s)" and st: "stage_ok e (ig_disp s) (Walking past (i # ahead) blocked)"
    using assms(1) walk by (auto simp: ingest_ok_def)
  have g: "goes_on codec decode (ig_disp s) blocked (input_id i) d blocked'"
    "\<forall>key. route e (input_raw i) = Some key \<longrightarrow> input_id i \<in> set (dp_delivered d) \<or> key \<in> set blocked'"
    using dispatch_ok [OF ok walk(3)] st by auto
  have "stage_ok e d (Walking (past @ [i]) ahead blocked')"
    using st g unfolding goes_on_def by (fastforce simp: image_iff)
  then show ?thesis using g walk(1) by (simp add: ingest_ok_def goes_on_def)
next
  case (again past blocked)
  with assms(1) show ?thesis by (auto simp: ingest_ok_def)
next
  case (receive key w i queue)
  with assms(1) show ?thesis by (cases "ig_stage s") (auto simp: ingest_ok_def dispatcher_ok_def)
next
  case (exit_request key w)
  with assms(1) show ?thesis by (cases "ig_stage s") (auto simp: ingest_ok_def dispatcher_ok_def)
next
  case (removal key)
  with assms(1) show ?thesis by (auto simp: ingest_ok_def dispatcher_ok_def removeExitedWorker_def)
next
  case (poll u w now r w')
  have "inputs_kept codec decode (the_db s) (db w')"
    using poll_kept [OF poll(4), of codec decode] poll assms(1) by (auto simp: ingest_ok_def dispatcher_ok_def the_db_def)
  with assms(1) poll(1) show ?thesis by (auto simp: ingest_ok_def the_db_def intro: dispatcher_kept stage_kept)
next
  case (other m w r w')
  have "inputs_kept codec decode (the_db s) (db w')"
    using other_kept [OF other(2,3,5)] other(4) by simp
  with assms(1) other(1) show ?thesis by (auto simp: ingest_ok_def the_db_def intro: dispatcher_kept stage_kept)
qed

lemma ingest_reachable_ok: "ingest_reachable e encode codec decode s \<Longrightarrow> ingest_ok e codec decode s"
proof (induction rule: ingest_reachable.induct)
  case (begun s)
  then show ?case by (simp add: ingest_start_def ingest_ok_def dispatcher_ok_def handed_ids_def the_db_def)
qed (rule ingest_step_ok)

section \<open>Once and in order\<close>

text \<open>C2: While the daemon runs, no input is handed to a worker twice: however the dispatch loop, the
  poller, the workers and every other user of the store interleave and whichever store calls fail, each
  stored update reaches a worker's channel at most once.\<close>

theorem handed_once:
  assumes "ingest_reachable e encode codec decode s"
  shows "distinct (map snd (dp_handed (ig_disp s)))"
  using ingest_reachable_ok [OF assms] by (simp add: ingest_ok_def dispatcher_ok_def handed_ids_def)

text \<open>C3: Within a batch no input overtakes an earlier one of its conversation: when the loop hands an
  input to a worker, every input of the same conversation that it went past in this batch has been
  handed over before.\<close>

theorem batch_in_order:
  assumes "ingest_reachable e encode codec decode s" and "ig_stage s = Walking past (i # ahead) blocked"
    and "dispatch_input e i blocked (ig_disp s) = (Inr blocked', d)" and "dp_handed d \<noteq> dp_handed (ig_disp s)"
  shows "\<exists>key. dp_handed d = dp_handed (ig_disp s) @ [(key, input_id i)] \<and> route e (input_raw i) = Some key \<and>
    (\<forall>j \<in> set past. route e (input_raw j) = Some key \<longrightarrow> input_id j \<in> set (dp_delivered (ig_disp s)))"
  using assms(3)
proof (cases rule: dispatch_cases)
  case (hand key w wd)
  have "tryInput (input_capacity (dx_config e)) (input_id i) w \<noteq> None"
  proof
    assume "tryInput (input_capacity (dx_config e)) (input_id i) w = None"
    then have "dp_handed d = dp_handed (ig_disp s)" using hand(4) by (auto simp: hand_over_def)
    with assms(4) show False ..
  qed
  then have "dp_handed d = dp_handed (ig_disp s) @ [(key, input_id i)]" using hand(4) by (auto simp: hand_over_def)
  moreover have "stage_ok e (ig_disp s) (Walking past (i # ahead) blocked)"
    using ingest_reachable_ok [OF assms(1)] assms(2) by (simp add: ingest_ok_def)
  ultimately show ?thesis using hand(1,3) unfolding stage_ok.simps by blast
qed (use assms(4) in auto)

section \<open>Between batches\<close>

text \<open>The blocked conversations are forgotten between two batches while the cursor stays behind the last
  batch. An input that found its worker's channel closed or full is passed over until the next cycle, and
  a later input of the same conversation in the next batch is handed over before it.\<close>

definition backlog_row :: "nat \<Rightarrow> inbox_row" where
  "backlog_row n = \<lparr>in_id = int n, in_raw = ''u'', in_state = InboxPending, in_reply_to = 0, in_created_at = 0, in_updated_at = 0\<rparr>"

primrec backlog :: "nat \<Rightarrow> database" where
  "backlog 0 = empty_database"
| "backlog (Suc n) = after (Accept 0 (int n) ''u'') (backlog n)"

lemma backlog_reachable: "reachable codec decode (backlog n)"
  by (induction n) (auto intro: reachable.fresh reachable_after op_Accept)

lemma backlog_eq:
  "n \<le> 1000 \<Longrightarrow> inbox (backlog n) = map backlog_row [0..<n]
   \<and> meta (backlog n) ''offset'' = (if n = 0 then None else Some (int n))"
proof (induction n)
  case (Suc n)
  have w: "wrap64 (int n + 1) = int n + 1" using Suc.prems by (intro wrap64_id) (auto simp: in_int64_def max_int64_def)
  have fresh: "\<not> exists_row (\<lambda>r. in_id r = int n) (inbox (backlog n))"
    using Suc by (auto simp: exists_row_iff backlog_row_def)
  show ?case using Suc w fresh
    by (auto simp: after_def Accept_def sql_run insert_inbox_def raise_offset_def backlog_row_def)
qed (simp add: empty_database_def)

definition sample_config :: Config where
  "sample_config = \<lparr>Token = ''t'', AllowedUsers = [7], AllowedChats = [5], WorkspaceRoot = ''/w'', OMPPath = ''/omp'',
     OMPArgs = [], OMPArgsLabels = [], OMPArgsFingerprint = [], OMPEnvironment = empty_environment, DataDir = ''/d'',
     MaxWorkers = 2, QueueCapacity = 16, DatabaseRetentionDays = 0, ProgressMode = [], ProgressRecentTools = 0,
     StatusBar = \<lparr>Progress = None, Intermediate = None, Final = None, GitCommand = [], GitTimeout = 0\<rparr>,
     FinalActions = [], UnknownFields = [], IdleTimeout = 0, LogLevel = [], LogFormat = [], LogComponentLevels = []\<rparr>"

definition sample_message :: message where
  "sample_message = \<lparr>ms_chat = 5, ms_chat_type = ''private'', ms_thread = 0, ms_from = Some 7,
     ms_text = ''hi'', ms_photo = False, ms_document = False\<rparr>"

definition sample_update :: update where
  "sample_update = \<lparr>up_id = 0, up_message = Some sample_message, up_callback = None\<rparr>"

definition sample_dispatch :: dispatch_env where
  "sample_dispatch = \<lparr>dx_config = sample_config, dx_bot = 1, dx_decode = (\<lambda>_. Some sample_update), dx_notice = ''n'', dx_now = 0\<rparr>"

definition batch :: nat where "batch = nat pendingInputBatchSize"

lemma batch_simps: "int batch = pendingInputBatchSize" "0 < batch" "batch < 1000"
  by (simp_all add: batch_def pendingInputBatchSize_def)

lemma sample_routes:
  "admissible (dx_config sample_dispatch) sample_update = Some sample_message"
  "dx_decode sample_dispatch raw = Some sample_update"
  "supportedConversation (Some sample_message)" "ms_chat sample_message = 5" "ms_thread sample_message = 0"
  by (simp_all add: sample_dispatch_def sample_update_def sample_message_def admissible_def updateSender_def Authorized_def
    contains_iff sample_config_def supportedConversation_def)

lemma sample_route: "route sample_dispatch raw = Some (5, 0)"
  by (simp add: route_def sample_routes)

definition backlogged :: database where "backlogged = backlog (Suc batch)"

lemma backlogged_reachable: "reachable codec decode backlogged"
  unfolding backlogged_def by (rule backlog_reachable)

lemma backlogged_eq: "inbox backlogged = map backlog_row [0..<Suc batch]" "meta backlogged ''offset'' = Some (int batch + 1)"
  unfolding backlogged_def using backlog_eq [of "Suc batch"] batch_simps(3) by auto

definition backlog_input :: "nat \<Rightarrow> Input" where
  "backlog_input n = \<lparr>input_id = int n, input_raw = ''u''\<rparr>"

lemma select_backlog: "select_by in_id p (map backlog_row [0..<n]) = filter p (map backlog_row [0..<n])"
proof -
  have "sorted (map in_id (filter p (map backlog_row [0..<n])))"
    by (intro sorted_filter) (simp add: comp_def backlog_row_def sorted_iff_nth_mono)
  then show ?thesis unfolding select_by_def by (rule sort_key_id_if_sorted)
qed

lemma pages_run:
  "PendingAfter (-1) (int batch) pendingInputBatchSize (healthy backlogged)
    = (Inr (map backlog_input [0..<batch]), healthy backlogged)"
  "PendingAfter (int batch - 1) (int batch) pendingInputBatchSize (healthy backlogged)
    = (Inr [backlog_input batch], healthy backlogged)"
proof -
  have all: "filter (\<lambda>r. in_state r = InboxPending \<and> - 1 < in_id r \<and> in_id r \<le> int batch) (map backlog_row [0..<Suc batch])
      = map backlog_row [0..<Suc batch]"
    by (subst filter_id_conv) (auto simp: backlog_row_def)
  have last: "filter (\<lambda>r. in_state r = InboxPending \<and> int batch - 1 < in_id r \<and> in_id r \<le> int batch) (map backlog_row [0..<Suc batch])
      = [backlog_row batch]"
    by (auto simp: backlog_row_def filter_empty_conv)
  have positive: "\<not> pendingInputBatchSize \<le> 0" by (simp add: pendingInputBatchSize_def)
  show "PendingAfter (-1) (int batch) pendingInputBatchSize (healthy backlogged)
    = (Inr (map backlog_input [0..<batch]), healthy backlogged)"
    unfolding PendingAfter_def
    by (simp only: positive if_False query_healthy backlogged_eq(1) select_backlog all batch_def [symmetric])
      (simp add: backlog_input_def backlog_row_def)
  show "PendingAfter (int batch - 1) (int batch) pendingInputBatchSize (healthy backlogged)
    = (Inr [backlog_input batch], healthy backlogged)"
    unfolding PendingAfter_def
    by (simp only: positive if_False query_healthy backlogged_eq(1) select_backlog last batch_def [symmetric])
      (use batch_simps(2) in \<open>simp add: backlog_input_def backlog_row_def\<close>)
qed

text \<open>The conversation's worker is about to exit when the backlog is read: the first batch is passed over
  as a whole. The worker leaves, and the first input of the second batch starts a new one.\<close>

definition waiting_dispatcher :: dispatcher where
  "waiting_dispatcher = \<lparr>dp_world = healthy backlogged, dp_delivered = [], dp_cursor = -1, dp_high = 0,
     dp_active = False, dp_workers = [(5, 0) \<mapsto> fresh_worker], dp_handed = []\<rparr>"

definition leaving_dispatcher :: dispatcher where
  "leaving_dispatcher = waiting_dispatcher\<lparr>dp_workers := [(5, 0) \<mapsto> fresh_worker\<lparr>iw_exit := True\<rparr>], dp_cursor := int batch - 1,
     dp_high := int batch, dp_active := True\<rparr>"

abbreviation overtaking :: "ingest \<Rightarrow> bool" where
  "overtaking s \<equiv> ingest_reachable sample_dispatch (\<lambda>_. None) sample_codec sample_decoder s"

lemma offset_run: "Offset (healthy backlogged) = (Inr (int batch + 1), healthy backlogged)"
  by (simp add: Offset_def sql_run backlogged_eq)

lemma first_batch:
  "overtaking \<lparr>ig_disp = leaving_dispatcher, ig_stage = Walking [] (map backlog_input [0..<batch]) []\<rparr>"
proof -
  let ?d = "waiting_dispatcher\<lparr>dp_workers := [(5, 0) \<mapsto> fresh_worker\<lparr>iw_exit := True\<rparr>]\<rparr>"
  let ?c = "?d\<lparr>dp_high := int batch, dp_active := True\<rparr>"
  have "overtaking \<lparr>ig_disp = waiting_dispatcher, ig_stage = Cleaning\<rparr>"
    by (rule begun)
      (use batch_simps in \<open>simp add: ingest_start_def waiting_dispatcher_def the_db_def backlogged_reachable backlogged_eq offset_of_def
        max_int64_def fresh_worker_def\<close>)
  from stepped [OF this exit_request, of "(5, 0)" fresh_worker]
  have "overtaking \<lparr>ig_disp = ?d, ig_stage = Cleaning\<rparr>" by (simp add: waiting_dispatcher_def)
  from stepped [OF this clean, of "()" ?d] have "overtaking \<lparr>ig_disp = ?d, ig_stage = Cycling\<rparr>"
    by (simp add: forget_settled_def waiting_dispatcher_def)
  from stepped [OF this cycle, of "()" ?c] have "overtaking \<lparr>ig_disp = ?c, ig_stage = Reading\<rparr>"
    using batch_simps wrap64_id [of "int batch"]
    by (simp add: begin_cycle_def and_next_def in_store_def offset_run waiting_dispatcher_def in_int64_def max_int64_def)
  from stepped [OF this read, of "map backlog_input [0..<batch]" leaving_dispatcher] show ?thesis
    using batch_simps(2)
    by (simp add: read_batch_def and_next_def in_store_def pages_run(1) waiting_dispatcher_def leaving_dispatcher_def
        last_map Let_def backlog_input_def)
qed

lemma passed_over:
  assumes "overtaking \<lparr>ig_disp = leaving_dispatcher, ig_stage = Walking past ahead blocked\<rparr>"
  shows "\<exists>past' blocked'. overtaking \<lparr>ig_disp = leaving_dispatcher, ig_stage = Walking past' [] blocked'\<rparr>"
  using assms
proof (induction ahead arbitrary: past blocked)
  case (Cons i ahead)
  have "\<exists>b. dispatch_input sample_dispatch i blocked leaving_dispatcher = (Inr b, leaving_dispatcher)"
    by (simp add: dispatch_input_def sample_routes leaving_dispatcher_def waiting_dispatcher_def Let_def)
  then obtain b where "dispatch_input sample_dispatch i blocked leaving_dispatcher = (Inr b, leaving_dispatcher)" ..
  with stepped [OF Cons.prems walk, of past i ahead blocked b leaving_dispatcher] Cons.IH show ?case by simp
qed blast

lemma binding_run: "\<exists>b. bindingForWorker 1 (5, 0) (healthy backlogged) = (Inr b, healthy backlogged)"
  by (cases "find_binding (1, 5, 0) backlogged") (simp_all add: bindingForWorker_def Binding_def sql_run)

definition second_batch :: dispatcher where
  "second_batch = leaving_dispatcher\<lparr>dp_workers := Map.empty, dp_cursor := int batch, dp_active := False\<rparr>"

definition overtaken :: dispatcher where
  "overtaken = second_batch\<lparr>dp_workers := [(5, 0) \<mapsto> fresh_worker\<lparr>iw_queue := [int batch]\<rparr>], dp_delivered := [int batch],
     dp_handed := [((5, 0), int batch)]\<rparr>"

lemma second_batch_reached:
  "overtaking \<lparr>ig_disp = second_batch, ig_stage = Walking [] [backlog_input batch] []\<rparr>"
proof -
  let ?a = "leaving_dispatcher\<lparr>dp_workers := Map.empty\<rparr>"
  obtain past blocked where "overtaking \<lparr>ig_disp = leaving_dispatcher, ig_stage = Walking past [] blocked\<rparr>"
    using passed_over [OF first_batch] by blast
  from stepped [OF this again] have "overtaking \<lparr>ig_disp = leaving_dispatcher, ig_stage = Cleaning\<rparr>" by simp
  from stepped [OF this removal, of "(5, 0)"] have "overtaking \<lparr>ig_disp = ?a, ig_stage = Cleaning\<rparr>"
    by (simp add: removeExitedWorker_def leaving_dispatcher_def waiting_dispatcher_def)
  from stepped [OF this clean, of "()" ?a] have "overtaking \<lparr>ig_disp = ?a, ig_stage = Cycling\<rparr>"
    by (simp add: forget_settled_def leaving_dispatcher_def waiting_dispatcher_def)
  from stepped [OF this cycle, of "()" ?a] have "overtaking \<lparr>ig_disp = ?a, ig_stage = Reading\<rparr>"
    by (simp add: begin_cycle_def leaving_dispatcher_def)
  from stepped [OF this read, of "[backlog_input batch]" second_batch] show ?thesis
    by (simp add: read_batch_def and_next_def in_store_def pages_run(2) leaving_dispatcher_def waiting_dispatcher_def
        second_batch_def Let_def backlog_input_def)
qed

lemma overtaking_input: "dispatch_input sample_dispatch (backlog_input batch) [] second_batch = (Inr [], overtaken)"
proof -
  obtain b where b: "bindingForWorker 1 (5, 0) (healthy backlogged) = (Inr b, healthy backlogged)" using binding_run by blast
  have capacity: "input_capacity (dx_config sample_dispatch) = 32" "dx_bot sample_dispatch = 1"
    by (simp_all add: input_capacity_def sample_dispatch_def sample_config_def)
  show ?thesis
    by (simp add: dispatch_input_def sample_routes second_batch_def overtaken_def leaving_dispatcher_def
        waiting_dispatcher_def Let_def and_next_def in_store_def b capacity hand_over_def tryInput_def fresh_worker_def
        backlog_input_def)
qed

lemma overtaken_reached: "overtaking \<lparr>ig_disp = overtaken, ig_stage = Walking [backlog_input batch] [] []\<rparr>"
  using stepped [OF second_batch_reached walk, of "[]" "backlog_input batch" "[]" "[]" "[]" overtaken] overtaking_input by simp

lemma overtaken_handed: "dp_handed overtaken = [((5, 0), int batch)]" "dp_handed second_batch = []"
  by (simp_all add: overtaken_def second_batch_def leaving_dispatcher_def waiting_dispatcher_def)

theorem handed_once_witness: "distinct (map snd [((5 :: int64, 0 :: int64), int batch)])"
  using handed_once [OF overtaken_reached] by (simp add: overtaken_handed)

theorem batch_in_order_witness:
  "\<exists>key. dp_handed overtaken = dp_handed second_batch @ [(key, int batch)] \<and> route sample_dispatch ''u'' = Some key"
  using batch_in_order [OF second_batch_reached _ _, of "[]" "backlog_input batch" "[]" "[]" "[]" overtaken] overtaking_input
  by (simp add: overtaken_handed backlog_input_def)

text \<open>C4: Across batches inputs do overtake: there is a run in which a later input of a conversation is
  handed to its worker while an earlier one, for the same conversation and still pending, has not been.\<close>

theorem batches_overtake:
  "\<exists>s. ingest_reachable sample_dispatch (\<lambda>_. None) sample_codec sample_decoder s
     \<and> dp_handed (ig_disp s) = [((5, 0), pendingInputBatchSize)]
     \<and> (\<exists>r \<in> set (inbox (the_db s)). in_id r = 0 \<and> in_state r = InboxPending
          \<and> route sample_dispatch (in_raw r) = Some (5, 0))"
proof -
  have "backlog_row 0 \<in> set (inbox backlogged)" unfolding backlogged_eq set_map by (rule imageI) auto
  then show ?thesis
    by (intro exI [of _ "\<lparr>ig_disp = overtaken, ig_stage = Walking [backlog_input batch] [] []\<rparr>"] conjI
        bexI [of _ "backlog_row 0"] overtaken_reached)
      (simp_all add: batch_simps sample_route backlog_row_def the_db_def overtaken_def second_batch_def
        leaving_dispatcher_def waiting_dispatcher_def)
qed

end
