(* ===== verification/Spec2Isabelle.thy ===== *)
theory Spec2Isabelle
  imports BindingProps RecoveryProps FollowupProps MarkdownConvertProps MarkdownMatchProps MarkdownHtmlProps SplitProps PreviewProps StoreSettings ConfigProps DeliveryProps SessionProps IngestProps
begin

text \<open>
  Verification of \<open>omp-telegram\<close>, a daemon written in Go that lets Telegram conversations drive OMP agents.

  \<^bold>\<open>The program.\<close> A polling loop (\<open>internal/bridge\<close>) stores every update it fetches together with the polling
  offset; a dispatch loop hands the stored inputs to one worker per conversation; a worker runs an OMP child process
  and queues what it has to say in the outbox; two delivery loops claim the queued messages, render them and post them.
  All durable state is one SQLite database (\<open>internal/store\<close>). Texts are Markdown; they are split and converted to
  Telegram's HTML subset by \<open>internal/telegram\<close>, whose client also sends the requests. \<open>internal/config\<close> loads and
  checks the operator's file.

  \<^bold>\<open>The store.\<close> \<open>StoreTypes\<close> has the structs and tables, \<open>SqlMonad\<close> the programs over a transactional database:
  a transaction commits or rolls back as a whole, any driver call may fail, and the outcome of each call is read from an
  argument of the model (the world), so a theorem about a method covers every failure. The other \<open>Store\<close> theories hold
  one definition per method of \<open>store.go\<close>, \<open>followup.go\<close>, \<open>final_actions.go\<close>, \<open>migration.go\<close>, \<open>topic_names.go\<close> and
  \<open>language.go\<close>. \<open>StoreFootprints\<close> shows which tables a method can write. \<open>StoreSteps\<close> makes the store a transition
  system: a step is any writing method with any arguments on any world, or a restart; its locales turn an invariant of
  single methods into a fact about every reachable database, and are interpreted once per component. \<open>InboxProps\<close>,
  \<open>OutboxProps\<close>, \<open>BindingProps\<close>, \<open>ActionProps\<close>, \<open>FollowupProps\<close> and \<open>RecoveryProps\<close> hold the life cycles: what
  can become of a row, which rows exclude each other, what a restart leaves behind.

  \<^bold>\<open>Telegram.\<close> \<open>GoText\<close>, \<open>GoStrings\<close> and \<open>GoStd\<close> model the parts of Go's library the code uses (a Go string is
  a list of bytes). \<open>MarkdownText\<close>, \<open>MarkdownBlocks\<close>, \<open>MarkdownInline\<close>, \<open>MarkdownConvert\<close>, \<open>MarkdownSplit\<close>,
  \<open>MarkdownSpans\<close> and \<open>MarkdownPreview\<close> follow \<open>markdown.go\<close> and \<open>markdown_inline.go\<close>. Loops of the code that are
  not structural are \<open>partial_function (option)\<close>: not returning is the value None. That is no formality:
  \<open>ConvertMarkdown_diverges\<close> exhibits a text on which the converter does not return, and the theorems on splitting and
  previews speak of the runs that return. Shown are the limits of what is sent (of previews for every limit, also below the smallest fence), the
  well-formedness of the markup, that
  splitting loses nothing of a paragraph, and that the shortcuts of the code agree with what they replace.
  \<open>TelegramErrors\<close> and \<open>TelegramClient\<close> model \<open>client.go\<close> and \<open>media.go\<close>; \<open>TelegramProps\<close> shows that one call posts at
  most one message, for a server that tells the truth about a refusal.

  \<^bold>\<open>The bridge.\<close> \<open>BridgeDelivery\<close> is one round of a delivery loop, and \<open>DeliverySystem\<close> runs such rounds, any other
  method of the store and restarts in any interleaving: no queued message is posted twice. \<open>BridgeIngest\<close> and
  \<open>BridgeCommands\<close> are the polling loop, the dispatch loop and the command table; \<open>IngestProps\<close> interleaves them and
  shows that an input reaches a worker once, and how far order is kept (\<open>batch_in_order\<close>, \<open>batches_overtake\<close>).
  \<open>BridgeSessions\<close> has the critical sections on the three tables of claims on OMP sessions, and \<open>SessionProps\<close> shows that
  two conversations never run, migrate or export one session at once; the one use that may stand beside another
  conversation's is a deletion, begun while no worker that remembers the session has a runtime.

  \<^bold>\<open>Configuration.\<close> \<open>Config\<close> and \<open>ConfigLoad\<close> follow \<open>internal/config\<close>, \<open>OmpPolicy\<close> the checks of
  \<open>internal/omp\<close> and \<open>internal/logging\<close> it calls; \<open>ConfigProps\<close> shows what an accepted configuration satisfies.

  \<^bold>\<open>Parameters.\<close> Code outside the repository is an argument of the definitions: the wide punctuation and letters of
  the Unicode tables (\<open>wide_punct\<close>, \<open>wide_letter\<close>), \<open>strings.ToLower\<close> beyond ASCII (\<open>wl\<close>), \<open>filepath.EvalSymlinks\<close>
  (\<open>ev\<close>), the iteration order of a Go map (\<open>visit\<close>), the JSON codecs (\<open>action_codec\<close>, \<open>chat_decoder\<close>,
  \<open>update_encoder\<close>), the TOML decoder, shell lexer and operating system (the record \<open>host\<close>), the network and the server
  (whose honesty about refusals is a named hypothesis). Fuel appears in \<open>cancel_rounds\<close> alone, where each round settles
  at least one input of a finite table. Go's \<open>int64\<close> arithmetic wraps; it is written out where it can.

  \<^bold>\<open>Findings.\<close> \<open>batches_overtake\<close>: an input that a full worker passed over is overtaken by later inputs of its
  conversation in the next batch. \<open>ConvertMarkdown_diverges\<close>: a quote marker behind white space other than blanks and
  tabs makes the converter loop. The manifest names the lines.

  \<^bold>\<open>Not modelled.\<close> The event loop of a worker and the features built on it (callbacks and menus, steering, watchdog,
  autoresearch, the migration actor, export and deletion of sessions, media, doctor) interleave goroutines, timers and
  a child process over one large mutable record; their durable effects are the store methods above, which are modelled
  with arbitrary arguments. The RPC transport and the readers of session files of \<open>internal/omp\<close>, the file handling of
  \<open>internal/media\<close>, the log handlers and the process entry are I/O. The message tables of \<open>internal/i18n\<close> are data.
\<close>

end
